(* ===== verification/LT_Prelude.thy ===== *)
theory LT_Prelude
  imports Main "HOL-Library.Finite_Map" "HOL-Library.Sublist" "HOL-Library.List_Lexorder"
    "HOL-Library.Char_ord"
begin

text \<open>
  The prelude of the development: Rust's \<open>Result\<close> (with a panic as a third outcome),
  state-passing programs that keep the partial effects of a failed call, the parts of
  \<open>str\<close> the sources use (\<open>lines\<close>, \<open>ends_with\<close>, \<open>strip_prefix\<close>, \<open>join\<close>,
  decimal formatting), and the generic facts on lists that the components share.
  A Rust \<open>u8\<close> is a HOL \<open>char\<close> (the type of the 256 eight-bit values), so that a
  \<open>String\<close> is the list of its UTF-8 bytes and \<open>as_bytes\<close> is the identity.
\<close>

section \<open>Results\<close>

datatype ('a, 'e) result = Ok 'a | Err 'e | Panic

fun and_then :: "('a, 'e) result \<Rightarrow> ('a \<Rightarrow> ('b, 'e) result) \<Rightarrow> ('b, 'e) result" where
  "and_then (Ok x) f = f x"
| "and_then (Err e) f = Err e"
| "and_then Panic f = Panic"

fun result_map_err :: "('e \<Rightarrow> 'f) \<Rightarrow> ('a, 'e) result \<Rightarrow> ('a, 'f) result" where
  "result_map_err f (Ok x) = Ok x"
| "result_map_err f (Err e) = Err (f e)"
| "result_map_err f Panic = Panic"

fun result_ok :: "('a, 'e) result \<Rightarrow> 'a option" where
  "result_ok (Ok x) = Some x"
| "result_ok (Err e) = None"
| "result_ok Panic = None"

definition ok_or :: "'a option \<Rightarrow> 'e \<Rightarrow> ('a, 'e) result" where
  "ok_or x e = (case x of None \<Rightarrow> Err e | Some y \<Rightarrow> Ok y)"

lemma ok_or_simps [simp]: "ok_or None e = Err e" "ok_or (Some y) e = Ok y"
  by (simp_all add: ok_or_def)

lemma ok_or_eq_Ok [simp]: "ok_or x e = Ok y \<longleftrightarrow> x = Some y"
  by (cases x) auto

lemma ok_or_not_Panic [simp]: "ok_or x e \<noteq> Panic"
  by (cases x) auto

lemma and_then_eq_Ok:
  "and_then m f = Ok y \<longleftrightarrow> (\<exists>x. m = Ok x \<and> f x = Ok y)"
  by (cases m) auto

lemma and_then_assoc: "and_then (and_then m f) g = and_then m (\<lambda>x. and_then (f x) g)"
  by (cases m) auto

lemma and_then_neq_Panic:
  "and_then m f \<noteq> Panic \<longleftrightarrow> m \<noteq> Panic \<and> (\<forall>x. m = Ok x \<longrightarrow> f x \<noteq> Panic)"
  by (cases m) auto

lemma result_map_err_eq_Ok [simp]: "result_map_err f m = Ok x \<longleftrightarrow> m = Ok x"
  by (cases m) auto

lemma result_map_err_eq_Panic [simp]: "result_map_err f m = Panic \<longleftrightarrow> m = Panic"
  by (cases m) auto

text \<open>\<open>iter().map(f).collect::<Result<Vec<_>>>()\<close>: the first failure stops the collection.\<close>

fun collect_results :: "('a \<Rightarrow> ('b, 'e) result) \<Rightarrow> 'a list \<Rightarrow> ('b list, 'e) result" where
  "collect_results f [] = Ok []"
| "collect_results f (x # xs) =
     and_then (f x) (\<lambda>y. and_then (collect_results f xs) (\<lambda>ys. Ok (y # ys)))"

lemma collect_results_Ok_length:
  "collect_results f xs = Ok ys \<Longrightarrow> length ys = length xs"
  by (induction xs arbitrary: ys) (auto simp: and_then_eq_Ok)

lemma collect_results_all_Ok:
  "(\<And>x. x \<in> set xs \<Longrightarrow> f x = Ok (g x)) \<Longrightarrow> collect_results f xs = Ok (map g xs)"
  by (induction xs) auto

section \<open>State-passing programs\<close>

text \<open>
  A call that writes to the store returns its result together with the store it leaves.
  A \<open>?\<close> that returns early keeps the store as it is at that point: nothing is rolled back.
\<close>

type_synonym ('s, 'a, 'e) prog = "'s \<Rightarrow> ('a, 'e) result \<times> 's"

definition ret :: "'a \<Rightarrow> ('s, 'a, 'e) prog" where
  "ret x = (\<lambda>s. (Ok x, s))"

definition fail :: "'e \<Rightarrow> ('s, 'a, 'e) prog" where
  "fail e = (\<lambda>s. (Err e, s))"

definition query :: "('s \<Rightarrow> ('a, 'e) result) \<Rightarrow> ('s, 'a, 'e) prog" where
  "query f = (\<lambda>s. (f s, s))"

definition lift_result :: "('a, 'e) result \<Rightarrow> ('s, 'a, 'e) prog" where
  "lift_result r = (\<lambda>s. (r, s))"

definition update :: "('s \<Rightarrow> 's) \<Rightarrow> ('s, unit, 'e) prog" where
  "update f = (\<lambda>s. (Ok (), f s))"

definition sbind :: "('s, 'a, 'e) prog \<Rightarrow> ('a \<Rightarrow> ('s, 'b, 'e) prog) \<Rightarrow> ('s, 'b, 'e) prog" where
  "sbind m f = (\<lambda>s. case m s of
     (Ok x, s') \<Rightarrow> f x s'
   | (Err e, s') \<Rightarrow> (Err e, s')
   | (Panic, s') \<Rightarrow> (Panic, s'))"

definition map_err :: "('e \<Rightarrow> 'f) \<Rightarrow> ('s, 'a, 'e) prog \<Rightarrow> ('s, 'a, 'f) prog" where
  "map_err g m = (\<lambda>s. (result_map_err g (fst (m s)), snd (m s)))"

text \<open>\<open>match m \{ Ok(x) => f(x), Err(_) => g \}\<close>\<close>

definition match_err :: "('s, 'a, 'e) prog \<Rightarrow> ('a \<Rightarrow> ('s, 'b, 'f) prog) \<Rightarrow> ('s, 'b, 'f) prog \<Rightarrow>
    ('s, 'b, 'f) prog" where
  "match_err m f g = (\<lambda>s. case m s of
     (Ok x, s') \<Rightarrow> f x s'
   | (Err e, s') \<Rightarrow> g s'
   | (Panic, s') \<Rightarrow> (Panic, s'))"

fun for_each :: "('a \<Rightarrow> ('s, unit, 'e) prog) \<Rightarrow> 'a list \<Rightarrow> ('s, unit, 'e) prog" where
  "for_each f [] = ret ()"
| "for_each f (x # xs) = sbind (f x) (\<lambda>_. for_each f xs)"

named_theorems prog_simps \<open>evaluation of the program combinators at a state\<close>

lemma ret_apply [prog_simps]: "ret x s = (Ok x, s)"
  by (simp add: ret_def)

lemma fail_apply [prog_simps]: "fail e s = (Err e, s)"
  by (simp add: fail_def)

lemma query_apply [prog_simps]: "query f s = (f s, s)"
  by (simp add: query_def)

lemma lift_result_apply [prog_simps]: "lift_result r s = (r, s)"
  by (simp add: lift_result_def)

lemma update_apply [prog_simps]: "update f s = (Ok (), f s)"
  by (simp add: update_def)

lemma map_err_apply [prog_simps]:
  "map_err g m s = (result_map_err g (fst (m s)), snd (m s))"
  by (simp add: map_err_def)

lemma sbind_apply_Ok [prog_simps]: "m s = (Ok x, s') \<Longrightarrow> sbind m f s = f x s'"
  by (simp add: sbind_def)

lemma sbind_apply_Err [prog_simps]: "m s = (Err e, s') \<Longrightarrow> sbind m f s = (Err e, s')"
  by (simp add: sbind_def)

lemma sbind_apply_Panic [prog_simps]: "m s = (Panic, s') \<Longrightarrow> sbind m f s = (Panic, s')"
  by (simp add: sbind_def)

lemma match_err_apply_Ok [prog_simps]: "m s = (Ok x, s') \<Longrightarrow> match_err m f g s = f x s'"
  by (simp add: match_err_def)

lemma match_err_apply_Err [prog_simps]: "m s = (Err e, s') \<Longrightarrow> match_err m f g s = g s'"
  by (simp add: match_err_def)

lemma sbind_now [simp]:
  "sbind (ret x) f = f x" "sbind (lift_result (Ok x)) f = f x"
  by (auto simp: sbind_def ret_def lift_result_def)

lemma sbind_run: "m s = (Ok x, t) \<Longrightarrow> sbind (map_err g m) f s = f x t"
  by (simp add: sbind_def map_err_def)

lemma sbind_query: "h s = Ok x \<Longrightarrow> sbind (query h) f s = f x s"
  by (simp add: sbind_def query_def)

lemma sbind_map_err_query: "h s = Ok x \<Longrightarrow> sbind (map_err g (query h)) f s = f x s"
  by (simp add: sbind_def map_err_def query_def)

lemma sbind_OkE:
  assumes "sbind m f s = (Ok y, t)"
  obtains x s' where "m s = (Ok x, s')" and "f x s' = (Ok y, t)"
  using assms by (auto simp: sbind_def split: prod.splits result.splits)

lemma map_err_OkE:
  assumes "map_err g m s = (Ok y, t)"
  obtains "m s = (Ok y, t)"
  using assms by (cases "m s") (auto simp: map_err_def)

lemma map_err_eq_Ok [simp]: "map_err g m s = (Ok y, t) \<longleftrightarrow> m s = (Ok y, t)"
  by (cases "m s") (auto simp: map_err_def)

lemma query_eq_Ok [simp]: "query f s = (Ok y, t) \<longleftrightarrow> f s = Ok y \<and> t = s"
  by (auto simp: query_def)

lemma ret_eq_Ok [simp]: "ret x s = (Ok y, t) \<longleftrightarrow> y = x \<and> t = s"
  by (auto simp: ret_def)

lemma fail_not_Ok [simp]: "fail e s \<noteq> (Ok y, t)"
  by (simp add: fail_def)

lemma lift_result_eq_Ok [simp]: "lift_result r s = (Ok y, t) \<longleftrightarrow> r = Ok y \<and> t = s"
  by (auto simp: lift_result_def)

subsection \<open>Relations every call respects\<close>

text \<open>
  \<open>stays R m\<close>: whatever \<open>m\<close> returns (a value, an error, a panic), the state before and
  the state after are related by \<open>R\<close>. For a preorder \<open>R\<close> it is compositional, and it covers
  the error paths, which an invariant on successful runs would miss.
\<close>

definition stays :: "('s \<Rightarrow> 's \<Rightarrow> bool) \<Rightarrow> ('s, 'a, 'e) prog \<Rightarrow> bool" where
  "stays R m \<longleftrightarrow> (\<forall>s. R s (snd (m s)))"

locale state_preorder =
  fixes R :: "'s \<Rightarrow> 's \<Rightarrow> bool"
  assumes R_refl: "R s s"
    and R_trans: "R s t \<Longrightarrow> R t u \<Longrightarrow> R s u"
begin

lemma stays_ret: "stays R (ret x)"
  by (simp add: stays_def ret_def R_refl)

lemma stays_fail: "stays R (fail e)"
  by (simp add: stays_def fail_def R_refl)

lemma stays_query: "stays R (query f)"
  by (simp add: stays_def query_def R_refl)

lemma stays_lift_result: "stays R (lift_result r)"
  by (simp add: stays_def lift_result_def R_refl)

lemma stays_map_err: "stays R m \<Longrightarrow> stays R (map_err g m)"
  by (simp add: stays_def map_err_def)

lemma stays_sbind:
  assumes "stays R m" and "\<And>x. stays R (f x)"
  shows "stays R (sbind m f)"
  unfolding stays_def
proof
  fix s
  obtain r s' where ms: "m s = (r, s')" by (cases "m s")
  with assms(1) have "R s s'" by (metis stays_def snd_conv)
  moreover have "R s' (snd (f x s'))" for x using assms(2) by (simp add: stays_def)
  ultimately show "R s (snd (sbind m f s))"
    using ms by (cases r) (auto simp: sbind_def intro: R_trans)
qed

lemma stays_match_err:
  assumes "stays R m" and "\<And>x. stays R (f x)" and "stays R g"
  shows "stays R (match_err m f g)"
  unfolding stays_def
proof
  fix s
  obtain r s' where ms: "m s = (r, s')" by (cases "m s")
  with assms(1) have "R s s'" by (metis stays_def snd_conv)
  moreover have "R s' (snd (f x s'))" and "R s' (snd (g s'))" for x
    using assms(2,3) by (simp_all add: stays_def)
  ultimately show "R s (snd (match_err m f g s))"
    using ms by (cases r) (auto simp: match_err_def intro: R_trans)
qed

lemma stays_if: "stays R m \<Longrightarrow> stays R n \<Longrightarrow> stays R (if b then m else n)"
  by simp

lemma stays_for_each: "(\<And>x. stays R (f x)) \<Longrightarrow> stays R (for_each f xs)"
  by (induction xs) (auto intro: stays_ret stays_sbind)

lemmas stays_intros = stays_ret stays_fail stays_query stays_lift_result stays_map_err
  stays_sbind stays_match_err stays_if stays_for_each

end

section \<open>Strings\<close>

abbreviation newline :: char where
  "newline \<equiv> CHR 0x0A"

abbreviation carriage_return :: char where
  "carriage_return \<equiv> CHR 0x0D"

type_synonym bytes = "char list"

definition ends_with :: "string \<Rightarrow> string \<Rightarrow> bool" where
  "ends_with s t \<longleftrightarrow> suffix t s"

definition starts_with :: "string \<Rightarrow> string \<Rightarrow> bool" where
  "starts_with s t \<longleftrightarrow> prefix t s"

lemma ends_with_single: "ends_with s [c] \<longleftrightarrow> s \<noteq> [] \<and> last s = c"
  by (metis append_butlast_last_id append_is_Nil_conv ends_with_def last_snoc list.distinct(1) suffix_def)

fun strip_prefix :: "string \<Rightarrow> string \<Rightarrow> string option" where
  "strip_prefix s [] = Some s"
| "strip_prefix [] (c # cs) = None"
| "strip_prefix (x # xs) (c # cs) = (if x = c then strip_prefix xs cs else None)"

definition strip_suffix :: "string \<Rightarrow> string \<Rightarrow> string option" where
  "strip_suffix s t = map_option rev (strip_prefix (rev s) (rev t))"

lemma strip_prefix_eq_Some: "strip_prefix s p = Some r \<longleftrightarrow> s = p @ r"
  by (induction s p rule: strip_prefix.induct) auto

lemma strip_prefix_append [simp]: "strip_prefix (p @ r) p = Some r"
  by (simp add: strip_prefix_eq_Some)

lemma strip_suffix_eq_Some: "strip_suffix s t = Some r \<longleftrightarrow> s = r @ t"
proof -
  have "strip_suffix s t = Some r \<longleftrightarrow> rev s = rev t @ rev r"
    by (auto simp: strip_suffix_def strip_prefix_eq_Some)
  also have "\<dots> \<longleftrightarrow> s = r @ t"
    by (metis rev_append rev_rev_ident)
  finally show ?thesis .
qed

text \<open>\<open>str::split_inclusive('\n')\<close> and \<open>str::lines\<close>: a line loses its \<open>\n\<close>, or its
  \<open>\r\n\<close>; a carriage return of an unterminated last line stays.\<close>

fun split_inclusive :: "char \<Rightarrow> string \<Rightarrow> string list" where
  "split_inclusive c [] = []"
| "split_inclusive c (x # xs) =
     (if x = c then [x] # split_inclusive c xs
      else (case split_inclusive c xs of [] \<Rightarrow> [[x]] | l # ls \<Rightarrow> (x # l) # ls))"

definition strip_line_end :: "string \<Rightarrow> string" where
  "strip_line_end l =
     (case strip_suffix l [newline] of
        None \<Rightarrow> l
      | Some l' \<Rightarrow> (case strip_suffix l' [carriage_return] of None \<Rightarrow> l' | Some l'' \<Rightarrow> l''))"

definition str_lines :: "string \<Rightarrow> string list" where
  "str_lines s = map strip_line_end (split_inclusive newline s)"

fun join_with :: "string \<Rightarrow> string list \<Rightarrow> string" where
  "join_with sep [] = []"
| "join_with sep [l] = l"
| "join_with sep (l # m # ls) = l @ sep @ join_with sep (m # ls)"

text \<open>\<open>str::split(c)\<close>: always at least one piece.\<close>

fun split_on :: "char \<Rightarrow> string \<Rightarrow> string list" where
  "split_on c [] = [[]]"
| "split_on c (x # xs) =
     (if x = c then [] # split_on c xs
      else (case split_on c xs of [] \<Rightarrow> [[x]] | l # ls \<Rightarrow> (x # l) # ls))"

text \<open>\<open>trim\<close> on the ASCII white space (space, tab, line feed, vertical tab, form feed,
  carriage return).\<close>

definition is_ascii_space :: "char \<Rightarrow> bool" where
  "is_ascii_space c \<longleftrightarrow> c \<in> set [CHR 0x20, CHR 0x09, CHR 0x0A, CHR 0x0B, CHR 0x0C, CHR 0x0D]"

definition trim_ascii :: "string \<Rightarrow> string" where
  "trim_ascii s = rev (dropWhile is_ascii_space (rev (dropWhile is_ascii_space s)))"

text \<open>\<open>format!("{}", n)\<close> for an unsigned integer.\<close>

fun show_nat :: "nat \<Rightarrow> string" where
  "show_nat n = (if n < 10 then [char_of (48 + n)] else show_nat (n div 10) @ [char_of (48 + n mod 10)])"

declare show_nat.simps [simp del]

definition show_int :: "int \<Rightarrow> string" where
  "show_int i = (if i < 0 then ''-'' @ show_nat (nat (- i)) else show_nat (nat i))"

subsection \<open>Facts on lines\<close>

lemma concat_split_inclusive [simp]: "concat (split_inclusive c s) = s"
  by (induction s) (auto split: list.splits)

lemma split_inclusive_eq_Nil [simp]: "split_inclusive c s = [] \<longleftrightarrow> s = []"
  by (cases s) (auto split: list.splits)

lemma split_inclusive_nonempty: "l \<in> set (split_inclusive c s) \<Longrightarrow> l \<noteq> []"
  by (induction s arbitrary: l) (auto split: list.splits if_splits)

lemma split_inclusive_no_sep: "c \<notin> set s \<Longrightarrow> split_inclusive c s = (if s = [] then [] else [s])"
  by (induction s) auto

lemma split_inclusive_append_sep:
  "c \<notin> set l \<Longrightarrow> split_inclusive c (l @ c # s) = (l @ [c]) # split_inclusive c s"
  by (induction l) auto

lemma strip_line_end_no_newline: "newline \<notin> set l \<Longrightarrow> strip_line_end l = l"
  by (cases "strip_suffix l [newline]")
    (auto simp: strip_line_end_def strip_suffix_eq_Some)

lemma strip_suffix_None_last:
  "c \<notin> set l \<Longrightarrow> strip_suffix l [c] = None"
  by (metis in_set_conv_decomp not_None_eq strip_suffix_eq_Some)

lemma strip_line_end_newline:
  assumes "carriage_return \<notin> set l"
  shows "strip_line_end (l @ [newline]) = l"
proof -
  have "strip_suffix (l @ [newline]) [newline] = Some l"
    by (simp only: strip_suffix_eq_Some)
  moreover have "strip_suffix l [carriage_return] = None"
    using assms by (rule strip_suffix_None_last)
  ultimately show ?thesis by (simp add: strip_line_end_def)
qed

text \<open>A text line: what \<open>str_lines\<close> yields on input without carriage returns.\<close>

definition plain_line :: "string \<Rightarrow> bool" where
  "plain_line l \<longleftrightarrow> newline \<notin> set l \<and> carriage_return \<notin> set l"

lemma str_lines_append_newline:
  "plain_line l \<Longrightarrow> str_lines (l @ newline # s) = l # str_lines s"
  by (simp add: str_lines_def split_inclusive_append_sep strip_line_end_newline plain_line_def)

lemma str_lines_Nil [simp]: "str_lines [] = []"
  by (simp add: str_lines_def)

lemma str_lines_single:
  "plain_line l \<Longrightarrow> str_lines l = (if l = [] then [] else [l])"
  by (auto simp: str_lines_def split_inclusive_no_sep strip_line_end_no_newline plain_line_def)

lemma strip_suffix_single_Cons:
  "c \<noteq> d \<Longrightarrow> strip_suffix (c # l) [d] = map_option (Cons c) (strip_suffix l [d])"
  by (cases "rev l") (auto simp: strip_suffix_def)

lemma strip_line_end_Cons:
  "c \<noteq> newline \<Longrightarrow> c \<noteq> carriage_return \<Longrightarrow> strip_line_end (c # l) = c # strip_line_end l"
  by (auto simp: strip_line_end_def strip_suffix_single_Cons split: option.splits)

lemma str_lines_Cons:
  assumes "c \<noteq> newline" and "c \<noteq> carriage_return"
  shows "str_lines (c # s) = (case str_lines s of [] \<Rightarrow> [[c]] | l # ls \<Rightarrow> (c # l) # ls)"
proof (cases "split_inclusive newline s")
  case Nil
  have "strip_line_end [c] = [c]" using assms by (intro strip_line_end_no_newline) auto
  then show ?thesis using assms Nil by (simp add: str_lines_def)
next
  case (Cons l ls)
  then show ?thesis using assms by (simp add: str_lines_def strip_line_end_Cons)
qed

lemma str_lines_terminated:
  assumes "s \<noteq> []" and "last s \<noteq> newline" and "carriage_return \<notin> set s"
  shows "str_lines (s @ [newline]) = str_lines s"
  using assms
proof (induction s)
  case (Cons c s)
  show ?case
  proof (cases "s = []")
    case True
    with Cons.prems show ?thesis
      using str_lines_append_newline [of "[c]" "[]"] by (auto simp: str_lines_single plain_line_def)
  next
    case False
    then have IH: "str_lines (s @ [newline]) = str_lines s" using Cons by auto
    show ?thesis
    proof (cases "c = newline")
      case True
      then show ?thesis
        using IH str_lines_append_newline [of "[]"] by (simp add: plain_line_def)
    next
      case False
      moreover have "c \<noteq> carriage_return" using Cons.prems by auto
      ultimately show ?thesis using IH by (simp add: str_lines_Cons)
    qed
  qed
qed simp

lemma join_with_Cons:
  "ls \<noteq> [] \<Longrightarrow> join_with sep (l # ls) = l @ sep @ join_with sep ls"
  by (cases ls) auto

lemma join_with_newline_lines:
  assumes "\<And>l. l \<in> set ls \<Longrightarrow> plain_line l" and "ls \<noteq> []"
  shows "str_lines (join_with [newline] ls @ [newline]) = ls"
  using assms
proof (induction ls)
  case (Cons l ls)
  show ?case
  proof (cases "ls = []")
    case True
    with Cons.prems show ?thesis
      using str_lines_append_newline [of l "[]"] by simp
  next
    case False
    with Cons have "str_lines (join_with [newline] ls @ [newline]) = ls" by simp
    with False Cons.prems show ?thesis
      using str_lines_append_newline [of l "join_with [newline] ls @ [newline]"]
      by (simp add: join_with_Cons)
  qed
qed simp

lemma join_with_lines_last:
  assumes "\<And>l. l \<in> set ls \<Longrightarrow> plain_line l" and "ls \<noteq> []" and "last ls \<noteq> []"
  shows "str_lines (join_with [newline] ls) = ls"
  using assms
proof (induction ls)
  case (Cons l ls)
  show ?case
  proof (cases "ls = []")
    case True
    with Cons.prems show ?thesis by (simp add: str_lines_single)
  next
    case False
    with Cons have "str_lines (join_with [newline] ls) = ls" by simp
    with False Cons.prems show ?thesis
      using str_lines_append_newline [of l "join_with [newline] ls"]
      by (simp add: join_with_Cons)
  qed
qed simp

section \<open>Lists\<close>

definition segment :: "'a list \<Rightarrow> nat \<Rightarrow> nat \<Rightarrow> 'a list" where
  "segment xs i j = take (j - i) (drop i xs)"

lemma segment_empty [simp]: "segment xs i i = []"
  by (simp add: segment_def)

lemma length_segment: "j \<le> length xs \<Longrightarrow> length (segment xs i j) = j - i"
  by (simp add: segment_def)

lemma segment_map: "segment (map f xs) i j = map f (segment xs i j)"
  by (simp add: segment_def take_map drop_map)

lemma segment_append_segment:
  assumes "i \<le> j" and "j \<le> k"
  shows "segment xs i j @ segment xs j k = segment xs i k"
proof -
  have "segment xs i k = take (j - i + (k - j)) (drop i xs)" using assms by (simp add: segment_def)
  also have "\<dots> = segment xs i j @ segment xs j k"
    using assms unfolding take_add by (simp add: segment_def add.commute)
  finally show ?thesis by simp
qed

lemma segment_append_drop: "i \<le> j \<Longrightarrow> segment xs i j @ drop j xs = drop i xs"
  by (metis append_take_drop_id drop_drop le_add_diff_inverse2 segment_def)

lemma segment_to_end: "length xs \<le> j \<Longrightarrow> segment xs i j = drop i xs"
  by (simp add: segment_def)

lemma set_segment_subset: "set (segment xs i j) \<subseteq> set xs"
  unfolding segment_def by (meson order_trans set_drop_subset set_take_subset)

lemma sublist_segment: "sublist (segment xs i j) xs"
  unfolding segment_def by (metis sublist_drop sublist_order.order_trans sublist_take)

text \<open>\<open>iter().position(p)\<close>\<close>

fun position :: "('a \<Rightarrow> bool) \<Rightarrow> 'a list \<Rightarrow> nat option" where
  "position p [] = None"
| "position p (x # xs) = (if p x then Some 0 else map_option Suc (position p xs))"

lemma position_None_iff: "position p xs = None \<longleftrightarrow> (\<forall>x \<in> set xs. \<not> p x)"
  by (induction xs) auto

lemma position_SomeD:
  "position p xs = Some i \<Longrightarrow> i < length xs \<and> p (xs ! i) \<and> (\<forall>j < i. \<not> p (xs ! j))"
proof (induction xs arbitrary: i)
  case (Cons x xs)
  then show ?case
    by (auto split: if_splits simp: nth_Cons split: nat.splits)
qed simp

text \<open>\<open>first()\<close> and \<open>last()\<close> of a segment.\<close>

definition list_first :: "'a list \<Rightarrow> 'a option" where
  "list_first xs = (case xs of [] \<Rightarrow> None | x # _ \<Rightarrow> Some x)"

definition list_last :: "'a list \<Rightarrow> 'a option" where
  "list_last xs = (if xs = [] then None else Some (last xs))"

lemma list_first_simps [simp]: "list_first [] = None" "list_first (x # xs) = Some x"
  by (simp_all add: list_first_def)

lemma list_last_simps [simp]: "list_last [] = None" "list_last (xs @ [x]) = Some x"
  by (simp_all add: list_last_def)

lemma find_Some_iff_distinct:
  assumes "distinct (map f xs)" and "x \<in> set xs"
  shows "List.find (\<lambda>y. f y = f x) xs = Some x"
  using assms by (induction xs) (auto simp: rev_image_eqI)

lemma find_append:
  "List.find p (xs @ ys) = (case List.find p xs of None \<Rightarrow> List.find p ys | Some x \<Rightarrow> Some x)"
  by (induction xs) auto

lemma find_map_update:
  assumes "\<And>x. p (f x) = p x"
  shows "List.find p (map f xs) = map_option f (List.find p xs)"
  using assms by (induction xs) auto

end
