(* ===== verification/Errors.thy ===== *)
theory Errors
  imports LT_Prelude
begin

text \<open>
  \<^verbatim>\<open>src/error.rs\<close>: the two error enums, their \<open>Display\<close> texts, the CLI exit codes and the CLI
  rendering. The text of a \<open>rusqlite::Error\<close> is not under \<open>src/\<close>: its rendering is the
  parameter \<open>show_sql\<close>.
\<close>

datatype sql_error =
    QueryReturnedNoRows
  | SqliteFailure string
  | ToSqlConversionFailure string

datatype storage_error =
    SNotFound string
  | ConstraintViolation string
  | SSerialization string
  | Database sql_error
  | Migration string
  | Io string

datatype lt_error =
    Storage storage_error
  | Engine string
  | StateMachine string
  | CheckpointErr string
  | RestoreErr string
  | TransactionErr string
  | Integrity string
  | GitSync string
  | Gc string
  | Cli string "string option"
  | General string
  | Serialization string
  | NotFound string

fun storage_error_display :: "(sql_error \<Rightarrow> string) \<Rightarrow> storage_error \<Rightarrow> string" where
  "storage_error_display show_sql (SNotFound s) = ''Record not found: '' @ s"
| "storage_error_display show_sql (ConstraintViolation s) = ''Binding violation: '' @ s"
| "storage_error_display show_sql (SSerialization s) = ''Serialization error: '' @ s"
| "storage_error_display show_sql (Database e) = ''Database error: '' @ show_sql e"
| "storage_error_display show_sql (Migration s) = ''Migration error: '' @ s"
| "storage_error_display show_sql (Io s) = ''IO error: '' @ s"

fun error_display :: "(sql_error \<Rightarrow> string) \<Rightarrow> lt_error \<Rightarrow> string" where
  "error_display show_sql (Storage e) = ''Storage layer error: '' @ storage_error_display show_sql e"
| "error_display show_sql (Engine s) = ''Engine error: '' @ s"
| "error_display show_sql (StateMachine s) = ''State machine error: '' @ s"
| "error_display show_sql (CheckpointErr s) = ''Checkpoint error: '' @ s"
| "error_display show_sql (RestoreErr s) = ''Restore error: '' @ s"
| "error_display show_sql (TransactionErr s) = ''Transaction error: '' @ s"
| "error_display show_sql (Integrity s) = ''Integrity check failed: '' @ s"
| "error_display show_sql (GitSync s) = ''Git synchronization error: '' @ s"
| "error_display show_sql (Gc s) = ''GC error: '' @ s"
| "error_display show_sql (Cli c sg) = c"
| "error_display show_sql (General s) = s"
| "error_display show_sql (Serialization s) = ''Serialization error: '' @ s"
| "error_display show_sql (NotFound s) = ''Not found: '' @ s"

definition EXIT_SUCCESS :: int where "EXIT_SUCCESS = 0"
definition EXIT_GENERAL_ERROR :: int where "EXIT_GENERAL_ERROR = 1"
definition EXIT_USAGE_ERROR :: int where "EXIT_USAGE_ERROR = 2"

fun exit_code :: "lt_error \<Rightarrow> int" where
  "exit_code (Cli c sg) = EXIT_USAGE_ERROR"
| "exit_code (NotFound s) = EXIT_GENERAL_ERROR"
| "exit_code (TransactionErr s) = EXIT_GENERAL_ERROR"
| "exit_code _ = EXIT_GENERAL_ERROR"

fun format_cli :: "(sql_error \<Rightarrow> string) \<Rightarrow> lt_error \<Rightarrow> string" where
  "format_cli show_sql (Cli c (Some sg)) = ''error: '' @ c @ [newline] @ ''  hint: '' @ sg"
| "format_cli show_sql (Cli c None) = ''error: '' @ c"
| "format_cli show_sql (NotFound entity) =
     ''error: '' @ entity @ '' not found'' @ [newline] @ ''  hint: check that the name or ID is correct''"
| "format_cli show_sql (Storage e) =
     ''error: storage operation failed'' @ [newline] @ ''  detail: '' @ storage_error_display show_sql e
     @ [newline] @ ''  hint: check database integrity and permissions''"
| "format_cli show_sql (Engine e) = ''error: engine operation failed'' @ [newline] @ ''  detail: '' @ e"
| "format_cli show_sql (StateMachine e) =
     ''error: state transition rejected'' @ [newline] @ ''  detail: '' @ e"
| "format_cli show_sql (CheckpointErr e) =
     ''error: checkpoint operation failed'' @ [newline] @ ''  detail: '' @ e"
| "format_cli show_sql (RestoreErr e) = ''error: restore operation failed'' @ [newline] @ ''  detail: '' @ e"
| "format_cli show_sql (TransactionErr e) =
     ''error: transaction operation failed'' @ [newline] @ ''  detail: '' @ e
     @ [newline] @ ''  hint: check for conflicts and retry''"
| "format_cli show_sql (Integrity e) =
     ''error: integrity check failed'' @ [newline] @ ''  detail: '' @ e
     @ [newline] @ ''  hint: data may be corrupted, consider restoring from backup''"
| "format_cli show_sql (GitSync e) = ''error: git sync failed'' @ [newline] @ ''  detail: '' @ e"
| "format_cli show_sql (Gc e) = ''error: garbage collection failed'' @ [newline] @ ''  detail: '' @ e"
| "format_cli show_sql (General e) = ''error: '' @ e"
| "format_cli show_sql (Serialization e) =
     ''error: serialization failed'' @ [newline] @ ''  detail: '' @ e"

definition cli_error :: "string \<Rightarrow> string \<Rightarrow> lt_error" where
  "cli_error c sg = Cli c (Some sg)"

definition cli_simple :: "string \<Rightarrow> lt_error" where
  "cli_simple c = Cli c None"

text \<open>A name between single quotes, in a message.\<close>

definition quoted :: "string \<Rightarrow> string" where
  "quoted s = [CHR 0x27] @ s @ [CHR 0x27]"

text \<open>\<open>map_err(LayertwineError::Storage)\<close>, on queries and on programs.\<close>

abbreviation storage :: "('s, 'a, storage_error) prog \<Rightarrow> ('s, 'a, lt_error) prog" where
  "storage m \<equiv> map_err Storage m"

lemma exit_code_usage_iff: "exit_code e = EXIT_USAGE_ERROR \<longleftrightarrow> (\<exists>c sg. e = Cli c sg)"
  by (cases e) (auto simp: EXIT_USAGE_ERROR_def EXIT_GENERAL_ERROR_def)

lemma exit_code_never_success: "exit_code e \<noteq> EXIT_SUCCESS"
  by (cases e) (auto simp: EXIT_USAGE_ERROR_def EXIT_GENERAL_ERROR_def EXIT_SUCCESS_def)

end
