(* ===== verification/Store_Interface.thy ===== *)
theory Store_Interface
  imports Errors
begin

text \<open>
  The contracts of \<^verbatim>\<open>src/storage/repository.rs\<close>. A store of values found by a key is a
  \<open>keyed_store\<close>. The immutable tables (file nodes, deltas, snapshots, checkpoints) promise a
  \<open>content_store\<close>: what is stored first under a key stays. The mutable ones (metadata, branches,
  layers) promise an \<open>overwrite_store\<close>: what is stored last is read. The SQLite tables
  interpret them in the theories that model them.
\<close>

locale keyed_store =
  fixes put :: "'v \<Rightarrow> ('s, unit, storage_error) prog"
    and get :: "'k \<Rightarrow> 's \<Rightarrow> ('v, storage_error) result"
    and key :: "'v \<Rightarrow> 'k"
    and ok :: "'v \<Rightarrow> bool"
  assumes put_ok: "ok v \<Longrightarrow> fst (put v s) = Ok ()"
    and put_frame: "k \<noteq> key v \<Longrightarrow> get k (snd (put v s)) = get k s"
begin

lemma put_run: "ok v \<Longrightarrow> put v s = (Ok (), snd (put v s))"
  using put_ok by (metis prod.collapse)

lemma put_all_run: "ok v \<Longrightarrow> for_each put (v # vs) s = for_each put vs (snd (put v s))"
  using put_run [of v s] by (simp add: sbind_apply_Ok)

lemma put_all_ok: "list_all ok vs \<Longrightarrow> fst (for_each put vs s) = Ok ()"
  by (induction vs arbitrary: s) (simp add: ret_def, simp add: put_all_run del: for_each.simps)

lemma put_all_Cons:
  "ok v \<Longrightarrow> snd (for_each put (v # vs) s) = snd (for_each put vs (snd (put v s)))"
  by (simp only: put_all_run)

lemma put_all_frame:
  "list_all ok vs \<Longrightarrow> k \<notin> key ` set vs \<Longrightarrow> get k (snd (for_each put vs s)) = get k s"
  by (induction vs arbitrary: s)
    (simp add: ret_def, simp add: put_all_Cons put_frame del: for_each.simps)

end

locale content_store = keyed_store +
  assumes get_put_fresh:
      "ok v \<Longrightarrow> \<not> (\<exists>w. get (key v) s = Ok w) \<Longrightarrow> get (key v) (snd (put v s)) = Ok v"
    and get_put_kept: "get (key v) s = Ok w \<Longrightarrow> get (key v) (snd (put v s)) = Ok w"
begin

lemma get_stable: "get k s = Ok w \<Longrightarrow> get k (snd (put v s)) = Ok w"
  using get_put_kept put_frame by (cases "k = key v") simp_all

lemma get_stable_all: "get k s = Ok w \<Longrightarrow> get k (snd (for_each put vs s)) = Ok w"
proof (induction vs arbitrary: s)
  case (Cons v vs)
  have "get k (snd (put v s)) = Ok w" using Cons.prems by (rule get_stable)
  with Cons.IH [OF this] show ?case
    by (auto simp: sbind_def split: prod.splits result.splits)
qed (simp add: ret_def)

text \<open>Storing a batch makes every value of it readable, unless another value took its key.\<close>

lemma put_all_get:
  assumes "list_all ok vs"
    and "\<And>v w. v \<in> set vs \<Longrightarrow> w \<in> set vs \<Longrightarrow> key v = key w \<Longrightarrow> v = w"
    and "\<And>v w. v \<in> set vs \<Longrightarrow> get (key v) s = Ok w \<Longrightarrow> w = v"
    and "v \<in> set vs"
  shows "get (key v) (snd (for_each put vs s)) = Ok v"
  using assms
proof (induction vs arbitrary: s)
  case (Cons u us)
  have u: "ok u" using Cons.prems(1) by simp
  have now: "get (key u) (snd (put u s)) = Ok u"
    using get_put_fresh [OF u, of s] get_put_kept [of u s u] Cons.prems(3) [of u] by auto
  show ?case
  proof (cases "v = u")
    case True
    with now get_stable_all show ?thesis by (simp add: put_all_Cons [OF u] del: for_each.simps)
  next
    case False
    have "get (key v) (snd (for_each put us (snd (put u s)))) = Ok v"
    proof (rule Cons.IH)
      fix w x assume "w \<in> set us" and *: "get (key w) (snd (put u s)) = Ok x"
      show "x = w"
      proof (cases "key w = key u")
        case True
        with Cons.prems(2) \<open>w \<in> set us\<close> have "w = u" by simp
        with now * show ?thesis by simp
      next
        case False
        with * put_frame Cons.prems(3) \<open>w \<in> set us\<close> show ?thesis by simp
      qed
    qed (use Cons.prems False in auto)
    then show ?thesis by (simp add: put_all_Cons [OF u] del: for_each.simps)
  qed
qed simp

end

locale overwrite_store = keyed_store +
  assumes get_put: "ok v \<Longrightarrow> get (key v) (snd (put v s)) = Ok v"
begin

lemma last_write_wins: "ok v \<Longrightarrow> ok w \<Longrightarrow> key v = key w \<Longrightarrow>
    get (key v) (snd (put w (snd (put v s)))) = Ok w"
  using get_put [of w "snd (put v s)"] by simp

end

text \<open>A partition pointer with its history, as the layers use it: the view \<open>view p\<close> of a partition
  after a call is an operation on the view before it.\<close>

locale pointer_store =
  fixes push :: "'p \<Rightarrow> 'c \<Rightarrow> ('s, unit, storage_error) prog"
    and reset :: "'p \<Rightarrow> ('s, unit, storage_error) prog"
    and view :: "'p \<Rightarrow> 's \<Rightarrow> ('c list) option"
    and good :: "'s \<Rightarrow> bool"
  assumes push_view: "good s \<Longrightarrow> view p s = Some h \<Longrightarrow>
        fst (push p c s) = Ok () \<and> view p (snd (push p c s)) = Some (h @ [c])"
    and push_other: "good s \<Longrightarrow> q \<noteq> p \<Longrightarrow> view q (snd (push p c s)) = view q s"
    and push_good: "good s \<Longrightarrow> good (snd (push p c s))"
    and reset_view: "good s \<Longrightarrow> view p s = Some h \<Longrightarrow>
        fst (reset p s) = Ok () \<and> view p (snd (reset p s)) = Some (take 1 h)"
    and reset_other: "good s \<Longrightarrow> q \<noteq> p \<Longrightarrow> view q (snd (reset p s)) = view q s"
    and reset_good: "good s \<Longrightarrow> good (snd (reset p s))"
    and view_nonempty: "good s \<Longrightarrow> view p s = Some h \<Longrightarrow> h \<noteq> []"
begin

lemma push_run: "good s \<Longrightarrow> view p s = Some h \<Longrightarrow> push p c s = (Ok (), snd (push p c s))"
  using push_view by (metis prod.collapse)

lemma push_all_view:
  assumes "good s" and "view p s = Some h"
  shows "fst (for_each (push p) cs s) = Ok ()
     \<and> view p (snd (for_each (push p) cs s)) = Some (h @ cs) \<and> good (snd (for_each (push p) cs s))"
  using assms
proof (induction cs arbitrary: s h)
  case (Cons c cs)
  have "push p c s = (Ok (), snd (push p c s))" using Cons.prems by (rule push_run)
  then have run: "for_each (push p) (c # cs) s = for_each (push p) cs (snd (push p c s))"
    by (simp add: sbind_apply_Ok)
  show ?case
    using Cons.IH [OF push_good [OF Cons.prems(1)] conjunct2 [OF push_view [OF Cons.prems]], of c]
    unfolding run by simp
qed (simp add: ret_def)

text \<open>Resetting forgets everything pushed since the baseline.\<close>

lemma reset_after_pushes:
  assumes "good s" and "view p s = Some [b]"
  shows "view p (snd (reset p (snd (for_each (push p) cs s)))) = Some [b]"
  using push_all_view [OF assms, of cs] reset_view by fastforce

end

end
