(* ===== verification/Core_Types.thy ===== *)
theory Core_Types
  imports Errors "HOL-Library.Word"
begin

text \<open>
  \<^verbatim>\<open>src/core/types.rs\<close>: identifiers and their hexadecimal form, source patterns, the layer and
  partition types with their database names, and the line-level difference format.
\<close>

section \<open>Identifiers\<close>

datatype agent_instance_id = AgentInstanceId (agent_name: string)

datatype content_id = ContentId (id_bytes: bytes)

type_synonym snapshot_id = content_id
type_synonym delta_id = content_id
type_synonym checkpoint_id = content_id
type_synonym backup_id = content_id
type_synonym uuid = "128 word"
type_synonym u32 = "32 word"

lemma unat_of_nat_u32: "n < 2 ^ 32 \<Longrightarrow> unat (of_nat n :: u32) = n"
  by (simp add: unat_of_nat)

text \<open>\<open>[u8; 32]\<close> is compared bytewise, from the first byte on.\<close>

instantiation content_id :: linorder
begin

definition less_eq_content_id :: "content_id \<Rightarrow> content_id \<Rightarrow> bool" where
  "a \<le> b \<longleftrightarrow> id_bytes a \<le> id_bytes b"

definition less_content_id :: "content_id \<Rightarrow> content_id \<Rightarrow> bool" where
  "a < b \<longleftrightarrow> id_bytes a < id_bytes b"

instance
  by standard
    (auto simp: less_eq_content_id_def less_content_id_def content_id.expand)

end

definition zero_id :: content_id where
  "zero_id = ContentId (replicate 32 (CHR 0x00))"

subsection \<open>Hexadecimal form\<close>

definition hex_digit :: "nat \<Rightarrow> char" where
  "hex_digit n = (if n < 10 then char_of (48 + n) else char_of (87 + n))"

definition hex_encode :: "bytes \<Rightarrow> string" where
  "hex_encode bs =
     concat (map (\<lambda>b. [hex_digit (of_char b div 16), hex_digit (of_char b mod 16)]) bs)"

text \<open>\<open>char::to_digit(16)\<close>, on the bytes of an ASCII digit.\<close>

definition hex_value :: "char \<Rightarrow> nat option" where
  "hex_value c = (let n = of_char c in
     if 48 \<le> n \<and> n \<le> 57 then Some (n - 48)
     else if 97 \<le> n \<and> n \<le> 102 then Some (n - 87)
     else if 65 \<le> n \<and> n \<le> 70 then Some (n - 55)
     else None)"

text \<open>\<open>u8::from_str_radix(s, 16)\<close> on a string of two bytes. The standard library accepts a
  leading plus sign.\<close>

definition u8_from_str_radix16 :: "char \<Rightarrow> char \<Rightarrow> char option" where
  "u8_from_str_radix16 a b =
     (if a = CHR ''+'' then map_option char_of (hex_value b)
      else (case (hex_value a, hex_value b) of
              (Some x, Some y) \<Rightarrow> Some (char_of (16 * x + y))
            | _ \<Rightarrow> None))"

text \<open>\<open>&s[i..i + 2]\<close> panics when an end of the range is inside a UTF-8 sequence, that is, when
  the byte there is a continuation byte.\<close>

definition is_continuation :: "char \<Rightarrow> bool" where
  "is_continuation c \<longleftrightarrow> 128 \<le> (of_char c :: nat) \<and> (of_char c :: nat) < 192"

fun hex_decode_pairs :: "string \<Rightarrow> (bytes option, lt_error) result" where
  "hex_decode_pairs [] = Ok (Some [])"
| "hex_decode_pairs [a] = Ok (Some [])"
| "hex_decode_pairs (a # b # rest) =
     (if is_continuation a \<or> (rest \<noteq> [] \<and> is_continuation (hd rest)) then Panic
      else (case u8_from_str_radix16 a b of
              None \<Rightarrow> Ok None
            | Some v \<Rightarrow> and_then (hex_decode_pairs rest) (\<lambda>r. Ok (map_option (\<lambda>vs. v # vs) r))))"

definition hex_decode :: "string \<Rightarrow> (bytes option, lt_error) result" where
  "hex_decode s = (if length s mod 2 \<noteq> 0 then Ok None else hex_decode_pairs s)"

definition to_hex :: "content_id \<Rightarrow> string" where
  "to_hex i = hex_encode (id_bytes i)"

definition from_hex :: "string \<Rightarrow> (content_id option, lt_error) result" where
  "from_hex s = and_then (hex_decode s) (\<lambda>r. case r of
       None \<Rightarrow> Ok None
     | Some bs \<Rightarrow> (if length bs \<noteq> 32 then Ok None else Ok (Some (ContentId bs))))"

lemma of_char_bound: "(of_char c :: nat) < 256"
  by (rule nat_of_char_less_256)

lemma hex_digit_value: "n < 16 \<Longrightarrow> hex_value (hex_digit n) = Some n"
  by (auto simp: hex_digit_def hex_value_def of_char_of)

lemma hex_digit_ascii: "n < 16 \<Longrightarrow> \<not> is_continuation (hex_digit n)"
  by (auto simp: hex_digit_def is_continuation_def of_char_of)

lemma hex_digit_not_plus: "n < 16 \<Longrightarrow> hex_digit n \<noteq> CHR ''+''"
proof
  assume n: "n < 16" and "hex_digit n = CHR ''+''"
  then have "hex_value (CHR ''+'') = Some n" by (metis hex_digit_value)
  then show False by (simp add: hex_value_def)
qed

lemma hex_byte_roundtrip:
  "u8_from_str_radix16 (hex_digit (of_char b div 16)) (hex_digit (of_char b mod 16)) = Some b"
proof -
  have "(of_char b :: nat) div 16 < 16" using of_char_bound [of b] by linarith
  moreover have "char_of (16 * (of_char b div 16) + of_char b mod 16 :: nat) = b"
    by simp
  ultimately show ?thesis
    by (simp add: u8_from_str_radix16_def hex_digit_not_plus hex_digit_value)
qed

lemma hex_encode_Cons:
  "hex_encode (b # bs) =
     hex_digit (of_char b div 16) # hex_digit (of_char b mod 16) # hex_encode bs"
  by (simp add: hex_encode_def)

lemma hex_decode_pairs_encode: "hex_decode_pairs (hex_encode bs) = Ok (Some bs)"
proof (induction bs)
  case Nil
  show ?case by (simp add: hex_encode_def)
next
  case (Cons b bs)
  have hi: "(of_char c :: nat) div 16 < 16" for c using of_char_bound [of c] by linarith
  have "hex_encode bs = [] \<or> \<not> is_continuation (hd (hex_encode bs))"
    by (cases bs) (auto simp: hex_encode_def hex_digit_ascii hi)
  with Cons.IH show ?case
    by (simp add: hex_encode_Cons hex_digit_ascii hi hex_byte_roundtrip)
qed

lemma length_hex_encode: "length (hex_encode bs) = 2 * length bs"
  by (induction bs) (simp_all add: hex_encode_def)

lemma hex_decode_pairs_length:
  "hex_decode_pairs s = Ok (Some bs) \<Longrightarrow> even (length s) \<Longrightarrow> length s = 2 * length bs"
  by (induction s arbitrary: bs rule: hex_decode_pairs.induct)
    (auto split: if_splits option.splits simp: and_then_eq_Ok)

text \<open>The hexadecimal form of an identifier is read back as that identifier, whatever its 32
  bytes are, and without a panic.\<close>

lemma from_hex_to_hex:
  "length (id_bytes i) = 32 \<Longrightarrow> from_hex (to_hex i) = Ok (Some i)"
  by (simp add: from_hex_def to_hex_def hex_decode_def length_hex_encode hex_decode_pairs_encode)

lemma from_hex_to_hex_witness:
  "from_hex (to_hex (ContentId (map char_of [0..<32]))) = Ok (Some (ContentId (map char_of [0..<32])))"
  by (rule from_hex_to_hex) simp

text \<open>Everything \<open>from_hex\<close> accepts has 64 characters and yields 32 bytes.\<close>

lemma from_hex_shape:
  assumes "from_hex s = Ok (Some i)"
  shows "length s = 64 \<and> length (id_bytes i) = 32"
proof -
  from assms obtain bs where "hex_decode s = Ok (Some bs)" and bs: "length bs = 32" "i = ContentId bs"
    by (cases "hex_decode s") (auto simp: from_hex_def split: option.splits if_splits)
  then have "hex_decode_pairs s = Ok (Some bs)" and "even (length s)"
    by (auto simp: hex_decode_def split: if_splits)
  with hex_decode_pairs_length [OF this] bs show ?thesis by simp
qed

text \<open>The parser is not injective: the sign that \<open>from_str_radix\<close> accepts makes \<open>+f\<close> a byte.\<close>

lemma from_hex_accepts_plus:
  "(from_hex (''+f'' @ replicate 62 (CHR ''0'')) :: (content_id option, lt_error) result)
     = from_hex (''0f'' @ replicate 62 (CHR ''0''))"
  by code_simp

section \<open>Source patterns\<close>

datatype source_type = Manual | Agent agent_instance_id | Backup

definition AGENT_PREFIX :: string where "AGENT_PREFIX = ''agent://''"
definition GRAPH_PREFIX :: string where "GRAPH_PREFIX = ''graph://''"
definition FILE_PREFIX :: string where "FILE_PREFIX = ''file://''"
definition SYSTEM_PREFIX :: string where "SYSTEM_PREFIX = ''system://''"

definition matches_glob :: "string \<Rightarrow> string \<Rightarrow> bool" where
  "matches_glob source pattern =
     (if pattern = source then True
      else if ends_with pattern ''/'' \<and> starts_with source pattern then True
      else (case strip_suffix pattern ''/**'' of
              Some p \<Rightarrow> starts_with source p
            | None \<Rightarrow> (case strip_suffix pattern ''*'' of
                Some p \<Rightarrow> starts_with source p
              | None \<Rightarrow> starts_with source pattern)))"

text \<open>The part of a pattern that decides: what is left without its trailing wildcard.\<close>

definition glob_stem :: "string \<Rightarrow> string" where
  "glob_stem pattern = (case strip_suffix pattern ''/**'' of
       Some p \<Rightarrow> p
     | None \<Rightarrow> (case strip_suffix pattern ''*'' of Some p \<Rightarrow> p | None \<Rightarrow> pattern))"

text \<open>Every pattern is a prefix pattern: the source matches when it starts with the pattern
  stripped of a trailing \<open>/**\<close> or \<open>*\<close>, or equals the pattern itself.\<close>

lemma matches_glob_prefix:
  "matches_glob source pattern \<longleftrightarrow> starts_with source (glob_stem pattern)"
proof -
  have stem: "prefix (glob_stem pattern) pattern"
    by (auto simp: glob_stem_def strip_suffix_eq_Some split: option.splits)
  have "starts_with pattern (glob_stem pattern)"
    using stem by (simp add: starts_with_def)
  moreover have "starts_with source pattern \<Longrightarrow> starts_with source (glob_stem pattern)"
    using stem by (auto simp: starts_with_def intro: prefix_order.trans)
  ultimately show ?thesis
    by (auto simp: matches_glob_def glob_stem_def split: option.splits)
qed

section \<open>Layers and partitions\<close>

datatype layer_type = ManualEdit | AgentEdit | Approval | Integrated | Unified | Staged

fun layer_name :: "layer_type \<Rightarrow> string" where
  "layer_name ManualEdit = ''manual_edit''"
| "layer_name AgentEdit = ''agent_edit''"
| "layer_name Approval = ''approval''"
| "layer_name Integrated = ''integrated''"
| "layer_name Unified = ''unified''"
| "layer_name Staged = ''staged''"

definition layer_from_name :: "string \<Rightarrow> layer_type option" where
  "layer_from_name s =
     (if s = ''manual_edit'' then Some ManualEdit
      else if s = ''agent_edit'' then Some AgentEdit
      else if s = ''approval'' then Some Approval
      else if s = ''integrated'' then Some Integrated
      else if s = ''unified'' then Some Unified
      else if s = ''staged'' then Some Staged
      else None)"

text \<open>The derived \<open>Debug\<close> names, which the error messages print.\<close>

fun layer_debug :: "layer_type \<Rightarrow> string" where
  "layer_debug ManualEdit = ''ManualEdit''"
| "layer_debug AgentEdit = ''AgentEdit''"
| "layer_debug Approval = ''Approval''"
| "layer_debug Integrated = ''Integrated''"
| "layer_debug Unified = ''Unified''"
| "layer_debug Staged = ''Staged''"

datatype partition_type =
    PManual
  | PAgent agent_instance_id
  | PApproval agent_instance_id
  | PIntegrated string
  | PUnified
  | PStaged

fun partition_type_name :: "partition_type \<Rightarrow> string" where
  "partition_type_name PManual = ''manual''"
| "partition_type_name (PAgent i) = ''agent/'' @ agent_name i"
| "partition_type_name (PApproval i) = ''approval/'' @ agent_name i"
| "partition_type_name (PIntegrated n) = ''integrated/'' @ n"
| "partition_type_name PUnified = ''unified''"
| "partition_type_name PStaged = ''staged''"

fun to_layer :: "partition_type \<Rightarrow> layer_type" where
  "to_layer PManual = ManualEdit"
| "to_layer (PAgent i) = AgentEdit"
| "to_layer (PApproval i) = Approval"
| "to_layer (PIntegrated n) = Integrated"
| "to_layer PUnified = Unified"
| "to_layer PStaged = Staged"

definition partition_type_from_name :: "string \<Rightarrow> partition_type option" where
  "partition_type_from_name s =
     (if s = ''manual'' then Some PManual
      else if s = ''unified'' then Some PUnified
      else if s = ''staged'' then Some PStaged
      else (case strip_prefix s ''agent/'' of
              Some rest \<Rightarrow> Some (PAgent (AgentInstanceId rest))
            | None \<Rightarrow> (case strip_prefix s ''approval/'' of
                Some rest \<Rightarrow> Some (PApproval (AgentInstanceId rest))
              | None \<Rightarrow> (case strip_prefix s ''integrated/'' of
                  Some rest \<Rightarrow> Some (PIntegrated rest)
                | None \<Rightarrow> None))))"

lemma layer_name_roundtrip: "layer_from_name (layer_name l) = Some l"
  by (cases l) (simp_all add: layer_from_name_def)

lemma layer_from_name_only: "layer_from_name s = Some l \<Longrightarrow> s = layer_name l"
  by (auto simp: layer_from_name_def split: if_splits)

lemma partition_type_name_roundtrip: "partition_type_from_name (partition_type_name p) = Some p"
  by (cases p) (auto simp: partition_type_from_name_def)

lemma partition_type_from_name_only:
  "partition_type_from_name s = Some p \<Longrightarrow> s = partition_type_name p"
  by (auto simp: partition_type_from_name_def strip_prefix_eq_Some split: if_splits option.splits)

lemma partition_type_name_inject: "partition_type_name p = partition_type_name q \<longleftrightarrow> p = q"
proof
  assume "partition_type_name p = partition_type_name q"
  then have "partition_type_from_name (partition_type_name p)
      = partition_type_from_name (partition_type_name q)"
    by (rule arg_cong)
  then show "p = q" by (simp add: partition_type_name_roundtrip)
qed simp

text \<open>C40: the database names of partitions and layers determine them. A partition type is read
  back from its name, no other string is read as it, and so the names of two partition types
  agree only when the types do; likewise for layers.\<close>

theorem partition_and_layer_names:
  "(partition_type_from_name s = Some p \<longleftrightarrow> s = partition_type_name p)
   \<and> (layer_from_name t = Some l \<longleftrightarrow> t = layer_name l)
   \<and> (partition_type_name p = partition_type_name q \<longleftrightarrow> p = q)"
  by (auto dest: partition_type_from_name_only layer_from_name_only
      simp: partition_type_name_roundtrip layer_name_roundtrip partition_type_name_inject)

section \<open>Line differences\<close>

datatype diff_op =
    Equal u32
  | Delete u32 u32
  | Insert u32 "string list"
  | Replace u32 u32 u32 "string list"

record hunk =
  h_old_start :: u32
  h_old_len :: u32
  h_new_start :: u32
  h_new_len :: u32
  h_ops :: "diff_op list"

record line_diff =
  ld_hunks :: "hunk list"

definition line_diff_new :: "hunk list \<Rightarrow> line_diff" where
  "line_diff_new hs = \<lparr>ld_hunks = hs\<rparr>"

definition line_diff_is_empty :: "line_diff \<Rightarrow> bool" where
  "line_diff_is_empty d \<longleftrightarrow> ld_hunks d = []"

end
