(* ===== verification/Utf8.thy ===== *)
theory Utf8
  imports LT_Prelude
begin

text \<open>
  The two standard-library decoders the sources apply to stored file content:
  \<open>String::from_utf8_lossy\<close>, which replaces each maximal ill-formed part by U+FFFD, and
  \<open>String::from_utf8\<close>, which rejects ill-formed input. Both read one scalar value at a time.
\<close>

definition byte_in :: "char \<Rightarrow> nat \<Rightarrow> nat \<Rightarrow> bool" where
  "byte_in c lo hi \<longleftrightarrow> lo \<le> (of_char c :: nat) \<and> (of_char c :: nat) \<le> hi"

text \<open>The range of the second byte that the first one allows, with the number of
  continuation bytes that follow it.\<close>

definition utf8_lead :: "char \<Rightarrow> (nat \<times> nat \<times> nat) option" where
  "utf8_lead c =
     (if byte_in c 194 223 then Some (128, 191, 0)
      else if byte_in c 224 224 then Some (160, 191, 1)
      else if byte_in c 225 236 \<or> byte_in c 238 239 then Some (128, 191, 1)
      else if byte_in c 237 237 then Some (128, 159, 1)
      else if byte_in c 240 240 then Some (144, 191, 2)
      else if byte_in c 241 243 then Some (128, 191, 2)
      else if byte_in c 244 244 then Some (128, 143, 2)
      else None)"

text \<open>How many continuation bytes, at most \<open>n\<close>, the input starts with.\<close>

fun count_continuations :: "nat \<Rightarrow> bytes \<Rightarrow> nat" where
  "count_continuations 0 cs = 0"
| "count_continuations (Suc n) [] = 0"
| "count_continuations (Suc n) (c # cs) =
     (if byte_in c 128 191 then Suc (count_continuations n cs) else 0)"

text \<open>One step on a non-empty input: whether its first scalar value is well formed, and how
  many bytes the step consumes.\<close>

fun utf8_step :: "bytes \<Rightarrow> bool \<times> nat" where
  "utf8_step [] = (True, 1)"
| "utf8_step (c # cs) =
     (if byte_in c 0 127 then (True, 1)
      else (case utf8_lead c of
              None \<Rightarrow> (False, 1)
            | Some (lo, hi, n) \<Rightarrow>
                (case cs of
                   [] \<Rightarrow> (False, 1)
                 | d # ds \<Rightarrow>
                     (if byte_in d lo hi
                      then (let k = count_continuations n ds in (k = n, Suc (Suc k)))
                      else (False, 1)))))"

lemma utf8_step_pos: "0 < snd (utf8_step s)"
  by (induction s rule: utf8_step.induct) (auto simp: Let_def split: option.splits list.splits)

definition replacement_char :: string where
  "replacement_char = [CHR 0xEF, CHR 0xBF, CHR 0xBD]"

function from_utf8_lossy :: "bytes \<Rightarrow> string" where
  "from_utf8_lossy s =
     (if s = [] then []
      else (if fst (utf8_step s) then take (snd (utf8_step s)) s else replacement_char)
           @ from_utf8_lossy (drop (snd (utf8_step s)) s))"
  by pat_completeness auto
termination
  by (relation "measure length") (auto intro!: diff_less simp: utf8_step_pos)

function utf8_valid :: "bytes \<Rightarrow> bool" where
  "utf8_valid s =
     (if s = [] then True
      else fst (utf8_step s) \<and> utf8_valid (drop (snd (utf8_step s)) s))"
  by pat_completeness auto
termination
  by (relation "measure length") (auto intro!: diff_less simp: utf8_step_pos)

declare from_utf8_lossy.simps [simp del] utf8_valid.simps [simp del]

definition from_utf8 :: "bytes \<Rightarrow> string option" where
  "from_utf8 s = (if utf8_valid s then Some s else None)"

text \<open>The text of the error of \<open>String::from_utf8\<close>: where the valid prefix ends, and how long the
  ill-formed part is unless the input ends inside it.\<close>

function utf8_error_from :: "nat \<Rightarrow> bytes \<Rightarrow> string" where
  "utf8_error_from i s =
     (if s = [] then []
      else if fst (utf8_step s) then utf8_error_from (i + snd (utf8_step s)) (drop (snd (utf8_step s)) s)
      else if utf8_lead (hd s) \<noteq> None \<and> length s \<le> snd (utf8_step s)
        then ''incomplete utf-8 byte sequence from index '' @ show_nat i
      else ''invalid utf-8 sequence of '' @ show_nat (snd (utf8_step s)) @ '' bytes from index '' @ show_nat i)"
  by pat_completeness auto
termination
  by (relation "measure (length \<circ> snd)") (auto intro!: diff_less simp: utf8_step_pos)

declare utf8_error_from.simps [simp del]

definition utf8_error_display :: "bytes \<Rightarrow> string" where
  "utf8_error_display s = utf8_error_from 0 s"

lemma from_utf8_lossy_Nil [simp]: "from_utf8_lossy [] = []"
  by (subst from_utf8_lossy.simps) simp

lemma utf8_valid_Nil [simp]: "utf8_valid []"
  by (subst utf8_valid.simps) simp

text \<open>On a Rust \<open>String\<close>, which is well formed, the lossy decoder changes nothing.\<close>

lemma from_utf8_lossy_valid: "utf8_valid s \<Longrightarrow> from_utf8_lossy s = s"
proof (induction s rule: utf8_valid.induct)
  case (1 s)
  show ?case
  proof (cases "s = []")
    case False
    with "1.prems" have "fst (utf8_step s)" and "utf8_valid (drop (snd (utf8_step s)) s)"
      by (auto simp: utf8_valid.simps [of s])
    with "1.IH" False show ?thesis by (simp add: from_utf8_lossy.simps [of s])
  qed simp
qed

definition ascii :: "bytes \<Rightarrow> bool" where
  "ascii s \<longleftrightarrow> (\<forall>c \<in> set s. (of_char c :: nat) < 128)"

lemma utf8_valid_ascii: "ascii s \<Longrightarrow> utf8_valid s"
proof (induction s)
  case (Cons c s)
  then have "byte_in c 0 127" and "utf8_valid s" by (auto simp: ascii_def byte_in_def)
  then show ?case by (simp add: utf8_valid.simps [of "c # s"])
qed simp

lemma from_utf8_lossy_ascii: "ascii s \<Longrightarrow> from_utf8_lossy s = s"
  by (rule from_utf8_lossy_valid [OF utf8_valid_ascii])

end
