(* ===== verification/External.thy ===== *)
theory External
  imports Core_Types Utf8
begin

text \<open>
  Code the program calls and that is not under \<open>src/\<close>. It is a parameter of the model, the
  record \<open>env\<close>: the blake3 hash, the serde_json and zstd codecs, the line differ of the crate
  \<open>similar\<close>, the UUID constructors, the wall clock and the rendering of a database error.
  A definition that uses one of them takes the record as its argument, so nothing is assumed of
  them here; the clock and the random identifier may be others for every operation (\<open>at_moment\<close>); \<open>diff_contract\<close> of theory \<open>Engine_Diff\<close> states what the differ documents.
  \<^verbatim>\<open>src/core/file_node.rs\<close> is here too, since a delta's serialisation reads a file node.
\<close>

text \<open>The value type of serde_json.\<close>

datatype json =
    JNull
  | JBool bool
  | JNumber string
  | JString string
  | JArray "json list"
  | JObject "(string \<times> json) list"

text \<open>What \<^verbatim>\<open>src/engine/diff.rs\<close> reads of an operation of \<open>similar::TextDiff\<close>: its tag and the
  half-open ranges of old and new tokens it covers, and the tagged values of its changes.\<close>

datatype diff_tag = TagEqual | TagDelete | TagInsert | TagReplace

datatype change_tag = ChangeEqual | ChangeDelete | ChangeInsert

record sim_op =
  op_tag :: diff_tag
  op_old_range :: "nat \<times> nat"
  op_new_range :: "nat \<times> nat"

record file_node =
  file_path :: string
  base_hash :: bytes

text \<open>The places that read the wall clock. Two reads in one operation may give different times when they are
  at different places: a commit reads it for the checkpoint, for the head of the branch in memory and again
  for the row of the branch (\<^verbatim>\<open>checkpoint/types.rs\<close>, \<^verbatim>\<open>checkpoint/branch.rs\<close>, \<^verbatim>\<open>storage/sqlite/\<close>).\<close>

datatype clock_read = DeltaClock | SnapshotClock | CheckpointClock | BranchClock | BackupClock | RowClock

record env =
  env_blake3 :: "bytes \<Rightarrow> bytes"
  env_delta_json :: "file_node \<Rightarrow> line_diff \<Rightarrow> source_type \<Rightarrow> bytes option"
  env_json_to_vec :: "json \<Rightarrow> bytes option"
  env_json_from_slice :: "bytes \<Rightarrow> string + json"
  env_sources_to_json :: "(snapshot_id, string) fmap \<Rightarrow> string + string"
  env_sources_from_json :: "string \<Rightarrow> (snapshot_id, string) fmap option"
  env_zstd_encode :: "bytes \<Rightarrow> string + bytes"
  env_zstd_decode :: "bytes \<Rightarrow> string + bytes"
  env_grouped_ops :: "string \<Rightarrow> string \<Rightarrow> sim_op list list"
  env_iter_changes :: "string \<Rightarrow> string \<Rightarrow> sim_op \<Rightarrow> (change_tag \<times> string) list"
  env_uuid_v5 :: "uuid \<Rightarrow> string \<Rightarrow> uuid"
  env_uuid_v7 :: uuid
  env_now :: "clock_read \<Rightarrow> int"
  env_show_sql :: "sql_error \<Rightarrow> string"

text \<open>The environment of one operation: the libraries are the same for all operations of a process and of the
  next ones, the times and the random identifier are those of the operation.\<close>

definition at_moment :: "env \<Rightarrow> (clock_read \<Rightarrow> int) \<Rightarrow> uuid \<Rightarrow> env" where
  "at_moment E now u = E\<lparr>env_now := now, env_uuid_v7 := u\<rparr>"

section \<open>File nodes\<close>

definition file_node_new :: "env \<Rightarrow> string \<Rightarrow> bytes \<Rightarrow> file_node" where
  "file_node_new E path content = \<lparr>file_path = path, base_hash = env_blake3 E content\<rparr>"

text \<open>A path is modelled by its UTF-8 form, so \<open>to_str().unwrap_or("")\<close> is the path.\<close>

definition path_str :: "file_node \<Rightarrow> string" where
  "path_str f = file_path f"

definition content_id_from_content :: "env \<Rightarrow> bytes \<Rightarrow> content_id" where
  "content_id_from_content E data = ContentId (env_blake3 E data)"

end
