(* ===== verification/Core_Model.thy ===== *)
theory Core_Model
  imports External
begin

text \<open>
  \<^verbatim>\<open>src/core/delta.rs\<close>, \<^verbatim>\<open>layer.rs\<close>, \<^verbatim>\<open>partition.rs\<close> and \<^verbatim>\<open>snapshot.rs\<close>: deltas, layers, partitions
  (a pointer with its history) and content-addressed snapshots.
\<close>

section \<open>Deltas\<close>

record delta =
  d_id :: delta_id
  d_file :: file_node
  d_diff :: line_diff
  d_source :: source_type
  d_timestamp :: int

definition delta_compute_id :: "env \<Rightarrow> delta \<Rightarrow> delta_id" where
  "delta_compute_id E d =
     content_id_from_content E
       (case env_delta_json E (d_file d) (d_diff d) (d_source d) of None \<Rightarrow> [] | Some b \<Rightarrow> b)"

definition delta_new :: "env \<Rightarrow> file_node \<Rightarrow> line_diff \<Rightarrow> source_type \<Rightarrow> delta" where
  "delta_new E file diff source =
     (let d = \<lparr>d_id = zero_id, d_file = file, d_diff = diff, d_source = source,
               d_timestamp = env_now E DeltaClock\<rparr>
      in d\<lparr>d_id := delta_compute_id E d\<rparr>)"

lemma delta_new_simps [simp]:
  "d_file (delta_new E f ld src) = f" "d_diff (delta_new E f ld src) = ld"
  "d_source (delta_new E f ld src) = src" "d_timestamp (delta_new E f ld src) = env_now E DeltaClock"
  by (simp_all add: delta_new_def Let_def)

text \<open>The identifier of a delta does not depend on its timestamp: making the same change to the
  same file content twice gives the same identifier.\<close>

lemma delta_new_id:
  "d_id (delta_new E f ld src) =
     content_id_from_content E (case env_delta_json E f ld src of None \<Rightarrow> [] | Some b \<Rightarrow> b)"
  by (simp add: delta_new_def delta_compute_id_def Let_def)

record delta_summary =
  sum_inserts :: nat
  sum_deletes :: nat
  sum_replaces :: nat
  sum_total_hunks :: nat

fun summary_op :: "diff_op \<Rightarrow> nat \<times> nat \<times> nat \<Rightarrow> nat \<times> nat \<times> nat" where
  "summary_op (Insert ns ls) (i, d, r) = (i + length ls, d, r)"
| "summary_op (Delete os c) (i, d, r) = (i, d + unat c, r)"
| "summary_op (Replace os oc ns ls) (i, d, r) = (i, d, r + length ls)"
| "summary_op (Equal c) (i, d, r) = (i, d, r)"

definition delta_summary :: "delta \<Rightarrow> delta_summary" where
  "delta_summary dl =
     (case fold summary_op (concat (map h_ops (ld_hunks (d_diff dl)))) (0, 0, 0) of
        (i, d, r) \<Rightarrow> \<lparr>sum_inserts = i, sum_deletes = d, sum_replaces = r,
                      sum_total_hunks = length (ld_hunks (d_diff dl))\<rparr>)"

section \<open>Layers\<close>

record layer =
  l_type :: layer_type
  l_partitions :: "uuid list"

definition layer_new :: "layer_type \<Rightarrow> layer" where
  "layer_new t = \<lparr>l_type = t, l_partitions = []\<rparr>"

definition add_partition :: "layer \<Rightarrow> uuid \<Rightarrow> layer" where
  "add_partition l p =
     (if p \<notin> set (l_partitions l) then l\<lparr>l_partitions := l_partitions l @ [p]\<rparr> else l)"

definition remove_partition :: "layer \<Rightarrow> uuid \<Rightarrow> layer" where
  "remove_partition l p = l\<lparr>l_partitions := filter (\<lambda>q. q \<noteq> p) (l_partitions l)\<rparr>"

definition has_partition :: "layer \<Rightarrow> uuid \<Rightarrow> bool" where
  "has_partition l p \<longleftrightarrow> p \<in> set (l_partitions l)"

lemma add_partition_distinct:
  "distinct (l_partitions l) \<Longrightarrow> distinct (l_partitions (add_partition l p))"
  by (simp add: add_partition_def)

lemma has_partition_add [simp]:
  "has_partition (add_partition l p) q \<longleftrightarrow> q = p \<or> has_partition l q"
  by (auto simp: has_partition_def add_partition_def)

lemma has_partition_remove [simp]:
  "has_partition (remove_partition l p) q \<longleftrightarrow> q \<noteq> p \<and> has_partition l q"
  by (auto simp: has_partition_def remove_partition_def)

section \<open>Partitions\<close>

record partition =
  p_id :: uuid
  p_name :: string
  p_current :: snapshot_id
  p_history :: "snapshot_id list"
  p_type :: partition_type

definition partition_new :: "env \<Rightarrow> string \<Rightarrow> partition_type \<Rightarrow> snapshot_id \<Rightarrow> partition" where
  "partition_new E name ptype initial =
     \<lparr>p_id = env_uuid_v7 E, p_name = name, p_current = initial, p_history = [initial],
      p_type = ptype\<rparr>"

definition advance :: "partition \<Rightarrow> snapshot_id \<Rightarrow> partition" where
  "advance p s = p\<lparr>p_current := s, p_history := p_history p @ [s]\<rparr>"

definition partition_rollback_to :: "partition \<Rightarrow> snapshot_id \<Rightarrow> bool \<times> partition" where
  "partition_rollback_to p target =
     (case position (\<lambda>s. s = target) (p_history p) of
        Some pos \<Rightarrow> (True, p\<lparr>p_current := target, p_history := take (pos + 1) (p_history p)\<rparr>)
      | None \<Rightarrow> (False, p))"

definition partition_rollback_one :: "partition \<Rightarrow> snapshot_id option \<times> partition" where
  "partition_rollback_one p =
     (if 1 < length (p_history p)
      then (let prev = p_history p ! (length (p_history p) - 2)
            in (Some prev, p\<lparr>p_current := prev, p_history := butlast (p_history p)\<rparr>))
      else (None, p))"

text \<open>A partition points at the last entry of its history.\<close>

definition partition_wf :: "partition \<Rightarrow> bool" where
  "partition_wf p \<longleftrightarrow> p_history p \<noteq> [] \<and> last (p_history p) = p_current p"

lemma partition_wf_new: "partition_wf (partition_new E n t s)"
  by (simp add: partition_wf_def partition_new_def)

lemma partition_wf_advance: "partition_wf (advance p s)"
  by (simp add: partition_wf_def advance_def)

lemma partition_rollback_to_wf:
  assumes "partition_wf p"
  shows "partition_wf (snd (partition_rollback_to p t))"
proof (cases "position (\<lambda>s. s = t) (p_history p)")
  case None
  with assms show ?thesis by (simp add: partition_rollback_to_def)
next
  case (Some pos)
  then have "pos < length (p_history p)" and "p_history p ! pos = t"
    using position_SomeD [OF Some] by auto
  then have "last (take (Suc pos) (p_history p)) = t"
    by (simp add: take_Suc_conv_app_nth)
  with Some \<open>pos < length (p_history p)\<close> show ?thesis
    by (auto simp: partition_rollback_to_def partition_wf_def)
qed

lemma last_butlast_nth: "2 \<le> length xs \<Longrightarrow> last (butlast xs) = xs ! (length xs - 2)"
  by (subst last_conv_nth) (auto simp: nth_butlast numeral_2_eq_2 simp flip: length_0_conv)

lemma partition_rollback_one_wf:
  assumes "partition_wf p"
  shows "partition_wf (snd (partition_rollback_one p))"
proof (cases "1 < length (p_history p)")
  case True
  then have "butlast (p_history p) \<noteq> []" by (cases "p_history p") auto
  with True show ?thesis
    by (simp add: partition_rollback_one_def partition_wf_def last_butlast_nth Let_def)
qed (use assms in \<open>simp add: partition_rollback_one_def\<close>)

lemma rollback_one_undoes_advance:
  assumes "partition_wf p"
  shows "partition_rollback_one (advance p s) = (Some (p_current p), p)"
proof -
  from assms obtain h where h: "p_history p = h @ [p_current p]"
    by (metis append_butlast_last_id partition_wf_def)
  then show ?thesis
    by (cases p) (simp add: partition_rollback_one_def advance_def nth_append butlast_append Let_def)
qed

text \<open>The in-memory partition operations keep the pointer at the end of the history: advancing
  and both kinds of rollback preserve well-formedness, \<open>rollback_one\<close> undoes exactly one
  \<open>advance\<close>, and \<open>rollback_to\<close> refuses a snapshot that is not in the history and otherwise
  leaves the history up to its first occurrence.\<close>

lemma partition_pointer_discipline:
  assumes "partition_wf p"
  shows "partition_wf (advance p s)
     \<and> partition_rollback_one (advance p s) = (Some (p_current p), p)
     \<and> partition_wf (snd (partition_rollback_to p t))
     \<and> partition_wf (snd (partition_rollback_one p))
     \<and> fst (partition_rollback_to p t) = (t \<in> set (p_history p))
     \<and> prefix (p_history (snd (partition_rollback_to p t))) (p_history p)"
proof -
  have "fst (partition_rollback_to p t) = (t \<in> set (p_history p))"
    using position_None_iff [of "\<lambda>s. s = t" "p_history p"]
    by (cases "position (\<lambda>s. s = t) (p_history p)")
      (auto simp: partition_rollback_to_def dest: position_SomeD)
  moreover have "prefix (p_history (snd (partition_rollback_to p t))) (p_history p)"
    by (auto simp: partition_rollback_to_def take_is_prefix split: option.split)
  ultimately show ?thesis
    using assms partition_wf_advance rollback_one_undoes_advance partition_rollback_to_wf
      partition_rollback_one_wf by blast
qed

lemma partition_pointer_discipline_witness:
  "partition_wf (advance \<lparr>p_id = 1, p_name = ''m'', p_current = ContentId ''b'',
      p_history = [ContentId ''a'', ContentId ''b''], p_type = PManual\<rparr> (ContentId ''c''))"
  using partition_pointer_discipline
    [of "\<lparr>p_id = 1, p_name = ''m'', p_current = ContentId ''b'',
      p_history = [ContentId ''a'', ContentId ''b''], p_type = PManual\<rparr>" "ContentId ''c''"]
  by (simp add: partition_wf_def)

end
