(* ===== verification/Core_Snapshot.thy ===== *)
theory Core_Snapshot
  imports Core_Model
begin

text \<open>
  \<^verbatim>\<open>src/core/snapshot.rs\<close>: snapshot content, the snapshot record with its constructors, its
  content-derived identifier, compression, and the builder.
\<close>

section \<open>Snapshot content\<close>

datatype snapshot_content =
    FileContent bytes
  | JsonMetadata json
  | Structured bytes

fun to_bytes :: "env \<Rightarrow> snapshot_content \<Rightarrow> bytes" where
  "to_bytes E (FileContent bs) = bs"
| "to_bytes E (JsonMetadata v) = (case env_json_to_vec E v of None \<Rightarrow> [] | Some b \<Rightarrow> b)"
| "to_bytes E (Structured bs) = bs"

definition json_or_error :: "env \<Rightarrow> bytes \<Rightarrow> (snapshot_content, lt_error) result" where
  "json_or_error E bs = (case env_json_from_slice E bs of
       Inl msg \<Rightarrow> Err (Serialization msg)
     | Inr v \<Rightarrow> Ok (JsonMetadata v))"

definition from_bytes :: "env \<Rightarrow> string \<Rightarrow> bytes \<Rightarrow> (snapshot_content, lt_error) result" where
  "from_bytes E source bs =
     (if starts_with source ''file://'' then Ok (FileContent bs)
      else if starts_with source ''agent://'' \<or> starts_with source ''graph://'' then json_or_error E bs
      else if starts_with source ''system://'' then json_or_error E bs
      else Ok (Structured bs))"

fun content_type :: "snapshot_content \<Rightarrow> string" where
  "content_type (FileContent bs) = ''file''"
| "content_type (JsonMetadata v) = ''json''"
| "content_type (Structured bs) = ''structured''"

fun matches_source :: "snapshot_content \<Rightarrow> string \<Rightarrow> bool" where
  "matches_source (FileContent bs) source = starts_with source ''file://''"
| "matches_source (JsonMetadata v) source =
     (starts_with source ''agent://'' \<or> starts_with source ''graph://'' \<or> starts_with source ''system://'')"
| "matches_source (Structured bs) source = True"

lemma from_bytes_matches_source:
  "from_bytes E source bs = Ok c \<Longrightarrow> matches_source c source"
  by (auto simp: from_bytes_def json_or_error_def split: if_splits sum.splits)

section \<open>Snapshots\<close>

datatype snapshot_compression = NoCompression | Zstd

record snapshot =
  s_id :: snapshot_id
  s_file :: file_node
  s_deltas :: "delta_id list"
  s_parents :: "snapshot_id list"
  s_partition_type :: string
  s_created_at :: int
  s_has_conflicts :: bool
  s_content :: "snapshot_content option"
  s_source :: string
  s_compression :: snapshot_compression

text \<open>The bytes fed to the hasher, in the order of its \<open>update\<close> calls.\<close>

definition snapshot_preimage :: "env \<Rightarrow> snapshot \<Rightarrow> bytes" where
  "snapshot_preimage E s =
     path_str (s_file s) @ base_hash (s_file s)
     @ concat (map id_bytes (s_deltas s))
     @ concat (map id_bytes (s_parents s))
     @ s_partition_type s
     @ [if s_has_conflicts s then CHR 0x01 else CHR 0x00]
     @ s_source s
     @ (case s_content s of
          None \<Rightarrow> ''none''
        | Some c \<Rightarrow> content_type c @ env_blake3 E (to_bytes E c))"

definition snapshot_compute_id :: "env \<Rightarrow> snapshot \<Rightarrow> snapshot_id" where
  "snapshot_compute_id E s = ContentId (env_blake3 E (snapshot_preimage E s))"

definition snapshot_seal :: "env \<Rightarrow> snapshot \<Rightarrow> snapshot" where
  "snapshot_seal E s = s\<lparr>s_id := snapshot_compute_id E s\<rparr>"

definition snapshot_new_initial :: "env \<Rightarrow> file_node \<Rightarrow> delta_id \<Rightarrow> snapshot" where
  "snapshot_new_initial E file d =
     snapshot_seal E
       \<lparr>s_id = zero_id, s_file = file, s_deltas = [d], s_parents = [], s_partition_type = [],
        s_created_at = env_now E SnapshotClock, s_has_conflicts = False, s_content = None, s_source = [],
        s_compression = NoCompression\<rparr>"

definition snapshot_from_parent :: "env \<Rightarrow> snapshot \<Rightarrow> delta_id \<Rightarrow> string \<Rightarrow> snapshot" where
  "snapshot_from_parent E parent d ptype =
     snapshot_seal E
       \<lparr>s_id = zero_id, s_file = s_file parent, s_deltas = s_deltas parent @ [d],
        s_parents = [s_id parent], s_partition_type = ptype, s_created_at = env_now E SnapshotClock,
        s_has_conflicts = False, s_content = s_content parent, s_source = s_source parent,
        s_compression = s_compression parent\<rparr>"

definition snapshot_new_with_content ::
    "env \<Rightarrow> file_node \<Rightarrow> snapshot_content \<Rightarrow> string \<Rightarrow> string \<Rightarrow> snapshot_id list \<Rightarrow> delta_id list
      \<Rightarrow> snapshot" where
  "snapshot_new_with_content E file content source ptype parents deltas =
     snapshot_seal E
       \<lparr>s_id = zero_id, s_file = file, s_deltas = deltas, s_parents = parents,
        s_partition_type = ptype, s_created_at = env_now E SnapshotClock, s_has_conflicts = False,
        s_content = Some content, s_source = source, s_compression = NoCompression\<rparr>"

definition snapshot_apply_delta :: "env \<Rightarrow> snapshot \<Rightarrow> delta_id \<Rightarrow> snapshot" where
  "snapshot_apply_delta E s d = snapshot_from_parent E s d (s_partition_type s)"

text \<open>\<open>parents[0]\<close> panics when there is no parent.\<close>

fun snapshot_merge ::
    "env \<Rightarrow> snapshot list \<Rightarrow> delta_id \<Rightarrow> string \<Rightarrow> bool \<Rightarrow> (snapshot, lt_error) result" where
  "snapshot_merge E [] d ptype confl = Panic"
| "snapshot_merge E (p # ps) d ptype confl =
     Ok (snapshot_seal E
       \<lparr>s_id = zero_id, s_file = s_file p, s_deltas = s_deltas p @ [d],
        s_parents = map s_id (p # ps), s_partition_type = ptype, s_created_at = env_now E SnapshotClock,
        s_has_conflicts = confl, s_content = s_content p, s_source = s_source p,
        s_compression = s_compression p\<rparr>)"

lemma snapshot_seal_simps [simp]:
  "s_file (snapshot_seal E s) = s_file s" "s_deltas (snapshot_seal E s) = s_deltas s"
  "s_parents (snapshot_seal E s) = s_parents s"
  "s_partition_type (snapshot_seal E s) = s_partition_type s"
  "s_created_at (snapshot_seal E s) = s_created_at s"
  "s_has_conflicts (snapshot_seal E s) = s_has_conflicts s"
  "s_content (snapshot_seal E s) = s_content s" "s_source (snapshot_seal E s) = s_source s"
  "s_compression (snapshot_seal E s) = s_compression s"
  "s_id (snapshot_seal E s) = snapshot_compute_id E s"
  by (simp_all add: snapshot_seal_def)

lemma snapshot_preimage_id [simp]: "snapshot_preimage E (s\<lparr>s_id := i\<rparr>) = snapshot_preimage E s"
  by (simp add: snapshot_preimage_def)

lemma snapshot_from_parent_simps [simp]:
  "s_file (snapshot_from_parent E p d t) = s_file p"
  "s_deltas (snapshot_from_parent E p d t) = s_deltas p @ [d]"
  "s_parents (snapshot_from_parent E p d t) = [s_id p]"
  "s_partition_type (snapshot_from_parent E p d t) = t"
  "s_has_conflicts (snapshot_from_parent E p d t) = False"
  "s_content (snapshot_from_parent E p d t) = s_content p"
  by (simp_all add: snapshot_from_parent_def)

lemma snapshot_seal_compute_id:
  "snapshot_compute_id E (snapshot_seal E s) = s_id (snapshot_seal E s)"
  by (simp add: snapshot_compute_id_def snapshot_seal_def)

text \<open>The identifier of a snapshot is recomputed from a built snapshot (so an integrity check
  passes on it), it ignores the creation time and the compression flag, and it does not tell a
  delta from a parent: moving identifiers across the boundary of the two lists keeps it, for
  every hash function.\<close>

lemma snapshot_identity:
  "snapshot_compute_id E (snapshot_seal E s) = s_id (snapshot_seal E s)
   \<and> snapshot_compute_id E (s\<lparr>s_created_at := t, s_compression := k\<rparr>) = snapshot_compute_id E s
   \<and> snapshot_compute_id E (s\<lparr>s_deltas := ds @ xs, s_parents := ps\<rparr>)
     = snapshot_compute_id E (s\<lparr>s_deltas := ds, s_parents := xs @ ps\<rparr>)"
  by (simp add: snapshot_seal_compute_id) (simp add: snapshot_compute_id_def snapshot_preimage_def)

subsection \<open>Compression\<close>

definition compress_content :: "env \<Rightarrow> snapshot \<Rightarrow> (snapshot, lt_error) result" where
  "compress_content E s =
     (if s_compression s = NoCompression
      then (case s_content s of
              Some c \<Rightarrow> (case env_zstd_encode E (to_bytes E c) of
                  Inl e \<Rightarrow> Err (Serialization (''zstd compression failed: '' @ e))
                | Inr z \<Rightarrow> Ok (s\<lparr>s_content := Some (Structured z), s_compression := Zstd\<rparr>))
            | None \<Rightarrow> Ok s)
      else Ok s)"

definition decompress_content :: "env \<Rightarrow> snapshot \<Rightarrow> (snapshot, lt_error) result" where
  "decompress_content E s =
     (if s_compression s = Zstd
      then (case s_content s of
              Some (Structured bs) \<Rightarrow> (case env_zstd_decode E bs of
                  Inl e \<Rightarrow> Err (Serialization (''zstd decompression failed: '' @ e))
                | Inr z \<Rightarrow> and_then (from_bytes E (s_source s) z)
                    (\<lambda>c. Ok (s\<lparr>s_content := Some c, s_compression := NoCompression\<rparr>)))
            | _ \<Rightarrow> Ok s)
      else Ok s)"

text \<open>A codec is faithful on the content of a snapshot when decoding undoes encoding there.\<close>

definition codec_ok :: "env \<Rightarrow> snapshot_content \<Rightarrow> bool" where
  "codec_ok E c \<longleftrightarrow>
     (case env_zstd_encode E (to_bytes E c) of
        Inl e \<Rightarrow> True
      | Inr z \<Rightarrow> env_zstd_decode E z = Inr (to_bytes E c))
     \<and> (case c of
          JsonMetadata v \<Rightarrow> env_json_from_slice E (to_bytes E c) = Inr v
        | _ \<Rightarrow> True)"

text \<open>The content kind that \<open>from_bytes\<close> picks for a source.\<close>

definition kind_of_source :: "string \<Rightarrow> string" where
  "kind_of_source source =
     (if starts_with source ''file://'' then ''file''
      else if starts_with source ''agent://'' \<or> starts_with source ''graph://''
           \<or> starts_with source ''system://'' then ''json''
      else ''structured'')"

lemma from_bytes_to_bytes:
  assumes "codec_ok E c" and "kind_of_source source = content_type c"
  shows "from_bytes E source (to_bytes E c) = Ok c"
  using assms
  by (cases c) (auto simp: from_bytes_def kind_of_source_def json_or_error_def codec_ok_def
      split: if_splits)

text \<open>Compressing a snapshot and decompressing the result gives the snapshot back, when zstd and
  serde_json invert themselves on its content and the content is of the kind its source prefix
  stands for.\<close>

lemma compress_roundtrip:
  assumes "s_compression s = NoCompression"
    and "\<And>c. s_content s = Some c \<Longrightarrow> codec_ok E c \<and> kind_of_source (s_source s) = content_type c"
    and "compress_content E s = Ok s'"
  shows "decompress_content E s' = Ok s"
proof (cases "s_content s")
  case None
  with assms show ?thesis by (simp add: compress_content_def decompress_content_def)
next
  case (Some c)
  with assms(1,3) obtain z where z: "env_zstd_encode E (to_bytes E c) = Inr z"
    and s': "s' = s\<lparr>s_content := Some (Structured z), s_compression := Zstd\<rparr>"
    by (auto simp: compress_content_def split: sum.splits)
  from assms(2) [OF Some] z have "env_zstd_decode E z = Inr (to_bytes E c)"
    by (simp add: codec_ok_def)
  moreover have "from_bytes E (s_source s) (to_bytes E c) = Ok c"
    using assms(2) [OF Some] by (simp add: from_bytes_to_bytes)
  ultimately show ?thesis
    using s' Some assms(1) by (cases s) (simp add: decompress_content_def)
qed

section \<open>Snapshot builder\<close>

record snapshot_builder =
  sb_file :: "file_node option"
  sb_deltas :: "delta_id list"
  sb_parents :: "snapshot_id list"
  sb_partition_type :: string
  sb_has_conflicts :: bool
  sb_content :: "snapshot_content option"
  sb_source :: string
  sb_compression :: snapshot_compression

definition builder_new :: snapshot_builder where
  "builder_new = \<lparr>sb_file = None, sb_deltas = [], sb_parents = [], sb_partition_type = [],
     sb_has_conflicts = False, sb_content = None, sb_source = [], sb_compression = NoCompression\<rparr>"

definition builder_file :: "file_node \<Rightarrow> snapshot_builder \<Rightarrow> snapshot_builder" where
  "builder_file f b = b\<lparr>sb_file := Some f\<rparr>"

definition builder_add_delta :: "delta_id \<Rightarrow> snapshot_builder \<Rightarrow> snapshot_builder" where
  "builder_add_delta d b = b\<lparr>sb_deltas := sb_deltas b @ [d]\<rparr>"

definition builder_with_parent :: "snapshot_id \<Rightarrow> snapshot_builder \<Rightarrow> snapshot_builder" where
  "builder_with_parent p b = b\<lparr>sb_parents := sb_parents b @ [p]\<rparr>"

definition builder_with_partition_type :: "string \<Rightarrow> snapshot_builder \<Rightarrow> snapshot_builder" where
  "builder_with_partition_type t b = b\<lparr>sb_partition_type := t\<rparr>"

definition builder_with_conflicts :: "bool \<Rightarrow> snapshot_builder \<Rightarrow> snapshot_builder" where
  "builder_with_conflicts c b = b\<lparr>sb_has_conflicts := c\<rparr>"

definition builder_content :: "snapshot_content \<Rightarrow> snapshot_builder \<Rightarrow> snapshot_builder" where
  "builder_content c b = b\<lparr>sb_content := Some c\<rparr>"

definition builder_source :: "string \<Rightarrow> snapshot_builder \<Rightarrow> snapshot_builder" where
  "builder_source s b = b\<lparr>sb_source := s\<rparr>"

definition builder_compression :: "snapshot_compression \<Rightarrow> snapshot_builder \<Rightarrow> snapshot_builder" where
  "builder_compression k b = b\<lparr>sb_compression := k\<rparr>"

definition builder_build :: "env \<Rightarrow> snapshot_builder \<Rightarrow> (snapshot, lt_error) result" where
  "builder_build E b =
     and_then (ok_or (sb_file b) (CheckpointErr ''file is required for snapshot'')) (\<lambda>file.
       Ok (snapshot_seal E
         \<lparr>s_id = zero_id, s_file = file, s_deltas = sb_deltas b, s_parents = sb_parents b,
          s_partition_type = sb_partition_type b, s_created_at = env_now E SnapshotClock,
          s_has_conflicts = sb_has_conflicts b, s_content = sb_content b,
          s_source = sb_source b, s_compression = sb_compression b\<rparr>))"

lemma builder_build_Ok_iff: "(\<exists>s. builder_build E b = Ok s) \<longleftrightarrow> sb_file b \<noteq> None"
  by (cases "sb_file b") (simp_all add: builder_build_def)

text \<open>Building with the calls of \<open>new_initial\<close> gives the snapshot \<open>new_initial\<close> builds.\<close>

lemma builder_new_initial:
  "builder_build E (builder_add_delta d (builder_file f builder_new)) = Ok (snapshot_new_initial E f d)"
  by (simp add: builder_build_def builder_add_delta_def builder_file_def builder_new_def
      snapshot_new_initial_def)

end
