(* ===== verification/Engine_Diff.thy ===== *)
theory Engine_Diff
  imports Core_Model
begin

text \<open>
  \<^verbatim>\<open>src/engine/diff.rs\<close>: the conversion of the grouped operations of the crate \<open>similar\<close> into
  the hunks of a \<open>LineDiff\<close>, and the bounded cache of unified diffs. What the differ computes is
  a parameter; \<open>diff_contract\<close> is what its documentation promises of the groups it returns.
\<close>

section \<open>From groups of operations to hunks\<close>

definition strip_newline :: "string \<Rightarrow> string" where
  "strip_newline s =
     (if ends_with s [newline] \<or> ends_with s [carriage_return]
      then rev (dropWhile (\<lambda>c. c = newline \<or> c = carriage_return) (rev s))
      else s)"

definition range_count :: "nat \<times> nat \<Rightarrow> u32" where
  "range_count r = of_nat (snd r - fst r)"

definition range_start :: "nat \<times> nat \<Rightarrow> u32" where
  "range_start r = of_nat (fst r) + 1"

definition convert_op :: "env \<Rightarrow> string \<Rightarrow> string \<Rightarrow> sim_op \<Rightarrow> diff_op" where
  "convert_op E old new op =
     (case op_tag op of
        TagEqual \<Rightarrow> Equal (range_count (op_old_range op))
      | TagDelete \<Rightarrow> Delete (range_start (op_old_range op)) (range_count (op_old_range op))
      | TagInsert \<Rightarrow> Insert (range_start (op_new_range op))
          (map (\<lambda>c. strip_newline (snd c)) (env_iter_changes E old new op))
      | TagReplace \<Rightarrow> Replace (range_start (op_old_range op)) (range_count (op_old_range op))
          (range_start (op_new_range op))
          (map (\<lambda>c. strip_newline (snd c))
            (filter (\<lambda>c. fst c = ChangeInsert) (env_iter_changes E old new op))))"

lemma convert_op_simps:
  "op_tag op = TagEqual \<Longrightarrow> convert_op E old new op = Equal (range_count (op_old_range op))"
  "op_tag op = TagDelete \<Longrightarrow>
     convert_op E old new op = Delete (range_start (op_old_range op)) (range_count (op_old_range op))"
  "op_tag op = TagInsert \<Longrightarrow>
     convert_op E old new op = Insert (range_start (op_new_range op))
       (map (\<lambda>c. strip_newline (snd c)) (env_iter_changes E old new op))"
  "op_tag op = TagReplace \<Longrightarrow>
     convert_op E old new op = Replace (range_start (op_old_range op)) (range_count (op_old_range op))
       (range_start (op_new_range op))
       (map (\<lambda>c. strip_newline (snd c))
         (filter (\<lambda>c. fst c = ChangeInsert) (env_iter_changes E old new op)))"
  by (simp_all add: convert_op_def)

text \<open>\<open>first()\<close> and \<open>last()\<close> of an empty group are \<open>expect\<close>ed to be there.\<close>

definition convert_group :: "env \<Rightarrow> string \<Rightarrow> string \<Rightarrow> sim_op list \<Rightarrow> (hunk, lt_error) result" where
  "convert_group E old new ops =
     (case (list_first ops, list_last ops) of
        (Some f, Some l) \<Rightarrow>
          Ok \<lparr>h_old_start = range_start (op_old_range f),
              h_old_len = of_nat (snd (op_old_range l) - fst (op_old_range f)),
              h_new_start = range_start (op_new_range f),
              h_new_len = of_nat (snd (op_new_range l) - fst (op_new_range f)),
              h_ops = map (convert_op E old new) ops\<rparr>
      | _ \<Rightarrow> Panic)"

definition diff_to_line_diff :: "env \<Rightarrow> string \<Rightarrow> string \<Rightarrow> (line_diff, lt_error) result" where
  "diff_to_line_diff E old new =
     (if old = new then Ok \<lparr>ld_hunks = []\<rparr>
      else and_then (collect_results (convert_group E old new) (env_grouped_ops E old new))
             (\<lambda>hs. Ok \<lparr>ld_hunks = hs\<rparr>))"

section \<open>What the differ documents\<close>

text \<open>The tokens of \<open>TextDiff::from_lines\<close> on a text without carriage returns.\<close>

abbreviation tokens :: "string \<Rightarrow> string list" where
  "tokens s \<equiv> split_inclusive newline s"

text \<open>One operation: its ranges are in order and in bounds, equal tokens are equal, a deletion
  consumes no new tokens, an insertion no old ones.\<close>

definition op_ok :: "string list \<Rightarrow> string list \<Rightarrow> sim_op \<Rightarrow> bool" where
  "op_ok old new op =
     (case (op_old_range op, op_new_range op) of ((i, i'), (j, j')) \<Rightarrow>
        i \<le> i' \<and> i' \<le> length old \<and> j \<le> j' \<and> j' \<le> length new
        \<and> (case op_tag op of
             TagEqual \<Rightarrow> segment old i i' = segment new j j'
           | TagDelete \<Rightarrow> j' = j
           | TagInsert \<Rightarrow> i' = i
           | TagReplace \<Rightarrow> True))"

text \<open>The operations of a group are consecutive; the result is where the group ends.\<close>

fun ops_chain :: "string list \<Rightarrow> string list \<Rightarrow> nat \<Rightarrow> nat \<Rightarrow> sim_op list \<Rightarrow> (nat \<times> nat) option" where
  "ops_chain old new i j [] = Some (i, j)"
| "ops_chain old new i j (op # ops) =
     (if fst (op_old_range op) = i \<and> fst (op_new_range op) = j \<and> op_ok old new op
      then ops_chain old new (snd (op_old_range op)) (snd (op_new_range op)) ops
      else None)"

text \<open>Groups come in order; what lies between two of them, and after the last, is equal.\<close>

fun groups_ok :: "string list \<Rightarrow> string list \<Rightarrow> nat \<Rightarrow> nat \<Rightarrow> sim_op list list \<Rightarrow> bool" where
  "groups_ok old new i j [] = (drop i old = drop j new)"
| "groups_ok old new i j ([] # gs) = False"
| "groups_ok old new i j ((op # ops) # gs) =
     (let i' = fst (op_old_range op); j' = fst (op_new_range op) in
        i \<le> i' \<and> j \<le> j' \<and> segment old i i' = segment new j j'
        \<and> (case ops_chain old new i' j' (op # ops) of
             None \<Rightarrow> False
           | Some (i'', j'') \<Rightarrow> groups_ok old new i'' j'' gs))"

definition op_changes :: "string list \<Rightarrow> string list \<Rightarrow> sim_op \<Rightarrow> (change_tag \<times> string) list" where
  "op_changes old new op =
     (case (op_old_range op, op_new_range op) of ((i, i'), (j, j')) \<Rightarrow>
        (case op_tag op of
           TagEqual \<Rightarrow> map (Pair ChangeEqual) (segment old i i')
         | TagDelete \<Rightarrow> map (Pair ChangeDelete) (segment old i i')
         | TagInsert \<Rightarrow> map (Pair ChangeInsert) (segment new j j')
         | TagReplace \<Rightarrow> map (Pair ChangeDelete) (segment old i i')
             @ map (Pair ChangeInsert) (segment new j j')))"

definition diff_contract :: "env \<Rightarrow> string \<Rightarrow> string \<Rightarrow> bool" where
  "diff_contract E old new \<longleftrightarrow>
     groups_ok (tokens old) (tokens new) 0 0 (env_grouped_ops E old new)
     \<and> list_all (list_all (\<lambda>op. env_iter_changes E old new op = op_changes (tokens old) (tokens new) op))
          (env_grouped_ops E old new)"

text \<open>A text the line functions treat uniformly: no carriage returns, and fewer than
  \<open>2 ^ 32 - 1\<close> lines, so that the casts to \<open>u32\<close> lose nothing.\<close>

definition text_ok :: "string \<Rightarrow> bool" where
  "text_ok s \<longleftrightarrow> carriage_return \<notin> set s \<and> length (tokens s) < 2 ^ 32 - 1"

subsection \<open>Lines and tokens of a text without carriage returns\<close>

lemma tokens_shape:
  "t \<in> set (tokens s) \<Longrightarrow> \<exists>l. newline \<notin> set l \<and> (t = l @ [newline] \<or> t = l \<and> l \<noteq> [])"
proof (induction s arbitrary: t)
  case (Cons c s)
  show ?case
  proof (cases "c = newline")
    case True
    with Cons show ?thesis by (cases "t = [newline]") (auto intro: exI [of _ "[]"])
  next
    case False
    show ?thesis
    proof (cases "tokens s")
      case Nil
      with Cons.prems False show ?thesis by auto
    next
      case (Cons l ls)
      then obtain m where m: "newline \<notin> set m" "l = m @ [newline] \<or> l = m \<and> m \<noteq> []"
        using Cons.IH [of l] by auto
      show ?thesis
      proof (cases "t = c # l")
        case True
        with m False show ?thesis by (intro exI [of _ "c # m"]) auto
      next
        case False
        with \<open>c \<noteq> newline\<close> Cons Cons.prems have "t \<in> set (tokens s)" by auto
        then show ?thesis by (rule Cons.IH)
      qed
    qed
  qed
qed simp

lemma tokens_subset: "t \<in> set (tokens s) \<Longrightarrow> set t \<subseteq> set s"
  by (metis UN_upper concat_split_inclusive set_concat)

lemma strip_newline_plain: "plain_line l \<Longrightarrow> strip_newline l = l"
  by (auto simp: strip_newline_def ends_with_def suffix_def plain_line_def)

lemma strip_newline_append: "plain_line l \<Longrightarrow> strip_newline (l @ [newline]) = l"
proof -
  assume l: "plain_line l"
  then have "dropWhile (\<lambda>c. c = newline \<or> c = carriage_return) (rev l) = rev l"
    by (cases l rule: rev_cases) (auto simp: plain_line_def)
  then show ?thesis by (simp add: strip_newline_def ends_with_def)
qed

lemma token_lines:
  assumes "t \<in> set (tokens s)" and "carriage_return \<notin> set s"
  shows "strip_newline t = strip_line_end t" and "plain_line (strip_line_end t)"
proof -
  obtain l where l: "newline \<notin> set l" "t = l @ [newline] \<or> t = l"
    using tokens_shape [OF assms(1)] by blast
  moreover have "carriage_return \<notin> set t"
    using tokens_subset [OF assms(1)] assms(2) by blast
  ultimately have "plain_line l" by (auto simp: plain_line_def)
  with l show "strip_newline t = strip_line_end t" "plain_line (strip_line_end t)"
    by (auto simp: strip_newline_append strip_newline_plain strip_line_end_newline
        strip_line_end_no_newline plain_line_def)
qed

lemma lines_of_segment:
  assumes "carriage_return \<notin> set s"
  shows "map strip_newline (segment (tokens s) i j) = segment (str_lines s) i j"
proof -
  have "map strip_newline (segment (tokens s) i j) = map strip_line_end (segment (tokens s) i j)"
    using token_lines(1) [OF _ assms] set_segment_subset [of "tokens s" i j] by (intro map_cong) auto
  then show ?thesis by (simp add: str_lines_def segment_map)
qed

lemma str_lines_plain:
  "carriage_return \<notin> set s \<Longrightarrow> l \<in> set (str_lines s) \<Longrightarrow> plain_line l"
  by (auto simp: str_lines_def dest: token_lines(2))

lemma length_str_lines: "length (str_lines s) = length (tokens s)"
  by (simp add: str_lines_def)

text \<open>Joining the lines of a text gives it back up to its final newline.\<close>

lemma join_str_lines:
  assumes "carriage_return \<notin> set s"
  shows "s = [] \<or> join_with [newline] (str_lines s)
           = (if last s = newline then butlast s else s)"
  using assms
proof (induction "length s" arbitrary: s rule: less_induct)
  case less
  show ?case
  proof (cases "newline \<in> set s")
    case False
    with less.prems show ?thesis
      by (cases "s = []") (auto simp: str_lines_single plain_line_def dest: last_in_set)
  next
    case True
    then obtain l r where s: "s = l @ newline # r" "newline \<notin> set l"
      by (meson split_list_first)
    with less.prems have pl: "plain_line l" by (auto simp: plain_line_def)
    show ?thesis
    proof (cases "r = []")
      case True
      with s pl show ?thesis by (simp add: str_lines_append_newline)
    next
      case False
      have "length r < length s" "carriage_return \<notin> set r" using s less.prems by simp_all
      from less.hyps [OF this] False have "join_with [newline] (str_lines r) =
          (if last r = newline then butlast r else r)" by simp
      moreover have "str_lines r \<noteq> []"
        using False by (simp add: str_lines_def)
      ultimately show ?thesis
        using False s pl by (auto simp: str_lines_append_newline join_with_Cons butlast_append)
    qed
  qed
qed

subsection \<open>A differ that meets the contract\<close>

text \<open>Replacing everything by everything is a diff: an environment whose differ does that meets
  the contract on all texts. The other fields are simple functions of their arguments; the
  environment serves the witnesses.\<close>

fun sample_op :: "diff_op \<Rightarrow> string" where
  "sample_op (Equal c) = ''=''"
| "sample_op (Delete os c) = ''-''"
| "sample_op (Insert ns ls) = ''+'' @ concat ls"
| "sample_op (Replace os oc ns ls) = ''~'' @ concat ls"

definition sample_env :: env where
  "sample_env =
     \<lparr>env_blake3 = (\<lambda>bs. bs),
      env_delta_json = (\<lambda>f d src. Some (file_path f @ base_hash f @ concat (map sample_op (concat (map h_ops (ld_hunks d)))))),
      env_json_to_vec = (\<lambda>v. case v of JString s \<Rightarrow> Some s | _ \<Rightarrow> None),
      env_json_from_slice = (\<lambda>b. Inr (JString b)),
      env_sources_to_json = (\<lambda>m. if m = fmempty then Inr ''{}'' else Inl ''key must be a string''),
      env_sources_from_json = (\<lambda>s. if s = ''{}'' then Some fmempty else None),
      env_zstd_encode = (\<lambda>b. Inr (CHR ''z'' # b)),
      env_zstd_decode = (\<lambda>b. case b of [] \<Rightarrow> Inl ''empty'' | c # r \<Rightarrow> Inr r),
      env_grouped_ops = (\<lambda>old new. if old = new then []
        else [[\<lparr>op_tag = TagReplace, op_old_range = (0, length (tokens old)),
                op_new_range = (0, length (tokens new))\<rparr>]]),
      env_iter_changes = (\<lambda>old new op. op_changes (tokens old) (tokens new) op),
      env_uuid_v5 = (\<lambda>ns name. ns + of_nat (length name) + 1),
      env_uuid_v7 = 7, env_now = (\<lambda>x. 0), env_show_sql = (\<lambda>e. ''sql'')\<rparr>"

lemma sample_env_contract: "diff_contract sample_env old new"
  by (simp add: diff_contract_def sample_env_def op_ok_def)

text \<open>A line-by-line differ: texts of the same number of lines are compared position by position.\<close>

definition positional_ops :: "string list \<Rightarrow> string list \<Rightarrow> sim_op list" where
  "positional_ops old new =
     map (\<lambda>k. \<lparr>op_tag = (if old ! k = new ! k then TagEqual else TagReplace),
              op_old_range = (k, Suc k), op_new_range = (k, Suc k)\<rparr>) [0..<length old]"

definition positional_env :: env where
  "positional_env = sample_env
     \<lparr>env_grouped_ops := \<lambda>old new.
        if length (tokens old) = length (tokens new) \<and> tokens old \<noteq> []
        then [positional_ops (tokens old) (tokens new)]
        else env_grouped_ops sample_env old new\<rparr>"

section \<open>The cache of unified diffs\<close>

text \<open>
  \<open>format_unified_diff\<close> keys its process-wide cache by a 64-bit hash of the two texts and the
  context size. The hasher, the two renderings of \<open>similar\<close> and the order in which a
  \<open>HashMap\<close> lists its keys are parameters.
\<close>

record diff_lib =
  dl_hash :: "string \<Rightarrow> string \<Rightarrow> nat \<Rightarrow> 64 word"
  dl_unified :: "string \<Rightarrow> string \<Rightarrow> nat \<Rightarrow> string"
  dl_hunks :: "string \<Rightarrow> string \<Rightarrow> nat \<Rightarrow> string list"
  dl_keys :: "(64 word, string) fmap \<Rightarrow> 64 word list"

type_synonym diff_cache = "(64 word, string) fmap"

definition DIFF_CACHE_MAX_ENTRIES :: nat where
  "DIFF_CACHE_MAX_ENTRIES = 100"

definition compute_hash :: "diff_lib \<Rightarrow> string \<Rightarrow> string \<Rightarrow> nat \<Rightarrow> 64 word" where
  "compute_hash L old new context = dl_hash L old new context"

definition render_unified :: "diff_lib \<Rightarrow> string \<Rightarrow> string \<Rightarrow> nat \<Rightarrow> string" where
  "render_unified L old new context =
     (if 50000 < length old \<or> 50000 < length new
      then concat (dl_hunks L old new context)
      else dl_unified L old new context)"

definition cache_size :: "diff_cache \<Rightarrow> nat" where
  "cache_size c = fcard (fmdom c)"

definition cache_store :: "diff_lib \<Rightarrow> 64 word \<Rightarrow> string \<Rightarrow> diff_cache \<Rightarrow> diff_cache" where
  "cache_store L h r c =
     (let c' = (if DIFF_CACHE_MAX_ENTRIES \<le> cache_size c
                then fold fmdrop (take (cache_size c div 2) (dl_keys L c)) c
                else c)
      in fmupd h r c')"

definition format_unified_diff ::
    "diff_lib \<Rightarrow> string \<Rightarrow> string \<Rightarrow> nat \<Rightarrow> diff_cache \<Rightarrow> string \<times> diff_cache" where
  "format_unified_diff L old new context c =
     (let small = length old + length new < 100000;
          h = compute_hash L old new context in
      case (if small then fmlookup c h else None) of
        Some cached \<Rightarrow> (cached, c)
      | None \<Rightarrow>
          (let r = render_unified L old new context in
           (r, if small then cache_store L h r c else c)))"

text \<open>The keys a \<open>HashMap\<close> lists are its keys, each once.\<close>

definition keys_ok :: "diff_lib \<Rightarrow> bool" where
  "keys_ok L \<longleftrightarrow> (\<forall>c. distinct (dl_keys L c) \<and> set (dl_keys L c) = fset (fmdom c))"

definition cache_bounded :: "diff_cache \<Rightarrow> bool" where
  "cache_bounded c \<longleftrightarrow> cache_size c \<le> DIFF_CACHE_MAX_ENTRIES"

text \<open>Every entry is the rendering of some pair of texts with that hash.\<close>

definition cache_sound :: "diff_lib \<Rightarrow> diff_cache \<Rightarrow> bool" where
  "cache_sound L c \<longleftrightarrow> (\<forall>h r. fmlookup c h = Some r \<longrightarrow>
     (\<exists>old new n. compute_hash L old new n = h \<and> render_unified L old new n = r))"

lemma fmdom_fold_drop: "fset (fmdom (fold fmdrop ks c)) = fset (fmdom c) - set ks"
  by (induction ks arbitrary: c) auto

lemma fmlookup_fold_drop:
  "fmlookup (fold fmdrop ks c) h = (if h \<in> set ks then None else fmlookup c h)"
  by (induction ks arbitrary: c) auto

lemma cache_size_card: "cache_size c = card (fset (fmdom c))"
  by (simp add: cache_size_def fcard.rep_eq)

lemma cache_size_upd: "cache_size (fmupd h r c) \<le> Suc (cache_size c)"
  by (simp add: cache_size_card card_insert_le_m1 card_insert_if)

lemma cache_store_bounded:
  assumes "keys_ok L" and "cache_bounded c"
  shows "cache_bounded (cache_store L h r c)"
proof (cases "DIFF_CACHE_MAX_ENTRIES \<le> cache_size c")
  case True
  let ?ks = "take (cache_size c div 2) (dl_keys L c)"
  have keys: "distinct (dl_keys L c)" "set (dl_keys L c) = fset (fmdom c)"
    using assms(1) by (simp_all add: keys_ok_def)
  then have "length (dl_keys L c) = cache_size c"
    by (metis cache_size_card distinct_card)
  with keys(1) have "card (set ?ks) = cache_size c div 2"
    by (simp add: distinct_card distinct_take)
  moreover have "set ?ks \<subseteq> fset (fmdom c)" using keys(2) set_take_subset by fast
  ultimately have "cache_size (fold fmdrop ?ks c) = cache_size c - cache_size c div 2"
    by (simp add: cache_size_card fmdom_fold_drop card_Diff_subset)
  with assms(2) True cache_size_upd [of h r "fold fmdrop ?ks c"] show ?thesis
    by (simp add: cache_store_def cache_bounded_def DIFF_CACHE_MAX_ENTRIES_def)
next
  case False
  with cache_size_upd [of h r c] show ?thesis
    by (simp add: cache_store_def cache_bounded_def)
qed

lemma cache_store_sound:
  assumes "cache_sound L c" and "compute_hash L old new n = h" and "render_unified L old new n = r"
  shows "cache_sound L (cache_store L h r c)"
  using assms by (auto simp: cache_store_def cache_sound_def fmlookup_fold_drop Let_def)

text \<open>The cache of unified diffs never grows beyond its bound, stays sound, and is transparent
  when the 64-bit hash does not collide: the call returns what rendering the two texts gives,
  from the cache or not.\<close>

lemma unified_diff_cache:
  assumes "keys_ok L" and "cache_bounded c" and "cache_sound L c"
    and "\<And>old' new' n'. compute_hash L old' new' n' = compute_hash L old new n
           \<Longrightarrow> (old', new', n') = (old, new, n)"
  shows "fst (format_unified_diff L old new n c) = render_unified L old new n
     \<and> cache_bounded (snd (format_unified_diff L old new n c))
     \<and> cache_sound L (snd (format_unified_diff L old new n c))"
proof (cases "if length old + length new < 100000
    then fmlookup c (compute_hash L old new n) else None")
  case None
  with assms show ?thesis
    by (auto simp: format_unified_diff_def Let_def cache_store_bounded cache_store_sound)
next
  case (Some r)
  then have "fmlookup c (compute_hash L old new n) = Some r" by (auto split: if_splits)
  with assms(3,4) have "r = render_unified L old new n"
    unfolding cache_sound_def by blast
  with Some assms(2,3) show ?thesis by (simp add: format_unified_diff_def Let_def)
qed

text \<open>A library whose hash tells one pair of texts from all others.\<close>

definition sample_lib :: diff_lib where
  "sample_lib =
     \<lparr>dl_hash = (\<lambda>o1 n1 k. if o1 = ''a'' \<and> n1 = ''b'' \<and> k = 3 then 1 else 0),
      dl_unified = (\<lambda>o1 n1 k. ''-'' @ o1 @ ''+'' @ n1), dl_hunks = (\<lambda>o1 n1 k. [o1, n1]),
      dl_keys = (\<lambda>c. sorted_list_of_set (fset (fmdom c)))\<rparr>"

lemma unified_diff_cache_witness:
  "fst (format_unified_diff sample_lib ''a'' ''b'' 3 fmempty) = ''-a+b''
   \<and> cache_bounded (snd (format_unified_diff sample_lib ''a'' ''b'' 3 fmempty))"
proof -
  have keys: "keys_ok sample_lib"
    by (simp add: keys_ok_def sample_lib_def)
  have bound: "cache_bounded fmempty" and sound: "cache_sound sample_lib fmempty"
    by (simp_all add: cache_bounded_def cache_size_card cache_sound_def)
  have hash: "\<And>o' n' k. compute_hash sample_lib o' n' k = compute_hash sample_lib ''a'' ''b'' 3
      \<Longrightarrow> (o', n', k) = (''a'', ''b'', 3)"
    by (simp add: compute_hash_def sample_lib_def split: if_splits)
  have "render_unified sample_lib ''a'' ''b'' 3 = ''-a+b''"
    by (simp add: render_unified_def sample_lib_def)
  then show ?thesis
    using unified_diff_cache [OF keys bound sound hash] by simp
qed

end
