(* ===== verification/Checkpoint_Types.thy ===== *)
theory Checkpoint_Types
  imports Core_Snapshot Engine_Diff
begin

text \<open>
  \<^verbatim>\<open>src/checkpoint/types.rs\<close> and \<^verbatim>\<open>src/checkpoint/branch.rs\<close>: checkpoints with their
  content-derived identifier, the checkpoint builder, the difference of two checkpoints, branches.
\<close>

section \<open>Checkpoints\<close>

record checkpoint_metadata =
  md_author :: string
  md_message :: string
  md_git_anchor :: "string option"

definition metadata_new :: "string \<Rightarrow> string \<Rightarrow> checkpoint_metadata" where
  "metadata_new author message =
     \<lparr>md_author = author, md_message = message, md_git_anchor = None\<rparr>"

record checkpoint =
  cp_id :: checkpoint_id
  cp_parents :: "checkpoint_id list"
  cp_snapshots :: "snapshot_id list"
  cp_metadata :: checkpoint_metadata
  cp_created_at :: int
  cp_sources :: "(snapshot_id, string) fmap"

text \<open>The bytes fed to the hasher: the sources are sorted by their key.\<close>

definition checkpoint_preimage :: "checkpoint \<Rightarrow> bytes" where
  "checkpoint_preimage cp =
     concat (map id_bytes (cp_parents cp)) @ concat (map id_bytes (cp_snapshots cp))
     @ md_author (cp_metadata cp) @ md_message (cp_metadata cp)
     @ concat (map (\<lambda>(k, v). id_bytes k @ v) (sorted_list_of_fmap (cp_sources cp)))"

definition checkpoint_compute_id :: "env \<Rightarrow> checkpoint \<Rightarrow> checkpoint_id" where
  "checkpoint_compute_id E cp = ContentId (env_blake3 E (checkpoint_preimage cp))"

definition checkpoint_new ::
    "env \<Rightarrow> snapshot_id list \<Rightarrow> checkpoint_id list \<Rightarrow> checkpoint_metadata \<Rightarrow> checkpoint" where
  "checkpoint_new E snaps parents metadata =
     (let cp = \<lparr>cp_id = zero_id, cp_parents = parents, cp_snapshots = snaps, cp_metadata = metadata,
                cp_created_at = env_now E CheckpointClock, cp_sources = fmempty\<rparr>
      in cp\<lparr>cp_id := checkpoint_compute_id E cp\<rparr>)"

definition checkpoint_new_single ::
    "env \<Rightarrow> snapshot_id \<Rightarrow> checkpoint_id list \<Rightarrow> checkpoint_metadata \<Rightarrow> checkpoint" where
  "checkpoint_new_single E snap parents metadata = checkpoint_new E [snap] parents metadata"

lemma checkpoint_preimage_id [simp]:
  "checkpoint_preimage (cp\<lparr>cp_id := i\<rparr>) = checkpoint_preimage cp"
  by (simp add: checkpoint_preimage_def)

lemma checkpoint_new_simps [simp]:
  "cp_parents (checkpoint_new E ss ps md) = ps" "cp_snapshots (checkpoint_new E ss ps md) = ss"
  "cp_metadata (checkpoint_new E ss ps md) = md"
  "cp_created_at (checkpoint_new E ss ps md) = env_now E CheckpointClock"
  "cp_sources (checkpoint_new E ss ps md) = fmempty"
  by (simp_all add: checkpoint_new_def Let_def)

lemma checkpoint_new_compute_id:
  "checkpoint_compute_id E (checkpoint_new E ss ps md) = cp_id (checkpoint_new E ss ps md)"
  by (simp add: checkpoint_new_def checkpoint_compute_id_def checkpoint_preimage_def Let_def)

lemma sorted_list_of_fmempty [simp]: "sorted_list_of_fmap fmempty = []"
  by (simp add: sorted_list_of_fmap_def sorted_list_of_fset.rep_eq)

lemma checkpoint_new_id:
  "cp_id (checkpoint_new E ss ps md) = ContentId (env_blake3 E
     (concat (map id_bytes ps) @ concat (map id_bytes ss) @ md_author md @ md_message md))"
  by (simp add: checkpoint_new_def checkpoint_compute_id_def checkpoint_preimage_def Let_def)

text \<open>The identifier of a new checkpoint is recomputed from it, and neither its time nor a later
  git anchor changes it; but the fields are hashed without separators, so that an identifier
  moved from the snapshots to the parents, or text moved from the author to the message, keeps
  the identifier, for every hash function.\<close>

lemma checkpoint_identity:
  "checkpoint_compute_id E (checkpoint_new E ss ps md) = cp_id (checkpoint_new E ss ps md)
   \<and> checkpoint_compute_id E (cp\<lparr>cp_created_at := t, cp_metadata := (cp_metadata cp)\<lparr>md_git_anchor := g\<rparr>\<rparr>)
     = checkpoint_compute_id E cp
   \<and> cp_id (checkpoint_new E (xs @ ss) ps md) = cp_id (checkpoint_new E ss (ps @ xs) md)
   \<and> cp_id (checkpoint_new E ss ps (metadata_new (a @ b) m))
     = cp_id (checkpoint_new E ss ps (metadata_new a (b @ m)))"
  by (simp add: checkpoint_new_compute_id checkpoint_new_id metadata_new_def)
    (simp add: checkpoint_compute_id_def checkpoint_preimage_def)

section \<open>Differences of checkpoints\<close>

record checkpoint_diff =
  cd_from :: checkpoint_id
  cd_to :: checkpoint_id
  cd_added :: "snapshot_id list"
  cd_removed :: "snapshot_id list"
  cd_modified :: "snapshot_id list"

definition checkpoint_diff_new ::
    "checkpoint_id \<Rightarrow> checkpoint_id \<Rightarrow> snapshot_id list \<Rightarrow> snapshot_id list \<Rightarrow> snapshot_id list
     \<Rightarrow> checkpoint_diff" where
  "checkpoint_diff_new f t added removed modified =
     \<lparr>cd_from = f, cd_to = t, cd_added = added, cd_removed = removed, cd_modified = modified\<rparr>"

definition checkpoint_diff_is_empty :: "checkpoint_diff \<Rightarrow> bool" where
  "checkpoint_diff_is_empty d \<longleftrightarrow> cd_added d = [] \<and> cd_removed d = [] \<and> cd_modified d = []"

definition total_changes :: "checkpoint_diff \<Rightarrow> nat" where
  "total_changes d = length (cd_added d) + length (cd_removed d) + length (cd_modified d)"

lemma total_changes_0: "total_changes d = 0 \<longleftrightarrow> checkpoint_diff_is_empty d"
  by (simp add: total_changes_def checkpoint_diff_is_empty_def)

section \<open>The checkpoint builder\<close>

record checkpoint_builder =
  cb_parents :: "checkpoint_id list"
  cb_snapshots :: "snapshot_id list"
  cb_author :: string
  cb_message :: string
  cb_git_anchor :: "string option"

definition cp_builder_new :: checkpoint_builder where
  "cp_builder_new = \<lparr>cb_parents = [], cb_snapshots = [], cb_author = ''unknown'', cb_message = [],
     cb_git_anchor = None\<rparr>"

definition cp_builder_parent :: "checkpoint_id \<Rightarrow> checkpoint_builder \<Rightarrow> checkpoint_builder" where
  "cp_builder_parent p b = b\<lparr>cb_parents := cb_parents b @ [p]\<rparr>"

definition cp_builder_parents :: "checkpoint_id list \<Rightarrow> checkpoint_builder \<Rightarrow> checkpoint_builder" where
  "cp_builder_parents ps b = b\<lparr>cb_parents := ps\<rparr>"

definition cp_builder_snapshot :: "snapshot_id \<Rightarrow> checkpoint_builder \<Rightarrow> checkpoint_builder" where
  "cp_builder_snapshot s b = b\<lparr>cb_snapshots := cb_snapshots b @ [s]\<rparr>"

definition cp_builder_snapshots :: "snapshot_id list \<Rightarrow> checkpoint_builder \<Rightarrow> checkpoint_builder" where
  "cp_builder_snapshots ss b = b\<lparr>cb_snapshots := ss\<rparr>"

definition cp_builder_author :: "string \<Rightarrow> checkpoint_builder \<Rightarrow> checkpoint_builder" where
  "cp_builder_author a b = b\<lparr>cb_author := a\<rparr>"

definition cp_builder_message :: "string \<Rightarrow> checkpoint_builder \<Rightarrow> checkpoint_builder" where
  "cp_builder_message m b = b\<lparr>cb_message := m\<rparr>"

definition cp_builder_git_anchor :: "string \<Rightarrow> checkpoint_builder \<Rightarrow> checkpoint_builder" where
  "cp_builder_git_anchor g b = b\<lparr>cb_git_anchor := Some g\<rparr>"

definition cp_builder_build :: "env \<Rightarrow> checkpoint_builder \<Rightarrow> string + checkpoint" where
  "cp_builder_build E b =
     (if cb_snapshots b = [] then Inl ''at least one baseline_snapshot is required''
      else Inr (checkpoint_new E (cb_snapshots b) (cb_parents b)
             \<lparr>md_author = cb_author b, md_message = cb_message b, md_git_anchor = cb_git_anchor b\<rparr>))"

lemma cp_builder_build_snapshots:
  "cp_builder_build E b = Inr cp \<Longrightarrow> cp_snapshots cp \<noteq> []"
  by (auto simp: cp_builder_build_def split: if_splits)

section \<open>Branches\<close>

record branch =
  br_name :: string
  br_head :: checkpoint_id
  br_created_at :: int
  br_updated_at :: int

definition branch_new :: "env \<Rightarrow> string \<Rightarrow> checkpoint_id \<Rightarrow> branch" where
  "branch_new E name head =
     \<lparr>br_name = name, br_head = head, br_created_at = env_now E BranchClock, br_updated_at = env_now E BranchClock\<rparr>"

definition set_head :: "env \<Rightarrow> branch \<Rightarrow> checkpoint_id \<Rightarrow> branch" where
  "set_head E b cp = b\<lparr>br_head := cp, br_updated_at := env_now E BranchClock\<rparr>"

end
