(* ===== verification/Store_Tables.thy ===== *)
theory Store_Tables
  imports Store_Interface Checkpoint_Types
begin

text \<open>
  The tables of \<^verbatim>\<open>src/storage/migrations.rs\<close> as lists of rows in insertion order, and the SQL
  statements the storage code runs on them: \<open>INSERT OR IGNORE\<close>, \<open>INSERT OR REPLACE\<close>, lookups by
  key, \<open>UPDATE\<close>, \<open>DELETE\<close>. A column that holds the JSON of a list of identifiers, of a line
  difference or of a partition type holds that value. I/O failures of SQLite are not modelled;
  its constraint failures and empty results are.
\<close>

section \<open>Rows\<close>

record file_node_row =
  fr_path :: string
  fr_hash :: bytes
  fr_content :: bytes
  fr_created_at :: int

record delta_row =
  dr_id :: bytes
  dr_path :: string
  dr_hash :: bytes
  dr_diff :: line_diff
  dr_source :: string
  dr_source_data :: "string option"
  dr_timestamp :: int
  dr_created_at :: int

record snapshot_row =
  sr_id :: bytes
  sr_path :: string
  sr_hash :: bytes
  sr_deltas :: "delta_id list"
  sr_parents :: "snapshot_id list"
  sr_partition_type :: string
  sr_created_at :: int
  sr_has_conflicts :: int
  sr_source :: string
  sr_content_type :: string
  sr_content :: "bytes option"
  sr_compression :: string

record partition_row =
  pr_id :: uuid
  pr_name :: string
  pr_current :: bytes
  pr_data :: partition_type
  pr_created_at :: int
  pr_updated_at :: int

record history_row =
  hr_partition :: uuid
  hr_snapshot :: bytes
  hr_seq :: int
  hr_created_at :: int

record layer_row =
  lr_type :: string
  lr_partitions :: "uuid list"
  lr_created_at :: int
  lr_updated_at :: int

record checkpoint_row =
  cr_id :: bytes
  cr_parents :: "checkpoint_id list"
  cr_snapshots :: "snapshot_id list"
  cr_author :: string
  cr_message :: string
  cr_git_anchor :: "string option"
  cr_created_at :: int
  cr_sources :: "string option"

record metadata_row =
  mr_key :: string
  mr_value :: bytes
  mr_updated_at :: int

record db =
  t_file_nodes :: "file_node_row list"
  t_deltas :: "delta_row list"
  t_snapshots :: "snapshot_row list"
  t_partitions :: "partition_row list"
  t_history :: "history_row list"
  t_layers :: "layer_row list"
  t_checkpoints :: "checkpoint_row list"
  t_branches :: "branch list"
  t_dag_store :: "metadata_row list"
  t_dag_edges :: "(bytes \<times> bytes) list"
  t_dag_generations :: "(bytes \<times> int) list"

definition empty_db :: db where
  "empty_db = \<lparr>t_file_nodes = [], t_deltas = [], t_snapshots = [], t_partitions = [], t_history = [],
     t_layers = [], t_checkpoints = [], t_branches = [], t_dag_store = [], t_dag_edges = [],
     t_dag_generations = []\<rparr>"

section \<open>Statements\<close>

definition insert_or_ignore :: "('r \<Rightarrow> 'k) \<Rightarrow> 'r \<Rightarrow> 'r list \<Rightarrow> 'r list" where
  "insert_or_ignore key r rows = (if list_ex (\<lambda>x. key x = key r) rows then rows else rows @ [r])"

definition insert_or_replace :: "('r \<Rightarrow> 'k) \<Rightarrow> 'r \<Rightarrow> 'r list \<Rightarrow> 'r list" where
  "insert_or_replace key r rows = filter (\<lambda>x. key x \<noteq> key r) rows @ [r]"

definition select_row :: "('r \<Rightarrow> 'k) \<Rightarrow> 'k \<Rightarrow> 'r list \<Rightarrow> 'r option" where
  "select_row key k rows = List.find (\<lambda>x. key x = k) rows"

definition update_rows :: "('r \<Rightarrow> bool) \<Rightarrow> ('r \<Rightarrow> 'r) \<Rightarrow> 'r list \<Rightarrow> 'r list" where
  "update_rows p f rows = map (\<lambda>x. if p x then f x else x) rows"

definition query_row :: "'r option \<Rightarrow> ('r, storage_error) result" where
  "query_row r = ok_or r (Database QueryReturnedNoRows)"

text \<open>\<open>ORDER BY created_at DESC\<close>; equal times come in the order of their insertion.\<close>

definition order_by_desc :: "('r \<Rightarrow> int) \<Rightarrow> 'r list \<Rightarrow> 'r list" where
  "order_by_desc t rows = sort_key (\<lambda>r. - t r) rows"

lemma query_row_simps [simp]:
  "query_row None = Err (Database QueryReturnedNoRows)" "query_row (Some r) = Ok r"
  by (simp_all add: query_row_def)

lemma query_row_Ok [simp]: "query_row r = Ok x \<longleftrightarrow> r = Some x"
  by (simp add: query_row_def)

lemma select_row_None: "select_row key k rows = None \<longleftrightarrow> \<not> list_ex (\<lambda>x. key x = k) rows"
  by (auto simp: select_row_def find_None_iff list_ex_iff)

lemma select_row_SomeD: "select_row key k rows = Some r \<Longrightarrow> r \<in> set rows \<and> key r = k"
  by (auto simp: select_row_def find_Some_iff)

lemma select_row_append:
  "select_row key k (xs @ ys) = (case select_row key k xs of None \<Rightarrow> select_row key k ys | Some r \<Rightarrow> Some r)"
  unfolding select_row_def by (rule find_append)

lemma select_row_single [simp]: "select_row key k [r] = (if key r = k then Some r else None)"
  by (simp add: select_row_def)

lemma select_row_Nil [simp]: "select_row key k [] = None"
  by (simp add: select_row_def)

lemma select_insert_or_ignore:
  "select_row key k (insert_or_ignore key r rows) =
     (case select_row key k rows of Some x \<Rightarrow> Some x | None \<Rightarrow> if key r = k then Some r else None)"
  using select_row_None [of key k rows]
  by (auto simp: insert_or_ignore_def select_row_append split: option.split)

lemma select_insert_or_replace:
  "select_row key k (insert_or_replace key r rows) =
     (if key r = k then Some r else select_row key k rows)"
proof -
  have "select_row key k (filter (\<lambda>x. key x \<noteq> key r) rows)
      = (if key r = k then None else select_row key k rows)"
    unfolding select_row_def by (induction rows) auto
  then show ?thesis by (simp add: insert_or_replace_def select_row_append split: option.split)
qed

lemma select_update:
  assumes "\<And>x. key (f x) = key x"
  shows "select_row key k (update_rows p f rows)
       = map_option (\<lambda>x. if p x then f x else x) (select_row key k rows)"
  unfolding select_row_def update_rows_def
  by (rule find_map_update) (simp add: assms)

lemma select_filter:
  "select_row key k (filter (\<lambda>x. key x \<noteq> j) rows) = (if k = j then None else select_row key k rows)"
  unfolding select_row_def by (induction rows) auto

lemma insert_or_ignore_distinct:
  "distinct (map key rows) \<Longrightarrow> distinct (map key (insert_or_ignore key r rows))"
  by (auto simp: insert_or_ignore_def list_ex_iff)

lemma insert_or_replace_distinct:
  "distinct (map key rows) \<Longrightarrow> distinct (map key (insert_or_replace key r rows))"
  by (auto simp: insert_or_replace_def distinct_map inj_on_def)

lemma insert_or_ignore_prefix: "prefix rows (insert_or_ignore key r rows)"
  by (simp add: insert_or_ignore_def)

lemma set_insert_or_ignore_subset: "set rows \<subseteq> set (insert_or_ignore key r rows)"
  by (auto simp: insert_or_ignore_def)

end
