(* ===== verification/Store_Objects.thy ===== *)
theory Store_Objects
  imports Store_Tables
begin

text \<open>
  The object tables of \<^verbatim>\<open>src/storage/sqlite\<close>: \<^verbatim>\<open>file_node.rs\<close>, \<^verbatim>\<open>delta.rs\<close>, \<^verbatim>\<open>snapshot.rs\<close>,
  \<^verbatim>\<open>checkpoint.rs\<close> (checkpoints and branches) and \<^verbatim>\<open>dag.rs\<close> (metadata, layers, DAG edges and
  generations), with the conversions between rows and values, and their interpretations as stores.
  A blob column of 32 bytes is written from a 32-byte array only, so \<open>copy_from_slice\<close> does not
  panic on it.
\<close>

type_synonym 'a db_prog = "(db, 'a, storage_error) prog"

section \<open>File nodes\<close>

definition file_node_key :: "file_node_row \<Rightarrow> string \<times> bytes" where
  "file_node_key r = (fr_path r, fr_hash r)"

definition store_file_node :: "env \<Rightarrow> file_node \<Rightarrow> bytes \<Rightarrow> unit db_prog" where
  "store_file_node E f content = update (\<lambda>s. s\<lparr>t_file_nodes :=
     insert_or_ignore file_node_key
       \<lparr>fr_path = path_str f, fr_hash = base_hash f, fr_content = content, fr_created_at = env_now E RowClock\<rparr>
       (t_file_nodes s)\<rparr>)"

definition get_file_content :: "string \<Rightarrow> bytes \<Rightarrow> db \<Rightarrow> (bytes, storage_error) result" where
  "get_file_content path h s =
     and_then (query_row (select_row file_node_key (path, h) (t_file_nodes s))) (\<lambda>r. Ok (fr_content r))"

definition file_node_exists :: "string \<Rightarrow> bytes \<Rightarrow> db \<Rightarrow> (bool, storage_error) result" where
  "file_node_exists path h s =
     Ok (0 < length (filter (\<lambda>r. file_node_key r = (path, h)) (t_file_nodes s)))"

section \<open>Deltas\<close>

definition source_str :: "source_type \<Rightarrow> string" where
  "source_str src = (case src of
       Manual \<Rightarrow> ''manual''
     | Agent i \<Rightarrow> ''agent''
     | Backup \<Rightarrow> ''backup'')"

definition source_data :: "source_type \<Rightarrow> string option" where
  "source_data src = (case src of Agent i \<Rightarrow> Some (agent_name i) | _ \<Rightarrow> None)"

definition delta_to_row :: "env \<Rightarrow> delta \<Rightarrow> delta_row" where
  "delta_to_row E d =
     \<lparr>dr_id = id_bytes (d_id d), dr_path = path_str (d_file d), dr_hash = base_hash (d_file d),
      dr_diff = d_diff d, dr_source = source_str (d_source d), dr_source_data = source_data (d_source d),
      dr_timestamp = d_timestamp d, dr_created_at = env_now E RowClock\<rparr>"

definition row_to_delta :: "delta_row \<Rightarrow> delta" where
  "row_to_delta r =
     \<lparr>d_id = ContentId (dr_id r), d_file = \<lparr>file_path = dr_path r, base_hash = dr_hash r\<rparr>,
      d_diff = dr_diff r,
      d_source =
        (if dr_source r = ''manual'' then Manual
         else if dr_source r = ''agent''
           then Agent (AgentInstanceId (case dr_source_data r of None \<Rightarrow> [] | Some s \<Rightarrow> s))
         else if dr_source r = ''backup'' then Backup
         else Manual),
      d_timestamp = dr_timestamp r\<rparr>"

definition store_delta :: "env \<Rightarrow> delta \<Rightarrow> unit db_prog" where
  "store_delta E d =
     update (\<lambda>s. s\<lparr>t_deltas := insert_or_ignore dr_id (delta_to_row E d) (t_deltas s)\<rparr>)"

definition get_delta :: "delta_id \<Rightarrow> db \<Rightarrow> (delta, storage_error) result" where
  "get_delta i s =
     and_then (query_row (select_row dr_id (id_bytes i) (t_deltas s))) (\<lambda>r. Ok (row_to_delta r))"

text \<open>The rows found go into a map; each requested identifier takes its delta out of the map, so
  that a second request for it finds nothing.\<close>

fun take_deltas :: "(bytes, delta) fmap \<Rightarrow> delta_id list \<Rightarrow> delta list" where
  "take_deltas m [] = []"
| "take_deltas m (i # is) =
     (case fmlookup m (id_bytes i) of
        Some d \<Rightarrow> d # take_deltas (fmdrop (id_bytes i) m) is
      | None \<Rightarrow> take_deltas m is)"

definition delta_map :: "delta_row list \<Rightarrow> (bytes, delta) fmap" where
  "delta_map rows = fold (\<lambda>r m. fmupd (dr_id r) (row_to_delta r) m) rows fmempty"

definition get_deltas :: "delta_id list \<Rightarrow> db \<Rightarrow> (delta list, storage_error) result" where
  "get_deltas is s =
     (if is = [] then Ok []
      else Ok (take_deltas (delta_map (filter (\<lambda>r. dr_id r \<in> set (map id_bytes is)) (t_deltas s))) is))"

definition delta_exists :: "delta_id \<Rightarrow> db \<Rightarrow> (bool, storage_error) result" where
  "delta_exists i s = Ok (0 < length (filter (\<lambda>r. dr_id r = id_bytes i) (t_deltas s)))"

section \<open>Snapshots\<close>

definition compression_str :: "snapshot_compression \<Rightarrow> string" where
  "compression_str k = (case k of NoCompression \<Rightarrow> ''none'' | Zstd \<Rightarrow> ''zstd'')"

definition snapshot_to_row :: "env \<Rightarrow> snapshot \<Rightarrow> snapshot_row" where
  "snapshot_to_row E x =
     \<lparr>sr_id = id_bytes (s_id x), sr_path = path_str (s_file x), sr_hash = base_hash (s_file x),
      sr_deltas = s_deltas x, sr_parents = s_parents x, sr_partition_type = s_partition_type x,
      sr_created_at = s_created_at x, sr_has_conflicts = (if s_has_conflicts x then 1 else 0),
      sr_source = s_source x,
      sr_content_type = (case s_content x of Some c \<Rightarrow> content_type c | None \<Rightarrow> ''file''),
      sr_content = map_option (to_bytes E) (s_content x),
      sr_compression = compression_str (s_compression x)\<rparr>"

definition row_content :: "env \<Rightarrow> string \<Rightarrow> bytes \<Rightarrow> snapshot_content" where
  "row_content E ctype bs =
     (if ctype = ''json''
      then JsonMetadata (case env_json_from_slice E bs of Inl e \<Rightarrow> JNull | Inr v \<Rightarrow> v)
      else if ctype = ''structured'' then Structured bs
      else FileContent bs)"

definition row_to_snapshot :: "env \<Rightarrow> snapshot_row \<Rightarrow> snapshot" where
  "row_to_snapshot E r =
     \<lparr>s_id = ContentId (sr_id r), s_file = \<lparr>file_path = sr_path r, base_hash = sr_hash r\<rparr>,
      s_deltas = sr_deltas r, s_parents = sr_parents r, s_partition_type = sr_partition_type r,
      s_created_at = sr_created_at r, s_has_conflicts = (sr_has_conflicts r \<noteq> 0),
      s_content = map_option (row_content E (sr_content_type r)) (sr_content r),
      s_source = sr_source r,
      s_compression = (if sr_compression r = ''zstd'' then Zstd else NoCompression)\<rparr>"

definition store_snapshot :: "env \<Rightarrow> snapshot \<Rightarrow> bytes \<Rightarrow> unit db_prog" where
  "store_snapshot E x content =
     update (\<lambda>s. s\<lparr>t_snapshots := insert_or_ignore sr_id (snapshot_to_row E x) (t_snapshots s)\<rparr>)"

definition get_snapshot :: "env \<Rightarrow> snapshot_id \<Rightarrow> db \<Rightarrow> (snapshot, storage_error) result" where
  "get_snapshot E i s =
     and_then (query_row (select_row sr_id (id_bytes i) (t_snapshots s))) (\<lambda>r. Ok (row_to_snapshot E r))"

definition find_snapshots_by_file :: "env \<Rightarrow> string \<Rightarrow> db \<Rightarrow> (snapshot list, storage_error) result" where
  "find_snapshots_by_file E path s =
     Ok (map (row_to_snapshot E)
          (order_by_desc sr_created_at (filter (\<lambda>r. sr_path r = path) (t_snapshots s))))"

definition find_snapshots_by_partition ::
    "env \<Rightarrow> partition_type \<Rightarrow> db \<Rightarrow> (snapshot list, storage_error) result" where
  "find_snapshots_by_partition E t s =
     Ok (map (row_to_snapshot E)
          (order_by_desc sr_created_at
            (filter (\<lambda>r. sr_partition_type r = partition_type_name t) (t_snapshots s))))"

definition snapshot_exists :: "snapshot_id \<Rightarrow> db \<Rightarrow> (bool, storage_error) result" where
  "snapshot_exists i s = Ok (0 < length (filter (\<lambda>r. sr_id r = id_bytes i) (t_snapshots s)))"

section \<open>Checkpoints\<close>

definition sources_column :: "env \<Rightarrow> checkpoint \<Rightarrow> (string option, storage_error) result" where
  "sources_column E cp =
     (if cp_sources cp = fmempty then Ok None
      else (case env_sources_to_json E (cp_sources cp) of
              Inl e \<Rightarrow> Err (SSerialization e)
            | Inr js \<Rightarrow> Ok (Some js)))"

definition checkpoint_to_row :: "checkpoint \<Rightarrow> string option \<Rightarrow> checkpoint_row" where
  "checkpoint_to_row cp sources =
     \<lparr>cr_id = id_bytes (cp_id cp), cr_parents = cp_parents cp, cr_snapshots = cp_snapshots cp,
      cr_author = md_author (cp_metadata cp), cr_message = md_message (cp_metadata cp),
      cr_git_anchor = md_git_anchor (cp_metadata cp), cr_created_at = cp_created_at cp,
      cr_sources = sources\<rparr>"

definition row_to_checkpoint :: "env \<Rightarrow> checkpoint_row \<Rightarrow> checkpoint" where
  "row_to_checkpoint E r =
     \<lparr>cp_id = ContentId (cr_id r), cp_parents = cr_parents r, cp_snapshots = cr_snapshots r,
      cp_metadata = \<lparr>md_author = cr_author r, md_message = cr_message r, md_git_anchor = cr_git_anchor r\<rparr>,
      cp_created_at = cr_created_at r,
      cp_sources = (case cr_sources r of
          None \<Rightarrow> fmempty
        | Some js \<Rightarrow> (case env_sources_from_json E js of None \<Rightarrow> fmempty | Some m \<Rightarrow> m))\<rparr>"

definition store_checkpoint :: "env \<Rightarrow> checkpoint \<Rightarrow> unit db_prog" where
  "store_checkpoint E cp =
     sbind (lift_result (sources_column E cp)) (\<lambda>sources.
       update (\<lambda>s. s\<lparr>t_checkpoints := insert_or_ignore cr_id (checkpoint_to_row cp sources) (t_checkpoints s)\<rparr>))"

definition get_checkpoint :: "env \<Rightarrow> checkpoint_id \<Rightarrow> db \<Rightarrow> (checkpoint, storage_error) result" where
  "get_checkpoint E i s =
     and_then (query_row (select_row cr_id (id_bytes i) (t_checkpoints s)))
       (\<lambda>r. Ok (row_to_checkpoint E r))"

definition checkpoint_exists :: "checkpoint_id \<Rightarrow> db \<Rightarrow> (bool, storage_error) result" where
  "checkpoint_exists i s = Ok (0 < length (filter (\<lambda>r. cr_id r = id_bytes i) (t_checkpoints s)))"

definition list_checkpoints :: "env \<Rightarrow> db \<Rightarrow> (checkpoint list, storage_error) result" where
  "list_checkpoints E s =
     Ok (map (row_to_checkpoint E) (order_by_desc cr_created_at (t_checkpoints s)))"

definition delete_checkpoint :: "checkpoint_id \<Rightarrow> unit db_prog" where
  "delete_checkpoint i = (\<lambda>s.
     if list_ex (\<lambda>r. cr_id r = id_bytes i) (t_checkpoints s)
     then (Ok (), s\<lparr>t_checkpoints := filter (\<lambda>r. cr_id r \<noteq> id_bytes i) (t_checkpoints s)\<rparr>)
     else (Err (SNotFound (''checkpoint '' @ to_hex i @ '' not found'')), s))"

section \<open>Branches\<close>

definition store_branch :: "branch \<Rightarrow> unit db_prog" where
  "store_branch b = update (\<lambda>s. s\<lparr>t_branches := insert_or_replace br_name b (t_branches s)\<rparr>)"

definition get_branch :: "string \<Rightarrow> db \<Rightarrow> (branch, storage_error) result" where
  "get_branch name s = query_row (select_row br_name name (t_branches s))"

text \<open>The row of a branch with a new head. Its time is read by the storage.\<close>

abbreviation row_head :: "env \<Rightarrow> branch \<Rightarrow> checkpoint_id \<Rightarrow> branch" where
  "row_head E b head \<equiv> b\<lparr>br_head := head, br_updated_at := env_now E RowClock\<rparr>"

definition update_branch_head :: "env \<Rightarrow> string \<Rightarrow> checkpoint_id \<Rightarrow> unit db_prog" where
  "update_branch_head E name head = update (\<lambda>s. s\<lparr>t_branches :=
     update_rows (\<lambda>b. br_name b = name) (\<lambda>b. row_head E b head) (t_branches s)\<rparr>)"

definition list_branches :: "db \<Rightarrow> (branch list, storage_error) result" where
  "list_branches s = Ok (sort_key br_name (t_branches s))"

definition delete_branch :: "string \<Rightarrow> unit db_prog" where
  "delete_branch name =
     update (\<lambda>s. s\<lparr>t_branches := filter (\<lambda>b. br_name b \<noteq> name) (t_branches s)\<rparr>)"

section \<open>Metadata\<close>

definition store_metadata :: "env \<Rightarrow> string \<Rightarrow> string \<Rightarrow> unit db_prog" where
  "store_metadata E key val = update (\<lambda>s. s\<lparr>t_dag_store :=
     insert_or_replace mr_key \<lparr>mr_key = key, mr_value = val, mr_updated_at = env_now E RowClock\<rparr>
       (t_dag_store s)\<rparr>)"

definition load_metadata :: "string \<Rightarrow> db \<Rightarrow> (string option, storage_error) result" where
  "load_metadata key s =
     (case select_row mr_key key (t_dag_store s) of
        None \<Rightarrow> Ok None
      | Some r \<Rightarrow> (case from_utf8 (mr_value r) of
            None \<Rightarrow> Err (Database (ToSqlConversionFailure ''invalid utf-8''))
          | Some v \<Rightarrow> Ok (Some v)))"

section \<open>Layers\<close>

definition store_layer :: "env \<Rightarrow> layer \<Rightarrow> unit db_prog" where
  "store_layer E l = update (\<lambda>s. s\<lparr>t_layers :=
     insert_or_replace lr_type
       \<lparr>lr_type = layer_name (l_type l), lr_partitions = l_partitions l, lr_created_at = env_now E RowClock,
        lr_updated_at = env_now E RowClock\<rparr>
       (t_layers s)\<rparr>)"

definition get_layer :: "layer_type \<Rightarrow> db \<Rightarrow> (layer, storage_error) result" where
  "get_layer t s =
     and_then (query_row (select_row lr_type (layer_name t) (t_layers s)))
       (\<lambda>r. Ok \<lparr>l_type = t, l_partitions = lr_partitions r\<rparr>)"

definition list_layer_types :: "db \<Rightarrow> (layer_type list, storage_error) result" where
  "list_layer_types s = Ok (List.map_filter layer_from_name (sort (map lr_type (t_layers s))))"

definition delete_layer :: "layer_type \<Rightarrow> unit db_prog" where
  "delete_layer t =
     update (\<lambda>s. s\<lparr>t_layers := filter (\<lambda>r. lr_type r \<noteq> layer_name t) (t_layers s)\<rparr>)"

section \<open>The DAG tables\<close>

definition store_dag_edge_row :: "checkpoint_id \<Rightarrow> checkpoint_id \<Rightarrow> db \<Rightarrow> db" where
  "store_dag_edge_row p c s = s\<lparr>t_dag_edges :=
     insert_or_ignore id (id_bytes p, id_bytes c) (t_dag_edges s)\<rparr>"

definition store_generation_row :: "checkpoint_id \<Rightarrow> nat \<Rightarrow> db \<Rightarrow> db" where
  "store_generation_row n g s = s\<lparr>t_dag_generations :=
     insert_or_replace fst (id_bytes n, int g) (t_dag_generations s)\<rparr>"

definition store_dag_batch ::
    "(checkpoint_id \<times> nat) list \<Rightarrow> (checkpoint_id \<times> checkpoint_id) list \<Rightarrow> unit db_prog" where
  "store_dag_batch nodes edges = update (\<lambda>s.
     fold (\<lambda>(n, g). store_generation_row n g) nodes
       (fold (\<lambda>(p, c). store_dag_edge_row p c) edges s))"

definition store_dag_edge :: "checkpoint_id \<Rightarrow> checkpoint_id \<Rightarrow> nat \<Rightarrow> unit db_prog" where
  "store_dag_edge p c g = update (\<lambda>s.
     let s1 = store_dag_edge_row p c s;
         s2 = store_generation_row c g s1
     in s2\<lparr>t_dag_generations := insert_or_ignore fst (id_bytes p, 0) (t_dag_generations s2)\<rparr>)"

definition delete_dag_node :: "checkpoint_id \<Rightarrow> unit db_prog" where
  "delete_dag_node n = update (\<lambda>s.
     s\<lparr>t_dag_edges := filter (\<lambda>(p, c). \<not> (p = id_bytes n \<or> c = id_bytes n)) (t_dag_edges s),
       t_dag_generations := filter (\<lambda>(k, g). k \<noteq> id_bytes n) (t_dag_generations s)\<rparr>)"

text \<open>A \<open>HashSet\<close> is a list without repetitions, in the order of insertion.\<close>

type_synonym dag_nodes = "(checkpoint_id, checkpoint_id list) fmap"
type_synonym dag_generations = "(checkpoint_id, nat) fmap"

definition set_insert :: "'a \<Rightarrow> 'a list \<Rightarrow> 'a list" where
  "set_insert x xs = (if x \<in> set xs then xs else xs @ [x])"

definition entry_or_default :: "checkpoint_id \<Rightarrow> dag_nodes \<Rightarrow> dag_nodes" where
  "entry_or_default i m = (case fmlookup m i of None \<Rightarrow> fmupd i [] m | Some cs \<Rightarrow> m)"

definition entry_insert :: "checkpoint_id \<Rightarrow> checkpoint_id \<Rightarrow> dag_nodes \<Rightarrow> dag_nodes" where
  "entry_insert p c m = (case fmlookup m p of
       None \<Rightarrow> fmupd p [c] m
     | Some cs \<Rightarrow> fmupd p (set_insert c cs) m)"

definition load_edge :: "bytes \<times> bytes \<Rightarrow> dag_nodes \<Rightarrow> dag_nodes" where
  "load_edge e m = entry_or_default (ContentId (snd e)) (entry_insert (ContentId (fst e)) (ContentId (snd e)) m)"

definition load_dag :: "db \<Rightarrow> (dag_nodes \<times> dag_generations, storage_error) result" where
  "load_dag s =
     Ok (fold load_edge (t_dag_edges s) fmempty,
         fold (\<lambda>(k, g) m. fmupd (ContentId k) (nat g) m) (t_dag_generations s) fmempty)"

definition dag_has_node :: "checkpoint_id \<Rightarrow> db \<Rightarrow> (bool, storage_error) result" where
  "dag_has_node n s = Ok (0 < length (filter (\<lambda>(k, g). k = id_bytes n) (t_dag_generations s)))"

section \<open>Rows and values\<close>

lemma source_roundtrip: "d_source (row_to_delta (delta_to_row E d)) = d_source d"
proof (cases "d_source d")
  case (Agent i)
  then show ?thesis
    by (cases i) (simp add: row_to_delta_def delta_to_row_def source_str_def source_data_def)
qed (simp_all add: row_to_delta_def delta_to_row_def source_str_def source_data_def)

lemma delta_row_roundtrip: "row_to_delta (delta_to_row E d) = d"
proof -
  have "d_id (row_to_delta (delta_to_row E d)) = d_id d"
    "d_file (row_to_delta (delta_to_row E d)) = d_file d"
    "d_diff (row_to_delta (delta_to_row E d)) = d_diff d"
    "d_timestamp (row_to_delta (delta_to_row E d)) = d_timestamp d"
    by (simp_all add: row_to_delta_def delta_to_row_def path_str_def)
  with source_roundtrip [of E d] show ?thesis by simp
qed

text \<open>Only JSON content depends on a codec on its way to a row and back.\<close>

definition content_ok :: "env \<Rightarrow> snapshot \<Rightarrow> bool" where
  "content_ok E x \<longleftrightarrow> (case s_content x of
       Some (JsonMetadata v) \<Rightarrow> env_json_from_slice E (to_bytes E (JsonMetadata v)) = Inr v
     | _ \<Rightarrow> True)"

lemma content_roundtrip:
  "content_ok E x \<Longrightarrow> s_content x = Some c \<Longrightarrow> row_content E (content_type c) (to_bytes E c) = c"
  by (cases c) (simp_all add: row_content_def content_ok_def)

lemma snapshot_row_roundtrip:
  assumes "content_ok E x"
  shows "row_to_snapshot E (snapshot_to_row E x) = x"
proof -
  have "s_content (row_to_snapshot E (snapshot_to_row E x)) = s_content x"
    using content_roundtrip [OF assms]
    by (cases "s_content x") (simp_all add: row_to_snapshot_def snapshot_to_row_def)
  moreover have "s_compression (row_to_snapshot E (snapshot_to_row E x)) = s_compression x"
    by (cases "s_compression x")
      (simp_all add: row_to_snapshot_def snapshot_to_row_def compression_str_def)
  moreover have "s_id (row_to_snapshot E (snapshot_to_row E x)) = s_id x"
    "s_file (row_to_snapshot E (snapshot_to_row E x)) = s_file x"
    "s_deltas (row_to_snapshot E (snapshot_to_row E x)) = s_deltas x"
    "s_parents (row_to_snapshot E (snapshot_to_row E x)) = s_parents x"
    "s_partition_type (row_to_snapshot E (snapshot_to_row E x)) = s_partition_type x"
    "s_created_at (row_to_snapshot E (snapshot_to_row E x)) = s_created_at x"
    "s_has_conflicts (row_to_snapshot E (snapshot_to_row E x)) = s_has_conflicts x"
    "s_source (row_to_snapshot E (snapshot_to_row E x)) = s_source x"
    by (simp_all add: row_to_snapshot_def snapshot_to_row_def path_str_def)
  ultimately show ?thesis by simp
qed

definition sources_ok :: "env \<Rightarrow> checkpoint \<Rightarrow> bool" where
  "sources_ok E cp \<longleftrightarrow> cp_sources cp = fmempty \<or>
     (case env_sources_to_json E (cp_sources cp) of
        Inl e \<Rightarrow> False
      | Inr js \<Rightarrow> env_sources_from_json E js = Some (cp_sources cp))"

lemma sources_okD:
  "sources_ok E cp \<Longrightarrow> \<exists>col. sources_column E cp = Ok col
     \<and> row_to_checkpoint E (checkpoint_to_row cp col) = cp"
  by (auto simp: sources_ok_def sources_column_def row_to_checkpoint_def checkpoint_to_row_def
      split: sum.splits)

section \<open>Interpretations\<close>

lemma row_keys [simp]:
  "dr_id (delta_to_row E d) = id_bytes (d_id d)" "sr_id (snapshot_to_row E x) = id_bytes (s_id x)"
  "cr_id (checkpoint_to_row cp col) = id_bytes (cp_id cp)"
  by (simp_all add: delta_to_row_def snapshot_to_row_def checkpoint_to_row_def)

lemma store_fst [simp]:
  "fst (store_file_node E f c s) = Ok ()" "fst (store_delta E d s) = Ok ()"
  "fst (store_snapshot E x b s) = Ok ()"
  by (simp_all add: store_file_node_def store_delta_def store_snapshot_def update_def)

lemma select_store_file_node:
  "select_row file_node_key k (t_file_nodes (snd (store_file_node E f c s)))
   = (case select_row file_node_key k (t_file_nodes s) of
        Some r \<Rightarrow> Some r
      | None \<Rightarrow> if (file_path f, base_hash f) = k
          then Some \<lparr>fr_path = file_path f, fr_hash = base_hash f, fr_content = c,
                     fr_created_at = env_now E RowClock\<rparr>
          else None)"
  by (simp add: store_file_node_def update_def select_insert_or_ignore file_node_key_def path_str_def)

interpretation file_nodes: content_store
  "\<lambda>(f, c). store_file_node E f c"
  "\<lambda>(p, h) s. and_then (get_file_content p h s) (\<lambda>c. Ok (\<lparr>file_path = p, base_hash = h\<rparr>, c))"
  "\<lambda>(f, c). (file_path f, base_hash f)" "\<lambda>v. True" for E
  by unfold_locales
    (auto simp: get_file_content_def select_store_file_node
      split: option.splits if_splits)

lemma select_store_delta:
  "select_row dr_id k (t_deltas (snd (store_delta E d s)))
   = (case select_row dr_id k (t_deltas s) of
        Some r \<Rightarrow> Some r
      | None \<Rightarrow> if id_bytes (d_id d) = k then Some (delta_to_row E d) else None)"
  by (simp add: store_delta_def update_def select_insert_or_ignore)

interpretation deltas: content_store "store_delta E" get_delta d_id "\<lambda>d. True" for E
  by unfold_locales
    (auto simp: get_delta_def select_store_delta delta_row_roundtrip content_id.expand
      split: option.splits if_splits)

lemma select_store_snapshot:
  "select_row sr_id k (t_snapshots (snd (store_snapshot E x c s)))
   = (case select_row sr_id k (t_snapshots s) of
        Some r \<Rightarrow> Some r
      | None \<Rightarrow> if id_bytes (s_id x) = k then Some (snapshot_to_row E x) else None)"
  by (simp add: store_snapshot_def update_def select_insert_or_ignore)

interpretation snapshots: content_store "\<lambda>x. store_snapshot E x c" "get_snapshot E" s_id "content_ok E"
  for E c
  by unfold_locales
    (auto simp: get_snapshot_def select_store_snapshot snapshot_row_roundtrip content_id.expand
      split: option.splits if_splits)

lemma select_store_checkpoint:
  "sources_column E cp = Ok col \<Longrightarrow>
   select_row cr_id k (t_checkpoints (snd (store_checkpoint E cp s)))
   = (case select_row cr_id k (t_checkpoints s) of
        Some r \<Rightarrow> Some r
      | None \<Rightarrow> if id_bytes (cp_id cp) = k then Some (checkpoint_to_row cp col) else None)"
  by (simp add: store_checkpoint_def sbind_def lift_result_def update_def select_insert_or_ignore)

lemma store_checkpoint_fails:
  "sources_column E cp = Err e \<Longrightarrow> store_checkpoint E cp s = (Err e, s)"
  by (simp add: store_checkpoint_def sbind_def lift_result_def)

lemma sources_column_cases:
  obtains col where "sources_column E cp = Ok col" | e where "sources_column E cp = Err e"
  by (cases "cp_sources cp = fmempty"; cases "env_sources_to_json E (cp_sources cp)")
    (auto simp: sources_column_def)

lemma get_checkpoint_store:
  "get_checkpoint E k (snd (store_checkpoint E cp s)) = get_checkpoint E k s
   \<or> k = cp_id cp \<and> select_row cr_id (id_bytes k) (t_checkpoints s) = None"
proof (cases E cp rule: sources_column_cases)
  case (1 col)
  then show ?thesis
    by (auto simp: get_checkpoint_def select_store_checkpoint content_id.expand split: option.splits)
qed (simp add: store_checkpoint_fails)

interpretation checkpoints: content_store "store_checkpoint E" "get_checkpoint E" cp_id "sources_ok E"
  for E
proof unfold_locales
  fix v :: checkpoint and s
  assume ok: "sources_ok E v"
  from sources_okD [OF this] obtain col where col: "sources_column E v = Ok col"
    "row_to_checkpoint E (checkpoint_to_row v col) = v" by blast
  then show "fst (store_checkpoint E v s) = Ok ()"
    by (simp add: store_checkpoint_def sbind_def lift_result_def update_def)
  assume "\<not> (\<exists>w. get_checkpoint E (cp_id v) s = Ok w)"
  then have "select_row cr_id (id_bytes (cp_id v)) (t_checkpoints s) = None"
    by (auto simp: get_checkpoint_def and_then_eq_Ok)
  with col show "get_checkpoint E (cp_id v) (snd (store_checkpoint E v s)) = Ok v"
    by (simp add: get_checkpoint_def select_store_checkpoint)
next
  fix k and v :: checkpoint and s
  assume "k \<noteq> cp_id v"
  then show "get_checkpoint E k (snd (store_checkpoint E v s)) = get_checkpoint E k s"
    using get_checkpoint_store by blast
next
  fix v w :: checkpoint and s
  assume "get_checkpoint E (cp_id v) s = Ok w"
  then show "get_checkpoint E (cp_id v) (snd (store_checkpoint E v s)) = Ok w"
    using get_checkpoint_store [of E "cp_id v" v s] by (auto simp: get_checkpoint_def)
qed

interpretation branches: overwrite_store store_branch get_branch br_name "\<lambda>b. True"
  by unfold_locales
    (simp_all add: store_branch_def update_def get_branch_def select_insert_or_replace)

interpretation layers: overwrite_store "store_layer E" get_layer l_type "\<lambda>l. True" for E
proof unfold_locales
  fix k and v :: layer and s
  assume "k \<noteq> l_type v"
  then have "layer_name (l_type v) \<noteq> layer_name k"
    by (metis layer_name_roundtrip option.inject)
  then show "get_layer k (snd (store_layer E v s)) = get_layer k s"
    by (simp add: store_layer_def update_def get_layer_def select_insert_or_replace)
qed (simp_all add: store_layer_def update_def get_layer_def select_insert_or_replace)

interpretation metadata: overwrite_store "\<lambda>(k, v). store_metadata E k v"
  "\<lambda>k s. and_then (load_metadata k s) (\<lambda>v. and_then (query_row v) (\<lambda>v. Ok (k, v)))" fst
  "\<lambda>(k, v). utf8_valid v" for E
  by unfold_locales
    (auto simp: store_metadata_def update_def load_metadata_def select_insert_or_replace from_utf8_def)

section \<open>Reading back\<close>

text \<open>The first occurrence of each identifier, in order.\<close>

fun first_occurrences :: "'a list \<Rightarrow> 'a list" where
  "first_occurrences [] = []"
| "first_occurrences (x # xs) = x # filter (\<lambda>y. y \<noteq> x) (first_occurrences xs)"

lemma set_first_occurrences [simp]: "set (first_occurrences xs) = set xs"
  by (induction xs) auto

lemma first_occurrences_distinct: "distinct xs \<Longrightarrow> first_occurrences xs = xs"
  by (induction xs) (auto simp: filter_id_conv)

lemma map_filter_drop:
  "List.map_filter (\<lambda>y. if id_bytes y \<noteq> id_bytes x then fmlookup m (id_bytes y) else None) ys
   = List.map_filter (\<lambda>y. fmlookup m (id_bytes y)) (filter (\<lambda>y. y \<noteq> x) ys)"
  by (induction ys) (auto simp: map_filter_simps content_id.expand split: option.split)

lemma take_deltas_eq:
  "take_deltas m is = List.map_filter (\<lambda>i. fmlookup m (id_bytes i)) (first_occurrences is)"
proof (induction m "is" rule: take_deltas.induct)
  case (2 m i "is")
  show ?case
  proof (cases "fmlookup m (id_bytes i)")
    case None
    have "List.map_filter (\<lambda>j. fmlookup m (id_bytes j)) ys
        = List.map_filter (\<lambda>j. fmlookup m (id_bytes j)) (filter (\<lambda>y. y \<noteq> i) ys)" for ys
      using None by (induction ys) (auto simp: map_filter_simps split: option.split)
    with None 2 show ?thesis by (simp add: map_filter_simps)
  next
    case (Some d)
    with 2 show ?thesis by (simp add: map_filter_simps map_filter_drop)
  qed
qed (simp add: map_filter_simps)

lemma fold_delta_map:
  "distinct (map dr_id rows) \<Longrightarrow>
   fmlookup (fold (\<lambda>r m. fmupd (dr_id r) (row_to_delta r) m) rows m) k
   = (case select_row dr_id k rows of Some r \<Rightarrow> Some (row_to_delta r) | None \<Rightarrow> fmlookup m k)"
proof (induction rows arbitrary: m)
  case (Cons r rows)
  have "dr_id r = k \<Longrightarrow> select_row dr_id k rows = None"
    using Cons.prems by (auto simp: select_row_None list_ex_iff) (metis image_eqI)
  with Cons show ?case by (auto simp: select_row_def split: option.split)
qed simp

lemma distinct_map_filter_rows: "distinct (map f xs) \<Longrightarrow> distinct (map f (filter p xs))"
  by (induction xs) auto

lemma select_row_filter_key:
  "k \<in> K \<Longrightarrow> select_row key k (filter (\<lambda>r. key r \<in> K) rows) = select_row key k rows"
  unfolding select_row_def by (induction rows) auto

lemma result_ok_get_delta:
  "result_ok (get_delta i s) = map_option row_to_delta (select_row dr_id (id_bytes i) (t_deltas s))"
  by (cases "select_row dr_id (id_bytes i) (t_deltas s)") (simp_all add: get_delta_def)

lemma map_filter_cong_set:
  "(\<And>x. x \<in> set xs \<Longrightarrow> f x = g x) \<Longrightarrow> List.map_filter f xs = List.map_filter g xs"
  by (induction xs) (auto simp: map_filter_simps split: option.split)

lemma get_deltas_lookup:
  assumes "distinct (map dr_id (t_deltas s))"
  shows "get_deltas is s = Ok (List.map_filter (\<lambda>i. result_ok (get_delta i s)) (first_occurrences is))"
proof (cases "is = []")
  case False
  let ?rows = "filter (\<lambda>r. dr_id r \<in> set (map id_bytes is)) (t_deltas s)"
  have "fmlookup (delta_map ?rows) (id_bytes i) = result_ok (get_delta i s)" if "i \<in> set is" for i
    using that select_row_filter_key [of "id_bytes i" "set (map id_bytes is)" dr_id "t_deltas s"]
      distinct_map_filter_rows [OF assms]
    by (simp add: delta_map_def fold_delta_map result_ok_get_delta split: option.split)
  with False show ?thesis
    by (auto simp: get_deltas_def take_deltas_eq intro: map_filter_cong_set)
qed (simp add: get_deltas_def map_filter_simps)

lemma map_filter_inverse:
  "(\<And>x. x \<in> set xs \<Longrightarrow> f (g x) = Some x) \<Longrightarrow> List.map_filter f (map g xs) = xs"
  by (induction xs) (auto simp: map_filter_simps)

lemma delta_keys_store:
  "distinct (map dr_id (t_deltas s)) \<Longrightarrow> distinct (map dr_id (t_deltas (snd (store_delta E d s))))"
  by (simp add: store_delta_def update_def insert_or_ignore_distinct)

lemma delta_keys_store_all:
  "distinct (map dr_id (t_deltas s)) \<Longrightarrow>
   distinct (map dr_id (t_deltas (snd (for_each (store_delta E) ds s))))"
proof (induction ds arbitrary: s)
  case (Cons d ds)
  show ?case
    using Cons.IH [OF delta_keys_store [OF Cons.prems]]
    by (simp only: deltas.put_all_Cons [OF TrueI])
qed (simp add: ret_def)

text \<open>A chain of deltas is read back in its order: after storing deltas whose identifiers are
  distinct (and not taken by other deltas), the batch query for their identifiers returns exactly
  these deltas, in the order asked for. In general the batch query returns what the single
  queries find for the first occurrence of each identifier: a repeated identifier is answered once.\<close>

lemma get_deltas_chain:
  assumes "distinct (map dr_id (t_deltas s))" and "distinct (map d_id ds)"
    and "\<And>d x. d \<in> set ds \<Longrightarrow> get_delta (d_id d) s = Ok x \<Longrightarrow> x = d"
  shows "get_deltas (map d_id ds) (snd (for_each (store_delta E) ds s)) = Ok ds
     \<and> get_deltas is s = Ok (List.map_filter (\<lambda>i. result_ok (get_delta i s)) (first_occurrences is))"
proof -
  let ?s = "snd (for_each (store_delta E) ds s)"
  have "get_delta (d_id d) ?s = Ok d" if "d \<in> set ds" for d
    using assms(2,3) that
    by (intro deltas.put_all_get) (auto simp: list_all_iff distinct_map inj_on_def)
  then have "List.map_filter (\<lambda>i. result_ok (get_delta i ?s)) (map d_id ds) = ds"
    by (intro map_filter_inverse) simp
  then show ?thesis
    using get_deltas_lookup [OF delta_keys_store_all [OF assms(1), of E ds], of "map d_id ds"]
      get_deltas_lookup [OF assms(1), of "is"] first_occurrences_distinct [OF assms(2)] by simp
qed

lemma get_deltas_chain_witness:
  "get_deltas [ContentId ''x'', ContentId ''y'']
     (snd (for_each (store_delta sample_env)
       [\<lparr>d_id = ContentId ''x'', d_file = \<lparr>file_path = ''f'', base_hash = []\<rparr>, d_diff = \<lparr>ld_hunks = []\<rparr>,
         d_source = Manual, d_timestamp = 1\<rparr>,
        \<lparr>d_id = ContentId ''y'', d_file = \<lparr>file_path = ''f'', base_hash = []\<rparr>, d_diff = \<lparr>ld_hunks = []\<rparr>,
         d_source = Backup, d_timestamp = 2\<rparr>] empty_db))
   = Ok [\<lparr>d_id = ContentId ''x'', d_file = \<lparr>file_path = ''f'', base_hash = []\<rparr>,
          d_diff = \<lparr>ld_hunks = []\<rparr>, d_source = Manual, d_timestamp = 1\<rparr>,
         \<lparr>d_id = ContentId ''y'', d_file = \<lparr>file_path = ''f'', base_hash = []\<rparr>,
          d_diff = \<lparr>ld_hunks = []\<rparr>, d_source = Backup, d_timestamp = 2\<rparr>]"
  using get_deltas_chain [of empty_db
      "[\<lparr>d_id = ContentId ''x'', d_file = \<lparr>file_path = ''f'', base_hash = []\<rparr>, d_diff = \<lparr>ld_hunks = []\<rparr>,
         d_source = Manual, d_timestamp = 1\<rparr>,
        \<lparr>d_id = ContentId ''y'', d_file = \<lparr>file_path = ''f'', base_hash = []\<rparr>, d_diff = \<lparr>ld_hunks = []\<rparr>,
         d_source = Backup, d_timestamp = 2\<rparr>]" sample_env, THEN conjunct1]
  by (simp add: empty_db_def get_delta_def)

text \<open>C27: snapshots, file contents and checkpoints are immutable once stored. What is stored under a
  free key is read back as it was, and what can be read stays readable and unchanged through any
  later stores of the same kind, even of a different value under the same key.\<close>

theorem stored_objects_are_immutable:
  assumes "content_ok E x" and "\<not> (\<exists>w. get_snapshot E (s_id x) s = Ok w)"
    and "sources_ok E cp" and "\<not> (\<exists>w. get_checkpoint E (cp_id cp) s = Ok w)"
    and "get_snapshot E i s = Ok y" and "get_checkpoint E j s = Ok cq"
    and "get_file_content path h s = Ok fc"
  shows "get_snapshot E (s_id x) (snd (store_snapshot E x bs s)) = Ok x
     \<and> get_checkpoint E (cp_id cp) (snd (store_checkpoint E cp s)) = Ok cp
     \<and> get_snapshot E i (snd (for_each (\<lambda>x. store_snapshot E x bs) xs s)) = Ok y
     \<and> get_checkpoint E j (snd (for_each (store_checkpoint E) cps s)) = Ok cq
     \<and> get_file_content path h (snd (store_file_node E f c s)) = Ok fc"
proof -
  have "get_file_content path h (snd (store_file_node E f c s)) = Ok fc"
    using assms(7) by (auto simp: get_file_content_def select_store_file_node and_then_eq_Ok)
  with assms show ?thesis
    using snapshots.get_put_fresh checkpoints.get_put_fresh snapshots.get_stable_all
      checkpoints.get_stable_all by blast
qed

subsection \<open>A small database\<close>

definition content_snapshot :: snapshot where
  "content_snapshot =
     snapshot_new_with_content sample_env \<lparr>file_path = ''a'', base_hash = []\<rparr> (FileContent ''text'')
       ''file://a'' ''staged'' [] []"

theorem compress_roundtrip_witness:
  "and_then (compress_content sample_env content_snapshot) (decompress_content sample_env)
   = Ok content_snapshot"
proof -
  let ?s = content_snapshot
  let ?c = "?s\<lparr>s_content := Some (Structured (CHR ''z'' # ''text'')), s_compression := Zstd\<rparr>"
  have 1: "s_compression ?s = NoCompression" and 2: "s_content ?s = Some (FileContent ''text'')"
    and 3: "compress_content sample_env ?s = Ok ?c"
    by code_simp+
  have 4: "codec_ok sample_env (FileContent ''text'')" by code_simp
  have 5: "kind_of_source (s_source ?s) = content_type (FileContent ''text'')" by code_simp
  have "decompress_content sample_env ?c = Ok ?s"
    using 2 4 5 by (intro compress_roundtrip [OF 1 _ 3]) simp
  with 3 show ?thesis by simp
qed

definition sample_snapshot :: "string \<Rightarrow> snapshot" where
  "sample_snapshot n =
     \<lparr>s_id = ContentId n, s_file = \<lparr>file_path = ''f'', base_hash = ''h''\<rparr>, s_deltas = [],
      s_parents = [], s_partition_type = ''manual'', s_created_at = 0, s_has_conflicts = False,
      s_content = Some (FileContent n), s_source = ''file://f'', s_compression = NoCompression\<rparr>"

definition sample_checkpoint :: "string \<Rightarrow> checkpoint" where
  "sample_checkpoint n =
     \<lparr>cp_id = ContentId n, cp_parents = [], cp_snapshots = [ContentId ''a''],
      cp_metadata = metadata_new ''me'' n, cp_created_at = 0, cp_sources = fmempty\<rparr>"

definition sample_db :: db where
  "sample_db =
     snd (store_file_node sample_env \<lparr>file_path = ''f'', base_hash = ''h''\<rparr> ''text''
       (snd (store_checkpoint sample_env (sample_checkpoint ''c'')
         (snd (store_snapshot sample_env (sample_snapshot ''a'') [] empty_db)))))"

theorem stored_objects_are_immutable_witness:
  "get_snapshot sample_env (ContentId ''b'')
     (snd (store_snapshot sample_env (sample_snapshot ''b'') [] sample_db)) = Ok (sample_snapshot ''b'')
   \<and> get_snapshot sample_env (ContentId ''a'')
       (snd (for_each (\<lambda>x. store_snapshot sample_env x []) [(sample_snapshot ''a'')\<lparr>s_deltas := [zero_id]\<rparr>]
         sample_db)) = Ok (sample_snapshot ''a'')"
proof -
  have 1: "content_ok sample_env (sample_snapshot ''b'')" "sources_ok sample_env (sample_checkpoint ''d'')"
    by (simp_all add: content_ok_def sample_snapshot_def sources_ok_def sample_checkpoint_def)
  have 2: "get_snapshot sample_env (ContentId ''b'') sample_db = Err (Database QueryReturnedNoRows)"
    "get_checkpoint sample_env (ContentId ''d'') sample_db = Err (Database QueryReturnedNoRows)"
    "get_snapshot sample_env (ContentId ''a'') sample_db = Ok (sample_snapshot ''a'')"
    "get_checkpoint sample_env (ContentId ''c'') sample_db = Ok (sample_checkpoint ''c'')"
    "get_file_content ''f'' ''h'' sample_db = Ok ''text''"
    by code_simp+
  have 3: "s_id (sample_snapshot ''b'') = ContentId ''b''" "cp_id (sample_checkpoint ''d'') = ContentId ''d''"
    by (simp_all add: sample_snapshot_def sample_checkpoint_def)
  show ?thesis
    using stored_objects_are_immutable [OF 1(1) _ 1(2) _ 2(3,4,5), of "[]"
        "[(sample_snapshot ''a'')\<lparr>s_deltas := [zero_id]\<rparr>]"] 2(1,2) 3
    by simp
qed

end
