(* ===== verification/Store_Partitions.thy ===== *)
theory Store_Partitions
  imports Store_Objects
begin

text \<open>
  \<^verbatim>\<open>src/storage/sqlite/partition.rs\<close>: the partitions table with its history table, the invariant
  the operations keep, and the refinement of the in-memory partition operations of \<open>Core_Model\<close>.
  Foreign keys are on: a history row needs its partition.
\<close>

section \<open>Operations\<close>

definition unique_error :: "string \<Rightarrow> storage_error" where
  "unique_error column = Database (SqliteFailure (''UNIQUE constraint failed: '' @ column))"

definition foreign_key_error :: storage_error where
  "foreign_key_error = Database (SqliteFailure ''FOREIGN KEY constraint failed'')"

definition has_partition_row :: "uuid \<Rightarrow> db \<Rightarrow> bool" where
  "has_partition_row pid s = list_ex (\<lambda>r. pr_id r = pid) (t_partitions s)"

definition history_rows :: "uuid \<Rightarrow> db \<Rightarrow> history_row list" where
  "history_rows pid s = filter (\<lambda>r. hr_partition r = pid) (t_history s)"

definition insert_partition_row :: "partition_row \<Rightarrow> unit db_prog" where
  "insert_partition_row r = (\<lambda>s.
     if has_partition_row (pr_id r) s then (Err (unique_error ''partitions.id''), s)
     else if list_ex (\<lambda>q. pr_name q = pr_name r) (t_partitions s)
     then (Err (unique_error ''partitions.name''), s)
     else (Ok (), s\<lparr>t_partitions := t_partitions s @ [r]\<rparr>))"

definition insert_history_row :: "env \<Rightarrow> uuid \<Rightarrow> snapshot_id \<Rightarrow> int \<Rightarrow> unit db_prog" where
  "insert_history_row E pid snap seq = (\<lambda>s.
     if list_ex (\<lambda>r. hr_seq r = seq) (history_rows pid s)
     then (Err (unique_error ''partition_history.partition_id, partition_history.seq''), s)
     else if \<not> has_partition_row pid s then (Err foreign_key_error, s)
     else (Ok (), s\<lparr>t_history := t_history s @
            [\<lparr>hr_partition = pid, hr_snapshot = id_bytes snap, hr_seq = seq, hr_created_at = env_now E RowClock\<rparr>]\<rparr>))"

definition create_partition :: "env \<Rightarrow> partition \<Rightarrow> unit db_prog" where
  "create_partition E p =
     sbind (insert_partition_row
       \<lparr>pr_id = p_id p, pr_name = p_name p, pr_current = id_bytes (p_current p), pr_data = p_type p,
        pr_created_at = env_now E RowClock, pr_updated_at = env_now E RowClock\<rparr>) (\<lambda>_.
     for_each (\<lambda>(seq, snap). insert_history_row E (p_id p) snap (int seq))
       (enumerate 0 (p_history p)))"

text \<open>\<open>COALESCE(MAX(seq), -1)\<close> and \<open>COALESCE(MIN(seq), 0)\<close>.\<close>

definition max_seq :: "uuid \<Rightarrow> db \<Rightarrow> int" where
  "max_seq pid s = (case map hr_seq (history_rows pid s) of [] \<Rightarrow> - 1 | x # xs \<Rightarrow> fold max xs x)"

definition min_seq :: "uuid \<Rightarrow> db \<Rightarrow> int" where
  "min_seq pid s = (case map hr_seq (history_rows pid s) of [] \<Rightarrow> 0 | x # xs \<Rightarrow> fold min xs x)"

definition set_current_row :: "env \<Rightarrow> uuid \<Rightarrow> bytes \<Rightarrow> unit db_prog" where
  "set_current_row E pid snap = update (\<lambda>s. s\<lparr>t_partitions :=
     update_rows (\<lambda>r. pr_id r = pid) (\<lambda>r. r\<lparr>pr_current := snap, pr_updated_at := env_now E RowClock\<rparr>)
       (t_partitions s)\<rparr>)"

definition update_pointer :: "env \<Rightarrow> uuid \<Rightarrow> snapshot_id \<Rightarrow> unit db_prog" where
  "update_pointer E pid snap =
     sbind (set_current_row E pid (id_bytes snap)) (\<lambda>_.
     sbind (query (\<lambda>s. Ok (max_seq pid s))) (\<lambda>m.
     insert_history_row E pid snap (m + 1)))"

definition load_history :: "uuid \<Rightarrow> db \<Rightarrow> snapshot_id list" where
  "load_history pid s = map (\<lambda>r. ContentId (hr_snapshot r)) (sort_key hr_seq (history_rows pid s))"

definition row_to_partition :: "db \<Rightarrow> partition_row \<Rightarrow> partition" where
  "row_to_partition s r =
     \<lparr>p_id = pr_id r, p_name = pr_name r, p_current = ContentId (pr_current r),
      p_history = load_history (pr_id r) s, p_type = pr_data r\<rparr>"

definition get_partition :: "uuid \<Rightarrow> db \<Rightarrow> (partition, storage_error) result" where
  "get_partition pid s =
     and_then (query_row (select_row pr_id pid (t_partitions s))) (\<lambda>r. Ok (row_to_partition s r))"

definition get_partition_by_name :: "string \<Rightarrow> db \<Rightarrow> (partition, storage_error) result" where
  "get_partition_by_name name s =
     and_then (query_row (select_row pr_name name (t_partitions s))) (\<lambda>r. Ok (row_to_partition s r))"

definition list_partitions :: "db \<Rightarrow> (partition list, storage_error) result" where
  "list_partitions s = Ok (map (row_to_partition s) (sort_key pr_name (t_partitions s)))"

definition reset_partition_to_baseline :: "env \<Rightarrow> uuid \<Rightarrow> unit db_prog" where
  "reset_partition_to_baseline E pid =
     sbind (query (\<lambda>s. Ok (min_seq pid s))) (\<lambda>first.
     sbind (query (\<lambda>s. query_row (List.find (\<lambda>r. hr_seq r = first) (history_rows pid s)))) (\<lambda>r.
     sbind (set_current_row E pid (hr_snapshot r)) (\<lambda>_.
     update (\<lambda>s. s\<lparr>t_history :=
       filter (\<lambda>r. \<not> (hr_partition r = pid \<and> first < hr_seq r)) (t_history s)\<rparr>))))"

definition delete_partition :: "uuid \<Rightarrow> unit db_prog" where
  "delete_partition pid =
     sbind (update (\<lambda>s. s\<lparr>t_history := filter (\<lambda>r. hr_partition r \<noteq> pid) (t_history s)\<rparr>)) (\<lambda>_.
     update (\<lambda>s. s\<lparr>t_partitions := filter (\<lambda>r. pr_id r \<noteq> pid) (t_partitions s)\<rparr>))"

section \<open>The invariant\<close>

text \<open>The rows of each history are in increasing order of their sequence numbers, belong to a
  partition, and the last of them is the partition's current snapshot.\<close>

definition row_ok :: "db \<Rightarrow> partition_row \<Rightarrow> bool" where
  "row_ok s r \<longleftrightarrow> history_rows (pr_id r) s \<noteq> []
     \<and> hr_snapshot (last (history_rows (pr_id r) s)) = pr_current r"

definition partitions_ok :: "db \<Rightarrow> bool" where
  "partitions_ok s \<longleftrightarrow>
     distinct (map pr_id (t_partitions s)) \<and> distinct (map pr_name (t_partitions s))
     \<and> (\<forall>pid. sorted_wrt (<) (map hr_seq (history_rows pid s)))
     \<and> (\<forall>h \<in> set (t_history s). has_partition_row (hr_partition h) s)
     \<and> list_all (row_ok s) (t_partitions s)"

lemma load_history_sorted:
  assumes "partitions_ok s"
  shows "load_history pid s = map (\<lambda>r. ContentId (hr_snapshot r)) (history_rows pid s)"
proof -
  have "sorted_wrt (<) (map hr_seq (history_rows pid s))"
    using assms by (simp add: partitions_ok_def)
  then have "sorted (map hr_seq (history_rows pid s))" by (rule strict_sorted_imp_sorted)
  then show ?thesis by (simp add: load_history_def sort_key_id_if_sorted)
qed

lemma fold_max_sorted: "sorted_wrt (<) (x # xs) \<Longrightarrow> fold max xs (x::int) = last (x # xs)"
  by (induction xs arbitrary: x) (auto simp: max_def)

lemma fold_min_sorted: "sorted_wrt (<) (x # xs) \<Longrightarrow> fold min xs (x::int) = x"
  by (induction xs arbitrary: x) (auto simp: min_def)

lemma sorted_le_last: "sorted xs \<Longrightarrow> x \<in> set xs \<Longrightarrow> x \<le> last xs"
  by (induction xs) auto

lemma max_seq_last:
  assumes "partitions_ok s" and "history_rows pid s \<noteq> []"
  shows "max_seq pid s = hr_seq (last (history_rows pid s))"
proof -
  have sorted: "sorted_wrt (<) (map hr_seq (history_rows pid s))"
    using assms(1) by (simp add: partitions_ok_def)
  obtain r rs where rs: "history_rows pid s = r # rs" using assms(2) by (cases "history_rows pid s") auto
  then show ?thesis
    using sorted fold_max_sorted [of "hr_seq r" "map hr_seq rs"]
    by (cases rs) (auto simp: max_seq_def last_map)
qed

lemma max_seq_above:
  assumes "partitions_ok s" and "h \<in> set (history_rows pid s)"
  shows "hr_seq h \<le> max_seq pid s"
proof -
  have ne: "history_rows pid s \<noteq> []" using assms(2) by auto
  have "sorted (map hr_seq (history_rows pid s))"
    using assms(1) by (auto simp: partitions_ok_def intro: strict_sorted_imp_sorted)
  then have "hr_seq h \<le> last (map hr_seq (history_rows pid s))"
    using assms(2) by (intro sorted_le_last) simp_all
  then show ?thesis using max_seq_last [OF assms(1) ne] ne by (simp add: last_map)
qed

lemma pr_id_update [simp]:
  "map pr_id (update_rows p (\<lambda>r. r\<lparr>pr_current := c, pr_updated_at := t\<rparr>) rs) = map pr_id rs"
  "map pr_name (update_rows p (\<lambda>r. r\<lparr>pr_current := c, pr_updated_at := t\<rparr>) rs) = map pr_name rs"
  by (auto simp: update_rows_def)

lemma has_partition_row_iff: "has_partition_row pid s \<longleftrightarrow> pid \<in> set (map pr_id (t_partitions s))"
  by (auto simp: has_partition_row_def list_ex_iff)

lemma has_partition_row_current [simp]:
  "has_partition_row pid (s\<lparr>t_partitions := update_rows p (\<lambda>r. r\<lparr>pr_current := c, pr_updated_at := t\<rparr>)
     (t_partitions s)\<rparr>) = has_partition_row pid s"
  unfolding has_partition_row_iff by simp

lemma history_rows_partitions [simp]: "history_rows pid (s\<lparr>t_partitions := x\<rparr>) = history_rows pid s"
  by (simp add: history_rows_def)

lemma max_seq_partitions [simp]: "max_seq pid (s\<lparr>t_partitions := x\<rparr>) = max_seq pid s"
  by (simp add: max_seq_def)

text \<open>Moving the pointer of an existing partition: what the two statements do together.\<close>

definition pushed :: "env \<Rightarrow> uuid \<Rightarrow> snapshot_id \<Rightarrow> db \<Rightarrow> db" where
  "pushed E pid snap s =
     s\<lparr>t_partitions := update_rows (\<lambda>r. pr_id r = pid)
         (\<lambda>r. r\<lparr>pr_current := id_bytes snap, pr_updated_at := env_now E RowClock\<rparr>) (t_partitions s),
       t_history := t_history s @ [\<lparr>hr_partition = pid, hr_snapshot = id_bytes snap,
         hr_seq = max_seq pid s + 1, hr_created_at = env_now E RowClock\<rparr>]\<rparr>"

lemma update_pointer_run:
  assumes "partitions_ok s"
  shows "update_pointer E pid snap s =
     (if has_partition_row pid s then (Ok (), pushed E pid snap s) else (Err foreign_key_error, s))"
proof -
  have fresh: "\<not> list_ex (\<lambda>r. hr_seq r = max_seq pid s + 1) (history_rows pid s)"
    using max_seq_above [OF assms] by (fastforce simp: list_ex_iff)
  have same: "\<not> has_partition_row pid s \<Longrightarrow> update_rows (\<lambda>r. pr_id r = pid)
         (\<lambda>r. r\<lparr>pr_current := id_bytes snap, pr_updated_at := env_now E RowClock\<rparr>) (t_partitions s) = t_partitions s"
    by (auto simp: has_partition_row_def update_rows_def list_ex_iff intro: map_idI)
  show ?thesis
    using fresh same
    by (auto simp: update_pointer_def set_current_row_def sbind_def update_def query_def
        insert_history_row_def pushed_def)
qed

lemma history_rows_pushed:
  "history_rows q (pushed E pid snap s) = history_rows q s @
     (if q = pid then [\<lparr>hr_partition = pid, hr_snapshot = id_bytes snap, hr_seq = max_seq pid s + 1,
                        hr_created_at = env_now E RowClock\<rparr>] else [])"
  by (simp add: pushed_def history_rows_def)

lemma t_partitions_pushed:
  "t_partitions (pushed E pid snap s) = update_rows (\<lambda>r. pr_id r = pid)
     (\<lambda>r. r\<lparr>pr_current := id_bytes snap, pr_updated_at := env_now E RowClock\<rparr>) (t_partitions s)"
  by (simp add: pushed_def)

lemma pushed_ok:
  assumes "partitions_ok s" and "has_partition_row pid s"
  shows "partitions_ok (pushed E pid snap s)"
proof -
  have "sorted_wrt (<) (map hr_seq (history_rows q (pushed E pid snap s)))" for q
    using assms(1) max_seq_above [OF assms(1)]
    by (fastforce simp: partitions_ok_def history_rows_pushed sorted_wrt_append)
  moreover have "row_ok (pushed E pid snap s) r" if "r \<in> set (t_partitions (pushed E pid snap s))" for r
    using that assms(1)
    by (auto simp: partitions_ok_def row_ok_def history_rows_pushed list_all_iff t_partitions_pushed
        update_rows_def)
  moreover have "has_partition_row q (pushed E pid snap s) = has_partition_row q s" for q
    unfolding has_partition_row_iff t_partitions_pushed by simp
  moreover have "t_history (pushed E pid snap s) = t_history s @ [\<lparr>hr_partition = pid,
      hr_snapshot = id_bytes snap, hr_seq = max_seq pid s + 1, hr_created_at = env_now E RowClock\<rparr>]"
    "map pr_id (t_partitions (pushed E pid snap s)) = map pr_id (t_partitions s)"
    "map pr_name (t_partitions (pushed E pid snap s)) = map pr_name (t_partitions s)"
    by (simp_all add: pushed_def)
  ultimately show ?thesis
    using assms by (auto simp: partitions_ok_def list_all_iff)
qed

text \<open>Resetting: the first history row stays.\<close>

definition reset_to :: "env \<Rightarrow> uuid \<Rightarrow> history_row \<Rightarrow> db \<Rightarrow> db" where
  "reset_to E pid h s =
     s\<lparr>t_partitions := update_rows (\<lambda>r. pr_id r = pid)
         (\<lambda>r. r\<lparr>pr_current := hr_snapshot h, pr_updated_at := env_now E RowClock\<rparr>) (t_partitions s),
       t_history := filter (\<lambda>r. \<not> (hr_partition r = pid \<and> hr_seq h < hr_seq r)) (t_history s)\<rparr>"

lemma t_partitions_reset:
  "t_partitions (reset_to E pid h s) = update_rows (\<lambda>r. pr_id r = pid)
     (\<lambda>r. r\<lparr>pr_current := hr_snapshot h, pr_updated_at := env_now E RowClock\<rparr>) (t_partitions s)"
  by (simp add: reset_to_def)

lemma min_seq_first:
  assumes "partitions_ok s" and "history_rows pid s = h # hs"
  shows "min_seq pid s = hr_seq h"
  using assms fold_min_sorted [of "hr_seq h" "map hr_seq hs"]
  by (metis (no_types, lifting) list.simps(5,9) min_seq_def partitions_ok_def)

lemma reset_run:
  assumes "partitions_ok s"
  shows "reset_partition_to_baseline E pid s =
     (case history_rows pid s of
        [] \<Rightarrow> (Err (Database QueryReturnedNoRows), s)
      | h # hs \<Rightarrow> (Ok (), reset_to E pid h s))"
proof (cases "history_rows pid s")
  case Nil
  then show ?thesis
    by (simp add: reset_partition_to_baseline_def sbind_def query_def)
next
  case (Cons h hs)
  then show ?thesis
    using min_seq_first [OF assms Cons]
    by (simp add: reset_partition_to_baseline_def sbind_def query_def set_current_row_def update_def
        reset_to_def)
qed

lemma history_rows_reset:
  assumes "partitions_ok s" and "history_rows pid s = h # hs"
  shows "history_rows q (reset_to E pid h s) = (if q = pid then [h] else history_rows q s)"
proof (cases "q = pid")
  case True
  have "history_rows pid (reset_to E pid h s) = filter (\<lambda>r. \<not> hr_seq h < hr_seq r) (history_rows pid s)"
    by (auto simp: reset_to_def history_rows_def intro: filter_cong)
  moreover have "sorted_wrt (<) (map hr_seq (h # hs))"
    using assms unfolding partitions_ok_def by metis
  ultimately show ?thesis
    using True assms(2) by (auto simp: filter_empty_conv)
next
  case False
  then show ?thesis by (auto simp: reset_to_def history_rows_def intro: filter_cong)
qed

lemma reset_ok:
  assumes "partitions_ok s" and "history_rows pid s = h # hs"
  shows "partitions_ok (reset_to E pid h s)"
proof -
  note hr = history_rows_reset [OF assms]
  have "sorted_wrt (<) (map hr_seq (history_rows q (reset_to E pid h s)))" for q
    using assms(1) by (simp add: partitions_ok_def hr)
  moreover have "row_ok (reset_to E pid h s) r" if "r \<in> set (t_partitions (reset_to E pid h s))" for r
    using that assms(1)
    by (auto simp: partitions_ok_def row_ok_def hr list_all_iff t_partitions_reset update_rows_def)
  moreover have "has_partition_row q (reset_to E pid h s) = has_partition_row q s" for q
    unfolding has_partition_row_iff t_partitions_reset by simp
  moreover have "set (t_history (reset_to E pid h s)) \<subseteq> set (t_history s)"
    "map pr_id (t_partitions (reset_to E pid h s)) = map pr_id (t_partitions s)"
    "map pr_name (t_partitions (reset_to E pid h s)) = map pr_name (t_partitions s)"
    by (auto simp: reset_to_def)
  ultimately show ?thesis
    using assms(1) by (auto simp: partitions_ok_def list_all_iff)
qed

section \<open>Creation and deletion\<close>

definition history_row :: "env \<Rightarrow> uuid \<Rightarrow> nat \<times> snapshot_id \<Rightarrow> history_row" where
  "history_row E pid e = \<lparr>hr_partition = pid, hr_snapshot = id_bytes (snd e), hr_seq = int (fst e),
     hr_created_at = env_now E RowClock\<rparr>"

definition partition_to_row :: "env \<Rightarrow> partition \<Rightarrow> partition_row" where
  "partition_to_row E p =
     \<lparr>pr_id = p_id p, pr_name = p_name p, pr_current = id_bytes (p_current p), pr_data = p_type p,
      pr_created_at = env_now E RowClock, pr_updated_at = env_now E RowClock\<rparr>"

definition created :: "env \<Rightarrow> partition \<Rightarrow> db \<Rightarrow> db" where
  "created E p s =
     s\<lparr>t_partitions := t_partitions s @ [partition_to_row E p],
       t_history := t_history s @ map (history_row E (p_id p)) (enumerate 0 (p_history p))\<rparr>"

lemma history_rows_append:
  "history_rows q (s\<lparr>t_history := t_history s @ rs\<rparr>)
   = history_rows q s @ filter (\<lambda>r. hr_partition r = q) rs"
  by (simp add: history_rows_def)

lemma has_partition_row_history [simp]: "has_partition_row q (s\<lparr>t_history := x\<rparr>) = has_partition_row q s"
  by (simp add: has_partition_row_def)

lemma insert_history_run:
  assumes "has_partition_row pid s" and "\<forall>r \<in> set (history_rows pid s). hr_seq r < int n"
  shows "for_each (\<lambda>(seq, snap). insert_history_row E pid snap (int seq)) (enumerate n hs) s
       = (Ok (), s\<lparr>t_history := t_history s @ map (history_row E pid) (enumerate n hs)\<rparr>)"
  using assms
proof (induction hs arbitrary: n s)
  case (Cons h hs)
  let ?s = "s\<lparr>t_history := t_history s @ [history_row E pid (n, h)]\<rparr>"
  have run: "insert_history_row E pid h (int n) s = (Ok (), ?s)"
    using Cons.prems by (auto simp: insert_history_row_def list_ex_iff history_row_def)
  have "has_partition_row pid ?s" using Cons.prems(1) by simp
  moreover have "\<forall>r \<in> set (history_rows pid ?s). hr_seq r < int (Suc n)"
    using Cons.prems(2) by (auto simp: history_rows_append history_row_def)
  ultimately show ?case
    using Cons.IH [of ?s "Suc n"] by (simp add: sbind_apply_Ok [where m = "insert_history_row E pid h (int n)", OF run])
qed (simp add: ret_def)

lemma no_partition_no_history:
  "partitions_ok s \<Longrightarrow> \<not> has_partition_row pid s \<Longrightarrow> history_rows pid s = []"
  by (auto simp: partitions_ok_def history_rows_def filter_empty_conv)

lemma create_run:
  assumes "partitions_ok s"
  shows "create_partition E p s =
     (if has_partition_row (p_id p) s then (Err (unique_error ''partitions.id''), s)
      else if list_ex (\<lambda>q. pr_name q = p_name p) (t_partitions s)
      then (Err (unique_error ''partitions.name''), s)
      else (Ok (), created E p s))"
proof (cases "has_partition_row (p_id p) s \<or> list_ex (\<lambda>q. pr_name q = p_name p) (t_partitions s)")
  case True
  then show ?thesis
    by (auto simp: create_partition_def insert_partition_row_def sbind_def)
next
  case False
  let ?s = "s\<lparr>t_partitions := t_partitions s @ [partition_to_row E p]\<rparr>"
  have "has_partition_row (p_id p) ?s"
    by (simp add: has_partition_row_def partition_to_row_def)
  moreover have "history_rows (p_id p) ?s = []"
    using no_partition_no_history [OF assms] False by simp
  ultimately have "for_each (\<lambda>(seq, snap). insert_history_row E (p_id p) snap (int seq))
      (enumerate 0 (p_history p)) ?s = (Ok (), created E p s)"
    using insert_history_run [of "p_id p" ?s 0] by (simp add: created_def)
  with False show ?thesis
    by (simp add: create_partition_def insert_partition_row_def sbind_def flip: partition_to_row_def)
      (simp add: partition_to_row_def)
qed

lemma history_rows_created:
  assumes "partitions_ok s" and "\<not> has_partition_row (p_id p) s"
  shows "history_rows q (created E p s) =
     (if q = p_id p then map (history_row E (p_id p)) (enumerate 0 (p_history p)) else history_rows q s)"
proof -
  have "history_rows q (created E p s) = history_rows q s
      @ filter (\<lambda>r. hr_partition r = q) (map (history_row E (p_id p)) (enumerate 0 (p_history p)))"
    by (simp add: created_def history_rows_def)
  then show ?thesis
    using no_partition_no_history [OF assms]
    by (auto simp: filter_map comp_def history_row_def)
qed

lemma enumerate_seqs:
  "map hr_seq (map (history_row E pid) (enumerate n hs)) = map int [n..<n + length hs]"
  by (simp add: history_row_def comp_def flip: map_map [unfolded comp_def])

lemma sorted_wrt_int_upt: "sorted_wrt (<) (map int [n..<m])"
  by (simp add: sorted_wrt_map)

lemma created_ok:
  assumes "partitions_ok s" and "\<not> has_partition_row (p_id p) s"
    and "\<not> list_ex (\<lambda>q. pr_name q = p_name p) (t_partitions s)" and "partition_wf p"
  shows "partitions_ok (created E p s)"
proof -
  note hr = history_rows_created [OF assms(1,2)]
  have tp: "t_partitions (created E p s) = t_partitions s @ [partition_to_row E p]"
    by (simp add: created_def)
  have "sorted_wrt (<) (map hr_seq (history_rows q (created E p s)))" for q
    using assms(1) enumerate_seqs [of E "p_id p" 0 "p_history p"] sorted_wrt_int_upt
    by (auto simp: partitions_ok_def hr simp del: map_map)
  moreover have "row_ok (created E p s) (partition_to_row E p)"
  proof -
    obtain h where h: "p_history p = h @ [p_current p]"
      using assms(4) by (metis append_butlast_last_id partition_wf_def)
    show ?thesis by (simp add: row_ok_def hr partition_to_row_def h enumerate_append_eq history_row_def)
  qed
  moreover have "row_ok (created E p s) r" if "r \<in> set (t_partitions s)" for r
  proof -
    have "pr_id r \<noteq> p_id p"
      using that assms(2) by (metis has_partition_row_iff image_eqI list.set_map)
    with that assms(1) show ?thesis by (auto simp: partitions_ok_def row_ok_def hr list_all_iff)
  qed
  moreover have "has_partition_row q (created E p s) \<longleftrightarrow> has_partition_row q s \<or> q = p_id p" for q
    by (auto simp: has_partition_row_iff tp partition_to_row_def)
  moreover have "has_partition_row (hr_partition h) (created E p s)"
    if "h \<in> set (t_history (created E p s))" for h
    using that assms(1)
    by (auto simp: created_def history_row_def has_partition_row_def partitions_ok_def partition_to_row_def)
  ultimately show ?thesis
    using assms unfolding partitions_ok_def tp
    by (auto simp: list_all_iff list_ex_iff has_partition_row_iff partition_to_row_def)
qed

lemma delete_run:
  "delete_partition pid s =
     (Ok (), s\<lparr>t_history := filter (\<lambda>r. hr_partition r \<noteq> pid) (t_history s),
               t_partitions := filter (\<lambda>r. pr_id r \<noteq> pid) (t_partitions s)\<rparr>)"
  by (simp add: delete_partition_def sbind_def update_def)

lemma delete_ok:
  assumes "partitions_ok s"
  shows "partitions_ok (snd (delete_partition pid s))"
proof -
  let ?s = "snd (delete_partition pid s)"
  have hr: "history_rows q ?s = (if q = pid then [] else history_rows q s)" for q
    by (auto simp: delete_run history_rows_def filter_empty_conv intro: filter_cong)
  have tp: "t_partitions ?s = filter (\<lambda>r. pr_id r \<noteq> pid) (t_partitions s)"
    by (simp add: delete_run)
  have th: "t_history ?s = filter (\<lambda>r. hr_partition r \<noteq> pid) (t_history s)"
    by (simp add: delete_run)
  have "row_ok ?s r" if "r \<in> set (t_partitions ?s)" for r
    using that assms by (auto simp: tp partitions_ok_def row_ok_def hr list_all_iff)
  then show ?thesis
    using assms unfolding partitions_ok_def tp th
    by (auto simp: hr list_all_iff has_partition_row_iff tp distinct_map_filter)
qed

section \<open>The contract\<close>

definition pointer_view :: "uuid \<Rightarrow> db \<Rightarrow> snapshot_id list option" where
  "pointer_view pid s = (if has_partition_row pid s then Some (load_history pid s) else None)"

lemma has_row_history:
  "partitions_ok s \<Longrightarrow> has_partition_row pid s \<Longrightarrow> history_rows pid s \<noteq> []"
  by (auto simp: partitions_ok_def has_partition_row_iff row_ok_def list_all_iff)

lemma view_pushed:
  assumes "partitions_ok s" and "has_partition_row pid s"
  shows "pointer_view q (pushed E pid snap s) =
     (if q = pid then Some (load_history pid s @ [snap]) else pointer_view q s)"
proof -
  have "has_partition_row q (pushed E pid snap s) = has_partition_row q s"
    unfolding has_partition_row_iff t_partitions_pushed by simp
  then show ?thesis
    using assms load_history_sorted [OF assms(1)] load_history_sorted [OF pushed_ok [OF assms]]
    by (simp add: pointer_view_def history_rows_pushed)
qed

lemma view_reset:
  assumes "partitions_ok s" and "history_rows pid s = h # hs"
  shows "pointer_view q (reset_to E pid h s) =
     (if q = pid \<and> has_partition_row pid s then Some [ContentId (hr_snapshot h)] else pointer_view q s)"
proof -
  have "has_partition_row q (reset_to E pid h s) = has_partition_row q s"
    unfolding has_partition_row_iff t_partitions_reset by simp
  then show ?thesis
    using assms load_history_sorted [OF assms(1)] load_history_sorted [OF reset_ok [OF assms]]
    by (simp add: pointer_view_def history_rows_reset [OF assms])
qed

interpretation pointers: pointer_store "update_pointer E" "reset_partition_to_baseline E" pointer_view
    partitions_ok for E
proof unfold_locales
  fix s p h c
  assume ok: "partitions_ok s" and v: "pointer_view p s = Some h"
  then have row: "has_partition_row p s" and h: "h = load_history p s"
    by (auto simp: pointer_view_def split: if_splits)
  then show "fst (update_pointer E p c s) = Ok () \<and>
      pointer_view p (snd (update_pointer E p c s)) = Some (h @ [c])"
    using ok by (simp add: update_pointer_run view_pushed)
  obtain r rs where r: "history_rows p s = r # rs"
    using has_row_history [OF ok row] by (cases "history_rows p s") auto
  with row ok h show "fst (reset_partition_to_baseline E p s) = Ok () \<and>
      pointer_view p (snd (reset_partition_to_baseline E p s)) = Some (take 1 h)"
    by (simp add: reset_run view_reset load_history_sorted)
  from r h ok show "h \<noteq> []" by (simp add: load_history_sorted)
next
  fix s and q p :: uuid and c
  assume "partitions_ok s" and "q \<noteq> p"
  then show "pointer_view q (snd (update_pointer E p c s)) = pointer_view q s"
    by (simp add: update_pointer_run view_pushed)
next
  fix s and p :: uuid and c
  assume "partitions_ok s"
  then show "partitions_ok (snd (update_pointer E p c s))"
    by (simp add: update_pointer_run pushed_ok)
next
  fix s and q p :: uuid
  assume "partitions_ok s" and "q \<noteq> p"
  then show "pointer_view q (snd (reset_partition_to_baseline E p s)) = pointer_view q s"
    by (cases "history_rows p s") (simp_all add: reset_run view_reset)
next
  fix s and p :: uuid
  assume "partitions_ok s"
  then show "partitions_ok (snd (reset_partition_to_baseline E p s))"
    by (cases "history_rows p s") (simp_all add: reset_run reset_ok)
qed

lemma get_partition_Ok:
  "get_partition pid s = Ok p \<longleftrightarrow>
     (\<exists>r. select_row pr_id pid (t_partitions s) = Some r \<and> p = row_to_partition s r)"
  by (auto simp: get_partition_def and_then_eq_Ok)

lemma get_partition_wf:
  assumes "partitions_ok s" and "get_partition pid s = Ok p"
  shows "partition_wf p \<and> has_partition_row pid s \<and> p_history p = load_history pid s \<and> p_id p = pid"
proof -
  obtain r where r: "select_row pr_id pid (t_partitions s) = Some r" "p = row_to_partition s r"
    using assms(2) by (auto simp: get_partition_Ok)
  with select_row_SomeD [OF r(1)] assms(1)
  have ok: "row_ok s r" "pr_id r = pid" "has_partition_row pid s"
    by (auto simp: partitions_ok_def list_all_iff has_partition_row_iff)
  with r(2) load_history_sorted [OF assms(1)] show ?thesis
    by (simp add: partition_wf_def row_to_partition_def row_ok_def last_map)
qed

lemma load_history_view: "has_partition_row pid s \<Longrightarrow> pointer_view pid s = Some (load_history pid s)"
  by (simp add: pointer_view_def)

lemma get_after_current:
  assumes "t_partitions s' = update_rows (\<lambda>r. pr_id r = pid)
      (\<lambda>r. r\<lparr>pr_current := c, pr_updated_at := t\<rparr>) (t_partitions s)"
    and "get_partition pid s = Ok p"
  shows "get_partition pid s' = Ok (p\<lparr>p_current := ContentId c, p_history := load_history pid s'\<rparr>)"
proof -
  obtain r where r: "select_row pr_id pid (t_partitions s) = Some r" "p = row_to_partition s r"
    using assms(2) by (auto simp: get_partition_Ok)
  moreover have "pr_id r = pid" using select_row_SomeD [OF r(1)] by simp
  ultimately show ?thesis
    by (simp add: get_partition_def assms(1) select_update row_to_partition_def)
qed

text \<open>C19: the database partition refines the in-memory one. On a consistent database, moving the
  pointer of a stored partition succeeds and the partition read afterwards is the old one
  advanced; resetting it gives the partition rolled back to the first entry of its history; a
  stored partition always points at the end of its history.\<close>

theorem pointer_refines_partition:
  assumes "partitions_ok s" and "get_partition pid s = Ok p"
  shows "partition_wf p
     \<and> fst (update_pointer E pid c s) = Ok ()
     \<and> get_partition pid (snd (update_pointer E pid c s)) = Ok (advance p c)
     \<and> fst (reset_partition_to_baseline E pid s) = Ok ()
     \<and> get_partition pid (snd (reset_partition_to_baseline E pid s))
       = Ok (snd (partition_rollback_to p (hd (p_history p))))"
proof -
  note wf = get_partition_wf [OF assms]
  then have row: "has_partition_row pid s" and hist: "p_history p = load_history pid s" by simp_all
  note view = load_history_view [OF row]
  note push = pointers.push_view [OF assms(1) view, of E c]
  note reset = pointers.reset_view [OF assms(1) view, of E]
  have "load_history pid (pushed E pid c s) = p_history p @ [c]"
    using push hist by (simp add: update_pointer_run [OF assms(1)] row pointer_view_def split: if_splits)
  then have adv: "get_partition pid (snd (update_pointer E pid c s)) = Ok (advance p c)"
    using get_after_current [OF t_partitions_pushed assms(2), of E c]
    by (simp add: update_pointer_run [OF assms(1)] row advance_def)
  obtain h hs where h: "history_rows pid s = h # hs"
    using has_row_history [OF assms(1) row] by (cases "history_rows pid s") auto
  then have hd: "p_history p = ContentId (hr_snapshot h) # map (\<lambda>r. ContentId (hr_snapshot r)) hs"
    using hist load_history_sorted [OF assms(1)] by simp
  have "load_history pid (reset_to E pid h s) = [ContentId (hr_snapshot h)]"
    using load_history_sorted [OF reset_ok [OF assms(1) h]] history_rows_reset [OF assms(1) h] by simp
  then have "get_partition pid (snd (reset_partition_to_baseline E pid s))
      = Ok (snd (partition_rollback_to p (hd (p_history p))))"
    using get_after_current [OF t_partitions_reset assms(2), of E h] hd h
    by (simp add: reset_run [OF assms(1)] partition_rollback_to_def)
  with wf push reset adv show ?thesis by simp
qed

text \<open>C25: every partition operation keeps the database consistent, also when it fails: sequence
  numbers stay increasing, histories stay attached to their partitions, identifiers and names stay
  unique. Creating a partition with a new identifier and name makes it readable; a taken one is
  refused, and moving the pointer of a missing partition violates the foreign key; a refused call
  leaves the database as it was.\<close>

theorem partition_store_consistent:
  assumes "partitions_ok s" and "partition_wf p"
  shows "partitions_ok (snd (create_partition E p s))
     \<and> partitions_ok (snd (update_pointer E pid c s))
     \<and> partitions_ok (snd (reset_partition_to_baseline E pid s))
     \<and> partitions_ok (snd (delete_partition pid s))
     \<and> (fst (create_partition E p s) = Ok () \<longrightarrow>
          get_partition (p_id p) (snd (create_partition E p s)) = Ok p)
     \<and> (fst (create_partition E p s) = Ok () \<longleftrightarrow>
          \<not> has_partition_row (p_id p) s \<and> \<not> list_ex (\<lambda>q. pr_name q = p_name p) (t_partitions s))
     \<and> (fst (create_partition E p s) \<noteq> Ok () \<longrightarrow> snd (create_partition E p s) = s)
     \<and> (\<not> has_partition_row pid s \<longrightarrow> update_pointer E pid c s = (Err foreign_key_error, s))"
proof -
  have "partitions_ok (snd (create_partition E p s))"
    using created_ok [OF assms(1) _ _ assms(2)] assms(1) by (simp add: create_run)
  moreover have "get_partition (p_id p) (snd (create_partition E p s)) = Ok p"
    if "fst (create_partition E p s) = Ok ()"
  proof -
    have new: "\<not> has_partition_row (p_id p) s" "\<not> list_ex (\<lambda>q. pr_name q = p_name p) (t_partitions s)"
      using that by (auto simp: create_run [OF assms(1)] split: if_splits)
    then have none: "select_row pr_id (p_id p) (t_partitions s) = None"
      by (auto simp: select_row_None has_partition_row_def)
    have "load_history (p_id p) (created E p s) = p_history p"
      using load_history_sorted [OF created_ok [OF assms(1) new assms(2)]]
        history_rows_created [OF assms(1) new(1)]
      by (simp add: history_row_def comp_def)
    with new none show ?thesis
      by (simp add: create_run [OF assms(1)] get_partition_def created_def select_row_append
          partition_to_row_def row_to_partition_def)
  qed
  ultimately show ?thesis
    using assms(1) pointers.push_good pointers.reset_good delete_ok
    by (auto simp: create_run update_pointer_run pushed_ok)
qed

subsection \<open>A partition in a small database\<close>

definition sample_partition :: partition where
  "sample_partition = \<lparr>p_id = 1, p_name = ''manual'', p_current = ContentId ''a'',
     p_history = [ContentId ''a''], p_type = PManual\<rparr>"

definition sample_partition_db :: db where
  "sample_partition_db = snd (create_partition sample_env sample_partition sample_db)"

lemma partitions_ok_empty: "t_partitions s = [] \<Longrightarrow> t_history s = [] \<Longrightarrow> partitions_ok s"
  by (simp add: partitions_ok_def history_rows_def)

lemma sample_db_partitions: "t_partitions sample_db = []" "t_history sample_db = []"
  by code_simp+

lemma sample_partition_wf: "partition_wf sample_partition"
  by (simp add: partition_wf_def sample_partition_def)

lemma sample_partition_db_ok: "partitions_ok sample_partition_db"
  using created_ok [of sample_db sample_partition sample_env] sample_db_partitions sample_partition_wf
  by (simp add: sample_partition_db_def create_run partitions_ok_empty has_partition_row_def)

lemma sample_partition_get: "get_partition 1 sample_partition_db = Ok sample_partition"
  by code_simp

theorem pointer_refines_partition_witness:
  "get_partition 1 (snd (update_pointer sample_env 1 (ContentId ''b'') sample_partition_db))
     = Ok (advance sample_partition (ContentId ''b''))"
  using pointer_refines_partition [OF sample_partition_db_ok sample_partition_get] by simp

theorem partition_store_consistent_witness:
  "partitions_ok (snd (create_partition sample_env (sample_partition\<lparr>p_id := 2\<rparr>) sample_partition_db))
   \<and> snd (create_partition sample_env (sample_partition\<lparr>p_id := 2\<rparr>) sample_partition_db)
     = sample_partition_db"
proof -
  have "fst (create_partition sample_env (sample_partition\<lparr>p_id := 2\<rparr>) sample_partition_db) \<noteq> Ok ()"
    by code_simp
  moreover have "partition_wf (sample_partition\<lparr>p_id := 2\<rparr>)"
    using sample_partition_wf by (simp add: partition_wf_def)
  ultimately show ?thesis
    using partition_store_consistent [OF sample_partition_db_ok] by metis
qed

end
