(* ===== verification/Store_Atomic.thy ===== *)
theory Store_Atomic
  imports Store_Partitions
begin

text \<open>
  \<^verbatim>\<open>src/storage/sqlite/connection.rs\<close>: the connection with its stack of open savepoints,
  \<open>with_atomic\<close>, the batch store that uses it, and the statements that clear tables.
\<close>

section \<open>Savepoints\<close>

text \<open>A savepoint saves the database as it is when the savepoint is opened. \<open>RELEASE\<close> closes the
  innermost savepoint of that name, \<open>ROLLBACK TO\<close> restores its database and keeps it open. All
  savepoints of the program have one name.\<close>

record conn =
  c_db :: db
  c_savepoints :: "db list"

type_synonym 'a conn_prog = "(conn, 'a, storage_error) prog"

definition on_db :: "(db, 'a, 'e) prog \<Rightarrow> (conn, 'a, 'e) prog" where
  "on_db m = (\<lambda>c. case m (c_db c) of (r, s) \<Rightarrow> (r, c\<lparr>c_db := s\<rparr>))"

definition no_savepoint :: storage_error where
  "no_savepoint = Database (SqliteFailure ''no such savepoint: atomic_savepoint'')"

definition open_savepoint :: "unit conn_prog" where
  "open_savepoint = (\<lambda>c. (Ok (), c\<lparr>c_savepoints := c_db c # c_savepoints c\<rparr>))"

definition release_savepoint :: "unit conn_prog" where
  "release_savepoint = (\<lambda>c. case c_savepoints c of
       [] \<Rightarrow> (Err no_savepoint, c)
     | s # ss \<Rightarrow> (Ok (), c\<lparr>c_savepoints := ss\<rparr>))"

definition rollback_to_savepoint :: "unit conn_prog" where
  "rollback_to_savepoint = (\<lambda>c. case c_savepoints c of
       [] \<Rightarrow> (Err no_savepoint, c)
     | s # ss \<Rightarrow> (Ok (), c\<lparr>c_db := s\<rparr>))"

definition with_atomic :: "'a conn_prog \<Rightarrow> 'a conn_prog" where
  "with_atomic f = sbind open_savepoint (\<lambda>_. (\<lambda>c. case f c of
       (Ok v, c') \<Rightarrow> sbind release_savepoint (\<lambda>_. ret v) c'
     | (Err e, c') \<Rightarrow> sbind rollback_to_savepoint (\<lambda>_. fail e) c'
     | (Panic, c') \<Rightarrow> (Panic, c')))"

text \<open>What a crash or a closed connection leaves: nothing after the outermost open savepoint.\<close>

definition durable :: "conn \<Rightarrow> db" where
  "durable c = last (c_db c # c_savepoints c)"

definition store_snapshots_batch :: "env \<Rightarrow> (snapshot \<times> bytes) list \<Rightarrow> unit conn_prog" where
  "store_snapshots_batch E xs =
     with_atomic (for_each (\<lambda>(x, content). on_db (store_snapshot E x content)) xs)"

section \<open>Clearing tables\<close>

definition clear_all_checkpoints :: "nat db_prog" where
  "clear_all_checkpoints = (\<lambda>s. (Ok (length (t_checkpoints s)), s\<lparr>t_checkpoints := []\<rparr>))"

definition clear_all_branches :: "nat db_prog" where
  "clear_all_branches = (\<lambda>s. (Ok (length (t_branches s)), s\<lparr>t_branches := []\<rparr>))"

definition clear_all_layers :: "nat db_prog" where
  "clear_all_layers = (\<lambda>s. (Ok (length (t_layers s)), s\<lparr>t_layers := []\<rparr>))"

definition clear_all_snapshots :: "nat db_prog" where
  "clear_all_snapshots = (\<lambda>s. (Ok (length (t_snapshots s)), s\<lparr>t_snapshots := []\<rparr>))"

definition clear_all_deltas :: "nat db_prog" where
  "clear_all_deltas = (\<lambda>s. (Ok (length (t_deltas s)), s\<lparr>t_deltas := []\<rparr>))"

section \<open>What an atomic block guarantees\<close>

lemma on_db_savepoints [simp]: "c_savepoints (snd (on_db m c)) = c_savepoints c"
  by (simp add: on_db_def split: prod.split)

lemma on_db_apply: "on_db m c = (fst (m (c_db c)), c\<lparr>c_db := snd (m (c_db c))\<rparr>)"
  by (simp add: on_db_def split: prod.split)

text \<open>C36: an atomic block whose body leaves the savepoints as it found them keeps the body's effect
  when the body succeeds and restores the database when it fails. But a failed block leaves its
  savepoint open: the connection is inside a transaction from then on, and what later calls
  write is not durable.\<close>

theorem with_atomic_outcome:
  assumes "\<And>c. c_savepoints (snd (f c)) = c_savepoints c"
  shows "(case f (c\<lparr>c_savepoints := c_db c # c_savepoints c\<rparr>) of
       (Ok v, c') \<Rightarrow> with_atomic f c = (Ok v, c'\<lparr>c_savepoints := c_savepoints c\<rparr>)
     | (Err e, c') \<Rightarrow>
         fst (with_atomic f c) = Err e \<and> c_db (snd (with_atomic f c)) = c_db c
         \<and> c_savepoints (snd (with_atomic f c)) = c_db c # c_savepoints c
         \<and> (c_savepoints c = [] \<longrightarrow> durable (snd (on_db m (snd (with_atomic f c)))) = c_db c)
     | (Panic, c') \<Rightarrow> fst (with_atomic f c) = Panic)"
proof -
  let ?c = "c\<lparr>c_savepoints := c_db c # c_savepoints c\<rparr>"
  obtain r c' where f: "f ?c = (r, c')" by (cases "f ?c")
  have sp: "c_savepoints c' = c_db c # c_savepoints c" using assms [of ?c] f by simp
  show ?thesis
    using f sp
    by (cases r) (auto simp: with_atomic_def open_savepoint_def sbind_def release_savepoint_def
        rollback_to_savepoint_def ret_def fail_def durable_def on_db_apply)
qed

theorem with_atomic_outcome_witness:
  "fst (with_atomic (fail no_savepoint :: unit conn_prog) \<lparr>c_db = empty_db, c_savepoints = []\<rparr>)
     = Err no_savepoint
   \<and> durable (snd (on_db (store_branch \<lparr>br_name = ''main'', br_head = zero_id, br_created_at = 0,
        br_updated_at = 0\<rparr>)
      (snd (with_atomic (fail no_savepoint :: unit conn_prog) \<lparr>c_db = empty_db, c_savepoints = []\<rparr>))))
     = empty_db"
  using with_atomic_outcome [of "fail no_savepoint :: unit conn_prog" "\<lparr>c_db = empty_db, c_savepoints = []\<rparr>"
      "store_branch \<lparr>br_name = ''main'', br_head = zero_id, br_created_at = 0, br_updated_at = 0\<rparr>"]
  by (simp add: fail_def)

lemma for_each_on_db_savepoints:
  "c_savepoints (snd (for_each (\<lambda>(x, content). on_db (store_snapshot E x content)) xs c)) = c_savepoints c"
proof (induction xs arbitrary: c)
  case (Cons x xs)
  then show ?case
    by (cases x) (simp add: sbind_def on_db_apply split: prod.split result.split)
qed (simp add: ret_def)

lemma for_each_on_db_store:
  "for_each (\<lambda>(x, content). on_db (store_snapshot E x content)) xs c
   = (Ok (), c\<lparr>c_db := snd (for_each (\<lambda>(x, content). store_snapshot E x content) xs (c_db c))\<rparr>)"
proof (induction xs arbitrary: c)
  case (Cons x xs)
  then show ?case
    by (cases x) (simp add: sbind_def on_db_apply store_snapshot_def update_def)
qed (simp add: ret_def)

text \<open>The batch is the sequence of single stores, and releases its savepoint.\<close>

lemma store_snapshots_batch_run:
  "store_snapshots_batch E xs c
   = (Ok (), c\<lparr>c_db := snd (for_each (\<lambda>(x, content). store_snapshot E x content) xs (c_db c))\<rparr>)"
  by (cases c) (simp add: store_snapshots_batch_def with_atomic_def open_savepoint_def sbind_def
      for_each_on_db_store release_savepoint_def ret_def)

end
