(* ===== verification/Engine_Apply.thy ===== *)
theory Engine_Apply
  imports Engine_Diff
begin

text \<open>
  The delta application of \<^verbatim>\<open>src/engine/merge.rs\<close>: \<open>apply_line_diff\<close> on lines and
  \<open>apply_deltas\<close> on texts, a reference semantics of patches as lists of line changes, and the
  round trip with the differ.
\<close>

section \<open>Applying a difference\<close>

text \<open>The operations of one hunk: the lines they emit and the old position they reach. The slice
  \<open>&lines[pos..pos + c]\<close> of an \<open>Equal\<close> panics out of range.\<close>

fun apply_ops :: "string list \<Rightarrow> nat \<Rightarrow> diff_op list \<Rightarrow> (string list, lt_error) result" where
  "apply_ops ls pos [] = Ok []"
| "apply_ops ls pos (Equal c # ops) =
     (if pos + unat c \<le> length ls
      then and_then (apply_ops ls (pos + unat c) ops)
             (\<lambda>r. Ok (segment ls pos (pos + unat c) @ r))
      else Panic)"
| "apply_ops ls pos (Delete os c # ops) = apply_ops ls (pos + unat c) ops"
| "apply_ops ls pos (Insert ns new # ops) = and_then (apply_ops ls pos ops) (\<lambda>r. Ok (new @ r))"
| "apply_ops ls pos (Replace os oc ns new # ops) =
     and_then (apply_ops ls (pos + unat oc) ops) (\<lambda>r. Ok (new @ r))"

text \<open>\<open>saturating_sub(1)\<close> on a \<open>u32\<close> is the truncated subtraction of its value.\<close>

definition hunk_first :: "hunk \<Rightarrow> nat" where
  "hunk_first h = unat (h_old_start h) - 1"

definition hunk_end :: "hunk \<Rightarrow> nat" where
  "hunk_end h = hunk_first h + unat (h_old_len h)"

definition overlap_error :: "hunk \<Rightarrow> nat \<Rightarrow> lt_error" where
  "overlap_error h pos = Engine (''Overlapping hunk: old_start='' @ show_nat (unat (h_old_start h))
     @ '', processed to position '' @ show_nat pos)"

definition range_error :: "hunk \<Rightarrow> string list \<Rightarrow> lt_error" where
  "range_error h ls = Engine (''Hunk out of range: old_start='' @ show_nat (unat (h_old_start h))
     @ '', old_len='' @ show_nat (unat (h_old_len h)) @ '', total rows='' @ show_nat (length ls))"

fun apply_hunks :: "string list \<Rightarrow> nat \<Rightarrow> hunk list \<Rightarrow> (string list, lt_error) result" where
  "apply_hunks ls pos [] = Ok (drop pos ls)"
| "apply_hunks ls pos (h # hs) =
     (if hunk_first h < pos then Err (overlap_error h pos)
      else if length ls < hunk_end h then Err (range_error h ls)
      else and_then (apply_ops ls (hunk_first h) (h_ops h)) (\<lambda>mid.
             and_then (apply_hunks ls (hunk_end h) hs) (\<lambda>rest.
               Ok (segment ls pos (hunk_first h) @ mid @ rest))))"

definition apply_line_diff :: "string list \<Rightarrow> line_diff \<Rightarrow> (string list, lt_error) result" where
  "apply_line_diff ls d = apply_hunks ls 0 (ld_hunks d)"

fun apply_diffs :: "string list \<Rightarrow> line_diff list \<Rightarrow> (string list, lt_error) result" where
  "apply_diffs ls [] = Ok ls"
| "apply_diffs ls (d # ds) = and_then (apply_line_diff ls d) (\<lambda>ls'. apply_diffs ls' ds)"

definition apply_deltas :: "string \<Rightarrow> delta list \<Rightarrow> (string, lt_error) result" where
  "apply_deltas content deltas =
     (if deltas = [] then Ok content
      else and_then (apply_diffs (str_lines content) (map d_diff deltas)) (\<lambda>ls.
             let r = join_with [newline] ls in
             Ok (if ends_with content [newline] \<and> r \<noteq> [] then r @ [newline] else r)))"

section \<open>Well-formed differences\<close>

text \<open>The old lines a hunk's operations consume; in a well-formed hunk they are its
  \<open>old_len\<close>, and an \<open>Equal\<close> stays inside the text.\<close>

fun op_old_count :: "diff_op \<Rightarrow> nat" where
  "op_old_count (Equal c) = unat c"
| "op_old_count (Delete os c) = unat c"
| "op_old_count (Insert ns ls) = 0"
| "op_old_count (Replace os oc ns ls) = unat oc"

definition hunk_wf :: "hunk \<Rightarrow> bool" where
  "hunk_wf h \<longleftrightarrow> sum_list (map op_old_count (h_ops h)) = unat (h_old_len h)"

fun hunks_in_order :: "nat \<Rightarrow> nat \<Rightarrow> hunk list \<Rightarrow> bool" where
  "hunks_in_order n pos [] = (pos \<le> n)"
| "hunks_in_order n pos (h # hs) =
     (pos \<le> hunk_first h \<and> hunk_end h \<le> n \<and> hunks_in_order n (hunk_end h) hs)"

definition line_diff_wf :: "nat \<Rightarrow> line_diff \<Rightarrow> bool" where
  "line_diff_wf n d \<longleftrightarrow> list_all hunk_wf (ld_hunks d) \<and> hunks_in_order n 0 (ld_hunks d)"

text \<open>The reference semantics: a patch is a list of changes, each the first old line, the
  number of old lines replaced, and the new lines.\<close>

type_synonym change = "nat \<times> nat \<times> string list"

fun patch :: "string list \<Rightarrow> nat \<Rightarrow> change list \<Rightarrow> string list" where
  "patch ls pos [] = drop pos ls"
| "patch ls pos ((s, n, new) # cs) = segment ls pos s @ new @ patch ls (s + n) cs"

fun ops_changes :: "nat \<Rightarrow> diff_op list \<Rightarrow> change list" where
  "ops_changes pos [] = []"
| "ops_changes pos (Equal c # ops) = ops_changes (pos + unat c) ops"
| "ops_changes pos (Delete os c # ops) = (pos, unat c, []) # ops_changes (pos + unat c) ops"
| "ops_changes pos (Insert ns new # ops) = (pos, 0, new) # ops_changes pos ops"
| "ops_changes pos (Replace os oc ns new # ops) =
     (pos, unat oc, new) # ops_changes (pos + unat oc) ops"

definition hunk_changes :: "hunk \<Rightarrow> change list" where
  "hunk_changes h = ops_changes (hunk_first h) (h_ops h)"

definition diff_changes :: "line_diff \<Rightarrow> change list" where
  "diff_changes d = concat (map hunk_changes (ld_hunks d))"

text \<open>Operations that stay inside the text emit their lines, and running the changes they stand
  for, followed by any later ones, gives the same lines and continues behind them.\<close>

lemma patch_segment:
  assumes "pos \<le> p" and "p \<le> length ls" and "case cs of [] \<Rightarrow> True | (s, n, new) # _ \<Rightarrow> p \<le> s"
  shows "patch ls pos cs = segment ls pos p @ patch ls p cs"
  using assms
  by (cases cs) (auto simp: segment_append_drop segment_append_segment simp flip: append_assoc)

fun changes_from :: "nat \<Rightarrow> change list \<Rightarrow> bool" where
  "changes_from pos [] = True"
| "changes_from pos ((s, n, new) # cs) = (pos \<le> s \<and> changes_from (s + n) cs)"

lemma changes_from_mono: "changes_from q cs \<Longrightarrow> p \<le> q \<Longrightarrow> changes_from p cs"
  by (cases cs) auto

lemma patch_from:
  assumes "changes_from p cs" and "pos \<le> p" and "p \<le> length ls"
  shows "patch ls pos cs = segment ls pos p @ patch ls p cs"
  using assms by (intro patch_segment) (auto split: list.split)

lemma changes_from_append_ops:
  "changes_from (pos + sum_list (map op_old_count ops)) cs \<Longrightarrow>
   changes_from pos (ops_changes pos ops @ cs)"
  by (induction pos ops rule: ops_changes.induct)
    (auto simp: add.assoc intro: changes_from_mono)

lemma apply_ops_patch:
  assumes "pos + sum_list (map op_old_count ops) \<le> length ls"
    and "changes_from (pos + sum_list (map op_old_count ops)) cs"
  shows "\<exists>out. apply_ops ls pos ops = Ok out
     \<and> patch ls pos (ops_changes pos ops @ cs)
       = out @ patch ls (pos + sum_list (map op_old_count ops)) cs"
  using assms
proof (induction pos ops rule: ops_changes.induct)
  case (2 pos c ops)
  then obtain out where "apply_ops ls (pos + unat c) ops = Ok out"
    and "patch ls (pos + unat c) (ops_changes (pos + unat c) ops @ cs)
       = out @ patch ls (pos + unat c + sum_list (map op_old_count ops)) cs"
    by (auto simp: add.assoc)
  moreover have "patch ls pos (ops_changes (pos + unat c) ops @ cs)
      = segment ls pos (pos + unat c) @ patch ls (pos + unat c) (ops_changes (pos + unat c) ops @ cs)"
    using 2 by (intro patch_from changes_from_append_ops) (auto simp: add.assoc)
  ultimately show ?case using 2 by (simp add: add.assoc)
qed (auto simp: add.assoc)

lemma apply_hunks_patch:
  assumes "list_all hunk_wf hs" and "hunks_in_order (length ls) pos hs"
  shows "apply_hunks ls pos hs = Ok (patch ls pos (concat (map hunk_changes hs)))
     \<and> changes_from pos (concat (map hunk_changes hs))"
  using assms
proof (induction hs arbitrary: pos)
  case (Cons h hs)
  let ?cs = "concat (map hunk_changes hs)" and ?p = "hunk_first h"
  from Cons have IH: "apply_hunks ls (hunk_end h) hs = Ok (patch ls (hunk_end h) ?cs)"
    and from0: "changes_from (hunk_end h) ?cs" by auto
  have end0: "?p + sum_list (map op_old_count (h_ops h)) = hunk_end h"
    using Cons.prems(1) by (simp add: hunk_wf_def hunk_end_def)
  obtain out where out: "apply_ops ls ?p (h_ops h) = Ok out"
    "patch ls ?p (hunk_changes h @ ?cs) = out @ patch ls (hunk_end h) ?cs"
    using apply_ops_patch [of ?p "h_ops h" ls ?cs] from0 Cons.prems(2) end0
    by (auto simp: hunk_changes_def)
  have cf: "changes_from ?p (hunk_changes h @ ?cs)"
    using from0 end0 by (simp add: hunk_changes_def changes_from_append_ops)
  then have "patch ls pos (hunk_changes h @ ?cs) = segment ls pos ?p @ patch ls ?p (hunk_changes h @ ?cs)"
    using Cons.prems(2) by (intro patch_from) (auto simp: hunk_end_def)
  with out IH Cons.prems(2) cf show ?case
    by (auto simp: hunk_end_def intro: changes_from_mono)
qed simp

text \<open>C18: on a well-formed difference (hunks in order, inside the text, each consuming exactly its
  \<open>old_len\<close> lines) the incremental application neither fails nor panics and computes the
  reference patch of the changes the difference stands for.\<close>

theorem apply_line_diff_patch:
  assumes "line_diff_wf (length ls) d"
  shows "apply_line_diff ls d = Ok (patch ls 0 (diff_changes d))"
  using assms apply_hunks_patch [of "ld_hunks d" ls 0]
  by (simp add: line_diff_wf_def apply_line_diff_def diff_changes_def)

theorem apply_line_diff_patch_witness:
  "apply_line_diff [''a'', ''b'', ''c'']
     \<lparr>ld_hunks = [\<lparr>h_old_start = 1, h_old_len = 3, h_new_start = 1, h_new_len = 3,
        h_ops = [Equal 1, Replace 2 1 2 [''x''], Equal 1]\<rparr>]\<rparr> = Ok [''a'', ''x'', ''c'']"
  using apply_line_diff_patch [of "[''a'', ''b'', ''c'']"
     "\<lparr>ld_hunks = [\<lparr>h_old_start = 1, h_old_len = 3, h_new_start = 1, h_new_len = 3,
        h_ops = [Equal 1, Replace 2 1 2 [''x''], Equal 1]\<rparr>]\<rparr>"]
  by (simp add: line_diff_wf_def hunk_wf_def hunk_end_def hunk_first_def diff_changes_def
      hunk_changes_def segment_def)

section \<open>Failures\<close>

lemma apply_ops_in_range:
  "pos + sum_list (map op_old_count ops) \<le> length ls \<Longrightarrow> \<exists>out. apply_ops ls pos ops = Ok out"
  by (induction ls pos ops rule: apply_ops.induct) (auto simp: add.assoc and_then_eq_Ok)

lemma apply_hunks_outcome:
  assumes "list_all hunk_wf hs" and "pos \<le> length ls"
  shows "apply_hunks ls pos hs \<noteq> Panic
     \<and> ((\<exists>r. apply_hunks ls pos hs = Ok r) \<longleftrightarrow> hunks_in_order (length ls) pos hs)"
  using assms
proof (induction hs arbitrary: pos)
  case (Cons h hs)
  show ?case
  proof (cases "pos \<le> hunk_first h \<and> hunk_end h \<le> length ls")
    case True
    with Cons.prems obtain out where "apply_ops ls (hunk_first h) (h_ops h) = Ok out"
      using apply_ops_in_range [of "hunk_first h" "h_ops h" ls] by (auto simp: hunk_wf_def hunk_end_def)
    with True Cons.prems Cons.IH [of "hunk_end h"] show ?thesis
      by (cases "apply_hunks ls (hunk_end h) hs") (auto simp: not_less)
  next
    case False
    then show ?thesis by (auto simp: not_less not_le)
  qed
qed simp

text \<open>For hunks that consume their declared lines, the application never panics; it succeeds
  exactly when the hunks are in order and inside the text, and fails otherwise. The first hunk
  that starts before the processed position gives the overlap error with that position, and a
  hunk that reaches beyond the last line gives the range error.\<close>

lemma apply_line_diff_outcome:
  assumes "list_all hunk_wf (ld_hunks d)"
  shows "apply_line_diff ls d \<noteq> Panic
     \<and> ((\<exists>r. apply_line_diff ls d = Ok r) \<longleftrightarrow> line_diff_wf (length ls) d)
     \<and> (hunk_first h < pos \<longrightarrow> apply_hunks ls pos (h # hs) = Err (overlap_error h pos))
     \<and> (pos \<le> hunk_first h \<and> length ls < hunk_end h \<longrightarrow>
          apply_hunks ls pos (h # hs) = Err (range_error h ls))"
  using assms apply_hunks_outcome [of "ld_hunks d" 0 ls]
  by (simp add: line_diff_wf_def apply_line_diff_def)

lemma apply_line_diff_outcome_witness:
  "\<exists>h. apply_line_diff [''a'', ''b''] \<lparr>ld_hunks = [h, h]\<rparr> \<noteq> Panic
     \<and> \<not> (\<exists>r. apply_line_diff [''a'', ''b''] \<lparr>ld_hunks = [h, h]\<rparr> = Ok r)"
proof -
  let ?h = "\<lparr>h_old_start = 1, h_old_len = 1, h_new_start = 1, h_new_len = 0, h_ops = [Delete 1 1]\<rparr>"
  show ?thesis
    using apply_line_diff_outcome [of "\<lparr>ld_hunks = [?h, ?h]\<rparr>" "[''a'', ''b'']"]
    by (intro exI [of _ ?h]) (simp add: line_diff_wf_def hunk_wf_def hunk_first_def hunk_end_def)
qed

text \<open>A slice of an \<open>Equal\<close> beyond the text does panic: a stored difference whose operations
  disagree with its header is not caught by the range check.\<close>

lemma apply_line_diff_panics:
  "apply_line_diff [''a''] \<lparr>ld_hunks = [\<lparr>h_old_start = 1, h_old_len = 1, h_new_start = 1,
     h_new_len = 1, h_ops = [Equal 2]\<rparr>]\<rparr> = Panic"
  by (simp add: apply_line_diff_def hunk_first_def hunk_end_def)

section \<open>The differ and the application are inverse\<close>

lemma unat_range_count:
  "snd r \<le> n \<Longrightarrow> n < 2 ^ 32 - 1 \<Longrightarrow> unat (range_count r) = snd r - fst r"
  unfolding range_count_def by (rule unat_of_nat_u32) simp

lemma unat_range_start:
  assumes "fst r < 2 ^ 32 - 1"
  shows "unat (range_start r) = Suc (fst r)"
proof -
  have "range_start r = (of_nat (Suc (fst r)) :: u32)" by (simp add: range_start_def add.commute)
  moreover have "unat (of_nat (Suc (fst r)) :: u32) = Suc (fst r)"
    using assms by (intro unat_of_nat_u32) simp
  ultimately show ?thesis by simp
qed

lemma ops_chain_last:
  "ops_chain old new i j ops = Some (i', j') \<Longrightarrow> ops \<noteq> [] \<Longrightarrow>
     snd (op_old_range (last ops)) = i' \<and> snd (op_new_range (last ops)) = j'"
  by (induction ops arbitrary: i j) (auto split: if_splits)

lemma op_ok_D:
  assumes "op_ok old new op" and "op_old_range op = (i, i')" and "op_new_range op = (j, j')"
  shows "i \<le> i'" "i' \<le> length old" "j \<le> j'" "j' \<le> length new"
    "op_tag op = TagEqual \<Longrightarrow> segment old i i' = segment new j j'"
    "op_tag op = TagDelete \<Longrightarrow> j' = j" "op_tag op = TagInsert \<Longrightarrow> i' = i"
  using assms by (auto simp: op_ok_def)

lemma apply_ops_convert:
  assumes "ops_chain (tokens old) (tokens new) i j ops = Some (i', j')"
    and "list_all (\<lambda>op. env_iter_changes E old new op = op_changes (tokens old) (tokens new) op) ops"
    and "text_ok old" and "text_ok new" and "i \<le> length (tokens old)" and "j \<le> length (tokens new)"
  shows "apply_ops (str_lines old) i (map (convert_op E old new) ops)
           = Ok (segment (str_lines new) j j')
       \<and> i \<le> i' \<and> i' \<le> length (tokens old) \<and> j \<le> j' \<and> j' \<le> length (tokens new)
       \<and> sum_list (map op_old_count (map (convert_op E old new) ops)) = i' - i"
  using assms(1,2,5,6)
proof (induction ops arbitrary: i j)
  case (Cons op ops)
  obtain i1 j1 where ranges: "op_old_range op = (i, i1)" "op_new_range op = (j, j1)"
    using Cons.prems(1) by (cases "op_old_range op"; cases "op_new_range op") (auto split: if_splits)
  with Cons.prems(1) have ok: "op_ok (tokens old) (tokens new) op"
    and chain: "ops_chain (tokens old) (tokens new) i1 j1 ops = Some (i', j')"
    by (auto split: if_splits)
  note D = op_ok_D [OF ok ranges]
  have IH: "apply_ops (str_lines old) i1 (map (convert_op E old new) ops)
      = Ok (segment (str_lines new) j1 j')" "i1 \<le> i'" "i' \<le> length (tokens old)" "j1 \<le> j'"
      "j' \<le> length (tokens new)"
      "sum_list (map op_old_count (map (convert_op E old new) ops)) = i' - i1"
    using Cons.IH [OF chain] Cons.prems(2) D by auto
  have count: "unat (range_count (i, i1)) = i1 - i"
    using D(2) assms(3) unat_range_count [of "(i, i1)"] by (simp add: text_ok_def)
  have seg: "segment (str_lines new) j j1 @ segment (str_lines new) j1 j' = segment (str_lines new) j j'"
    using D(3) IH(4) by (rule segment_append_segment)
  have equal: "op_tag op = TagEqual \<Longrightarrow> segment (str_lines old) i i1 = segment (str_lines new) j j1"
    using D(5) by (simp add: str_lines_def segment_map)
  have lines: "map strip_newline (segment (tokens new) j j1) = segment (str_lines new) j j1"
    using assms(4) by (intro lines_of_segment) (simp add: text_ok_def)
  have changes: "env_iter_changes E old new op = op_changes (tokens old) (tokens new) op"
    using Cons.prems(2) by simp
  show ?case
    using D IH count seg lines equal changes ranges
    by (cases "op_tag op")
      (simp_all add: convert_op_simps op_changes_def length_str_lines comp_def filter_map)
qed simp

lemma apply_hunks_diff:
  assumes "groups_ok (tokens old) (tokens new) i j gs"
    and "list_all (list_all (\<lambda>op. env_iter_changes E old new op
           = op_changes (tokens old) (tokens new) op)) gs"
    and "text_ok old" and "text_ok new" and "i \<le> length (tokens old)" and "j \<le> length (tokens new)"
  shows "\<exists>hs. collect_results (convert_group E old new) gs = Ok hs
     \<and> apply_hunks (str_lines old) i hs = Ok (drop j (str_lines new))
     \<and> hunks_in_order (length (str_lines old)) i hs \<and> list_all hunk_wf hs"
  using assms(1,2,5,6)
proof (induction "tokens old" "tokens new" i j gs rule: groups_ok.induct)
  case (1 i j)
  then have "map strip_line_end (drop i (tokens old)) = map strip_line_end (drop j (tokens new))"
    by simp
  with 1 show ?case by (simp add: str_lines_def drop_map)
next
  case (3 i j op ops gs)
  let ?o = "tokens old" and ?n = "tokens new" and ?g = "op # ops"
  obtain i1 j1 where st: "fst (op_old_range op) = i1" "fst (op_new_range op) = j1" by blast
  from 3(2) st obtain i2 j2 where le: "i \<le> i1" "j \<le> j1" and eq: "segment ?o i i1 = segment ?n j j1"
    and chain: "ops_chain ?o ?n i1 j1 ?g = Some (i2, j2)" and gs: "groups_ok ?o ?n i2 j2 gs"
    by (auto simp: Let_def split: option.splits)
  from chain have ok: "op_ok ?o ?n op" by (auto split: if_splits)
  then have in_range: "i1 \<le> length ?o" "j1 \<le> length ?n"
    using st by (auto simp: op_ok_def split: prod.splits)
  have ap: "apply_ops (str_lines old) i1 (map (convert_op E old new) ?g) = Ok (segment (str_lines new) j1 j2)"
    and b: "i1 \<le> i2" "i2 \<le> length ?o" "j1 \<le> j2" "j2 \<le> length ?n"
    and cnts: "sum_list (map op_old_count (map (convert_op E old new) ?g)) = i2 - i1"
    using apply_ops_convert [OF chain _ assms(3,4) in_range] 3(3) by auto
  obtain hs where hs: "collect_results (convert_group E old new) gs = Ok hs"
    "apply_hunks (str_lines old) i2 hs = Ok (drop j2 (str_lines new))"
    "hunks_in_order (length (str_lines old)) i2 hs" "list_all hunk_wf hs"
    using 3(1) [OF st(1) [symmetric] st(2) [symmetric] chain refl gs] 3(3) b by auto
  obtain h where h: "convert_group E old new ?g = Ok h" "h_ops h = map (convert_op E old new) ?g"
    "hunk_first h = i1" "hunk_end h = i2" "unat (h_old_len h) = i2 - i1"
  proof -
    let ?l = "if ops = [] then op else last ops"
    have last: "snd (op_old_range ?l) = i2"
      using ops_chain_last [OF chain] by simp
    have cnt: "unat (of_nat (i2 - i1) :: u32) = i2 - i1"
      using b(2) assms(3) by (intro unat_of_nat_u32) (auto simp: text_ok_def)
    have "unat (range_start (op_old_range op)) = Suc i1"
      using st in_range(1) assms(3) by (subst unat_range_start) (auto simp: text_ok_def)
    then show thesis
      using last cnt b(1) st(1)
      by (intro that, simp add: convert_group_def list_last_def)
        (simp_all add: hunk_first_def hunk_end_def)
  qed
  have pre: "segment (str_lines old) i i1 = segment (str_lines new) j j1"
    using eq by (simp add: str_lines_def segment_map)
  have "segment (str_lines new) j j1 @ segment (str_lines new) j1 j2 @ drop j2 (str_lines new)
      = drop j (str_lines new)"
    using le(2) b(3) by (simp add: segment_append_drop)
  moreover have "hunk_wf h" unfolding hunk_wf_def using h(2,5) cnts by presburger
  ultimately show ?case
    using hs h ap pre le b by (simp add: length_str_lines del: list.map)
qed simp

lemma diff_to_line_diff_Ok:
  assumes "diff_contract E old new" and "text_ok old" and "text_ok new"
  shows "\<exists>d. diff_to_line_diff E old new = Ok d"
  using apply_hunks_diff [of old new 0 0 "env_grouped_ops E old new" E] assms
  by (auto simp: diff_contract_def diff_to_line_diff_def)

lemma diff_to_line_diff_wf:
  assumes "diff_contract E old new" and "text_ok old" and "text_ok new"
    and "diff_to_line_diff E old new = Ok d"
  shows "line_diff_wf (length (str_lines old)) d"
  using apply_hunks_diff [of old new 0 0 "env_grouped_ops E old new" E] assms
  by (auto simp: diff_contract_def diff_to_line_diff_def line_diff_wf_def and_then_eq_Ok
      split: if_splits)

lemma diff_apply_lines:
  assumes "diff_contract E old new" and "text_ok old" and "text_ok new"
    and "diff_to_line_diff E old new = Ok d"
  shows "apply_line_diff (str_lines old) d = Ok (str_lines new)"
proof (cases "old = new")
  case True
  with assms show ?thesis by (auto simp: diff_to_line_diff_def apply_line_diff_def)
next
  case False
  obtain hs where "collect_results (convert_group E old new) (env_grouped_ops E old new) = Ok hs"
    "apply_hunks (str_lines old) 0 hs = Ok (drop 0 (str_lines new))"
    using apply_hunks_diff [of old new 0 0 "env_grouped_ops E old new" E] assms
    by (auto simp: diff_contract_def)
  with False assms(4) show ?thesis by (auto simp: diff_to_line_diff_def apply_line_diff_def)
qed

text \<open>C5: under the documented contract of the differ, the difference of two texts (of fewer than
  \<open>2 ^ 32 - 1\<close> lines and without carriage returns) is computed without a panic, and applying it to the lines of the
  old text gives exactly the lines of the new one.\<close>

theorem diff_then_apply:
  assumes "diff_contract E old new" and "text_ok old" and "text_ok new"
  shows "\<exists>d. diff_to_line_diff E old new = Ok d
     \<and> apply_line_diff (str_lines old) d = Ok (str_lines new)"
  using diff_to_line_diff_Ok [OF assms] diff_apply_lines [OF assms] by blast

theorem diff_then_apply_witness:
  "\<exists>d. diff_to_line_diff sample_env (''a'' @ [newline] @ ''b'') ''c'' = Ok d
     \<and> apply_line_diff (str_lines (''a'' @ [newline] @ ''b'')) d = Ok (str_lines ''c'')"
  by (rule diff_then_apply) (simp_all add: sample_env_contract text_ok_def)

text \<open>A chain of edits: each delta holds the difference of a text and the next one.\<close>

fun diff_chain :: "env \<Rightarrow> string \<Rightarrow> string list \<Rightarrow> delta list \<Rightarrow> bool" where
  "diff_chain E t [] ds = (ds = [])"
| "diff_chain E t (u # us) [] = False"
| "diff_chain E t (u # us) (d # ds) =
     (diff_contract E t u \<and> text_ok u \<and> diff_to_line_diff E t u = Ok (d_diff d)
      \<and> diff_chain E u us ds)"

lemma apply_diffs_chain:
  "diff_chain E t ts ds \<Longrightarrow> text_ok t \<Longrightarrow>
   apply_diffs (str_lines t) (map d_diff ds) = Ok (str_lines (last (t # ts))) \<and> text_ok (last (t # ts))"
  by (induction E t ts ds rule: diff_chain.induct) (auto simp: diff_apply_lines)

text \<open>What \<open>apply_deltas\<close> makes of the final lines: the newline at the end of the base text is
  the one that is kept, whatever the edits said.\<close>

definition restore_newline :: "string \<Rightarrow> string list \<Rightarrow> string" where
  "restore_newline base ls =
     (let r = join_with [newline] ls in
      if ends_with base [newline] \<and> r \<noteq> [] then r @ [newline] else r)"

lemma restore_newline_exact:
  assumes "carriage_return \<notin> set new"
    and "new = [] \<or> ends_with base [newline] = ends_with new [newline] \<and> new \<noteq> [newline]"
  shows "restore_newline base (str_lines new) = new"
proof (cases "new = []")
  case False
  with join_str_lines [OF assms(1)]
  have j: "join_with [newline] (str_lines new) = (if last new = newline then butlast new else new)"
    by simp
  have ends: "ends_with new [newline] \<longleftrightarrow> last new = newline"
    using False by (simp add: ends_with_single)
  show ?thesis
  proof (cases "last new = newline")
    case True
    with False have nw: "butlast new @ [newline] = new" by (metis append_butlast_last_id)
    with assms(2) False have "butlast new \<noteq> []" by auto
    with True nw j ends assms(2) False show ?thesis by (auto simp: restore_newline_def)
  next
    case nl: False
    with j ends assms(2) False show ?thesis by (auto simp: restore_newline_def)
  qed
qed (simp add: restore_newline_def)

text \<open>C28: rebuilding a file from its base text and the deltas of a chain of edits gives the last text
  of the chain: exactly, when that text is empty or ends like the base (and is not a lone
  newline), and always up to its final newline, which is the base's.\<close>

theorem apply_deltas_chain:
  assumes "diff_chain E t ts ds" and "ts \<noteq> []" and "text_ok t"
  shows "apply_deltas t ds = Ok (restore_newline t (str_lines (last ts)))
     \<and> ((last ts = [] \<or> ends_with t [newline] = ends_with (last ts) [newline] \<and> last ts \<noteq> [newline])
        \<longrightarrow> apply_deltas t ds = Ok (last ts))"
proof -
  from assms(1,2) have ds: "ds \<noteq> []" by (cases ts; cases ds) auto
  from apply_diffs_chain [OF assms(1,3)] assms(2)
  have lines: "apply_diffs (str_lines t) (map d_diff ds) = Ok (str_lines (last ts))"
    and ok: "text_ok (last ts)" by simp_all
  then have "apply_deltas t ds = Ok (restore_newline t (str_lines (last ts)))"
    using ds by (simp add: apply_deltas_def restore_newline_def Let_def)
  moreover from ok have "carriage_return \<notin> set (last ts)" by (simp add: text_ok_def)
  ultimately show ?thesis using restore_newline_exact by fastforce
qed

theorem apply_deltas_chain_witness:
  "\<exists>d. apply_deltas (''a'' @ [newline])
     [\<lparr>d_id = zero_id, d_file = \<lparr>file_path = ''f'', base_hash = []\<rparr>, d_diff = d, d_source = Manual,
       d_timestamp = 0\<rparr>] = Ok (''b'' @ [newline])"
proof -
  have "text_ok (''a'' @ [newline])" and "text_ok (''b'' @ [newline])"
    by (simp_all add: text_ok_def)
  with diff_to_line_diff_Ok [OF sample_env_contract this]
  obtain d where d: "diff_to_line_diff sample_env (''a'' @ [newline]) (''b'' @ [newline]) = Ok d"
    by blast
  show ?thesis
    using apply_deltas_chain [of sample_env "''a'' @ [newline]" "[''b'' @ [newline]]"
      "[\<lparr>d_id = zero_id, d_file = \<lparr>file_path = ''f'', base_hash = []\<rparr>, d_diff = d,
         d_source = Manual, d_timestamp = 0\<rparr>]", THEN conjunct2] d
    by (intro exI [of _ d]) (simp add: sample_env_contract text_ok_def ends_with_single)
qed

end
