(* ===== verification/Engine_Merge.thy ===== *)
theory Engine_Merge
  imports Engine_Apply "HOL-Library.Multiset"
begin

text \<open>
  The three-way merge of \<^verbatim>\<open>src/engine/merge.rs\<close>: the extraction of change ranges from a line
  difference, the merge loop with its conflicts, and \<open>merge_texts\<close> with its fast paths.
  A \<open>ChangeRange\<close> is a triple of its first base line, its base length and its new lines.
\<close>

section \<open>Conflicts\<close>

record merge_conflict =
  mc_start_line :: nat
  mc_base :: "string list"
  mc_ours :: "string list"
  mc_theirs :: "string list"

definition push_lines :: "string list \<Rightarrow> string" where
  "push_lines ls = concat (map (\<lambda>l. l @ [newline]) ls)"

definition to_conflict_marker :: "merge_conflict \<Rightarrow> string" where
  "to_conflict_marker c =
     ''<<<<<<< ours'' @ [newline] @ push_lines (mc_ours c) @ ''======='' @ [newline]
     @ push_lines (mc_theirs c) @ ''>>>>>>> theirs'' @ [newline]"

section \<open>Extracting changes\<close>

fun is_equal_op :: "diff_op \<Rightarrow> bool" where
  "is_equal_op (Equal c) = True"
| "is_equal_op (Delete os c) = False"
| "is_equal_op (Insert ns ls) = False"
| "is_equal_op (Replace os oc ns ls) = False"

definition flush_change :: "nat option \<Rightarrow> nat \<Rightarrow> string list \<Rightarrow> change list" where
  "flush_change start len new = (case start of None \<Rightarrow> [] | Some s \<Rightarrow> [(s, len, new)])"

definition start_or :: "nat option \<Rightarrow> nat \<Rightarrow> nat option" where
  "start_or start pos = (case start of None \<Rightarrow> Some pos | Some s \<Rightarrow> Some s)"

text \<open>The arguments are the hunk's offset, the cursor in its old lines, and the accumulators
  \<open>current_base_start\<close>, \<open>current_base_len\<close>, \<open>current_new_lines\<close>; the flush empties the last only
  when it pushes it.\<close>

fun extract_ops :: "nat \<Rightarrow> nat \<Rightarrow> nat option \<Rightarrow> nat \<Rightarrow> string list \<Rightarrow> diff_op list \<Rightarrow> change list" where
  "extract_ops off cur start len new [] = flush_change start len new"
| "extract_ops off cur start len new (Equal c # ops) =
     flush_change start len new
     @ extract_ops off (cur + unat c) None 0 (if start = None then new else []) ops"
| "extract_ops off cur start len new (Insert ns ls # ops) =
     extract_ops off cur (start_or start (off + cur)) len (new @ ls) ops"
| "extract_ops off cur start len new (Delete os c # ops) =
     extract_ops off (cur + unat c) (start_or start (off + cur)) (len + unat c) new ops"
| "extract_ops off cur start len new (Replace os oc ns ls # ops) =
     extract_ops off (cur + unat oc) (start_or start (off + cur)) (len + unat oc) (new @ ls) ops"

definition extract_hunk :: "hunk \<Rightarrow> change list" where
  "extract_hunk h =
     (if list_all is_equal_op (h_ops h) then []
      else extract_ops (hunk_first h) 0 None 0 [] (h_ops h))"

definition extract_changes_from_line_diff :: "line_diff \<Rightarrow> change list" where
  "extract_changes_from_line_diff d = concat (map extract_hunk (ld_hunks d))"

section \<open>The merge loop\<close>

text \<open>\<open>base_lines[from..to.min(len)]\<close> panics when \<open>from\<close> is beyond the base.\<close>

definition append_unchanged ::
    "string list \<Rightarrow> string list \<Rightarrow> nat \<Rightarrow> nat \<Rightarrow> (string list, lt_error) result" where
  "append_unchanged res base start to =
     (if start < to
      then (if start \<le> min to (length base) then Ok (res @ segment base start (min to (length base)))
            else Panic)
      else Ok res)"

definition base_range :: "string list \<Rightarrow> nat \<Rightarrow> nat \<Rightarrow> (string list, lt_error) result" where
  "base_range base i j = (if i \<le> j \<and> j \<le> length base then Ok (segment base i j) else Panic)"

type_synonym merge_state = "string list \<times> merge_conflict list \<times> nat"

definition apply_change ::
    "string list \<Rightarrow> merge_state \<Rightarrow> change \<Rightarrow> nat \<Rightarrow> (merge_state, lt_error) result" where
  "apply_change base st c pos' =
     (case (st, c) of ((res, confs, pos), (s, n, new)) \<Rightarrow>
        and_then (append_unchanged res base pos s) (\<lambda>res'. Ok (res' @ new, confs, pos')))"

definition record_conflict ::
    "string list \<Rightarrow> merge_state \<Rightarrow> change \<Rightarrow> change \<Rightarrow> (merge_state, lt_error) result" where
  "record_conflict base st oc tc =
     (case (st, oc, tc) of ((res, confs, pos), (os, olen, onew), (ts, tlen, tnew)) \<Rightarrow>
        and_then (append_unchanged res base pos os) (\<lambda>res'.
        and_then (base_range base os (os + olen)) (\<lambda>b.
          Ok (res' @ onew,
              confs @ [\<lparr>mc_start_line = length res', mc_base = b, mc_ours = onew, mc_theirs = tnew\<rparr>],
              max (os + olen) (ts + tlen)))))"

text \<open>Two changes that start at the same base line.\<close>

definition same_start ::
    "string list \<Rightarrow> merge_state \<Rightarrow> change \<Rightarrow> change \<Rightarrow> (merge_state, lt_error) result" where
  "same_start base st oc tc =
     (case (oc, tc) of ((os, olen, onew), (ts, tlen, tnew)) \<Rightarrow>
        if olen = tlen \<and> onew = tnew then apply_change base st oc (os + olen)
        else if olen = 0 \<and> tlen = 0 then
          (if prefix onew tnew then apply_change base st tc os
           else if prefix tnew onew then apply_change base st oc os
           else record_conflict base st oc tc)
        else record_conflict base st oc tc)"

fun merge_loop ::
    "string list \<Rightarrow> merge_state \<Rightarrow> change list \<Rightarrow> change list \<Rightarrow> (merge_state, lt_error) result" where
  "merge_loop base st [] [] = Ok st"
| "merge_loop base st [] (tc # tcs) =
     and_then (apply_change base st tc (fst tc + fst (snd tc))) (\<lambda>st'. merge_loop base st' [] tcs)"
| "merge_loop base st (oc # ocs) [] =
     and_then (apply_change base st oc (fst oc + fst (snd oc))) (\<lambda>st'. merge_loop base st' ocs [])"
| "merge_loop base st (oc # ocs) (tc # tcs) =
     (if fst oc < fst tc then
        and_then (apply_change base st oc (fst oc + fst (snd oc)))
          (\<lambda>st'. merge_loop base st' ocs (tc # tcs))
      else if fst tc < fst oc then
        and_then (apply_change base st tc (fst tc + fst (snd tc)))
          (\<lambda>st'. merge_loop base st' (oc # ocs) tcs)
      else and_then (same_start base st oc tc) (\<lambda>st'. merge_loop base st' ocs tcs))"

definition merge_lines ::
    "string list \<Rightarrow> change list \<Rightarrow> change list \<Rightarrow> (string list \<times> merge_conflict list, lt_error) result" where
  "merge_lines base ocs tcs =
     and_then (merge_loop base ([], [], 0) ocs tcs)
       (\<lambda>(res, confs, pos). Ok (res @ drop pos base, confs))"

definition any_newline :: "string \<Rightarrow> string \<Rightarrow> string \<Rightarrow> bool" where
  "any_newline base ours theirs \<longleftrightarrow>
     ends_with base [newline] \<or> ends_with ours [newline] \<or> ends_with theirs [newline]"

definition with_newline :: "bool \<Rightarrow> string \<Rightarrow> string" where
  "with_newline nl s = (if nl \<and> s \<noteq> [] \<and> \<not> ends_with s [newline] then s @ [newline] else s)"

lemma str_lines_with_newline:
  "carriage_return \<notin> set (with_newline nl s) \<Longrightarrow> str_lines (with_newline nl s) = str_lines s"
  by (auto simp: with_newline_def ends_with_single intro: str_lines_terminated)

definition merge_texts ::
    "env \<Rightarrow> string \<Rightarrow> string \<Rightarrow> string \<Rightarrow> (string \<times> merge_conflict list, lt_error) result" where
  "merge_texts E base ours theirs =
     (let nl = any_newline base ours theirs in
      if ours = theirs then Ok (with_newline nl ours, [])
      else if base = theirs then Ok (with_newline nl ours, [])
      else if base = ours then Ok (with_newline nl theirs, [])
      else
        and_then (diff_to_line_diff E base ours) (\<lambda>diff_ours.
        and_then (diff_to_line_diff E base theirs) (\<lambda>diff_theirs.
        and_then (merge_lines (str_lines base)
            (extract_changes_from_line_diff diff_ours) (extract_changes_from_line_diff diff_theirs))
          (\<lambda>(ls, confs).
             let r = join_with [newline] ls in
             Ok (if nl \<and> r \<noteq> [] then r @ [newline] else r, confs)))))"

section \<open>Extraction agrees with application\<close>

lemma patch_cong:
  "(\<And>p. patch ls p as = patch ls p bs) \<Longrightarrow> patch ls pos (xs @ as) = patch ls pos (xs @ bs)"
  by (induction xs arbitrary: pos) auto

lemma patch_coalesce:
  "patch ls pos ((s, n, a) # (s + n, m, b) # cs) = patch ls pos ((s, n + m, a @ b) # cs)"
  by (simp add: add.assoc)

definition acc_ok :: "nat \<Rightarrow> nat option \<Rightarrow> nat \<Rightarrow> string list \<Rightarrow> bool" where
  "acc_ok pos start len new \<longleftrightarrow>
     (case start of None \<Rightarrow> len = 0 \<and> new = [] | Some s \<Rightarrow> pos = s + len)"

lemma extract_ops_patch:
  assumes "acc_ok (off + cur) start len new"
  shows "patch ls pos (extract_ops off cur start len new ops @ cs)
       = patch ls pos (flush_change start len new @ ops_changes (off + cur) ops @ cs)"
  using assms
proof (induction off cur start len new ops arbitrary: pos cs rule: extract_ops.induct)
  case (2 off cur start len new c ops)
  have "acc_ok (off + (cur + unat c)) None 0 (if start = None then new else [])"
    using 2(2) by (auto simp: acc_ok_def split: option.splits)
  from 2(1) [OF this] show ?case
    by (auto intro: patch_cong simp: flush_change_def add.assoc)
next
  case (3 off cur start len new ns l ops)
  have "acc_ok (off + cur) (start_or start (off + cur)) len (new @ l)"
    using 3(2) by (auto simp: acc_ok_def start_or_def split: option.splits)
  from 3(1) [OF this] 3(2) show ?case
    by (cases start) (auto simp: flush_change_def start_or_def acc_ok_def)
next
  case (4 off cur start len new os c ops)
  have "acc_ok (off + (cur + unat c)) (start_or start (off + cur)) (len + unat c) new"
    using 4(2) by (auto simp: acc_ok_def start_or_def split: option.splits)
  from 4(1) [OF this] 4(2) show ?case
    by (cases start) (auto simp: flush_change_def start_or_def acc_ok_def simp flip: add.assoc)
next
  case (5 off cur start len new os oc ns l ops)
  have "acc_ok (off + (cur + unat oc)) (start_or start (off + cur)) (len + unat oc) (new @ l)"
    using 5(2) by (auto simp: acc_ok_def start_or_def split: option.splits)
  from 5(1) [OF this] 5(2) show ?case
    by (cases start) (auto simp: flush_change_def start_or_def acc_ok_def simp flip: add.assoc)
qed simp

lemma ops_changes_equal: "list_all is_equal_op ops \<Longrightarrow> ops_changes pos ops = []"
  by (induction pos ops rule: ops_changes.induct) auto

lemma extract_hunk_patch:
  "patch ls pos (extract_hunk h @ cs) = patch ls pos (hunk_changes h @ cs)"
proof (cases "list_all is_equal_op (h_ops h)")
  case False
  then show ?thesis
    using extract_ops_patch [of "hunk_first h" 0 None 0 "[]" ls pos "h_ops h" cs]
    by (simp add: extract_hunk_def hunk_changes_def acc_ok_def flush_change_def)
qed (simp add: extract_hunk_def hunk_changes_def ops_changes_equal)

lemma extract_changes_patch:
  "patch ls pos (extract_changes_from_line_diff d) = patch ls pos (diff_changes d)"
proof -
  have "patch ls pos (concat (map extract_hunk hs)) = patch ls pos (concat (map hunk_changes hs))"
    for hs
    by (induction hs arbitrary: pos) (auto simp: extract_hunk_patch intro: patch_cong)
  then show ?thesis by (simp add: extract_changes_from_line_diff_def diff_changes_def)
qed

section \<open>Changes of a well-formed difference\<close>

definition in_range :: "nat \<Rightarrow> change list \<Rightarrow> bool" where
  "in_range n cs \<longleftrightarrow> list_all (\<lambda>c. fst c + fst (snd c) \<le> n) cs"

lemma in_range_simps [simp]:
  "in_range n []" "in_range n (c # cs) \<longleftrightarrow> fst c + fst (snd c) \<le> n \<and> in_range n cs"
  "in_range n (cs @ ds) \<longleftrightarrow> in_range n cs \<and> in_range n ds"
  by (simp_all add: in_range_def)

text \<open>Where a scan of a hunk starts its first change.\<close>

definition scan_from :: "nat \<Rightarrow> nat option \<Rightarrow> nat" where
  "scan_from pos start = (case start of None \<Rightarrow> pos | Some s \<Rightarrow> s)"

lemma scan_from_simps [simp]: "scan_from p None = p" "scan_from p (Some s) = s"
  by (simp_all add: scan_from_def)

lemma changes_from_flush:
  "acc_ok pos start len new \<Longrightarrow> changes_from pos cs \<Longrightarrow>
   changes_from (scan_from pos start) (flush_change start len new @ cs)"
  by (auto simp: acc_ok_def scan_from_def flush_change_def split: option.splits)

lemma extract_ops_shape:
  assumes "acc_ok (off + cur) start len new"
    and "changes_from (off + cur + sum_list (map op_old_count ops)) cs"
    and "off + cur + sum_list (map op_old_count ops) \<le> n"
  shows "changes_from (scan_from (off + cur) start) (extract_ops off cur start len new ops @ cs)
     \<and> in_range n (extract_ops off cur start len new ops)"
  using assms
proof (induction off cur start len new ops rule: extract_ops.induct)
  case (1 off cur start len new)
  then show ?case
    by (auto simp: changes_from_flush flush_change_def acc_ok_def split: option.split)
next
  case (2 off cur start len new c ops)
  let ?r = "extract_ops off (cur + unat c) None 0 (if start = None then new else []) ops"
  have "acc_ok (off + (cur + unat c)) None 0 (if start = None then new else [])"
    using 2(2) by (auto simp: acc_ok_def split: option.splits)
  with 2 have IH: "changes_from (off + (cur + unat c)) (?r @ cs)" "in_range n ?r"
    by (auto simp: scan_from_def add.assoc)
  from IH(1) have "changes_from (off + cur) (?r @ cs)" by (rule changes_from_mono) simp
  with 2(2,4) IH(2) show ?case
    by (auto simp: changes_from_flush flush_change_def acc_ok_def split: option.split)
next
  case (3 off cur start len new ns l ops)
  have "acc_ok (off + cur) (start_or start (off + cur)) len (new @ l)"
    using 3(2) by (auto simp: acc_ok_def start_or_def split: option.splits)
  with 3 show ?case by (cases start) (auto simp: scan_from_def start_or_def)
next
  case (4 off cur start len new os c ops)
  have "acc_ok (off + (cur + unat c)) (start_or start (off + cur)) (len + unat c) new"
    using 4(2) by (auto simp: acc_ok_def start_or_def split: option.splits)
  with 4 show ?case by (cases start) (auto simp: scan_from_def start_or_def add.assoc)
next
  case (5 off cur start len new os oc ns l ops)
  have "acc_ok (off + (cur + unat oc)) (start_or start (off + cur)) (len + unat oc) (new @ l)"
    using 5(2) by (auto simp: acc_ok_def start_or_def split: option.splits)
  with 5 show ?case by (cases start) (auto simp: scan_from_def start_or_def add.assoc)
qed

lemma extract_hunks_shape:
  assumes "list_all hunk_wf hs" and "hunks_in_order n pos hs"
  shows "changes_from pos (concat (map extract_hunk hs)) \<and> in_range n (concat (map extract_hunk hs))"
  using assms
proof (induction hs arbitrary: pos)
  case (Cons h hs)
  let ?cs = "concat (map extract_hunk hs)" and ?p = "hunk_first h"
  have end0: "?p + sum_list (map op_old_count (h_ops h)) = hunk_end h" "?p \<le> hunk_end h"
    using Cons.prems(1) by (simp_all add: hunk_wf_def hunk_end_def)
  from Cons have IH: "changes_from (hunk_end h) ?cs" "in_range n ?cs" by auto
  have "changes_from ?p (extract_hunk h @ ?cs) \<and> in_range n (extract_hunk h)"
  proof (cases "list_all is_equal_op (h_ops h)")
    case True
    with IH(1) end0(2) show ?thesis by (auto simp: extract_hunk_def intro: changes_from_mono)
  next
    case False
    then show ?thesis
      using extract_ops_shape [of ?p 0 None 0 "[]" "h_ops h" ?cs n] IH(1) end0(1) Cons.prems(2)
      by (simp add: extract_hunk_def acc_ok_def scan_from_def)
  qed
  with Cons.prems(2) IH(2) show ?case by (auto intro: changes_from_mono)
qed simp

lemma extract_changes_in_range:
  "line_diff_wf n d \<Longrightarrow> in_range n (extract_changes_from_line_diff d)"
  using extract_hunks_shape [of "ld_hunks d" n 0]
  by (simp add: line_diff_wf_def extract_changes_from_line_diff_def)

text \<open>The change ranges the merge works on are a faithful view of a difference: running them as
  a patch gives what applying the difference gives, and for a well-formed difference they are in
  order, do not overlap and stay inside the base text.\<close>

lemma extracted_changes:
  assumes "line_diff_wf (length ls) d"
  shows "apply_line_diff ls d = Ok (patch ls 0 (extract_changes_from_line_diff d))
     \<and> changes_from 0 (extract_changes_from_line_diff d)
     \<and> in_range (length ls) (extract_changes_from_line_diff d)"
  using assms extract_hunks_shape [of "ld_hunks d" "length ls" 0]
    apply_hunks_patch [of "ld_hunks d" ls 0] extract_changes_patch [of ls 0 d]
  by (simp add: line_diff_wf_def apply_line_diff_def diff_changes_def
      extract_changes_from_line_diff_def)

lemma extracted_changes_witness:
  "apply_line_diff [''a'', ''b''] \<lparr>ld_hunks = [\<lparr>h_old_start = 1, h_old_len = 2, h_new_start = 1,
      h_new_len = 2, h_ops = [Equal 1, Delete 2 1, Insert 2 [''x'']]\<rparr>]\<rparr>
   = Ok (patch [''a'', ''b''] 0 [(1, 1, [''x''])])"
  using extracted_changes [of "[''a'', ''b'']" "\<lparr>ld_hunks = [\<lparr>h_old_start = 1, h_old_len = 2,
      h_new_start = 1, h_new_len = 2, h_ops = [Equal 1, Delete 2 1, Insert 2 [''x'']]\<rparr>]\<rparr>",
      THEN conjunct1]
  by (simp add: line_diff_wf_def hunk_wf_def hunk_end_def hunk_first_def flush_change_def
      extract_changes_from_line_diff_def extract_hunk_def start_or_def)

section \<open>The loop never panics, and conflicts say where they are\<close>

lemma append_unchanged_eq:
  "pos \<le> length base \<Longrightarrow> append_unchanged res base pos to = Ok (res @ segment base pos to)"
  by (auto simp: append_unchanged_def segment_def min_def)

text \<open>A conflict is located when our side stands in the output at its start line.\<close>

definition located :: "string list \<Rightarrow> merge_conflict \<Rightarrow> bool" where
  "located res c \<longleftrightarrow> mc_start_line c + length (mc_ours c) \<le> length res
     \<and> segment res (mc_start_line c) (mc_start_line c + length (mc_ours c)) = mc_ours c"

lemma located_append: "located res c \<Longrightarrow> located (res @ rest) c"
  by (simp add: located_def segment_def)

definition merge_inv :: "string list \<Rightarrow> merge_state \<Rightarrow> bool" where
  "merge_inv base st \<longleftrightarrow> (case st of (res, confs, pos) \<Rightarrow>
     pos \<le> length base \<and> list_all (located res) confs
     \<and> list_all (\<lambda>c. sublist (mc_base c) base) confs)"

lemma apply_change_inv:
  assumes "merge_inv base st" and "p \<le> length base"
  shows "\<exists>st'. apply_change base st c p = Ok st' \<and> merge_inv base st'"
  using assms
  by (cases st; cases c)
    (auto simp: merge_inv_def apply_change_def append_unchanged_eq list_all_iff intro!: located_append)

lemma located_new: "mc_start_line c = length res \<Longrightarrow> located (res @ mc_ours c) c"
  by (simp add: located_def segment_def)

lemma record_conflict_inv:
  assumes "merge_inv base st" and "in_range (length base) [oc, tc]"
  shows "\<exists>st'. record_conflict base st oc tc = Ok st' \<and> merge_inv base st'"
proof -
  obtain res confs pos where st: "st = (res, confs, pos)" by (cases st)
  obtain os olen onew ts tlen tnew where c: "oc = (os, olen, onew)" "tc = (ts, tlen, tnew)"
    by (cases oc, cases tc)
  let ?r = "res @ segment base pos os"
  let ?c = "\<lparr>mc_start_line = length ?r, mc_base = segment base os (os + olen), mc_ours = onew,
    mc_theirs = tnew\<rparr>"
  have "record_conflict base st oc tc
      = Ok (?r @ onew, confs @ [?c], max (os + olen) (ts + tlen))"
    using assms st c by (simp add: record_conflict_def merge_inv_def append_unchanged_eq base_range_def)
  moreover have "located (?r @ onew) ?c" using located_new [of ?c ?r] by simp
  moreover have "sublist (segment base os (os + olen)) base"
    by (rule sublist_segment)
  ultimately show ?thesis
    using assms st c by (auto simp: merge_inv_def list_all_iff intro!: located_append)
qed

lemma same_start_inv:
  assumes "merge_inv base st" and "in_range (length base) [oc, tc]"
  shows "\<exists>st'. same_start base st oc tc = Ok st' \<and> merge_inv base st'"
  using assms apply_change_inv [OF assms(1)] record_conflict_inv [OF assms]
  by (cases oc; cases tc) (auto simp: same_start_def)

lemma merge_loop_inv:
  assumes "merge_inv base st" and "in_range (length base) ocs" and "in_range (length base) tcs"
  shows "\<exists>st'. merge_loop base st ocs tcs = Ok st' \<and> merge_inv base st'"
  using assms
proof (induction base st ocs tcs rule: merge_loop.induct)
  case (2 base st tc tcs)
  from 2(4) have "fst tc + fst (snd tc) \<le> length base" by simp
  from apply_change_inv [OF 2(2) this, of tc] 2(1) 2(4) show ?case by force
next
  case (3 base st oc ocs)
  from 3(3) have "fst oc + fst (snd oc) \<le> length base" by simp
  from apply_change_inv [OF 3(2) this, of oc] 3(1) 3(3) show ?case by force
next
  case (4 base st oc ocs tc tcs)
  have r: "fst oc + fst (snd oc) \<le> length base" "fst tc + fst (snd tc) \<le> length base"
    "in_range (length base) [oc, tc]" "in_range (length base) ocs" "in_range (length base) tcs"
    using 4(5,6) by simp_all
  obtain st1 where 1: "apply_change base st oc (fst oc + fst (snd oc)) = Ok st1" "merge_inv base st1"
    using apply_change_inv [OF 4(4) r(1)] by blast
  obtain st2 where 2: "apply_change base st tc (fst tc + fst (snd tc)) = Ok st2" "merge_inv base st2"
    using apply_change_inv [OF 4(4) r(2)] by blast
  obtain st3 where 3: "same_start base st oc tc = Ok st3" "merge_inv base st3"
    using same_start_inv [OF 4(4) r(3)] by blast
  consider "fst oc < fst tc" | "fst tc < fst oc" | "fst oc = fst tc" by linarith
  then show ?case
  proof cases
    case a: 1
    with 4(1) [OF a 1(2) r(4) 4(6)] 1(1) show ?thesis by simp
  next
    case a: 2
    then have "\<not> fst oc < fst tc" by simp
    with a 4(2) [OF this a 2(2) 4(5) r(5)] 2(1) show ?thesis by simp
  next
    case a: 3
    then have "\<not> fst oc < fst tc" "\<not> fst tc < fst oc" by simp_all
    with 4(3) [OF this 3(2) r(4,5)] 3(1) show ?thesis by simp
  qed
qed simp

lemma merge_lines_inv:
  assumes "in_range (length base) ocs" and "in_range (length base) tcs"
  shows "\<exists>ls confs. merge_lines base ocs tcs = Ok (ls, confs)
     \<and> list_all (located ls) confs \<and> list_all (\<lambda>c. sublist (mc_base c) base) confs"
proof -
  have "merge_inv base ([], [], 0)" by (simp add: merge_inv_def)
  from merge_loop_inv [OF this assms] show ?thesis
    by (auto simp: merge_lines_def merge_inv_def list_all_iff intro!: located_append)
qed

text \<open>C17: merging never panics on texts whose differences meet the contract, and every conflict it
  reports is located: our lines stand in the merged lines at the reported start line, and the
  base lines it quotes are consecutive lines of the base.\<close>

theorem merge_texts_total:
  assumes "diff_contract E base ours" and "diff_contract E base theirs"
    and "text_ok base" and "text_ok ours" and "text_ok theirs"
  shows "\<exists>t confs. merge_texts E base ours theirs = Ok (t, confs)
     \<and> (confs = [] \<or> (\<exists>ls. (t = join_with [newline] ls \<or> t = join_with [newline] ls @ [newline])
          \<and> list_all (located ls) confs
          \<and> list_all (\<lambda>c. sublist (mc_base c) (str_lines base)) confs))"
proof -
  obtain d1 d2 where d: "diff_to_line_diff E base ours = Ok d1" "diff_to_line_diff E base theirs = Ok d2"
    using diff_to_line_diff_Ok assms by blast
  have "in_range (length (str_lines base)) (extract_changes_from_line_diff d1)"
    "in_range (length (str_lines base)) (extract_changes_from_line_diff d2)"
    using diff_to_line_diff_wf [OF assms(1,3,4) d(1)] diff_to_line_diff_wf [OF assms(2,3,5) d(2)]
      extract_changes_in_range by blast+
  from merge_lines_inv [OF this] obtain ls confs where m:
    "merge_lines (str_lines base) (extract_changes_from_line_diff d1) (extract_changes_from_line_diff d2)
       = Ok (ls, confs)" "list_all (located ls) confs"
    "list_all (\<lambda>c. sublist (mc_base c) (str_lines base)) confs"
    by blast
  with d show ?thesis by (auto simp: merge_texts_def Let_def)
qed

section \<open>Swapping the sides\<close>

lemma apply_change_confs:
  "apply_change base st c p = Ok st' \<Longrightarrow> fst (snd st') = fst (snd st)"
  by (cases st; cases c) (auto simp: apply_change_def and_then_eq_Ok)

lemma record_conflict_confs:
  "record_conflict base st oc tc = Ok st' \<Longrightarrow> fst (snd st') \<noteq> []"
  by (cases st; cases oc; cases tc) (auto simp: record_conflict_def and_then_eq_Ok)

lemma same_start_confs:
  "same_start base st oc tc = Ok st' \<Longrightarrow> fst (snd st') = [] \<Longrightarrow> fst (snd st) = []"
  by (cases oc; cases tc)
    (auto simp: same_start_def split: if_splits dest: apply_change_confs record_conflict_confs)

lemma same_start_swap:
  assumes "same_start base st oc tc = Ok st'" and "fst (snd st') = []" and "fst oc = fst tc"
  shows "same_start base st tc oc = Ok st'"
proof -
  obtain os olen onew tlen tnew where c: "oc = (os, olen, onew)" "tc = (os, tlen, tnew)"
    using assms(3) by (cases oc; cases tc) auto
  have nc: "record_conflict base st oc tc \<noteq> Ok st'" using assms(2) record_conflict_confs by metis
  consider "olen = tlen \<and> onew = tnew" | "olen = 0 \<and> tlen = 0 \<and> onew \<noteq> tnew" | "olen \<noteq> tlen"
    | "olen = tlen \<and> olen \<noteq> 0 \<and> onew \<noteq> tnew" by blast
  then show ?thesis
  proof cases
    case 2
    consider "prefix onew tnew" | "prefix tnew onew" | "\<not> prefix onew tnew \<and> \<not> prefix tnew onew" by blast
    then show ?thesis
    proof cases
      case a: 1
      with 2 have "\<not> prefix tnew onew" using prefix_order.antisym by blast
      with a 2 assms(1) c show ?thesis by (auto simp: same_start_def)
    next
      case a: 2
      with 2 have "\<not> prefix onew tnew" using prefix_order.antisym by blast
      with a 2 assms(1) c show ?thesis by (auto simp: same_start_def)
    next
      case 3
      with 2 nc assms(1) c show ?thesis by (simp add: same_start_def)
    qed
  next
    case 3
    with nc assms(1) c show ?thesis by (simp add: same_start_def split: if_splits)
  qed (use nc assms(1) c in \<open>simp_all add: same_start_def\<close>)
qed

lemma merge_loop_no_conflict:
  assumes "merge_loop base st ocs tcs = Ok st'" and "fst (snd st') = []"
  shows "merge_loop base st tcs ocs = Ok st' \<and> fst (snd st) = []"
  using assms
proof (induction base st ocs tcs rule: merge_loop.induct)
  case (4 base st oc ocs tc tcs)
  consider "fst oc < fst tc" | "fst tc < fst oc" | "fst oc = fst tc" by linarith
  then show ?case
  proof cases
    case 1
    with 4 show ?thesis by (auto simp: and_then_eq_Ok dest: apply_change_confs)
  next
    case 2
    with 4 show ?thesis by (auto simp: and_then_eq_Ok dest: apply_change_confs)
  next
    case 3
    then have n: "\<not> fst oc < fst tc" "\<not> fst tc < fst oc" by simp_all
    with 4(4) obtain st1 where st1: "same_start base st oc tc = Ok st1"
      "merge_loop base st1 ocs tcs = Ok st'" by (auto simp: and_then_eq_Ok)
    from 4(3) [OF n st1(2) 4(5)] same_start_swap [OF st1(1) _ 3] same_start_confs [OF st1(1)] n
    show ?thesis by simp
  qed
qed (auto simp: and_then_eq_Ok dest: apply_change_confs)

text \<open>A merge without conflicts does not depend on which side is called ours: whenever the merge
  succeeds with no conflict, the merge with the sides swapped gives the same text and no
  conflict either. This holds for every differ.\<close>

lemma merge_texts_symmetric:
  assumes "merge_texts E base ours theirs = Ok (t, [])"
  shows "merge_texts E base theirs ours = Ok (t, [])"
proof (cases "ours = theirs \<or> base = theirs \<or> base = ours")
  case True
  with assms show ?thesis
    by (auto simp: merge_texts_def any_newline_def Let_def disj_ac)
next
  case False
  with assms obtain d1 d2 st where d: "diff_to_line_diff E base ours = Ok d1"
    "diff_to_line_diff E base theirs = Ok d2"
    "merge_loop (str_lines base) ([], [], 0) (extract_changes_from_line_diff d1)
       (extract_changes_from_line_diff d2) = Ok st" "fst (snd st) = []"
    by (auto simp: merge_texts_def merge_lines_def and_then_eq_Ok Let_def split: prod.splits)
  from merge_loop_no_conflict [OF d(3,4)] d False assms show ?thesis
    by (auto simp: merge_texts_def merge_lines_def any_newline_def Let_def split: prod.splits)
qed

section \<open>Disjoint changes\<close>

text \<open>Two changes are apart when one ends before or where the other starts, at a different
  line.\<close>

definition apart :: "change \<Rightarrow> change \<Rightarrow> bool" where
  "apart c d \<longleftrightarrow> fst c < fst d \<and> fst c + fst (snd c) \<le> fst d
     \<or> fst d < fst c \<and> fst d + fst (snd d) \<le> fst c"

definition all_apart :: "change list \<Rightarrow> change list \<Rightarrow> bool" where
  "all_apart cs ds \<longleftrightarrow> list_all (\<lambda>c. list_all (apart c) ds) cs"

text \<open>The changes of both sides, in the order of their base lines.\<close>

fun merge_changes :: "change list \<Rightarrow> change list \<Rightarrow> change list" where
  "merge_changes [] ds = ds"
| "merge_changes cs [] = cs"
| "merge_changes (c # cs) (d # ds) =
     (if fst c < fst d then c # merge_changes cs (d # ds) else d # merge_changes (c # cs) ds)"

lemma merge_changes_Nil2 [simp]: "merge_changes cs [] = cs"
  by (cases cs) auto

lemma mset_merge_changes: "mset (merge_changes cs ds) = mset cs + mset ds"
  by (induction cs ds rule: merge_changes.induct) auto

lemma all_apart_simps [simp]:
  "all_apart [] ds" "all_apart cs []"
  "all_apart (c # cs) ds \<longleftrightarrow> list_all (apart c) ds \<and> all_apart cs ds"
  "all_apart cs (d # ds) \<longleftrightarrow> list_all (\<lambda>c. apart c d) cs \<and> all_apart cs ds"
  by (auto simp: all_apart_def list_all_iff)

lemma changes_from_merge:
  assumes "changes_from p cs" and "changes_from p ds" and "all_apart cs ds"
  shows "changes_from p (merge_changes cs ds)"
  using assms
proof (induction cs ds arbitrary: p rule: merge_changes.induct)
  case (3 c cs d ds)
  obtain s n new t m new' where cd: "c = (s, n, new)" "d = (t, m, new')" by (cases c, cases d)
  show ?case
  proof (cases "fst c < fst d")
    case True
    with 3(5) cd have "s + n \<le> t" by (auto simp: apart_def)
    with 3 True cd show ?thesis by auto
  next
    case False
    with 3(5) cd have "t + m \<le> s" by (auto simp: apart_def)
    with 3 False cd show ?thesis by auto
  qed
qed auto

text \<open>One pass of the loop is one step of the reference patch.\<close>

lemma apply_change_step:
  assumes "pos \<le> length base"
  shows "apply_change base (res, confs, pos) (s, n, new) p = Ok (res @ segment base pos s @ new, confs, p)"
  using assms by (simp add: apply_change_def append_unchanged_eq)

definition finish_merge :: "string list \<Rightarrow> merge_state \<Rightarrow> string list \<times> merge_conflict list" where
  "finish_merge base st = (case st of (res, confs, pos) \<Rightarrow> (res @ drop pos base, confs))"

lemma merge_loop_step:
  assumes "pos \<le> length base" and "s + n \<le> length base"
    and "\<And>res'. \<exists>st'. loop (res', confs, s + n) = Ok st'
           \<and> finish_merge base st' = (res' @ patch base (s + n) cs, confs)"
  shows "\<exists>st'. and_then (apply_change base (res, confs, pos) (s, n, new) (s + n)) loop = Ok st'
     \<and> finish_merge base st' = (res @ patch base pos ((s, n, new) # cs), confs)"
  using assms(1) assms(3) [of "res @ segment base pos s @ new"] by (simp add: apply_change_step)

lemma merge_loop_theirs_only:
  assumes "pos \<le> length base" and "in_range (length base) ds"
  shows "\<exists>st'. merge_loop base (res, confs, pos) [] ds = Ok st'
     \<and> finish_merge base st' = (res @ patch base pos ds, confs)"
  using assms
proof (induction ds arbitrary: res pos)
  case Nil
  then show ?case by (simp add: finish_merge_def)
next
  case (Cons d ds)
  obtain t m new where d: "d = (t, m, new)" by (cases d)
  with Cons.prems Cons.IH show ?case
    unfolding merge_loop.simps d fst_conv snd_conv by (intro merge_loop_step) simp_all
qed

lemma merge_loop_ours_only:
  assumes "pos \<le> length base" and "in_range (length base) cs"
  shows "\<exists>st'. merge_loop base (res, confs, pos) cs [] = Ok st'
     \<and> finish_merge base st' = (res @ patch base pos cs, confs)"
  using assms
proof (induction cs arbitrary: res pos)
  case Nil
  then show ?case by (simp add: finish_merge_def)
next
  case (Cons c cs)
  obtain s n new where c: "c = (s, n, new)" by (cases c)
  with Cons.prems Cons.IH show ?case
    unfolding merge_loop.simps c fst_conv snd_conv by (intro merge_loop_step) simp_all
qed

lemma merge_loop_apart:
  assumes "pos \<le> length base" and "in_range (length base) ocs" and "in_range (length base) tcs"
    and "all_apart ocs tcs"
  shows "\<exists>st'. merge_loop base (res, confs, pos) ocs tcs = Ok st'
     \<and> finish_merge base st' = (res @ patch base pos (merge_changes ocs tcs), confs)"
  using assms
proof (induction ocs tcs arbitrary: res pos rule: merge_changes.induct)
  case (1 ds)
  then show ?case by (simp only: merge_changes.simps merge_loop_theirs_only)
next
  case (2 c cs)
  then show ?case by (simp only: merge_changes_Nil2 merge_loop_ours_only)
next
  case (3 c cs d ds)
  obtain s n new t m new' where cd: "c = (s, n, new)" "d = (t, m, new')" by (cases c, cases d)
  show ?case
  proof (cases "s < t")
    case True
    have "\<exists>st'. merge_loop base (res', confs, s + n) cs (d # ds) = Ok st'
      \<and> finish_merge base st' = (res' @ patch base (s + n) (merge_changes cs (d # ds)), confs)" for res'
      using 3(1,3-6) True cd by simp
    from merge_loop_step [OF _ _ this] True cd 3(3,4) show ?thesis by simp
  next
    case False
    with 3(6) cd have "t < s" by (auto simp: apart_def)
    have "\<exists>st'. merge_loop base (res', confs, t + m) (c # cs) ds = Ok st'
      \<and> finish_merge base st' = (res' @ patch base (t + m) (merge_changes (c # cs) ds), confs)" for res'
      using 3(2-6) False cd by simp
    from merge_loop_step [OF _ _ this] False \<open>t < s\<close> cd 3(3,5) show ?thesis by simp
  qed
qed

lemma merge_lines_finish:
  "merge_lines base ocs tcs = and_then (merge_loop base ([], [], 0) ocs tcs) (\<lambda>st. Ok (finish_merge base st))"
  by (cases "merge_loop base ([], [], 0) ocs tcs")
    (auto simp: merge_lines_def finish_merge_def split: prod.split)

text \<open>C11: when the two sides change different places of the base, the merge is the reference patch
  of the changes of both, in order: every change of either side is applied, exactly once, at its
  place, everything else is the base, and there is no conflict. For texts this is what
  \<open>merge_texts\<close> returns, with the final newline any of the three has.\<close>

theorem merge_disjoint:
  assumes "diff_to_line_diff E base ours = Ok d1" and "diff_to_line_diff E base theirs = Ok d2"
    and "line_diff_wf (length (str_lines base)) d1" and "line_diff_wf (length (str_lines base)) d2"
    and "all_apart (extract_changes_from_line_diff d1) (extract_changes_from_line_diff d2)"
    and "ours \<noteq> theirs" and "base \<noteq> theirs" and "base \<noteq> ours"
  shows "\<exists>cs. changes_from 0 cs
     \<and> mset cs = mset (extract_changes_from_line_diff d1) + mset (extract_changes_from_line_diff d2)
     \<and> merge_texts E base ours theirs
       = Ok (let r = join_with [newline] (patch (str_lines base) 0 cs) in
             if any_newline base ours theirs \<and> r \<noteq> [] then r @ [newline] else r, [])"
proof -
  let ?o = "extract_changes_from_line_diff d1" and ?t = "extract_changes_from_line_diff d2"
    and ?b = "str_lines base"
  have "changes_from 0 ?o" "changes_from 0 ?t"
    using assms(3,4) extract_hunks_shape
    unfolding line_diff_wf_def extract_changes_from_line_diff_def by blast+
  with assms(5) have "changes_from 0 (merge_changes ?o ?t)" by (simp add: changes_from_merge)
  moreover obtain st where "merge_loop ?b ([], [], 0) ?o ?t = Ok st"
    "finish_merge ?b st = (patch ?b 0 (merge_changes ?o ?t), [])"
    using merge_loop_apart [of 0 ?b ?o ?t "[]" "[]"] assms(3-5) extract_changes_in_range by auto
  ultimately show ?thesis
    using assms by (intro exI [of _ "merge_changes ?o ?t"])
      (simp add: merge_texts_def merge_lines_finish mset_merge_changes Let_def)
qed

section \<open>Instances\<close>

text \<open>Texts of several one-letter lines.\<close>

definition text_of :: "string list \<Rightarrow> string" where
  "text_of ls = join_with [newline] ls @ [newline]"

theorem merge_texts_total_witness:
  "\<exists>t confs. merge_texts sample_env ''a'' ''b'' ''c'' = Ok (t, confs)"
  using merge_texts_total [of sample_env "''a''" "''b''" "''c''"]
  by (auto simp: sample_env_contract text_ok_def)

lemma merge_texts_symmetric_witness:
  "merge_texts positional_env (text_of [''a'', ''b'', ''c'']) (text_of [''a'', ''b'', ''y''])
     (text_of [''x'', ''b'', ''c'']) = Ok (text_of [''x'', ''b'', ''y''], [])"
proof (rule merge_texts_symmetric)
  show "merge_texts positional_env (text_of [''a'', ''b'', ''c'']) (text_of [''x'', ''b'', ''c''])
     (text_of [''a'', ''b'', ''y'']) = Ok (text_of [''x'', ''b'', ''y''], [])"
    by code_simp
qed

theorem merge_disjoint_witness:
  "\<exists>cs. mset cs = {#(2, 1, [''y'']), (0, 1, [''x''])#}
     \<and> merge_texts positional_env (text_of [''a'', ''b'', ''c'']) (text_of [''x'', ''b'', ''c''])
         (text_of [''a'', ''b'', ''y''])
       = Ok (let r = join_with [newline] (patch [''a'', ''b'', ''c''] 0 cs)
             in if r \<noteq> [] then r @ [newline] else r, [])"
proof -
  let ?b = "text_of [''a'', ''b'', ''c'']"
  obtain d1 d2 where d: "diff_to_line_diff positional_env ?b (text_of [''x'', ''b'', ''c'']) = Ok d1"
    "diff_to_line_diff positional_env ?b (text_of [''a'', ''b'', ''y'']) = Ok d2"
    "line_diff_wf (length (str_lines ?b)) d1" "line_diff_wf (length (str_lines ?b)) d2"
    "extract_changes_from_line_diff d1 = [(0, 1, [''x''])]"
    "extract_changes_from_line_diff d2 = [(2, 1, [''y''])]"
  proof
    show "diff_to_line_diff positional_env ?b (text_of [''x'', ''b'', ''c''])
        = Ok \<lparr>ld_hunks = [\<lparr>h_old_start = 1, h_old_len = 3, h_new_start = 1, h_new_len = 3,
            h_ops = [Replace 1 1 1 [''x''], Equal 1, Equal 1]\<rparr>]\<rparr>" by code_simp
    show "diff_to_line_diff positional_env ?b (text_of [''a'', ''b'', ''y''])
        = Ok \<lparr>ld_hunks = [\<lparr>h_old_start = 1, h_old_len = 3, h_new_start = 1, h_new_len = 3,
            h_ops = [Equal 1, Equal 1, Replace 3 1 3 [''y'']]\<rparr>]\<rparr>" by code_simp
  qed (code_simp | simp)+
  have b: "str_lines ?b = [''a'', ''b'', ''c'']" by code_simp
  have "any_newline ?b (text_of [''x'', ''b'', ''c'']) (text_of [''a'', ''b'', ''y''])" by code_simp
  moreover have "text_of [''x'', ''b'', ''c''] \<noteq> text_of [''a'', ''b'', ''y'']"
    "?b \<noteq> text_of [''a'', ''b'', ''y'']" "?b \<noteq> text_of [''x'', ''b'', ''c'']"
    by (simp_all add: text_of_def)
  ultimately show ?thesis
    using merge_disjoint [OF d(1-4)] d(5,6) b
    by (simp add: apart_def) blast
qed

text \<open>Two changes that overlap without starting at the same base line are not reported as a
  conflict. Both are written out one after the other: here both sides rewrite the third line
  differently and the merge contains both versions of it. When the later change ends first, the
  position in the base even moves back, and lines the other side deleted come back.\<close>

lemma overlap_is_not_a_conflict:
  "merge_texts positional_env (text_of [''a'', ''b'', ''c'', ''d'']) (text_of [''a'', ''x'', ''y'', ''d''])
     (text_of [''a'', ''b'', ''z'', ''d'']) = Ok (text_of [''a'', ''x'', ''y'', ''z'', ''d''], [])
   \<and> merge_lines [''a'', ''b'', ''c'', ''d'', ''e''] [(1, 3, [])] [(2, 1, [''z''])]
     = Ok ([''a'', ''z'', ''d'', ''e''], [])"
  by (rule conjI; code_simp)

text \<open>When both sides change the same base lines differently, the merged text is the text of our
  side there: their lines are only in the conflict record, and no conflict marker is written.\<close>

lemma conflict_keeps_ours:
  assumes "s + n \<le> length base" and "pos \<le> length base"
    and "\<not> (n = m \<and> new = new')" and "\<not> (n = 0 \<and> m = 0 \<and> (prefix new new' \<or> prefix new' new))"
  shows "merge_loop base (res, confs, pos) [(s, n, new)] [(s, m, new')]
     = Ok (res @ segment base pos s @ new,
           confs @ [\<lparr>mc_start_line = length (res @ segment base pos s), mc_base = segment base s (s + n),
                     mc_ours = new, mc_theirs = new'\<rparr>],
           s + max n m)"
  using assms
  by (auto simp: same_start_def record_conflict_def append_unchanged_eq base_range_def)

lemma conflict_keeps_ours_witness:
  "merge_loop [''a'', ''b''] ([], [], 0) [(1, 1, [''x''])] [(1, 1, [''y''])]
     = Ok ([''a'', ''x''], [\<lparr>mc_start_line = 1, mc_base = [''b''], mc_ours = [''x''],
             mc_theirs = [''y'']\<rparr>], 2)"
  using conflict_keeps_ours [of 1 1 "[''a'', ''b'']" 0 1 "[''x'']" "[''y'']" "[]" "[]"]
  by (simp add: segment_def)

end
