(* ===== verification/Layer_Base.thy ===== *)
theory Layer_Base
  imports Store_Atomic Engine_Merge
begin

text \<open>
  What the layer operations of \<^verbatim>\<open>src/layered\<close> share: reading the text of a snapshot
  (\<open>reconstruct_text\<close> of \<^verbatim>\<open>transition.rs\<close>), creating a partition on demand, the part of an edit
  that writes (the end of \<open>apply_manual_edit\<close> and \<open>apply_agent_edit\<close>), the part of a merge that
  writes (the end of the four merges), and the relation every layer operation respects.
\<close>

type_synonym 'a sys = "(db, 'a, lt_error) prog"

section \<open>Reading\<close>

text \<open>\<open>map_err(|_| NotFound(msg))\<close> on a partition lookup.\<close>

definition find_partition :: "uuid \<Rightarrow> string \<Rightarrow> partition sys" where
  "find_partition pid msg = match_err (query (get_partition pid)) ret (fail (NotFound msg))"

definition read_snapshot :: "env \<Rightarrow> snapshot_id \<Rightarrow> snapshot sys" where
  "read_snapshot E i = storage (query (get_snapshot E i))"

definition read_deltas :: "delta_id list \<Rightarrow> delta list sys" where
  "read_deltas is = storage (query (get_deltas is))"

definition engine_error :: "env \<Rightarrow> ('a, lt_error) result \<Rightarrow> ('a, lt_error) result" where
  "engine_error E r = result_map_err (\<lambda>e. Engine (error_display (env_show_sql E) e)) r"

definition reconstruct_text :: "env \<Rightarrow> snapshot \<Rightarrow> string sys" where
  "reconstruct_text E x =
     sbind (storage (query (get_file_content (path_str (s_file x)) (base_hash (s_file x))))) (\<lambda>content.
     sbind (read_deltas (s_deltas x)) (\<lambda>ds.
     lift_result (engine_error E (apply_deltas (from_utf8_lossy content) ds))))"

text \<open>The edits read the deltas first.\<close>

definition read_old_content :: "env \<Rightarrow> snapshot \<Rightarrow> string sys" where
  "read_old_content E x =
     sbind (read_deltas (s_deltas x)) (\<lambda>ds.
     sbind (storage (query (get_file_content (path_str (s_file x)) (base_hash (s_file x))))) (\<lambda>content.
     lift_result (engine_error E (apply_deltas (from_utf8_lossy content) ds))))"

section \<open>Writing\<close>

definition initial_partition :: "uuid \<Rightarrow> string \<Rightarrow> partition_type \<Rightarrow> snapshot_id \<Rightarrow> partition" where
  "initial_partition pid name t initial =
     \<lparr>p_id = pid, p_name = name, p_current = initial, p_history = [initial], p_type = t\<rparr>"

definition ensure_partition :: "env \<Rightarrow> partition \<Rightarrow> partition sys" where
  "ensure_partition E p =
     match_err (query (get_partition (p_id p))) ret
       (sbind (storage (create_partition E p)) (\<lambda>_. ret p))"

text \<open>From \<open>let line_diff = ...\<close> to the end of an edit.\<close>

definition write_edit :: "env \<Rightarrow> uuid \<Rightarrow> partition \<Rightarrow> snapshot \<Rightarrow> string \<Rightarrow> string \<Rightarrow> string \<Rightarrow>
    source_type \<Rightarrow> partition_type \<Rightarrow> snapshot_id sys" where
  "write_edit E pid part cur old path new source ptype =
     sbind (lift_result (diff_to_line_diff E old new)) (\<lambda>diff.
     if line_diff_is_empty diff then ret (p_current part)
     else
       let file = file_node_new E path old;
           delta = delta_new E file diff source;
           snap = snapshot_from_parent E cur (d_id delta) (partition_type_name ptype)
       in sbind (storage (store_file_node E file old)) (\<lambda>_.
          sbind (storage (store_delta E delta)) (\<lambda>_.
          sbind (storage (store_snapshot E snap [])) (\<lambda>_.
          sbind (storage (update_pointer E pid (s_id snap))) (\<lambda>_.
          ret (s_id snap))))))"

text \<open>From \<open>let merge_diff = ...\<close> to the pointer update of a merge: \<open>None\<close> when nothing changed,
  otherwise the identifier of the new snapshot. The file of the merge delta is that of the last
  delta of the incoming snapshot.\<close>

definition write_merge :: "env \<Rightarrow> uuid \<Rightarrow> string \<Rightarrow> string \<Rightarrow> snapshot \<Rightarrow> file_node \<Rightarrow> source_type \<Rightarrow>
    snapshot list \<Rightarrow> partition_type \<Rightarrow> bool \<Rightarrow> snapshot_id option sys" where
  "write_merge E pid target_text merged incoming fallback source parents ptype confl =
     sbind (lift_result (diff_to_line_diff E target_text merged)) (\<lambda>diff.
     if line_diff_is_empty diff then ret None
     else
       sbind (read_deltas (s_deltas incoming)) (\<lambda>ds.
       let file = (case list_last ds of Some d \<Rightarrow> d_file d | None \<Rightarrow> fallback);
           delta = delta_new E file diff source
       in sbind (storage (store_delta E delta)) (\<lambda>_.
          sbind (lift_result (snapshot_merge E parents (d_id delta) (partition_type_name ptype) confl)) (\<lambda>snap.
          sbind (storage (store_snapshot E snap [])) (\<lambda>_.
          sbind (storage (update_pointer E pid (s_id snap))) (\<lambda>_.
          ret (Some (s_id snap))))))))"

section \<open>What no layer operation breaks\<close>

text \<open>Between two states of the database objects are only added, and a consistent partition table
  stays consistent and changes only at the partitions in \<open>P\<close>.\<close>

definition objects_kept :: "db \<Rightarrow> db \<Rightarrow> bool" where
  "objects_kept s s' \<longleftrightarrow> prefix (t_file_nodes s) (t_file_nodes s')
     \<and> prefix (t_deltas s) (t_deltas s') \<and> prefix (t_snapshots s) (t_snapshots s')
     \<and> prefix (t_checkpoints s) (t_checkpoints s')"

definition layer_step :: "uuid set \<Rightarrow> db \<Rightarrow> db \<Rightarrow> bool" where
  "layer_step P s s' \<longleftrightarrow> objects_kept s s' \<and>
     (partitions_ok s \<longrightarrow> partitions_ok s' \<and> (\<forall>q. q \<notin> P \<longrightarrow> pointer_view q s' = pointer_view q s))"

interpretation objects: state_preorder objects_kept
  by unfold_locales (auto simp: objects_kept_def intro: prefix_order.trans)

interpretation layer: state_preorder "layer_step P" for P
  by unfold_locales
    (auto simp: layer_step_def objects_kept_def intro: prefix_order.trans)

lemmas stays_rules = layer.stays_ret layer.stays_fail layer.stays_query layer.stays_lift_result
  layer.stays_map_err layer.stays_sbind layer.stays_match_err layer.stays_if layer.stays_for_each

lemma stays_mono: "stays (layer_step P) m \<Longrightarrow> P \<subseteq> Q \<Longrightarrow> stays (layer_step Q) m"
  by (fastforce simp: stays_def layer_step_def)

lemma pointer_view_objects [simp]:
  "pointer_view q (s\<lparr>t_file_nodes := a\<rparr>) = pointer_view q s"
  "pointer_view q (s\<lparr>t_deltas := b\<rparr>) = pointer_view q s"
  "pointer_view q (s\<lparr>t_snapshots := c\<rparr>) = pointer_view q s"
  "pointer_view q (s\<lparr>t_checkpoints := d\<rparr>) = pointer_view q s"
  "pointer_view q (s\<lparr>t_branches := e\<rparr>) = pointer_view q s"
  "pointer_view q (s\<lparr>t_layers := f\<rparr>) = pointer_view q s"
  by (simp_all add: pointer_view_def has_partition_row_def load_history_def history_rows_def)

lemma partitions_ok_cong:
  "t_partitions s' = t_partitions s \<Longrightarrow> t_history s' = t_history s \<Longrightarrow> partitions_ok s' = partitions_ok s"
  by (simp add: partitions_ok_def history_rows_def has_partition_row_def row_ok_def cong: list_all_cong)

lemma partitions_ok_objects [simp]:
  "partitions_ok (s\<lparr>t_file_nodes := a\<rparr>) = partitions_ok s"
  "partitions_ok (s\<lparr>t_deltas := b\<rparr>) = partitions_ok s"
  "partitions_ok (s\<lparr>t_snapshots := c\<rparr>) = partitions_ok s"
  "partitions_ok (s\<lparr>t_checkpoints := d\<rparr>) = partitions_ok s"
  "partitions_ok (s\<lparr>t_branches := e\<rparr>) = partitions_ok s"
  "partitions_ok (s\<lparr>t_layers := f\<rparr>) = partitions_ok s"
  by (rule partitions_ok_cong; simp)+

lemma stays_store_file_node: "stays (layer_step P) (store_file_node E f c)"
  by (simp add: stays_def layer_step_def objects_kept_def store_file_node_def update_def
      insert_or_ignore_prefix)

lemma stays_store_delta: "stays (layer_step P) (store_delta E d)"
  by (simp add: stays_def layer_step_def objects_kept_def store_delta_def update_def
      insert_or_ignore_prefix)

lemma stays_store_snapshot: "stays (layer_step P) (store_snapshot E x c)"
  by (simp add: stays_def layer_step_def objects_kept_def store_snapshot_def update_def
      insert_or_ignore_prefix)

lemma stays_store_checkpoint: "stays (layer_step P) (store_checkpoint E cp)"
  by (auto simp: stays_def layer_step_def objects_kept_def store_checkpoint_def sbind_def lift_result_def
      update_def insert_or_ignore_prefix split: result.split)

lemma stays_branch:
  "stays (layer_step P) (store_branch b)" "stays (layer_step P) (update_branch_head E n h)"
  "stays (layer_step P) (store_layer E l)"
  by (simp_all add: stays_def layer_step_def objects_kept_def store_branch_def update_branch_head_def
      store_layer_def update_def)

lemma objects_set_current: "stays objects_kept (set_current_row E pid c)"
  by (simp add: stays_def set_current_row_def update_def objects_kept_def)

lemma objects_insert_history: "stays objects_kept (insert_history_row E pid x n)"
  by (simp add: stays_def insert_history_row_def objects_kept_def)

lemma objects_insert_partition: "stays objects_kept (insert_partition_row r)"
  by (simp add: stays_def insert_partition_row_def objects_kept_def)

lemma objects_update_history: "stays objects_kept (update (\<lambda>s. s\<lparr>t_history := f s\<rparr>))"
  by (simp add: stays_def update_def objects_kept_def)

lemma objects_partition_ops:
  "stays objects_kept (update_pointer E pid x)"
  "stays objects_kept (reset_partition_to_baseline E pid)"
  "stays objects_kept (create_partition E p)"
  unfolding update_pointer_def reset_partition_to_baseline_def create_partition_def
  by (intro objects.stays_intros objects_set_current objects_insert_history objects_insert_partition
      objects_update_history; simp split: prod.split add: objects_insert_history)+

lemma stays_objects_kept:
  "objects_kept s (snd (update_pointer E pid x s))"
  "objects_kept s (snd (reset_partition_to_baseline E pid s))"
  "objects_kept s (snd (create_partition E p s))"
  using objects_partition_ops by (simp_all add: stays_def)

lemma stays_update_pointer: "stays (layer_step {pid}) (update_pointer E pid x)"
  using pointers.push_good pointers.push_other stays_objects_kept
  by (simp add: stays_def layer_step_def)

lemma stays_reset: "stays (layer_step {pid}) (reset_partition_to_baseline E pid)"
  using pointers.reset_good pointers.reset_other stays_objects_kept
  by (simp add: stays_def layer_step_def)

lemma pointer_view_created:
  assumes "partitions_ok s" and "\<not> has_partition_row (p_id p) s"
    and "\<not> list_ex (\<lambda>q. pr_name q = p_name p) (t_partitions s)" and "partition_wf p" and "q \<noteq> p_id p"
  shows "pointer_view q (created E p s) = pointer_view q s"
  using assms history_rows_created [OF assms(1,2)]
  by (simp add: pointer_view_def load_history_def has_partition_row_def created_def partition_to_row_def)

lemma stays_create:
  assumes "partition_wf p"
  shows "stays (layer_step {p_id p}) (create_partition E p)"
  using created_ok [OF _ _ _ assms] pointer_view_created [OF _ _ _ assms] stays_objects_kept(3)
  by (auto simp: stays_def layer_step_def create_run)

lemma stays_ensure:
  assumes "partition_wf p"
  shows "stays (layer_step {p_id p}) (ensure_partition E p)"
  unfolding ensure_partition_def by (intro stays_rules stays_create assms)

lemma stays_reads:
  "stays (layer_step P) (find_partition pid msg)" "stays (layer_step P) (read_snapshot E i)"
  "stays (layer_step P) (read_deltas is)" "stays (layer_step P) (reconstruct_text E x)"
  "stays (layer_step P) (read_old_content E x)"
  unfolding find_partition_def read_snapshot_def read_deltas_def reconstruct_text_def read_old_content_def
  by (intro stays_rules)+

lemmas stays_stores = stays_store_file_node stays_store_delta stays_store_snapshot
  stays_store_checkpoint stays_branch stays_reads

lemma stays_write_edit: "stays (layer_step {pid}) (write_edit E pid part cur old path new source ptype)"
  unfolding write_edit_def Let_def
  by (intro stays_rules stays_stores stays_update_pointer)

lemma stays_write_merge:
  "stays (layer_step {pid}) (write_merge E pid tt merged incoming fallback source parents ptype confl)"
  unfolding write_merge_def Let_def
  by (intro stays_rules stays_stores stays_update_pointer)

end
