(* ===== verification/Backup_Store.thy ===== *)
theory Backup_Store
  imports Layer_Base
begin

text \<open>
  \<^verbatim>\<open>src/backup/backup_snapshot.rs\<close> and the storage part of \<^verbatim>\<open>src/backup/backup_repo.rs\<close>: backups of
  snapshots, kept in a database of their own that does not share anything with the database of the
  layers. The JSON codec of a list of deltas is not under \<open>src/\<close>: it is the parameter
  \<open>backup_codec\<close>. A hash map of strings is written as JSON by its value; its order is that of the keys.
\<close>

section \<open>Backups\<close>

record backup_snapshot =
  bs_id :: backup_id
  bs_source_snapshot :: snapshot_id
  bs_file :: file_node
  bs_deltas :: "delta list"
  bs_label :: "string option"
  bs_backed_at :: int
  bs_metadata :: "(string, string) fmap"
  bs_agent_id :: "string option"
  bs_source_type :: "string option"
  bs_file_content :: bytes

definition opt_bytes :: "string option \<Rightarrow> bytes" where
  "opt_bytes x = (case x of None \<Rightarrow> [] | Some s \<Rightarrow> s)"

definition backup_preimage :: "backup_snapshot \<Rightarrow> bytes" where
  "backup_preimage b =
     id_bytes (bs_source_snapshot b)
     @ path_str (bs_file b) @ base_hash (bs_file b)
     @ concat (map (\<lambda>d. id_bytes (d_id d)) (bs_deltas b))
     @ opt_bytes (bs_label b)
     @ opt_bytes (bs_agent_id b)
     @ opt_bytes (bs_source_type b)
     @ bs_file_content b
     @ concat (map (\<lambda>(k, v). k @ [CHR 0x00] @ v @ [CHR 0x00]) (sorted_list_of_fmap (bs_metadata b)))"

definition backup_compute_id :: "env \<Rightarrow> backup_snapshot \<Rightarrow> backup_id" where
  "backup_compute_id E b = ContentId (env_blake3 E (backup_preimage b))"

definition backup_seal :: "env \<Rightarrow> backup_snapshot \<Rightarrow> backup_snapshot" where
  "backup_seal E b = b\<lparr>bs_id := backup_compute_id E b\<rparr>"

definition backup_with_options ::
    "env \<Rightarrow> snapshot_id \<Rightarrow> file_node \<Rightarrow> delta list \<Rightarrow> string option \<Rightarrow> string option \<Rightarrow> string option \<Rightarrow> bytes
      \<Rightarrow> backup_snapshot" where
  "backup_with_options E source file deltas label agent_id source_type content =
     backup_seal E
       \<lparr>bs_id = zero_id, bs_source_snapshot = source, bs_file = file, bs_deltas = deltas, bs_label = label,
        bs_backed_at = env_now E BackupClock, bs_metadata = fmempty, bs_agent_id = agent_id,
        bs_source_type = source_type, bs_file_content = content\<rparr>"

definition backup_new ::
    "env \<Rightarrow> snapshot_id \<Rightarrow> file_node \<Rightarrow> delta list \<Rightarrow> string option \<Rightarrow> bytes \<Rightarrow> backup_snapshot" where
  "backup_new E source file deltas label content = backup_with_options E source file deltas label None None content"

definition backup_with_metadata :: "env \<Rightarrow> string \<Rightarrow> string \<Rightarrow> backup_snapshot \<Rightarrow> backup_snapshot" where
  "backup_with_metadata E k v b = backup_seal E (b\<lparr>bs_metadata := fmupd k v (bs_metadata b)\<rparr>)"

definition backup_with_agent_id :: "env \<Rightarrow> string \<Rightarrow> backup_snapshot \<Rightarrow> backup_snapshot" where
  "backup_with_agent_id E a b = backup_seal E (b\<lparr>bs_agent_id := Some a\<rparr>)"

definition backup_with_source_type :: "env \<Rightarrow> string \<Rightarrow> backup_snapshot \<Rightarrow> backup_snapshot" where
  "backup_with_source_type E t b = backup_seal E (b\<lparr>bs_source_type := Some t\<rparr>)"

section \<open>Filters\<close>

record backup_filter =
  bf_source :: "snapshot_id option"
  bf_range :: "(int \<times> int) option"
  bf_label :: "string option"
  bf_metadata_key :: "string option"
  bf_metadata_value :: "string option"
  bf_agent_id :: "string option"
  bf_source_type :: "string option"

definition filter_new :: backup_filter where
  "filter_new = \<lparr>bf_source = None, bf_range = None, bf_label = None, bf_metadata_key = None,
     bf_metadata_value = None, bf_agent_id = None, bf_source_type = None\<rparr>"

definition filter_with_source :: "snapshot_id \<Rightarrow> backup_filter \<Rightarrow> backup_filter" where
  "filter_with_source i f = f\<lparr>bf_source := Some i\<rparr>"

definition filter_with_time_range :: "int \<Rightarrow> int \<Rightarrow> backup_filter \<Rightarrow> backup_filter" where
  "filter_with_time_range a b f = f\<lparr>bf_range := Some (a, b)\<rparr>"

definition filter_with_label :: "string \<Rightarrow> backup_filter \<Rightarrow> backup_filter" where
  "filter_with_label l f = f\<lparr>bf_label := Some l\<rparr>"

definition filter_with_metadata :: "string \<Rightarrow> string \<Rightarrow> backup_filter \<Rightarrow> backup_filter" where
  "filter_with_metadata k v f = f\<lparr>bf_metadata_key := Some k, bf_metadata_value := Some v\<rparr>"

definition filter_with_agent_id :: "string \<Rightarrow> backup_filter \<Rightarrow> backup_filter" where
  "filter_with_agent_id a f = f\<lparr>bf_agent_id := Some a\<rparr>"

definition filter_with_source_type :: "string \<Rightarrow> backup_filter \<Rightarrow> backup_filter" where
  "filter_with_source_type t f = f\<lparr>bf_source_type := Some t\<rparr>"

section \<open>The backup database\<close>

record backup_row =
  bk_id :: bytes
  bk_source_snapshot :: bytes
  bk_path :: string
  bk_hash :: bytes
  bk_deltas :: bytes
  bk_label :: "string option"
  bk_backed_at :: int
  bk_metadata :: "(string, string) fmap"
  bk_agent_id :: "string option"
  bk_source_type :: "string option"
  bk_content :: bytes

record backup_db =
  b_snapshots :: "backup_row list"
  b_metadata :: "(bytes \<times> string \<times> string) list"

definition empty_backup_db :: backup_db where
  "empty_backup_db = \<lparr>b_snapshots = [], b_metadata = []\<rparr>"

record backup_codec =
  bc_to_json :: "delta list \<Rightarrow> string + bytes"
  bc_from_json :: "bytes \<Rightarrow> string + delta list"

definition compress_deltas :: "env \<Rightarrow> backup_codec \<Rightarrow> delta list \<Rightarrow> (bytes, storage_error) result" where
  "compress_deltas E bc ds = (case bc_to_json bc ds of
     Inl e \<Rightarrow> Err (SSerialization e)
   | Inr js \<Rightarrow> (case env_zstd_encode E js of
       Inl e \<Rightarrow> Err (SSerialization (''zstd compression failed: '' @ e))
     | Inr b \<Rightarrow> Ok b))"

definition decompress_deltas :: "env \<Rightarrow> backup_codec \<Rightarrow> bytes \<Rightarrow> (delta list, storage_error) result" where
  "decompress_deltas E bc b = (case env_zstd_decode E b of
     Inl e \<Rightarrow> Err (SSerialization (''zstd decompression failed: '' @ e))
   | Inr js \<Rightarrow> (case bc_from_json bc js of
       Inl e \<Rightarrow> Err (SSerialization (''delta JSON deserialization failed: '' @ e))
     | Inr ds \<Rightarrow> Ok ds))"

text \<open>\<open>BEGIN IMMEDIATE\<close>, then \<open>COMMIT\<close> or \<open>ROLLBACK\<close>\<close>

definition in_transaction :: "('s, 'a, 'e) prog \<Rightarrow> ('s, 'a, 'e) prog" where
  "in_transaction m = (\<lambda>s. case m s of
     (Ok x, s') \<Rightarrow> (Ok x, s')
   | (Err e, s') \<Rightarrow> (Err e, s)
   | (Panic, s') \<Rightarrow> (Panic, s))"

definition backup_to_row :: "backup_snapshot \<Rightarrow> bytes \<Rightarrow> backup_row" where
  "backup_to_row b col =
     \<lparr>bk_id = id_bytes (bs_id b), bk_source_snapshot = id_bytes (bs_source_snapshot b),
      bk_path = path_str (bs_file b), bk_hash = base_hash (bs_file b), bk_deltas = col,
      bk_label = bs_label b, bk_backed_at = bs_backed_at b, bk_metadata = bs_metadata b,
      bk_agent_id = bs_agent_id b, bk_source_type = bs_source_type b, bk_content = bs_file_content b\<rparr>"

definition row_to_backup :: "backup_row \<Rightarrow> delta list \<Rightarrow> backup_snapshot" where
  "row_to_backup r ds =
     \<lparr>bs_id = ContentId (bk_id r), bs_source_snapshot = ContentId (bk_source_snapshot r),
      bs_file = \<lparr>file_path = bk_path r, base_hash = bk_hash r\<rparr>, bs_deltas = ds, bs_label = bk_label r,
      bs_backed_at = bk_backed_at r, bs_metadata = bk_metadata r, bs_agent_id = bk_agent_id r,
      bs_source_type = bk_source_type r, bs_file_content = bk_content r\<rparr>"

definition store_metadata_row :: "bytes \<Rightarrow> string \<times> string \<Rightarrow> (backup_db, unit, storage_error) prog" where
  "store_metadata_row i kv = update (\<lambda>s. s\<lparr>b_metadata :=
     insert_or_ignore (\<lambda>(i, k, v). (i, k)) (i, fst kv, snd kv) (b_metadata s)\<rparr>)"

definition store_backup_inner ::
    "env \<Rightarrow> backup_codec \<Rightarrow> backup_snapshot \<Rightarrow> (backup_db, unit, storage_error) prog" where
  "store_backup_inner E bc b =
     sbind (lift_result (compress_deltas E bc (bs_deltas b))) (\<lambda>col.
     sbind (update (\<lambda>s. s\<lparr>b_snapshots := insert_or_ignore bk_id (backup_to_row b col) (b_snapshots s)\<rparr>)) (\<lambda>_.
     for_each (store_metadata_row (id_bytes (bs_id b))) (sorted_list_of_fmap (bs_metadata b))))"

definition extract_source_info_from_deltas :: "delta list \<Rightarrow> string option \<times> string option" where
  "extract_source_info_from_deltas ds = (case ds of
     [] \<Rightarrow> (None, None)
   | d # _ \<Rightarrow> (case d_source d of
       Agent a \<Rightarrow> (Some (agent_name a), Some ''agent'')
     | Manual \<Rightarrow> (None, Some ''manual'')
     | Backup \<Rightarrow> (None, Some ''backup'')))"

text \<open>What is read from the database of the layers.\<close>

definition collect_backup ::
    "env \<Rightarrow> db \<Rightarrow> snapshot_id \<Rightarrow> string option \<Rightarrow> (backup_snapshot, lt_error) result" where
  "collect_backup E core i label =
     and_then (result_map_err Storage (get_snapshot E i core)) (\<lambda>x.
     and_then (result_map_err Storage (get_deltas (s_deltas x) core)) (\<lambda>ds.
     and_then (result_map_err Storage (get_file_content (path_str (s_file x)) (base_hash (s_file x)) core)) (\<lambda>content.
     case extract_source_info_from_deltas ds of (agent_id, source_type) \<Rightarrow>
       Ok (backup_with_options E i (case list_last ds of Some d \<Rightarrow> d_file d | None \<Rightarrow> s_file x) ds label
             agent_id source_type content))))"

definition create_backup ::
    "env \<Rightarrow> backup_codec \<Rightarrow> db \<Rightarrow> snapshot_id \<Rightarrow> string option \<Rightarrow> (backup_db, backup_id, lt_error) prog" where
  "create_backup E bc core i label =
     sbind (lift_result (collect_backup E core i label)) (\<lambda>b.
     sbind (map_err Storage (in_transaction (store_backup_inner E bc b))) (\<lambda>_. ret (bs_id b)))"

definition get_backup ::
    "env \<Rightarrow> backup_codec \<Rightarrow> backup_id \<Rightarrow> backup_db \<Rightarrow> (backup_snapshot, lt_error) result" where
  "get_backup E bc i s =
     and_then (result_map_err Storage (query_row (select_row bk_id (id_bytes i) (b_snapshots s)))) (\<lambda>r.
     case decompress_deltas E bc (bk_deltas r) of
       Ok ds \<Rightarrow> Ok (row_to_backup r ds)
     | Err e \<Rightarrow> Err (Storage (Database (ToSqlConversionFailure (storage_error_display (env_show_sql E) e))))
     | Panic \<Rightarrow> Panic)"

definition opt_matches :: "'a option \<Rightarrow> ('a \<Rightarrow> bool) \<Rightarrow> bool" where
  "opt_matches x p = (case x of None \<Rightarrow> True | Some y \<Rightarrow> p y)"

text \<open>A comparison with NULL is not true.\<close>

definition row_matches :: "backup_filter \<Rightarrow> (bytes \<times> string \<times> string) list \<Rightarrow> backup_row \<Rightarrow> bool" where
  "row_matches f md r \<longleftrightarrow>
     opt_matches (bf_source f) (\<lambda>i. bk_source_snapshot r = id_bytes i)
     \<and> opt_matches (bf_range f) (\<lambda>(a, b). a \<le> bk_backed_at r \<and> bk_backed_at r \<le> b)
     \<and> opt_matches (bf_label f) (\<lambda>l. bk_label r = Some l)
     \<and> opt_matches (bf_agent_id f) (\<lambda>a. bk_agent_id r = Some a)
     \<and> opt_matches (bf_source_type f) (\<lambda>t. bk_source_type r = Some t)
     \<and> opt_matches (bf_metadata_key f) (\<lambda>k. case bf_metadata_value f of
           Some v \<Rightarrow> list_ex (\<lambda>e. e = (bk_id r, k, v)) md
         | None \<Rightarrow> list_ex (\<lambda>(i, k', v). i = bk_id r \<and> k' = k) md)"

definition query_backups ::
    "env \<Rightarrow> backup_codec \<Rightarrow> backup_filter \<Rightarrow> backup_db \<Rightarrow> (backup_snapshot list, lt_error) result" where
  "query_backups E bc f s =
     Ok (map (\<lambda>r. row_to_backup r (case result_ok (decompress_deltas E bc (bk_deltas r)) of None \<Rightarrow> [] | Some ds \<Rightarrow> ds))
       (order_by_desc bk_backed_at (filter (row_matches f (b_metadata s)) (b_snapshots s))))"

definition delete_backup :: "backup_id \<Rightarrow> (backup_db, unit, lt_error) prog" where
  "delete_backup i = (\<lambda>s.
     let affected = length (filter (\<lambda>r. bk_id r = id_bytes i) (b_snapshots s));
         s' = s\<lparr>b_snapshots := filter (\<lambda>r. bk_id r \<noteq> id_bytes i) (b_snapshots s)\<rparr>
     in if affected = 0 then (Err (NotFound (''backup '' @ to_hex i @ '' not found'')), s') else (Ok (), s'))"

definition backup_count :: "backup_db \<Rightarrow> (nat, lt_error) result" where
  "backup_count s = Ok (length (b_snapshots s))"

section \<open>Reading a backup back\<close>

lemma backup_seal_simps [simp]:
  "bs_source_snapshot (backup_seal E b) = bs_source_snapshot b" "bs_file (backup_seal E b) = bs_file b"
  "bs_deltas (backup_seal E b) = bs_deltas b" "bs_label (backup_seal E b) = bs_label b"
  "bs_backed_at (backup_seal E b) = bs_backed_at b" "bs_metadata (backup_seal E b) = bs_metadata b"
  "bs_agent_id (backup_seal E b) = bs_agent_id b" "bs_source_type (backup_seal E b) = bs_source_type b"
  "bs_file_content (backup_seal E b) = bs_file_content b" "bs_id (backup_seal E b) = backup_compute_id E b"
  by (simp_all add: backup_seal_def)

lemma backup_preimage_id [simp]:
  "backup_preimage (b\<lparr>bs_id := i\<rparr>) = backup_preimage b" "backup_preimage (b\<lparr>bs_backed_at := t\<rparr>) = backup_preimage b"
  by (simp_all add: backup_preimage_def)

lemma backup_with_options_simps [simp]:
  "bs_source_snapshot (backup_with_options E src f ds l a t c) = src"
  "bs_file (backup_with_options E src f ds l a t c) = f" "bs_deltas (backup_with_options E src f ds l a t c) = ds"
  "bs_label (backup_with_options E src f ds l a t c) = l" "bs_agent_id (backup_with_options E src f ds l a t c) = a"
  "bs_source_type (backup_with_options E src f ds l a t c) = t"
  "bs_file_content (backup_with_options E src f ds l a t c) = c"
  "bs_metadata (backup_with_options E src f ds l a t c) = fmempty"
  by (simp_all add: backup_with_options_def)

definition codec_ok :: "env \<Rightarrow> backup_codec \<Rightarrow> delta list \<Rightarrow> bool" where
  "codec_ok E bc ds \<longleftrightarrow> (\<exists>col. compress_deltas E bc ds = Ok col \<and> decompress_deltas E bc col = Ok ds)"

lemma row_backup_roundtrip [simp]: "row_to_backup (backup_to_row b col) (bs_deltas b) = b"
  by (simp add: row_to_backup_def backup_to_row_def path_str_def)

lemma metadata_rows_frame: "\<exists>md. for_each (store_metadata_row j) kvs s = (Ok (), s\<lparr>b_metadata := md\<rparr>)"
proof (induction kvs arbitrary: s)
  case Nil
  have "for_each (store_metadata_row j) [] s = (Ok (), s\<lparr>b_metadata := b_metadata s\<rparr>)" by (simp add: ret_def)
  then show ?case by blast
next
  case (Cons kv kvs)
  let ?s = "s\<lparr>b_metadata := insert_or_ignore (\<lambda>(i, k, v). (i, k)) (j, fst kv, snd kv) (b_metadata s)\<rparr>"
  have step: "store_metadata_row j kv s = (Ok (), ?s)" by (simp add: store_metadata_row_def update_def)
  from Cons [of ?s] obtain md where "for_each (store_metadata_row j) kvs ?s = (Ok (), ?s\<lparr>b_metadata := md\<rparr>)" by blast
  then have "for_each (store_metadata_row j) (kv # kvs) s = (Ok (), s\<lparr>b_metadata := md\<rparr>)"
    using step by (simp add: sbind_def)
  then show ?case by blast
qed

lemma store_backup_run:
  assumes "compress_deltas E bc (bs_deltas b) = Ok col"
  obtains md where "store_backup_inner E bc b s
    = (Ok (), s\<lparr>b_snapshots := insert_or_ignore bk_id (backup_to_row b col) (b_snapshots s), b_metadata := md\<rparr>)"
proof -
  let ?s = "s\<lparr>b_snapshots := insert_or_ignore bk_id (backup_to_row b col) (b_snapshots s)\<rparr>"
  obtain md where "for_each (store_metadata_row (id_bytes (bs_id b))) (sorted_list_of_fmap (bs_metadata b)) ?s
      = (Ok (), ?s\<lparr>b_metadata := md\<rparr>)"
    using metadata_rows_frame by blast
  then show thesis
    using assms that by (simp add: store_backup_inner_def sbind_def lift_result_def update_def)
qed

lemma get_backup_stored:
  assumes "codec_ok E bc (bs_deltas b)" and "\<forall>r \<in> set (b_snapshots s). bk_id r \<noteq> id_bytes (bs_id b)"
  shows "\<exists>s'. in_transaction (store_backup_inner E bc b) s = (Ok (), s') \<and> get_backup E bc (bs_id b) s' = Ok b
     \<and> (\<forall>j. j \<noteq> bs_id b \<longrightarrow> get_backup E bc j s' = get_backup E bc j s)
     \<and> length (b_snapshots s') = Suc (length (b_snapshots s))"
proof -
  from assms(1) obtain col where col: "compress_deltas E bc (bs_deltas b) = Ok col"
    "decompress_deltas E bc col = Ok (bs_deltas b)" by (auto simp: codec_ok_def)
  obtain md where run: "store_backup_inner E bc b s
    = (Ok (), s\<lparr>b_snapshots := insert_or_ignore bk_id (backup_to_row b col) (b_snapshots s), b_metadata := md\<rparr>)"
    by (rule store_backup_run [OF col(1)])
  let ?s = "s\<lparr>b_snapshots := insert_or_ignore bk_id (backup_to_row b col) (b_snapshots s), b_metadata := md\<rparr>"
  have id: "bk_id (backup_to_row b col) = id_bytes (bs_id b)" "bk_deltas (backup_to_row b col) = col"
    by (simp_all add: backup_to_row_def)
  have sel: "select_row bk_id k (b_snapshots ?s) = (case select_row bk_id k (b_snapshots s) of
      Some r \<Rightarrow> Some r | None \<Rightarrow> if id_bytes (bs_id b) = k then Some (backup_to_row b col) else None)" for k
    by (simp add: select_insert_or_ignore id)
  have none: "select_row bk_id (id_bytes (bs_id b)) (b_snapshots s) = None"
    using assms(2) by (auto simp: select_row_def find_None_iff)
  have "get_backup E bc (bs_id b) ?s = Ok b"
    unfolding get_backup_def sel none by (simp add: id(2) col(2))
  moreover have "get_backup E bc j ?s = get_backup E bc j s" if "j \<noteq> bs_id b" for j
    unfolding get_backup_def sel using that
    by (cases "select_row bk_id (id_bytes j) (b_snapshots s)") (auto simp: content_id.expand)
  moreover have "length (b_snapshots ?s) = Suc (length (b_snapshots s))"
    using assms(2) by (auto simp: insert_or_ignore_def id list_ex_iff)
  ultimately show ?thesis by (simp add: in_transaction_def run)
qed

end
