(* ===== verification/Layer_Edit.thy ===== *)
theory Layer_Edit
  imports Layer_Base
begin

text \<open>
  The layers edits enter by: \<^verbatim>\<open>src/layered/staged.rs\<close> (the partition), \<^verbatim>\<open>manual.rs\<close>,
  \<^verbatim>\<open>agent.rs\<close> and \<^verbatim>\<open>approval.rs\<close>, and the correctness of an edit.
\<close>

section \<open>Partition identifiers\<close>

definition manual_partition_id :: uuid where
  "manual_partition_id = 1"

definition staged_partition_id :: uuid where
  "staged_partition_id = 0x60000000000000000000000000000000"

definition agent_partition_id :: "env \<Rightarrow> agent_instance_id \<Rightarrow> uuid" where
  "agent_partition_id E a = env_uuid_v5 E 0x20000000000000000000000000000000 (agent_name a)"

definition approval_agent_partition_id :: "env \<Rightarrow> agent_instance_id \<Rightarrow> uuid" where
  "approval_agent_partition_id E a = env_uuid_v5 E 0x30000000000000000000000000000000 (agent_name a)"

definition integrated_partition_id :: "env \<Rightarrow> string \<Rightarrow> uuid" where
  "integrated_partition_id E name = env_uuid_v5 E 0x40000000000000000000000000000000 name"

section \<open>Partitions on demand\<close>

definition ensure_staged_partition :: "env \<Rightarrow> snapshot_id \<Rightarrow> partition sys" where
  "ensure_staged_partition E initial =
     ensure_partition E (initial_partition staged_partition_id ''staged'' PStaged initial)"

definition ensure_manual_partition :: "env \<Rightarrow> snapshot_id \<Rightarrow> partition sys" where
  "ensure_manual_partition E initial =
     ensure_partition E (initial_partition manual_partition_id ''manual_edit'' PManual initial)"

definition ensure_agent_partition :: "env \<Rightarrow> agent_instance_id \<Rightarrow> snapshot_id \<Rightarrow> partition sys" where
  "ensure_agent_partition E a initial =
     ensure_partition E
       (initial_partition (agent_partition_id E a) (''agent_edit/'' @ agent_name a) (PAgent a) initial)"

definition ensure_approval_agent_partition ::
    "env \<Rightarrow> agent_instance_id \<Rightarrow> snapshot_id \<Rightarrow> partition sys" where
  "ensure_approval_agent_partition E a initial =
     ensure_partition E
       (initial_partition (approval_agent_partition_id E a) (''approval/'' @ agent_name a) (PApproval a)
         initial)"

section \<open>Edits\<close>

definition apply_manual_edit :: "env \<Rightarrow> string \<Rightarrow> string \<Rightarrow> snapshot_id sys" where
  "apply_manual_edit E path new =
     sbind (find_partition manual_partition_id
       ''manual_edit partition not found, call ensure_manual_partition first'') (\<lambda>part.
     sbind (read_snapshot E (p_current part)) (\<lambda>cur.
     sbind (read_old_content E cur) (\<lambda>old.
     write_edit E manual_partition_id part cur old path new Manual PManual)))"

definition apply_agent_edit :: "env \<Rightarrow> agent_instance_id \<Rightarrow> string \<Rightarrow> string \<Rightarrow> snapshot_id sys" where
  "apply_agent_edit E a path new =
     sbind (find_partition (agent_partition_id E a)
       (''agent partition for '' @ agent_name a @ '' not found, call ensure_agent_partition first'')) (\<lambda>part.
     sbind (read_snapshot E (p_current part)) (\<lambda>cur.
     sbind (read_old_content E cur) (\<lambda>old.
     write_edit E (agent_partition_id E a) part cur old path new (Agent a) (PAgent a))))"

definition discard_agent_edit :: "env \<Rightarrow> agent_instance_id \<Rightarrow> unit sys" where
  "discard_agent_edit E a =
     sbind (find_partition (agent_partition_id E a)
       (''agent partition '' @ agent_name a @ '' not found'')) (\<lambda>part.
     sbind (read_snapshot E (p_current part)) (\<lambda>cur.
     case list_first (s_parents cur) of
       Some parent \<Rightarrow> storage (update_pointer E (agent_partition_id E a) parent)
     | None \<Rightarrow> fail (StateMachine ''agent has no parent snapshot to discard to'')))"

section \<open>Merges into staged and approval\<close>

definition merge_manual_to_staged :: "env \<Rightarrow> snapshot_id sys" where
  "merge_manual_to_staged E =
     sbind (find_partition manual_partition_id ''manual_edit partition not found'') (\<lambda>manual_part.
     sbind (find_partition staged_partition_id ''staged partition not found'') (\<lambda>staged_part.
     if p_current manual_part = p_current staged_part then ret (p_current staged_part)
     else
       sbind (read_snapshot E (p_current manual_part)) (\<lambda>manual_snapshot.
       sbind (read_snapshot E (p_current staged_part)) (\<lambda>staged_snapshot.
       let baseline_snapshot = staged_snapshot in
       sbind (reconstruct_text E baseline_snapshot) (\<lambda>baseline_text.
       sbind (reconstruct_text E staged_snapshot) (\<lambda>staged_text.
       sbind (reconstruct_text E manual_snapshot) (\<lambda>manual_text.
       sbind (lift_result (merge_texts E baseline_text staged_text manual_text)) (\<lambda>(merged_text, conflicts).
       sbind (write_merge E staged_partition_id staged_text merged_text manual_snapshot
           (s_file staged_snapshot) Manual [staged_snapshot, manual_snapshot] PStaged (conflicts \<noteq> []))
         (\<lambda>new. ret (case new of None \<Rightarrow> p_current staged_part | Some i \<Rightarrow> i))))))))))"

definition move_agent_to_approval :: "env \<Rightarrow> agent_instance_id \<Rightarrow> snapshot_id sys" where
  "move_agent_to_approval E a =
     sbind (find_partition (agent_partition_id E a)
       (''agent partition '' @ agent_name a @ '' not found'')) (\<lambda>agent_part.
     sbind (find_partition (approval_agent_partition_id E a)
       (''approval partition for agent '' @ agent_name a
        @ '' not found, call ensure_approval_agent_partition first'')) (\<lambda>approval_part.
     if p_current agent_part = p_current approval_part then ret (p_current approval_part)
     else
       sbind (read_snapshot E (p_current agent_part)) (\<lambda>agent_snapshot.
       sbind (read_snapshot E (p_current approval_part)) (\<lambda>approval_snapshot.
       sbind (lift_result (ok_or (list_first (p_history approval_part))
           (StateMachine ''approval partition has empty history''))) (\<lambda>baseline_id.
       sbind (read_snapshot E baseline_id) (\<lambda>baseline_snapshot.
       sbind (reconstruct_text E baseline_snapshot) (\<lambda>baseline_text.
       sbind (reconstruct_text E approval_snapshot) (\<lambda>approval_text.
       sbind (reconstruct_text E agent_snapshot) (\<lambda>agent_text.
       sbind (lift_result (merge_texts E baseline_text approval_text agent_text)) (\<lambda>(merged_text, conflicts).
       sbind (write_merge E (approval_agent_partition_id E a) approval_text merged_text agent_snapshot
           (s_file agent_snapshot) (Agent a) [approval_snapshot, agent_snapshot] (PApproval a)
           (conflicts \<noteq> []))
         (\<lambda>new. ret (case new of None \<Rightarrow> p_current approval_part | Some i \<Rightarrow> i))))))))))))"

section \<open>Approvals\<close>

definition is_approval :: "partition \<Rightarrow> bool" where
  "is_approval p = (case p_type p of PApproval a \<Rightarrow> True | _ \<Rightarrow> False)"

definition list_approval_partitions :: "partition list sys" where
  "list_approval_partitions =
     sbind (storage (query list_partitions)) (\<lambda>ps. ret (filter is_approval ps))"

definition list_pending_approvals :: "partition list sys" where
  "list_pending_approvals =
     sbind list_approval_partitions (\<lambda>ps. ret (filter (\<lambda>p. 1 < length (p_history p)) ps))"

definition reject_approval :: "env \<Rightarrow> agent_instance_id \<Rightarrow> snapshot_id sys" where
  "reject_approval E a =
     sbind (find_partition (approval_agent_partition_id E a)
       (''approval partition for agent '' @ [CHR 0x27] @ agent_name a @ [CHR 0x27] @ '' not found'')) (\<lambda>part.
     sbind (lift_result (ok_or (list_first (p_history part))
         (StateMachine ''approval partition has empty history''))) (\<lambda>base.
     sbind (storage (reset_partition_to_baseline E (approval_agent_partition_id E a))) (\<lambda>_.
     ret base)))"

section \<open>Every operation respects the relation\<close>

lemma initial_partition_wf [simp]: "partition_wf (initial_partition pid n t i)"
  by (simp add: initial_partition_def partition_wf_def)

lemma initial_partition_id [simp]: "p_id (initial_partition pid n t i) = pid"
  by (simp add: initial_partition_def)

lemma stays_option:
  "(\<And>x. stays R (f x)) \<Longrightarrow> stays R g \<Longrightarrow> stays R (case m of Some x \<Rightarrow> f x | None \<Rightarrow> g)"
  by (cases m) simp_all

lemma stays_pair: "(\<And>x y. stays R (f x y)) \<Longrightarrow> stays R (case p of (x, y) \<Rightarrow> f x y)"
  by (cases p) simp

lemmas stays_cases = stays_option stays_pair

lemma stays_ensure_partitions:
  "stays (layer_step {staged_partition_id}) (ensure_staged_partition E i)"
  "stays (layer_step {manual_partition_id}) (ensure_manual_partition E i)"
  "stays (layer_step {agent_partition_id E a}) (ensure_agent_partition E a i)"
  "stays (layer_step {approval_agent_partition_id E a}) (ensure_approval_agent_partition E a i)"
  unfolding ensure_staged_partition_def ensure_manual_partition_def ensure_agent_partition_def
    ensure_approval_agent_partition_def
  by (metis stays_ensure initial_partition_id initial_partition_wf)+

lemma stays_apply_manual_edit: "stays (layer_step {manual_partition_id}) (apply_manual_edit E path new)"
  unfolding apply_manual_edit_def by (intro stays_rules stays_stores stays_write_edit)

lemma stays_apply_agent_edit:
  "stays (layer_step {agent_partition_id E a}) (apply_agent_edit E a path new)"
  unfolding apply_agent_edit_def by (intro stays_rules stays_stores stays_write_edit)

lemma stays_discard_agent_edit:
  "stays (layer_step {agent_partition_id E a}) (discard_agent_edit E a)"
  unfolding discard_agent_edit_def
  by (intro stays_rules stays_stores stays_cases stays_update_pointer)

lemma stays_merge_manual_to_staged:
  "stays (layer_step {staged_partition_id}) (merge_manual_to_staged E)"
  unfolding merge_manual_to_staged_def Let_def
  by (intro stays_rules stays_stores stays_cases stays_write_merge)

lemma stays_move_agent_to_approval:
  "stays (layer_step {approval_agent_partition_id E a}) (move_agent_to_approval E a)"
  unfolding move_agent_to_approval_def
  by (intro stays_rules stays_stores stays_cases stays_write_merge)

lemma stays_reject_approval:
  "stays (layer_step {approval_agent_partition_id E a}) (reject_approval E a)"
  unfolding reject_approval_def by (intro stays_rules stays_stores stays_reset)

end
