(* ===== verification/Layer_Flow.thy ===== *)
theory Layer_Flow
  imports Layer_Edit
begin

text \<open>
  The flows between layers: \<^verbatim>\<open>src/layered/integrated.rs\<close>, \<^verbatim>\<open>staged.rs\<close> (merging features,
  validation, commit), \<^verbatim>\<open>transition.rs\<close> (allowed flows, dispatch, rollbacks), \<^verbatim>\<open>api.rs\<close>
  (the development scenarios) and the state machine of \<^verbatim>\<open>src/layered.rs\<close>.
\<close>

section \<open>Merge results\<close>

record merge_result =
  res_snapshot :: snapshot_id
  res_conflicts :: "merge_conflict list"

definition has_merge_conflicts :: "merge_result \<Rightarrow> bool" where
  "has_merge_conflicts r \<longleftrightarrow> res_conflicts r \<noteq> []"

definition conflict_count :: "merge_result \<Rightarrow> nat" where
  "conflict_count r = length (res_conflicts r)"

definition format_conflicts :: "merge_result \<Rightarrow> string" where
  "format_conflicts r =
     (if res_conflicts r = [] then []
      else concat (map (\<lambda>(i, c). ''Conflict #'' @ show_nat (i + 1) @ '' (line ''
             @ show_nat (mc_start_line c) @ ''):'' @ [newline] @ to_conflict_marker c @ [newline])
           (enumerate 0 (res_conflicts r))))"

section \<open>Integrated partitions\<close>

definition ensure_integrated_partition :: "env \<Rightarrow> string \<Rightarrow> snapshot_id \<Rightarrow> partition sys" where
  "ensure_integrated_partition E name initial =
     ensure_partition E
       (initial_partition (integrated_partition_id E name) (''integrated/'' @ name) (PIntegrated name) initial)"

definition create_feature_branch :: "env \<Rightarrow> string \<Rightarrow> snapshot_id \<Rightarrow> partition sys" where
  "create_feature_branch E name baseline =
     (let p = initial_partition (integrated_partition_id E name) (''feature/'' @ name) (PIntegrated name)
                baseline
      in sbind (storage (create_partition E p)) (\<lambda>_. ret p))"

text \<open>\<open>part.history[0]\<close> panics on an empty history.\<close>

definition get_feature_baseline :: "env \<Rightarrow> string \<Rightarrow> snapshot sys" where
  "get_feature_baseline E name =
     sbind (find_partition (integrated_partition_id E name)
       (''integrated partition '' @ name @ '' not found'')) (\<lambda>part.
     case p_history part of
       [] \<Rightarrow> lift_result Panic
     | baseline # _ \<Rightarrow> read_snapshot E baseline)"

definition merge_agent_to_feature :: "env \<Rightarrow> agent_instance_id \<Rightarrow> string \<Rightarrow> merge_result sys" where
  "merge_agent_to_feature E a feature =
     sbind (find_partition (approval_agent_partition_id E a)
       (''approval agent partition '' @ agent_name a @ '' not found'')) (\<lambda>approval_part.
     sbind (read_snapshot E (p_current approval_part)) (\<lambda>approval_snapshot.
     sbind (lift_result (ok_or (list_first (p_history approval_part))
         (StateMachine ''approval partition has empty history''))) (\<lambda>approval_baseline.
     sbind (ensure_integrated_partition E feature approval_baseline) (\<lambda>integrated_part.
     if p_current integrated_part = p_current approval_part
     then ret \<lparr>res_snapshot = p_current integrated_part, res_conflicts = []\<rparr>
     else
       sbind (get_feature_baseline E feature) (\<lambda>baseline_snapshot.
       sbind (read_snapshot E (p_current integrated_part)) (\<lambda>integrated_snapshot.
       sbind (reconstruct_text E baseline_snapshot) (\<lambda>baseline_text.
       sbind (reconstruct_text E approval_snapshot) (\<lambda>approval_text.
       sbind (reconstruct_text E integrated_snapshot) (\<lambda>integrated_text.
       sbind (lift_result (merge_texts E baseline_text approval_text integrated_text))
         (\<lambda>(merged_text, conflicts).
       sbind (write_merge E (integrated_partition_id E feature) integrated_text merged_text
           approval_snapshot (s_file integrated_snapshot) (Agent a)
           [integrated_snapshot, approval_snapshot, baseline_snapshot] (PIntegrated feature)
           (conflicts \<noteq> [])) (\<lambda>new.
       case new of
         None \<Rightarrow> ret \<lparr>res_snapshot = p_current integrated_part, res_conflicts = conflicts\<rparr>
       | Some i \<Rightarrow> sbind (reject_approval E a) (\<lambda>_.
           ret \<lparr>res_snapshot = i, res_conflicts = conflicts\<rparr>))))))))))))"

section \<open>Features into staged\<close>

definition merge_feature_to_staged :: "env \<Rightarrow> string \<Rightarrow> merge_result sys" where
  "merge_feature_to_staged E feature =
     sbind (find_partition (integrated_partition_id E feature)
       (''integrated partition '' @ quoted feature @ '' not found'')) (\<lambda>feature_part.
     sbind (lift_result (ok_or (list_first (p_history feature_part))
         (StateMachine (''integrated partition '' @ quoted feature @ '' has empty history''))))
       (\<lambda>baseline_id.
     sbind (read_snapshot E baseline_id) (\<lambda>baseline_snapshot.
     sbind (read_snapshot E (p_current feature_part)) (\<lambda>feature_snapshot.
     sbind (find_partition staged_partition_id ''staged partition not found'') (\<lambda>staged_part.
     if p_current staged_part = p_current feature_part
     then ret \<lparr>res_snapshot = p_current staged_part, res_conflicts = []\<rparr>
     else
       sbind (read_snapshot E (p_current staged_part)) (\<lambda>staged_snapshot.
       sbind (reconstruct_text E baseline_snapshot) (\<lambda>baseline_text.
       sbind (reconstruct_text E staged_snapshot) (\<lambda>staged_text.
       sbind (reconstruct_text E feature_snapshot) (\<lambda>feature_text.
       sbind (lift_result (merge_texts E baseline_text staged_text feature_text))
         (\<lambda>(merged_text, conflicts).
       sbind (write_merge E staged_partition_id staged_text merged_text feature_snapshot
           (s_file staged_snapshot) Manual [staged_snapshot, feature_snapshot] PStaged
           (conflicts \<noteq> [])) (\<lambda>new.
       ret \<lparr>res_snapshot = (case new of None \<Rightarrow> p_current staged_part | Some i \<Rightarrow> i),
            res_conflicts = conflicts\<rparr>)))))))))))"

fun merge_each_feature ::
    "env \<Rightarrow> string list \<Rightarrow> merge_conflict list \<Rightarrow> snapshot_id option \<Rightarrow> (merge_conflict list \<times> snapshot_id option) sys" where
  "merge_each_feature E [] confs last_id = ret (confs, last_id)"
| "merge_each_feature E (n # ns) confs last_id =
     sbind (merge_feature_to_staged E n) (\<lambda>r.
       merge_each_feature E ns (confs @ res_conflicts r) (Some (res_snapshot r)))"

definition merge_features_to_staged :: "env \<Rightarrow> string list \<Rightarrow> merge_result sys" where
  "merge_features_to_staged E names =
     (if names = [] then fail (General ''at least one feature required'')
      else sbind (merge_each_feature E names [] None) (\<lambda>(confs, last_id).
        case last_id of
          None \<Rightarrow> lift_result Panic
        | Some i \<Rightarrow> ret \<lparr>res_snapshot = i, res_conflicts = confs\<rparr>))"

section \<open>Validation and commit\<close>

datatype validation_result =
    Ready
  | HasConflicts "string list"
  | HasUnresolvedProblems "string list"

fun is_ready :: "validation_result \<Rightarrow> bool" where
  "is_ready Ready = True"
| "is_ready (HasConflicts es) = False"
| "is_ready (HasUnresolvedProblems es) = False"

fun get_errors :: "validation_result \<Rightarrow> string list" where
  "get_errors Ready = []"
| "get_errors (HasConflicts es) = es"
| "get_errors (HasUnresolvedProblems es) = es"

definition validate_staged_for_commit :: "env \<Rightarrow> validation_result sys" where
  "validate_staged_for_commit E =
     sbind (find_partition staged_partition_id ''staged partition not found'') (\<lambda>staged.
     sbind (read_snapshot E (p_current staged)) (\<lambda>snapshot.
     let problems = (if s_has_conflicts snapshot
           then [''Staged snapshot has unresolved merge conflicts. Resolve conflicts before committing.'']
           else [])
     in ret (if problems = [] then Ready else HasUnresolvedProblems problems)))"

definition commit_staged_to_checkpoint :: "env \<Rightarrow> string \<Rightarrow> string \<Rightarrow> string \<Rightarrow> checkpoint_id sys" where
  "commit_staged_to_checkpoint E branch_name message author =
     sbind (find_partition staged_partition_id ''staged partition not found'') (\<lambda>staged.
     let current = p_current staged in
     sbind (match_err (query (get_branch branch_name)) (\<lambda>b. ret (br_head b))
         (sbind (storage (store_branch (branch_new E branch_name current))) (\<lambda>_. ret current)))
       (\<lambda>branch_head.
     let cp = checkpoint_new E [current] [branch_head] (metadata_new author message) in
     sbind (storage (store_checkpoint E cp)) (\<lambda>_.
     sbind (storage (update_branch_head E branch_name (cp_id cp))) (\<lambda>_.
     ret (cp_id cp)))))"

definition reset_staged :: "env \<Rightarrow> snapshot_id \<Rightarrow> unit sys" where
  "reset_staged E base = storage (update_pointer E staged_partition_id base)"

section \<open>Allowed flows\<close>

datatype forward_transition =
    ManualToStaged | AgentToApproval | ApprovalToIntegrated | IntegratedToStaged

datatype rollback_transition =
    StagedToManual | StagedToApproval | StagedToAgentRaw | ApprovalToAgentRaw

definition forward_allowed :: "(layer_type \<times> layer_type) list" where
  "forward_allowed = [(ManualEdit, Staged), (AgentEdit, Approval), (Approval, Integrated),
     (Integrated, Staged)]"

definition rollback_allowed :: "(layer_type \<times> layer_type) list" where
  "rollback_allowed = [(Staged, ManualEdit), (Staged, AgentEdit), (Staged, Approval),
     (Approval, AgentEdit)]"

text \<open>The arrow of the message, U+2192.\<close>

definition arrow :: string where
  "arrow = [CHR 0xE2, CHR 0x86, CHR 0x92]"

definition check_forward_valid :: "layer_type \<Rightarrow> layer_type \<Rightarrow> (unit, lt_error) result" where
  "check_forward_valid f t =
     (if (f, t) \<in> set forward_allowed then Ok ()
      else Err (StateMachine (''Ironclad check failed: impermissible cross-layer flow ''
        @ layer_debug f @ '' '' @ arrow @ '' '' @ layer_debug t)))"

definition check_rollback_valid :: "layer_type \<Rightarrow> layer_type \<Rightarrow> (unit, lt_error) result" where
  "check_rollback_valid f t =
     (if (f, t) \<in> set rollback_allowed then Ok ()
      else Err (StateMachine (''Ironclad check failed: impermissible cross-level fallback ''
        @ layer_debug f @ '' '' @ arrow @ '' '' @ layer_debug t)))"

definition migrate_between_partitions :: "env \<Rightarrow> uuid \<Rightarrow> uuid \<Rightarrow> unit sys" where
  "migrate_between_partitions E f t =
     sbind (find_partition f ''source partition not found'') (\<lambda>part.
       storage (update_pointer E t (p_current part)))"

definition param :: "string list \<Rightarrow> nat \<Rightarrow> string \<Rightarrow> string sys" where
  "param ps i msg = lift_result (ok_or (if i < length ps then Some (ps ! i) else None) (StateMachine msg))"

definition execute_forward :: "env \<Rightarrow> forward_transition \<Rightarrow> string list \<Rightarrow> snapshot_id sys" where
  "execute_forward E t params =
     (case t of
        ManualToStaged \<Rightarrow>
          sbind (lift_result (check_forward_valid ManualEdit Staged)) (\<lambda>_. merge_manual_to_staged E)
      | AgentToApproval \<Rightarrow>
          sbind (lift_result (check_forward_valid AgentEdit Approval)) (\<lambda>_.
          sbind (param params 0 ''AgentToApproval requires agent_id parameter'') (\<lambda>a.
          move_agent_to_approval E (AgentInstanceId a)))
      | ApprovalToIntegrated \<Rightarrow>
          sbind (param params 0 ''ApprovalToIntegrated requires agent_id parameter'') (\<lambda>a.
          sbind (param params 1 ''ApprovalToIntegrated requires integrated_name parameter'') (\<lambda>n.
          sbind (merge_agent_to_feature E (AgentInstanceId a) n) (\<lambda>r. ret (res_snapshot r))))
      | IntegratedToStaged \<Rightarrow>
          sbind (param params 0 ''IntegratedToStaged requires integrated_names parameter'') (\<lambda>ns.
          sbind (merge_features_to_staged E (map trim_ascii (split_on (CHR '','') ns)))
            (\<lambda>r. ret (res_snapshot r))))"

section \<open>Rollbacks\<close>

definition rollback_partition :: "env \<Rightarrow> uuid \<Rightarrow> snapshot_id sys" where
  "rollback_partition E pid =
     sbind (find_partition pid ''partition not found'') (\<lambda>part.
     if length (p_history part) \<le> 1
     then fail (StateMachine ''cannot rollback: only one snapshot in history'')
     else
       let prev = p_history part ! (length (p_history part) - 2) in
       sbind (storage (update_pointer E pid prev)) (\<lambda>_. ret prev))"

definition partition_type_matches_layer :: "string \<Rightarrow> layer_type \<Rightarrow> bool" where
  "partition_type_matches_layer t layer =
     (map_option to_layer (partition_type_from_name t) = Some layer)"

fun first_parent_of_layer :: "env \<Rightarrow> layer_type \<Rightarrow> snapshot_id list \<Rightarrow> snapshot_id sys" where
  "first_parent_of_layer E layer [] =
     fail (NotFound (''no parent found for target layer '' @ layer_debug layer
       @ '' in staged snapshot parents''))"
| "first_parent_of_layer E layer (i # is) =
     sbind (read_snapshot E i) (\<lambda>parent.
       if partition_type_matches_layer (s_partition_type parent) layer
       then sbind (storage (update_pointer E staged_partition_id i)) (\<lambda>_. ret i)
       else first_parent_of_layer E layer is)"

definition rollback_staged_to_layer :: "env \<Rightarrow> layer_type \<Rightarrow> snapshot_id sys" where
  "rollback_staged_to_layer E layer =
     sbind (find_partition staged_partition_id ''staged partition not found'') (\<lambda>staged.
     sbind (read_snapshot E (p_current staged)) (\<lambda>snapshot.
     first_parent_of_layer E layer (s_parents snapshot)))"

definition execute_rollback :: "env \<Rightarrow> rollback_transition \<Rightarrow> string list \<Rightarrow> snapshot_id sys" where
  "execute_rollback E t params =
     (case t of
        StagedToManual \<Rightarrow>
          sbind (lift_result (check_rollback_valid Staged ManualEdit)) (\<lambda>_.
          rollback_staged_to_layer E ManualEdit)
      | StagedToApproval \<Rightarrow>
          sbind (lift_result (check_rollback_valid Staged Approval)) (\<lambda>_.
          rollback_staged_to_layer E Approval)
      | StagedToAgentRaw \<Rightarrow>
          sbind (lift_result (check_rollback_valid Staged AgentEdit)) (\<lambda>_.
          rollback_staged_to_layer E AgentEdit)
      | ApprovalToAgentRaw \<Rightarrow>
          sbind (lift_result (check_rollback_valid Approval AgentEdit)) (\<lambda>_.
          sbind (param params 0 ''ApprovalToAgentRaw requires agent_id parameter'') (\<lambda>a.
          reject_approval E (AgentInstanceId a))))"

fun any_parent_contains :: "env \<Rightarrow> string \<Rightarrow> snapshot_id list \<Rightarrow> bool sys" where
  "any_parent_contains E sub [] = ret False"
| "any_parent_contains E sub (i # is) =
     sbind (read_snapshot E i) (\<lambda>parent.
       if list_ex (\<lambda>t. prefix sub t) (suffixes (s_partition_type parent)) then ret True
       else any_parent_contains E sub is)"

definition has_parent_of_type :: "env \<Rightarrow> snapshot \<Rightarrow> string \<Rightarrow> bool sys" where
  "has_parent_of_type E snapshot sub = any_parent_contains E sub (s_parents snapshot)"

section \<open>Development scenarios\<close>

definition merge_conflicts_error :: "string \<Rightarrow> merge_result \<Rightarrow> lt_error" where
  "merge_conflicts_error msg r = General (msg @ format_conflicts r)"

definition no_conflicts :: "string \<Rightarrow> merge_result \<Rightarrow> unit sys" where
  "no_conflicts msg r = (if has_merge_conflicts r then fail (merge_conflicts_error msg r) else ret ())"

definition get_current_baseline :: "env \<Rightarrow> snapshot sys" where
  "get_current_baseline E =
     sbind (find_partition staged_partition_id
       ''No baseline found. Please initialize staged first.'') (\<lambda>staged.
     read_snapshot E (p_current staged))"

definition staged_current :: "snapshot_id sys" where
  "staged_current = sbind (find_partition staged_partition_id ''staged partition not found'') (\<lambda>p.
     ret (p_current p))"

definition develop_single_feature ::
    "env \<Rightarrow> string \<Rightarrow> agent_instance_id \<Rightarrow> (string \<Rightarrow> (string, lt_error) result) \<Rightarrow> snapshot_id sys" where
  "develop_single_feature E feature a edit =
     sbind (get_current_baseline E) (\<lambda>baseline.
     sbind (create_feature_branch E feature (s_id baseline)) (\<lambda>_.
     sbind (reconstruct_text E baseline) (\<lambda>baseline_text.
     sbind (lift_result (edit baseline_text)) (\<lambda>new_text.
     sbind (apply_agent_edit E a ''test.txt'' new_text) (\<lambda>_.
     sbind (move_agent_to_approval E a) (\<lambda>_.
     sbind (merge_agent_to_feature E a feature) (\<lambda>r.
     sbind (no_conflicts ''Merge conflicts detected: '' r) (\<lambda>_.
     sbind (merge_features_to_staged E [feature]) (\<lambda>r.
     sbind (no_conflicts ''Merge conflicts detected: '' r) (\<lambda>_.
     staged_current))))))))))"

definition collaborate ::
    "env \<Rightarrow> string \<Rightarrow> snapshot \<Rightarrow> agent_instance_id \<times> (string \<Rightarrow> (string, lt_error) result) \<Rightarrow> unit sys" where
  "collaborate E feature baseline ae =
     (case ae of (a, edit) \<Rightarrow>
       sbind (reconstruct_text E baseline) (\<lambda>baseline_text.
       sbind (lift_result (edit baseline_text)) (\<lambda>new_text.
       sbind (apply_agent_edit E a ''test.txt'' new_text) (\<lambda>_.
       sbind (move_agent_to_approval E a) (\<lambda>_.
       sbind (merge_agent_to_feature E a feature) (\<lambda>r.
       no_conflicts (''Merge conflicts for agent '' @ agent_name a @ '': '') r))))))"

text \<open>The UTF-8 bytes of the Chinese text for "at least one is needed".\<close>

definition at_least_one :: string where
  "at_least_one = [CHR 0xE8, CHR 0x87, CHR 0xB3, CHR 0xE5, CHR 0xB0, CHR 0x91, CHR 0xE9, CHR 0x9C,
     CHR 0x80, CHR 0xE8, CHR 0xA6, CHR 0x81, CHR 0xE4, CHR 0xB8, CHR 0x80, CHR 0xE4, CHR 0xB8, CHR 0xAA]"

definition develop_feature_with_collaboration ::
    "env \<Rightarrow> string \<Rightarrow> (agent_instance_id \<times> (string \<Rightarrow> (string, lt_error) result)) list \<Rightarrow> snapshot_id sys" where
  "develop_feature_with_collaboration E feature agents =
     (if agents = [] then fail (General (at_least_one @ ''agent''))
      else
        sbind (get_current_baseline E) (\<lambda>baseline.
        sbind (create_feature_branch E feature (s_id baseline)) (\<lambda>_.
        sbind (for_each (collaborate E feature baseline) agents) (\<lambda>_.
        sbind (merge_features_to_staged E [feature]) (\<lambda>r.
        sbind (no_conflicts ''Merge conflicts detected: '' r) (\<lambda>_.
        staged_current))))))"

definition merge_multiple_features :: "env \<Rightarrow> string list \<Rightarrow> snapshot_id sys" where
  "merge_multiple_features E names =
     (if names = [] then fail (General (at_least_one @ ''feature''))
      else
        sbind (merge_features_to_staged E names) (\<lambda>r.
        sbind (no_conflicts ''Merge conflicts detected: '' r) (\<lambda>_.
        staged_current)))"

section \<open>The state machine\<close>

definition sm_get_partition :: "uuid \<Rightarrow> partition sys" where
  "sm_get_partition pid = storage (query (get_partition pid))"

definition sm_get_or_create_partition :: "env \<Rightarrow> uuid \<Rightarrow> partition \<Rightarrow> partition sys" where
  "sm_get_or_create_partition E pid p =
     match_err (query (get_partition pid)) ret (sbind (storage (create_partition E p)) (\<lambda>_. ret p))"

definition sm_update_partition_pointer :: "env \<Rightarrow> uuid \<Rightarrow> snapshot_id \<Rightarrow> unit sys" where
  "sm_update_partition_pointer E pid snap = storage (update_pointer E pid snap)"

definition sm_create_layer :: "layer_type \<Rightarrow> layer" where
  "sm_create_layer t = layer_new t"

definition switch_branch :: "env \<Rightarrow> string \<Rightarrow> checkpoint_id sys" where
  "switch_branch E name =
     sbind (storage (query (get_branch name))) (\<lambda>b.
     sbind (storage (query (get_checkpoint E (br_head b)))) (\<lambda>head_cp.
     case cp_snapshots head_cp of
       [] \<Rightarrow> fail (CheckpointErr ''branch head checkpoint has no snapshots'')
     | base # _ \<Rightarrow>
         sbind (match_err (query (get_partition staged_partition_id))
             (\<lambda>_. storage (update_pointer E staged_partition_id base))
             (storage (create_partition E (partition_new E ''staged'' PStaged base))))
           (\<lambda>_. ret (br_head b))))"

text \<open>The map from layer types to partitions is listed in the order of the enumeration; a
  \<open>HashMap\<close> lists it in any order, and each layer is stored under its own key.\<close>

definition all_layers :: "layer_type list" where
  "all_layers = [ManualEdit, AgentEdit, Approval, Integrated, Unified, Staged]"

definition layers_of :: "partition list \<Rightarrow> layer list" where
  "layers_of ps = filter (\<lambda>l. l_partitions l \<noteq> [])
     (map (\<lambda>t. \<lparr>l_type = t, l_partitions = map p_id (filter (\<lambda>p. to_layer (p_type p) = t) ps)\<rparr>) all_layers)"

definition sync_layers :: "env \<Rightarrow> unit sys" where
  "sync_layers E =
     sbind (storage (query list_partitions)) (\<lambda>ps.
       for_each (\<lambda>l. storage (store_layer E l)) (layers_of ps))"

text \<open>The closure's result is kept in a cell; the block itself always succeeds.\<close>

definition capture :: "(conn, 'a, lt_error) prog \<Rightarrow> (conn, ('a, lt_error) result, storage_error) prog" where
  "capture f = (\<lambda>c. case f c of (Panic, c') \<Rightarrow> (Panic, c') | (r, c') \<Rightarrow> (Ok r, c'))"

definition with_transaction :: "(conn, 'a, lt_error) prog \<Rightarrow> (conn, 'a, lt_error) prog" where
  "with_transaction f = sbind (storage (with_atomic (capture f))) (\<lambda>r. lift_result r)"

section \<open>Every flow respects the relation\<close>

lemma stays_no_conflicts: "stays (layer_step P) (no_conflicts msg r)"
  unfolding no_conflicts_def by (intro stays_rules)

lemma stays_param: "stays (layer_step P) (param ps i msg)"
  unfolding param_def by (intro stays_rules)

lemma stays_ensure_integrated:
  "stays (layer_step {integrated_partition_id E n}) (ensure_integrated_partition E n i)"
  unfolding ensure_integrated_partition_def by (metis stays_ensure initial_partition_id initial_partition_wf)

lemma stays_create_feature:
  "stays (layer_step {integrated_partition_id E n}) (create_feature_branch E n i)"
  unfolding create_feature_branch_def Let_def
  using stays_create [of "initial_partition (integrated_partition_id E n) (''feature/'' @ n) (PIntegrated n) i" E]
  by (intro stays_rules) simp

lemma stays_feature_baseline: "stays (layer_step P) (get_feature_baseline E n)"
  unfolding get_feature_baseline_def
  by (intro stays_rules stays_stores) (auto intro!: stays_rules stays_stores split: list.split)

lemma stays_merge_agent_to_feature:
  "stays (layer_step {integrated_partition_id E n, approval_agent_partition_id E a})
     (merge_agent_to_feature E a n)"
  unfolding merge_agent_to_feature_def
  by (intro stays_rules stays_stores stays_cases stays_feature_baseline
      stays_mono [OF stays_write_merge] stays_mono [OF stays_reject_approval]
      stays_mono [OF stays_ensure_integrated]) auto

lemma stays_merge_feature_to_staged:
  "stays (layer_step {staged_partition_id}) (merge_feature_to_staged E n)"
  unfolding merge_feature_to_staged_def
  by (intro stays_rules stays_stores stays_cases stays_write_merge)

lemma stays_merge_each:
  "stays (layer_step {staged_partition_id}) (merge_each_feature E ns confs l)"
  by (induction E ns confs l rule: merge_each_feature.induct)
    (auto intro!: stays_rules stays_merge_feature_to_staged)

lemma stays_merge_features_to_staged:
  "stays (layer_step {staged_partition_id}) (merge_features_to_staged E ns)"
  unfolding merge_features_to_staged_def
  by (intro stays_rules stays_cases stays_merge_each)

lemma stays_validate: "stays (layer_step P) (validate_staged_for_commit E)"
  unfolding validate_staged_for_commit_def Let_def by (intro stays_rules stays_stores)

lemma stays_commit: "stays (layer_step P) (commit_staged_to_checkpoint E b m a)"
  unfolding commit_staged_to_checkpoint_def Let_def by (intro stays_rules stays_stores)

lemma stays_migrate: "stays (layer_step {t}) (migrate_between_partitions E f t)"
  unfolding migrate_between_partitions_def by (intro stays_rules stays_stores stays_update_pointer)

lemma stays_rollback: "stays (layer_step {pid}) (rollback_partition E pid)"
  unfolding rollback_partition_def Let_def by (intro stays_rules stays_stores stays_update_pointer)

lemma stays_first_parent: "stays (layer_step {staged_partition_id}) (first_parent_of_layer E l is)"
  by (induction "is") (auto intro!: stays_rules stays_stores stays_update_pointer)

lemma stays_rollback_staged: "stays (layer_step {staged_partition_id}) (rollback_staged_to_layer E l)"
  unfolding rollback_staged_to_layer_def by (intro stays_rules stays_stores stays_first_parent)

lemmas stays_flows = stays_no_conflicts stays_param stays_feature_baseline stays_validate stays_commit

end
