(* ===== verification/Layer_Theorems.thy ===== *)
theory Layer_Theorems
  imports Layer_Flow
begin

text \<open>
  The properties of the layers: what an edit means for the text of a partition, the
  merge of manual edits, rejection and rollback, commits, allowed flows, and the transaction
  wrapper.
\<close>

section \<open>The text of a snapshot\<close>

definition text_at :: "env \<Rightarrow> db \<Rightarrow> snapshot \<Rightarrow> string \<Rightarrow> delta list \<Rightarrow> string \<Rightarrow> bool" where
  "text_at E s x base ds txt \<longleftrightarrow>
     and_then (get_file_content (file_path (s_file x)) (base_hash (s_file x)) s)
       (\<lambda>c. Ok (from_utf8_lossy c)) = Ok base
     \<and> get_deltas (s_deltas x) s = Ok ds \<and> map d_id ds = s_deltas x
     \<and> apply_deltas base ds = Ok txt
     \<and> apply_diffs (str_lines base) (map d_diff ds) = Ok (str_lines txt)"

lemma reconstruct_eq:
  assumes "get_file_content (file_path (s_file x)) (base_hash (s_file x)) s = Ok c"
    and "get_deltas (s_deltas x) s = Ok ds" and "apply_deltas (from_utf8_lossy c) ds = Ok t"
  shows "reconstruct_text E x s = (Ok t, s)" and "read_old_content E x s = (Ok t, s)"
  using assms
  by (simp_all add: reconstruct_text_def read_old_content_def read_deltas_def sbind_def query_def
      map_err_def path_str_def lift_result_def engine_error_def)

lemma reconstruct_text_at:
  assumes "text_at E s x base ds t"
  shows "reconstruct_text E x s = (Ok t, s)" and "read_old_content E x s = (Ok t, s)"
  using assms reconstruct_eq by (auto simp: text_at_def and_then_eq_Ok)

lemma apply_diffs_append:
  "apply_diffs ls (xs @ ys) = and_then (apply_diffs ls xs) (\<lambda>m. apply_diffs m ys)"
  by (induction ls xs rule: apply_diffs.induct) (simp_all add: and_then_assoc)

lemma apply_deltas_restore:
  "ds \<noteq> [] \<Longrightarrow> apply_diffs (str_lines base) (map d_diff ds) = Ok ls \<Longrightarrow>
   apply_deltas base ds = Ok (restore_newline base ls)"
  by (simp add: apply_deltas_def restore_newline_def Let_def)

lemma get_delta_id: "get_delta i s = Ok d \<Longrightarrow> d_id d = i"
  by (auto simp: get_delta_def and_then_eq_Ok row_to_delta_def dest: select_row_SomeD)

lemma set_map_filter: "y \<in> set (List.map_filter f xs) \<longleftrightarrow> (\<exists>x \<in> set xs. f x = Some y)"
  by (induction xs) (auto simp: map_filter_simps split: option.split)

lemma get_deltas_member:
  assumes "distinct (map dr_id (t_deltas s))" and "get_deltas is s = Ok ds" and "d \<in> set ds"
  shows "get_delta (d_id d) s = Ok d"
proof -
  obtain i where "result_ok (get_delta i s) = Some d"
    using assms by (auto simp: get_deltas_lookup set_map_filter)
  then have "get_delta i s = Ok d" by (cases "get_delta i s") auto
  with get_delta_id show ?thesis by metis
qed

lemma get_deltas_distinct:
  assumes "distinct (map dr_id (t_deltas s))" and "get_deltas is s = Ok ds"
  shows "distinct (map d_id ds)"
proof -
  have "distinct (map d_id (List.map_filter (\<lambda>i. result_ok (get_delta i s)) js))"
    if "distinct js" for js
    using that
  proof (induction js)
    case (Cons j js)
    show ?case
    proof (cases "result_ok (get_delta j s)")
      case None
      with Cons show ?thesis by (simp add: map_filter_simps)
    next
      case (Some d)
      have id: "result_ok (get_delta i s) = Some e \<Longrightarrow> d_id e = i" for i e
        by (cases "get_delta i s") (auto dest: get_delta_id)
      with Some have "d_id d = j" by blast
      with Cons Some id show ?thesis by (auto simp: map_filter_simps set_map_filter)
    qed
  qed (simp add: map_filter_simps)
  moreover have "distinct (first_occurrences xs)" for xs :: "content_id list"
    by (induction xs) auto
  ultimately show ?thesis using assms by (auto simp: get_deltas_lookup)
qed

text \<open>Reading a chain extended by a delta that is not in it. The table may hold the delta already, from
  another chain: then the row that is there stays, and all that matters is that it has the same change.\<close>

lemma get_deltas_extended:
  assumes "distinct (map dr_id (t_deltas s))" and "get_deltas is s = Ok ds" and "map d_id ds = is"
    and "d_id d \<notin> set is" and "\<And>w. get_delta (d_id d) s = Ok w \<Longrightarrow> d_diff w = d_diff d"
    and "t_deltas s' = t_deltas (snd (store_delta E d s0))" and "t_deltas s0 = t_deltas s"
  obtains d' where "get_deltas (is @ [d_id d]) s' = Ok (ds @ [d'])" and "d_diff d' = d_diff d"
proof -
  have get: "get_delta i s' = get_delta i (snd (store_delta E d s0))" "get_delta i s0 = get_delta i s" for i
    using assms(6,7) by (simp_all add: get_delta_def)
  obtain d' where now: "get_delta (d_id d) s' = Ok d'" and diff: "d_diff d' = d_diff d"
  proof (cases "\<exists>w. get_delta (d_id d) s = Ok w")
    case True
    then obtain w where "get_delta (d_id d) s = Ok w" by blast
    with that assms(5) deltas.get_stable [of "d_id d" s0 w E d] get show thesis by simp
  next
    case False
    with that deltas.get_put_fresh [of d s0] get show thesis by simp
  qed
  have old: "get_delta (d_id x) s' = Ok x" if "x \<in> set ds" for x
    using deltas.get_stable get_deltas_member [OF assms(1,2) that] get by simp
  have "distinct (map dr_id (t_deltas s'))"
    using delta_keys_store [of s0] assms(1,6,7) by simp
  moreover have "distinct (is @ [d_id d])"
    using get_deltas_distinct [OF assms(1,2)] assms(3,4) by simp
  moreover have "List.map_filter (\<lambda>i. result_ok (get_delta i s')) (map d_id ds @ [d_id d]) = ds @ [d']"
    using now old by (induction ds) (simp_all add: map_filter_simps)
  ultimately show thesis
    using assms(3) diff that by (simp add: get_deltas_lookup first_occurrences_distinct)
qed

text \<open>Reading a chain extended by a delta that it already contains.\<close>

lemma first_occurrences_snoc:
  "first_occurrences (xs @ [x]) = (if x \<in> set xs then first_occurrences xs else first_occurrences xs @ [x])"
  by (induction xs) auto

lemma get_deltas_repeated:
  "distinct (map dr_id (t_deltas s)) \<Longrightarrow> i \<in> set is \<Longrightarrow> get_deltas (is @ [i]) s = get_deltas is s"
  by (simp add: get_deltas_lookup first_occurrences_snoc)

section \<open>Edits\<close>

lemma store_tables [simp]:
  "t_deltas (snd (store_file_node E f c s)) = t_deltas s"
  "t_partitions (snd (store_file_node E f c s)) = t_partitions s"
  "t_history (snd (store_file_node E f c s)) = t_history s"
  "t_snapshots (snd (store_file_node E f c s)) = t_snapshots s"
  "t_partitions (snd (store_delta E d s)) = t_partitions s"
  "t_history (snd (store_delta E d s)) = t_history s"
  "t_snapshots (snd (store_delta E d s)) = t_snapshots s"
  "t_file_nodes (snd (store_delta E d s)) = t_file_nodes s"
  "t_partitions (snd (store_snapshot E x c s)) = t_partitions s"
  "t_history (snd (store_snapshot E x c s)) = t_history s"
  "t_deltas (snd (store_snapshot E x c s)) = t_deltas s"
  "t_file_nodes (snd (store_snapshot E x c s)) = t_file_nodes s"
  by (simp_all add: store_file_node_def store_delta_def store_snapshot_def update_def)

lemma pushed_tables [simp]:
  "t_deltas (pushed E pid c s) = t_deltas s" "t_file_nodes (pushed E pid c s) = t_file_nodes s"
  "t_snapshots (pushed E pid c s) = t_snapshots s"
  by (simp_all add: pushed_def)

lemma get_partition_cong:
  "t_partitions s' = t_partitions s \<Longrightarrow> t_history s' = t_history s \<Longrightarrow>
   get_partition pid s' = get_partition pid s"
  by (simp add: get_partition_def row_to_partition_def load_history_def history_rows_def)

lemma push_get:
  assumes "partitions_ok s" and "get_partition pid s = Ok p"
  shows "update_pointer E pid c s = (Ok (), pushed E pid c s)"
    and "get_partition pid (pushed E pid c s) = Ok (advance p c)"
proof -
  note wf = get_partition_wf [OF assms]
  then show run: "update_pointer E pid c s = (Ok (), pushed E pid c s)"
    by (simp add: update_pointer_run [OF assms(1)])
  have "load_history pid (pushed E pid c s) = p_history p @ [c]"
    using view_pushed [OF assms(1), of pid pid E c] wf by (simp add: pointer_view_def split: if_splits)
  then show "get_partition pid (pushed E pid c s) = Ok (advance p c)"
    using get_after_current [OF t_partitions_pushed assms(2), of E c] by (simp add: advance_def)
qed

lemma store_run:
  "store_file_node E f c s = (Ok (), snd (store_file_node E f c s))"
  "store_delta E d s = (Ok (), snd (store_delta E d s))"
  "store_snapshot E x b s = (Ok (), snd (store_snapshot E x b s))"
  by (simp_all add: store_file_node_def store_delta_def store_snapshot_def update_def)

lemma map_err_run: "m s = (Ok x, t) \<Longrightarrow> map_err g m s = (Ok x, t)"
  by simp

lemma write_edit_run:
  assumes "partitions_ok s" and "get_partition pid s = Ok part"
    and "diff_to_line_diff E old new = Ok diff" and "ld_hunks diff \<noteq> []"
    and "file = file_node_new E path old" and "delta = delta_new E file diff source"
    and "snap = snapshot_from_parent E cur (d_id delta) (partition_type_name ptype)"
    and "s' = snd (store_snapshot E snap [] (snd (store_delta E delta (snd (store_file_node E file old s)))))"
  shows "write_edit E pid part cur old path new source ptype s = (Ok (s_id snap), pushed E pid (s_id snap) s')"
    and "get_partition pid (pushed E pid (s_id snap) s') = Ok (advance part (s_id snap))"
proof -
  have ok: "partitions_ok s'"
    using assms(1) by (subst partitions_ok_cong [where s = s]) (simp_all add: assms(8))
  have get: "get_partition pid s' = Ok part"
    using assms(2) by (subst get_partition_cong [where s = s]) (simp_all add: assms(8))
  note push = push_get [OF ok get, of E "s_id snap"]
  show "write_edit E pid part cur old path new source ptype s = (Ok (s_id snap), pushed E pid (s_id snap) s')"
    unfolding write_edit_def
    by (simp add: assms(3) line_diff_is_empty_def assms(4) Let_def flip: assms(5-7))
      (simp add: sbind_run [where m = "store_file_node E file old", OF store_run(1)]
        sbind_run [where m = "store_delta E delta", OF store_run(2)]
        sbind_run [where m = "store_snapshot E snap []", OF store_run(3)]
        sbind_run [where m = "update_pointer E pid (s_id snap)", OF push(1)] ret_def
        flip: assms(8))
  show "get_partition pid (pushed E pid (s_id snap) s') = Ok (advance part (s_id snap))"
    by (rule push(2))
qed

lemma file_content_stable:
  "get_file_content p h s = Ok c \<Longrightarrow> get_file_content p h (snd (store_file_node E f x s)) = Ok c"
  by (auto simp: get_file_content_def select_store_file_node and_then_eq_Ok)

lemma get_file_content_cong:
  "t_file_nodes s' = t_file_nodes s \<Longrightarrow> get_file_content p h s' = get_file_content p h s"
  by (simp add: get_file_content_def)

lemma get_snapshot_cong:
  "t_snapshots s' = t_snapshots s \<Longrightarrow> get_snapshot E i s' = get_snapshot E i s"
  by (simp add: get_snapshot_def)

lemma apply_manual_edit_run:
  assumes "get_partition manual_partition_id s = Ok part" and "get_snapshot E (p_current part) s = Ok cur"
    and "read_old_content E cur s = (Ok old, s)"
  shows "apply_manual_edit E path new s = write_edit E manual_partition_id part cur old path new Manual PManual s"
proof -
  have "find_partition manual_partition_id msg s = (Ok part, s)" for msg
    using assms(1) by (simp add: find_partition_def match_err_def query_def ret_def)
  moreover have "read_snapshot E (p_current part) s = (Ok cur, s)"
    using assms(2) by (simp add: read_snapshot_def)
  ultimately show ?thesis
    using assms(3) by (simp add: apply_manual_edit_def sbind_def)
qed

text \<open>The writes of an edit, and what they leave of the base content and of the chain.\<close>

lemma edit_effect:
  assumes "partitions_ok s" and "get_partition manual_partition_id s = Ok part"
    and "get_snapshot E (p_current part) s = Ok cur" and "content_ok E cur"
    and "text_at E s cur base ds old"
    and "diff_to_line_diff E old new = Ok diff" and "ld_hunks diff \<noteq> []"
    and delta: "delta = delta_new E (file_node_new E path old) diff Manual"
    and snap: "snap = snapshot_from_parent E cur (d_id delta) ''manual''"
    and "\<not> (\<exists>w. get_snapshot E (s_id snap) s = Ok w)"
  obtains s' c where "apply_manual_edit E path new s = (Ok (s_id snap), s')"
    and "get_partition manual_partition_id s' = Ok (advance part (s_id snap))"
    and "get_snapshot E (s_id snap) s' = Ok snap"
    and "get_file_content (file_path (s_file snap)) (base_hash (s_file snap)) s' = Ok c"
    and "from_utf8_lossy c = base"
    and "t_deltas s' = t_deltas (snd (store_delta E delta (snd (store_file_node E (file_node_new E path old) old s))))"
proof -
  let ?file = "file_node_new E path old"
  let ?s1 = "snd (store_file_node E ?file old s)"
  let ?s2 = "snd (store_delta E delta ?s1)"
  let ?s3 = "snd (store_snapshot E snap [] ?s2)"
  let ?s' = "pushed E manual_partition_id (s_id snap) ?s3"
  have snap': "snap = snapshot_from_parent E cur (d_id delta) (partition_type_name PManual)"
    using snap by simp
  note run = write_edit_run [OF assms(1,2,6,7) refl delta snap' refl]
  have edit: "apply_manual_edit E path new s = (Ok (s_id snap), ?s')"
    using apply_manual_edit_run [OF assms(2,3) reconstruct_text_at(2) [OF assms(5)]] run(1) by simp
  have fresh: "\<not> (\<exists>w. get_snapshot E (s_id snap) ?s2 = Ok w)"
    using assms(10) get_snapshot_cong [of ?s2 s] by simp
  have "content_ok E snap"
    using assms(4) snap by (simp add: content_ok_def cong: option.case_cong)
  from snapshots.get_put_fresh [OF this fresh, of "[]"]
  have "get_snapshot E (s_id snap) ?s' = Ok snap"
    using get_snapshot_cong [of ?s' ?s3] by simp
  moreover obtain c where c: "get_file_content (file_path (s_file cur)) (base_hash (s_file cur)) s = Ok c"
    "from_utf8_lossy c = base"
    using assms(5) by (auto simp: text_at_def and_then_eq_Ok)
  moreover have "get_file_content (file_path (s_file snap)) (base_hash (s_file snap)) ?s' = Ok c"
    using file_content_stable [OF c(1), of E ?file old] get_file_content_cong [of ?s' ?s1] snap by simp
  ultimately show thesis
    using that [OF edit run(2)] by simp
qed

text \<open>C6: a manual edit means what it says. When the manual partition points at a snapshot whose text is
  \<open>old\<close>, and the change is new, the edit succeeds, advances the partition to the new snapshot,
  and the text rebuilt from that snapshot has exactly the lines of the new content, with the final
  newline of the base file.\<close>

theorem manual_edit_text:
  assumes "partitions_ok s" and "distinct (map dr_id (t_deltas s))"
    and "get_partition manual_partition_id s = Ok part"
    and "get_snapshot E (p_current part) s = Ok cur" and "content_ok E cur"
    and "text_at E s cur base ds old"
    and "diff_contract E old new" and "text_ok old" and "text_ok new"
    and "diff_to_line_diff E old new = Ok diff" and "ld_hunks diff \<noteq> []"
    and "delta = delta_new E (file_node_new E path old) diff Manual"
    and "d_id delta \<notin> set (s_deltas cur)" and "\<And>w. get_delta (d_id delta) s = Ok w \<Longrightarrow> d_diff w = diff"
    and "snap = snapshot_from_parent E cur (d_id delta) ''manual''"
    and "\<not> (\<exists>w. get_snapshot E (s_id snap) s = Ok w)"
  shows "\<exists>s'. apply_manual_edit E path new s = (Ok (s_id snap), s')
     \<and> get_partition manual_partition_id s' = Ok (advance part (s_id snap))
     \<and> get_snapshot E (s_id snap) s' = Ok snap
     \<and> reconstruct_text E snap s' = (Ok (restore_newline base (str_lines new)), s')"
proof -
  obtain s' c where e: "apply_manual_edit E path new s = (Ok (s_id snap), s')"
    "get_partition manual_partition_id s' = Ok (advance part (s_id snap))"
    "get_snapshot E (s_id snap) s' = Ok snap"
    "get_file_content (file_path (s_file snap)) (base_hash (s_file snap)) s' = Ok c"
    "from_utf8_lossy c = base"
    "t_deltas s' = t_deltas (snd (store_delta E delta (snd (store_file_node E (file_node_new E path old) old s))))"
    by (rule edit_effect [OF assms(1,3-6,10-12,15,16)])
  from assms(6) have chain: "get_deltas (s_deltas cur) s = Ok ds" "map d_id ds = s_deltas cur"
    "apply_diffs (str_lines base) (map d_diff ds) = Ok (str_lines old)"
    by (auto simp: text_at_def)
  have "d_diff w = d_diff delta" if "get_delta (d_id delta) s = Ok w" for w
    using assms(12,14) that by simp
  from get_deltas_extended [OF assms(2) chain(1,2) assms(13) this e(6)] obtain d'
    where read: "get_deltas (s_deltas snap) s' = Ok (ds @ [d'])" and d': "d_diff d' = d_diff delta"
    using assms(15) by auto
  have "apply_line_diff (str_lines old) (d_diff delta) = Ok (str_lines new)"
    using diff_apply_lines [OF assms(7-10)] assms(12) by simp
  then have "apply_diffs (str_lines base) (map d_diff (ds @ [d'])) = Ok (str_lines new)"
    using chain(3) d' by (simp add: apply_diffs_append)
  from apply_deltas_restore [OF _ this]
  have "apply_deltas (from_utf8_lossy c) (ds @ [d']) = Ok (restore_newline base (str_lines new))"
    using e(5) by simp
  from reconstruct_eq(1) [OF e(4) read this] e(1-3) show ?thesis by blast
qed

text \<open>C39: an edit whose delta is already in the chain is lost. The identifier of a delta covers the file
  content and the change but not the time, and the batch query answers each identifier once: going
  from one text to another, back, and there again makes a third snapshot whose rebuilt text is
  still the old text.\<close>

theorem repeated_edit_is_lost:
  assumes "partitions_ok s" and "distinct (map dr_id (t_deltas s))"
    and "get_partition manual_partition_id s = Ok part"
    and "get_snapshot E (p_current part) s = Ok cur" and "content_ok E cur"
    and "text_at E s cur base ds old"
    and "diff_to_line_diff E old new = Ok diff" and "ld_hunks diff \<noteq> []"
    and "delta = delta_new E (file_node_new E path old) diff Manual"
    and "d_id delta \<in> set (s_deltas cur)"
    and "snap = snapshot_from_parent E cur (d_id delta) ''manual''"
    and "\<not> (\<exists>w. get_snapshot E (s_id snap) s = Ok w)"
  shows "\<exists>s'. apply_manual_edit E path new s = (Ok (s_id snap), s')
     \<and> get_partition manual_partition_id s' = Ok (advance part (s_id snap))
     \<and> reconstruct_text E snap s' = (Ok old, s')"
proof -
  obtain s' c where e: "apply_manual_edit E path new s = (Ok (s_id snap), s')"
    "get_partition manual_partition_id s' = Ok (advance part (s_id snap))"
    "get_snapshot E (s_id snap) s' = Ok snap"
    "get_file_content (file_path (s_file snap)) (base_hash (s_file snap)) s' = Ok c"
    "from_utf8_lossy c = base"
    "t_deltas s' = t_deltas (snd (store_delta E delta (snd (store_file_node E (file_node_new E path old) old s))))"
    by (rule edit_effect [OF assms(1,3-9,11,12)])
  from assms(6) have chain: "get_deltas (s_deltas cur) s = Ok ds" "map d_id ds = s_deltas cur"
    "apply_deltas base ds = Ok old" by (auto simp: text_at_def)
  have "d_id delta \<in> d_id ` set ds" using chain(2) assms(10) by (metis list.set_map)
  then obtain d where "get_delta (d_id delta) s = Ok d"
    using get_deltas_member [OF assms(2) chain(1)] by fastforce
  then have "list_ex (\<lambda>r. dr_id r = id_bytes (d_id delta)) (t_deltas s)"
    by (auto simp: get_delta_def and_then_eq_Ok list_ex_iff dest: select_row_SomeD)
  then have "t_deltas s' = t_deltas s"
    using e(6) by (simp add: store_delta_def update_def insert_or_ignore_def store_file_node_def)
  then have "get_deltas (s_deltas snap) s' = get_deltas (s_deltas cur @ [d_id delta]) s"
    using assms(11) by (simp add: get_deltas_def)
  also have "\<dots> = Ok ds"
    using get_deltas_repeated [OF assms(2,10)] chain(1) by simp
  finally have read: "get_deltas (s_deltas snap) s' = Ok ds" .
  have "apply_deltas (from_utf8_lossy c) ds = Ok old" using chain(3) e(5) by simp
  from reconstruct_eq(1) [OF e(4) read this] e(1,2) show ?thesis by blast
qed

subsection \<open>A small repository\<close>

definition init_snapshot :: snapshot where
  "init_snapshot = snapshot_seal sample_env
     \<lparr>s_id = zero_id, s_file = file_node_new sample_env ''f'' (text_of [''a'']), s_deltas = [],
      s_parents = [], s_partition_type = ''staged'', s_created_at = 0, s_has_conflicts = False,
      s_content = None, s_source = [], s_compression = NoCompression\<rparr>"

definition layer_db :: db where
  "layer_db =
     snd (ensure_staged_partition sample_env (s_id init_snapshot)
       (snd (ensure_manual_partition sample_env (s_id init_snapshot)
         (snd (store_snapshot sample_env init_snapshot []
           (snd (store_file_node sample_env (s_file init_snapshot) (text_of [''a'']) empty_db)))))))"

lemma stays_partitions_ok: "stays (layer_step P) m \<Longrightarrow> partitions_ok s \<Longrightarrow> partitions_ok (snd (m s))"
  by (simp add: stays_def layer_step_def)

lemma layer_db_ok: "partitions_ok layer_db"
  unfolding layer_db_def
  by (intro stays_partitions_ok [OF stays_ensure_partitions(1)]
      stays_partitions_ok [OF stays_ensure_partitions(2)] partitions_ok_empty)
    (simp_all add: empty_db_def)

definition manual_init :: partition where
  "manual_init = initial_partition manual_partition_id ''manual_edit'' PManual (s_id init_snapshot)"

definition whole_diff :: "string \<Rightarrow> line_diff" where
  "whole_diff l = \<lparr>ld_hunks = [\<lparr>h_old_start = 1, h_old_len = 1, h_new_start = 1, h_new_len = 1,
     h_ops = [Replace 1 1 1 [l]]\<rparr>]\<rparr>"

definition line_delta :: "string \<Rightarrow> string \<Rightarrow> delta" where
  "line_delta l m = delta_new sample_env (file_node_new sample_env ''f'' (text_of [l])) (whole_diff m) Manual"

theorem manual_edit_text_witness:
  "\<exists>i s'. apply_manual_edit sample_env ''f'' (text_of [''b'']) layer_db = (Ok i, s')
     \<and> get_partition manual_partition_id s' = Ok (advance manual_init i)"
proof -
  let ?snap = "snapshot_from_parent sample_env init_snapshot (d_id (line_delta ''a'' ''b'')) ''manual''"
  have 1: "distinct (map dr_id (t_deltas layer_db))" by code_simp
  have 2: "get_partition manual_partition_id layer_db = Ok manual_init" by code_simp
  have 3: "get_snapshot sample_env (p_current manual_init) layer_db = Ok init_snapshot" by code_simp
  have 4: "content_ok sample_env init_snapshot" by code_simp
  have 5: "text_at sample_env layer_db init_snapshot (text_of [''a'']) [] (text_of [''a''])" by code_simp
  have 6: "text_ok (text_of [''a''])" "text_ok (text_of [''b''])"
    by (simp_all add: text_ok_def text_of_def)
  have 7: "diff_to_line_diff sample_env (text_of [''a'']) (text_of [''b'']) = Ok (whole_diff ''b'')"
    by code_simp
  have 8: "ld_hunks (whole_diff ''b'') \<noteq> []" by (simp add: whole_diff_def)
  have 9: "d_id (line_delta ''a'' ''b'') \<notin> set (s_deltas init_snapshot)" by code_simp
  have 10: "get_delta (d_id (line_delta ''a'' ''b'')) layer_db = Err (Database QueryReturnedNoRows)"
    by code_simp
  have 11: "get_snapshot sample_env (s_id ?snap) layer_db = Err (Database QueryReturnedNoRows)"
    by code_simp
  have "\<exists>s'. apply_manual_edit sample_env ''f'' (text_of [''b'']) layer_db = (Ok (s_id ?snap), s')
     \<and> get_partition manual_partition_id s' = Ok (advance manual_init (s_id ?snap))
     \<and> get_snapshot sample_env (s_id ?snap) s' = Ok ?snap
     \<and> reconstruct_text sample_env ?snap s'
       = (Ok (restore_newline (text_of [''a'']) (str_lines (text_of [''b'']))), s')"
    by (rule manual_edit_text [OF layer_db_ok 1 2 3 4 5 sample_env_contract 6 7 8 line_delta_def 9 _ refl])
      (simp_all add: 10 11)
  then show ?thesis by blast
qed

definition back_snapshot :: snapshot where
  "back_snapshot =
     snapshot_from_parent sample_env
       (snapshot_from_parent sample_env init_snapshot (d_id (line_delta ''a'' ''b'')) ''manual'')
       (d_id (line_delta ''b'' ''a'')) ''manual''"

definition back_db :: db where
  "back_db =
     snd (update_pointer sample_env manual_partition_id (s_id back_snapshot)
       (snd (store_snapshot sample_env back_snapshot []
         (snd (store_delta sample_env (line_delta ''b'' ''a'')
           (snd (store_delta sample_env (line_delta ''a'' ''b'') layer_db)))))))"

lemma back_db_ok: "partitions_ok back_db"
  unfolding back_db_def
  by (intro stays_partitions_ok [OF stays_update_pointer] stays_partitions_ok [OF stays_store_snapshot]
      stays_partitions_ok [OF stays_store_delta] layer_db_ok)

definition back_partition :: partition where
  "back_partition = advance manual_init (s_id back_snapshot)"

theorem repeated_edit_is_lost_witness:
  "\<exists>x s'. fst (apply_manual_edit sample_env ''f'' (text_of [''b'']) back_db) = Ok (s_id x)
     \<and> reconstruct_text sample_env x s' = (Ok (text_of [''a'']), s')"
proof -
  let ?snap = "snapshot_from_parent sample_env back_snapshot (d_id (line_delta ''a'' ''b'')) ''manual''"
  let ?ds = "[line_delta ''a'' ''b'', line_delta ''b'' ''a'']"
  have 1: "distinct (map dr_id (t_deltas back_db))" by code_simp
  have 2: "get_partition manual_partition_id back_db = Ok back_partition" by code_simp
  have 3: "get_snapshot sample_env (p_current back_partition) back_db = Ok back_snapshot" by code_simp
  have 4: "content_ok sample_env back_snapshot" by code_simp
  have 5: "text_at sample_env back_db back_snapshot (text_of [''a'']) ?ds (text_of [''a''])" by code_simp
  have 7: "diff_to_line_diff sample_env (text_of [''a'']) (text_of [''b'']) = Ok (whole_diff ''b'')"
    by code_simp
  have 8: "ld_hunks (whole_diff ''b'') \<noteq> []" by (simp add: whole_diff_def)
  have 9: "d_id (line_delta ''a'' ''b'') \<in> set (s_deltas back_snapshot)" by code_simp
  have 11: "get_snapshot sample_env (s_id ?snap) back_db = Err (Database QueryReturnedNoRows)"
    by code_simp
  have "\<exists>s'. apply_manual_edit sample_env ''f'' (text_of [''b'']) back_db = (Ok (s_id ?snap), s')
     \<and> get_partition manual_partition_id s' = Ok (advance back_partition (s_id ?snap))
     \<and> reconstruct_text sample_env ?snap s' = (Ok (text_of [''a'']), s')"
    by (rule repeated_edit_is_lost [OF back_db_ok 1 2 3 4 5 7 8 line_delta_def 9 refl])
      (simp_all add: 11)
  then show ?thesis by (metis fst_conv)
qed

section \<open>Merges\<close>

lemma write_merge_run:
  assumes "partitions_ok s" and "get_partition pid s = Ok part"
    and "diff_to_line_diff E target_text merged = Ok diff" and "ld_hunks diff \<noteq> []"
    and "get_deltas (s_deltas incoming) s = Ok ids"
    and "file = (case list_last ids of Some d \<Rightarrow> d_file d | None \<Rightarrow> fallback)"
    and "delta = delta_new E file diff source"
    and "snapshot_merge E parents (d_id delta) (partition_type_name ptype) confl = Ok snap"
    and "s' = snd (store_snapshot E snap [] (snd (store_delta E delta s)))"
  shows "write_merge E pid target_text merged incoming fallback source parents ptype confl s
       = (Ok (Some (s_id snap)), pushed E pid (s_id snap) s')"
    and "get_partition pid (pushed E pid (s_id snap) s') = Ok (advance part (s_id snap))"
proof -
  have ok: "partitions_ok s'"
    using assms(1) by (subst partitions_ok_cong [where s = s]) (simp_all add: assms(9))
  have get: "get_partition pid s' = Ok part"
    using assms(2) by (subst get_partition_cong [where s = s]) (simp_all add: assms(9))
  note push = push_get [OF ok get, of E "s_id snap"]
  show "get_partition pid (pushed E pid (s_id snap) s') = Ok (advance part (s_id snap))"
    by (rule push(2))
  show "write_merge E pid target_text merged incoming fallback source parents ptype confl s
       = (Ok (Some (s_id snap)), pushed E pid (s_id snap) s')"
    unfolding write_merge_def read_deltas_def
    by (simp add: assms(3) line_diff_is_empty_def assms(4) Let_def
        sbind_map_err_query [where h = "get_deltas (s_deltas incoming)", OF assms(5)] flip: assms(6,7))
      (simp add: sbind_run [where m = "store_delta E delta", OF store_run(2)] assms(8)
        sbind_run [where m = "store_snapshot E snap []", OF store_run(3)]
        sbind_run [where m = "update_pointer E pid (s_id snap)", OF push(1)] ret_def flip: assms(9))
qed

text \<open>A delta on top of a snapshot is applied to its text.\<close>

lemma extended_reads:
  assumes "distinct (map dr_id (t_deltas s))" and "text_at E s target base ds txt"
    and "d_id delta \<notin> set (s_deltas target)"
    and "\<And>w. get_delta (d_id delta) s = Ok w \<Longrightarrow> d_diff w = d_diff delta"
    and "s_file snap = s_file target" and "s_deltas snap = s_deltas target @ [d_id delta]"
    and "t_deltas s' = t_deltas (snd (store_delta E delta s))" and "t_file_nodes s' = t_file_nodes s"
  shows "reconstruct_text E snap s' = (engine_error E (and_then (apply_line_diff (str_lines txt) (d_diff delta))
      (\<lambda>ls. Ok (restore_newline base ls))), s')"
proof -
  from assms(2) obtain c where
    c: "get_file_content (file_path (s_file target)) (base_hash (s_file target)) s = Ok c"
    "from_utf8_lossy c = base" and chain: "get_deltas (s_deltas target) s = Ok ds"
    "map d_id ds = s_deltas target"
    "apply_diffs (str_lines base) (map d_diff ds) = Ok (str_lines txt)"
    by (auto simp: text_at_def and_then_eq_Ok)
  have content: "get_file_content (path_str (s_file snap)) (base_hash (s_file snap)) s' = Ok c"
    using c(1) get_file_content_cong [of s' s] assms(5,8) by (simp add: path_str_def)
  from get_deltas_extended [OF assms(1) chain(1,2) assms(3,4,7) refl] obtain d'
    where read: "get_deltas (s_deltas snap) s' = Ok (ds @ [d'])" and d': "d_diff d' = d_diff delta"
    using assms(6) by metis
  have "apply_diffs (str_lines base) (map d_diff (ds @ [d'])) = apply_line_diff (str_lines txt) (d_diff delta)"
    using chain(3) d' by (cases "apply_line_diff (str_lines txt) (d_diff delta)") (simp_all add: apply_diffs_append)
  then have "apply_deltas (from_utf8_lossy c) (ds @ [d'])
      = and_then (apply_line_diff (str_lines txt) (d_diff delta)) (\<lambda>ls. Ok (restore_newline base ls))"
    by (simp add: apply_deltas_def restore_newline_def Let_def c(2))
  then show ?thesis
    by (simp add: reconstruct_text_def read_deltas_def sbind_def query_def map_err_def content read lift_result_def)
qed

lemma extended_text:
  assumes "distinct (map dr_id (t_deltas s))" and "text_at E s target base ds txt"
    and "d_id delta \<notin> set (s_deltas target)"
    and "\<And>w. get_delta (d_id delta) s = Ok w \<Longrightarrow> d_diff w = d_diff delta"
    and "s_file snap = s_file target" and "s_deltas snap = s_deltas target @ [d_id delta]"
    and "t_deltas s' = t_deltas (snd (store_delta E delta s))" and "t_file_nodes s' = t_file_nodes s"
    and "apply_line_diff (str_lines txt) (d_diff delta) = Ok ls"
  shows "reconstruct_text E snap s' = (Ok (restore_newline base ls), s')"
  using extended_reads [OF assms(1-8)] assms(9) by (simp add: engine_error_def)

lemma write_merge_text:
  assumes "partitions_ok s" and "distinct (map dr_id (t_deltas s))" and "get_partition pid s = Ok part"
    and "text_at E s target base ds txt" and "content_ok E target"
    and "diff_contract E txt merged" and "text_ok txt" and "text_ok merged"
    and "diff_to_line_diff E txt merged = Ok diff" and "ld_hunks diff \<noteq> []"
    and "get_deltas (s_deltas incoming) s = Ok ids"
    and "file = (case list_last ids of Some d \<Rightarrow> d_file d | None \<Rightarrow> fallback)"
    and "delta = delta_new E file diff source"
    and "d_id delta \<notin> set (s_deltas target)" and "\<And>w. get_delta (d_id delta) s = Ok w \<Longrightarrow> d_diff w = diff"
    and "snapshot_merge E (target # others) (d_id delta) (partition_type_name ptype) confl = Ok snap"
    and "\<not> (\<exists>w. get_snapshot E (s_id snap) s = Ok w)"
  obtains s' where
    "write_merge E pid txt merged incoming fallback source (target # others) ptype confl s
       = (Ok (Some (s_id snap)), s')"
    and "get_partition pid s' = Ok (advance part (s_id snap))"
    and "get_snapshot E (s_id snap) s' = Ok snap"
    and "s_parents snap = map s_id (target # others)" and "s_has_conflicts snap = confl"
    and "reconstruct_text E snap s' = (Ok (restore_newline base (str_lines merged)), s')"
proof -
  let ?s1 = "snd (store_delta E delta s)"
  let ?s2 = "snd (store_snapshot E snap [] ?s1)"
  let ?s' = "pushed E pid (s_id snap) ?s2"
  note run = write_merge_run [OF assms(1,3,9-13,16) refl]
  have snap: "s_file snap = s_file target" "s_deltas snap = s_deltas target @ [d_id delta]"
    "s_parents snap = map s_id (target # others)" "s_has_conflicts snap = confl"
    "s_content snap = s_content target"
    using assms(16) by auto
  have fresh: "\<not> (\<exists>w. get_snapshot E (s_id snap) ?s1 = Ok w)"
    using assms(17) get_snapshot_cong [of ?s1 s] by simp
  have "content_ok E snap" using assms(5) snap(5) by (simp add: content_ok_def)
  from snapshots.get_put_fresh [OF this fresh, of "[]"]
  have get: "get_snapshot E (s_id snap) ?s' = Ok snap"
    using get_snapshot_cong [of ?s' ?s2] by simp
  have "apply_line_diff (str_lines txt) (d_diff delta) = Ok (str_lines merged)"
    using diff_apply_lines [OF assms(6-9)] assms(13) by simp
  from extended_text [OF assms(2,4,14) _ snap(1,2) _ _ this, where s' = ?s'] run get snap(3,4) that
  show thesis using assms(13,15) by simp
qed

lemma find_partition_Ok: "get_partition pid s = Ok p \<Longrightarrow> find_partition pid msg s = (Ok p, s)"
  by (simp add: find_partition_def match_err_def query_def ret_def)

lemma read_snapshot_Ok: "get_snapshot E i s = Ok x \<Longrightarrow> read_snapshot E i s = (Ok x, s)"
  by (simp add: read_snapshot_def)

text \<open>C12: merging manual edits into staged makes staged say what the manual partition says. The merge
  base is the staged snapshot itself, so the manual text always wins, without a conflict, whatever
  entered staged by other ways: the new staged snapshot has both snapshots as parents and its text
  has exactly the lines of the manual text.\<close>

theorem manual_merge_text:
  assumes "partitions_ok s" and "distinct (map dr_id (t_deltas s))"
    and "get_partition manual_partition_id s = Ok mp" and "get_partition staged_partition_id s = Ok sp"
    and "p_current mp \<noteq> p_current sp"
    and "get_snapshot E (p_current mp) s = Ok ms" and "get_snapshot E (p_current sp) s = Ok ss"
    and "text_at E s ms mbase mds mt" and "text_at E s ss base ds st"
    and "content_ok E ss" and "st \<noteq> mt"
    and "merged = with_newline (any_newline st st mt) mt"
    and "diff_contract E st merged" and "text_ok st" and "text_ok merged"
    and "diff_to_line_diff E st merged = Ok diff" and "ld_hunks diff \<noteq> []"
    and "delta = delta_new E (case list_last mds of Some d \<Rightarrow> d_file d | None \<Rightarrow> s_file ss) diff Manual"
    and "d_id delta \<notin> set (s_deltas ss)" and "\<And>w. get_delta (d_id delta) s = Ok w \<Longrightarrow> d_diff w = diff"
    and "snapshot_merge E [ss, ms] (d_id delta) ''staged'' False = Ok snap"
    and "\<not> (\<exists>w. get_snapshot E (s_id snap) s = Ok w)"
  shows "\<exists>s'. merge_manual_to_staged E s = (Ok (s_id snap), s')
     \<and> get_partition staged_partition_id s' = Ok (advance sp (s_id snap))
     \<and> s_parents snap = [s_id ss, s_id ms] \<and> \<not> s_has_conflicts snap
     \<and> reconstruct_text E snap s' = (Ok (restore_newline base (str_lines mt)), s')"
proof -
  have "get_deltas (s_deltas ms) s = Ok mds" using assms(8) by (simp add: text_at_def)
  then obtain s' where w: "write_merge E staged_partition_id st merged ms (s_file ss) Manual [ss, ms] PStaged False s
       = (Ok (Some (s_id snap)), s')"
    "get_partition staged_partition_id s' = Ok (advance sp (s_id snap))"
    "s_parents snap = map s_id [ss, ms]" "s_has_conflicts snap = False"
    "reconstruct_text E snap s' = (Ok (restore_newline base (str_lines merged)), s')"
    using write_merge_text [OF assms(1,2,4,9,10,13-17) _ refl assms(18-20), of ms "[ms]" PStaged False snap]
      assms(21,22) by auto
  have merge: "merge_texts E st st mt = Ok (merged, [])"
    using assms(11,12) by (simp add: merge_texts_def Let_def)
  have lines: "str_lines merged = str_lines mt"
    using assms(12,15) by (simp add: text_ok_def str_lines_with_newline)
  have "merge_manual_to_staged E s = (Ok (s_id snap), s')"
    unfolding merge_manual_to_staged_def
    by (simp add: sbind_def find_partition_Ok [OF assms(3)] find_partition_Ok [OF assms(4)] assms(5)
        read_snapshot_Ok [OF assms(6)] read_snapshot_Ok [OF assms(7)] reconstruct_text_at(1) [OF assms(8)]
        reconstruct_text_at(1) [OF assms(9)] lift_result_def merge w(1) ret_def Let_def)
  with w lines show ?thesis by simp
qed

definition edited_snapshot :: snapshot where
  "edited_snapshot = snapshot_from_parent sample_env init_snapshot (d_id (line_delta ''a'' ''b'')) ''manual''"

definition edited_db :: db where
  "edited_db =
     snd (update_pointer sample_env manual_partition_id (s_id edited_snapshot)
       (snd (store_snapshot sample_env edited_snapshot []
         (snd (store_delta sample_env (line_delta ''a'' ''b'') layer_db)))))"

lemma edited_db_ok: "partitions_ok edited_db"
  unfolding edited_db_def
  by (intro stays_partitions_ok [OF stays_update_pointer] stays_partitions_ok [OF stays_store_snapshot]
      stays_partitions_ok [OF stays_store_delta] layer_db_ok)

definition staged_init :: partition where
  "staged_init = initial_partition staged_partition_id ''staged'' PStaged (s_id init_snapshot)"

definition merged_snapshot :: snapshot where
  "merged_snapshot =
     (case snapshot_merge sample_env [init_snapshot, edited_snapshot] (d_id (line_delta ''a'' ''b'')) ''staged'' False
      of Ok x \<Rightarrow> x | _ \<Rightarrow> init_snapshot)"

theorem manual_merge_text_witness:
  "\<exists>s'. merge_manual_to_staged sample_env edited_db = (Ok (s_id merged_snapshot), s')
     \<and> reconstruct_text sample_env merged_snapshot s' = (Ok (text_of [''b'']), s')"
proof -
  let ?a = "text_of [''a'']" and ?b = "text_of [''b'']"
  have 1: "distinct (map dr_id (t_deltas edited_db))" by code_simp
  have 2: "get_partition manual_partition_id edited_db = Ok (advance manual_init (s_id edited_snapshot))"
    by code_simp
  have 3: "get_partition staged_partition_id edited_db = Ok staged_init" by code_simp
  have 4: "p_current (advance manual_init (s_id edited_snapshot)) \<noteq> p_current staged_init" by code_simp
  have 5: "get_snapshot sample_env (p_current (advance manual_init (s_id edited_snapshot))) edited_db
    = Ok edited_snapshot" by code_simp
  have 6: "get_snapshot sample_env (p_current staged_init) edited_db = Ok init_snapshot" by code_simp
  have 7: "text_at sample_env edited_db edited_snapshot ?a [line_delta ''a'' ''b''] ?b" by code_simp
  have 8: "text_at sample_env edited_db init_snapshot ?a [] ?a" by code_simp
  have 9: "content_ok sample_env init_snapshot" by code_simp
  have 10: "?a \<noteq> ?b" by code_simp
  have 11: "?b = with_newline (any_newline ?a ?a ?b) ?b" by code_simp
  have 12: "text_ok ?a" "text_ok ?b" by (simp_all add: text_ok_def text_of_def)
  have 13: "diff_to_line_diff sample_env ?a ?b = Ok (whole_diff ''b'')" by code_simp
  have 14: "ld_hunks (whole_diff ''b'') \<noteq> []" by (simp add: whole_diff_def)
  have 15: "line_delta ''a'' ''b'' = delta_new sample_env
      (case list_last [line_delta ''a'' ''b''] of Some d \<Rightarrow> d_file d | None \<Rightarrow> s_file init_snapshot)
      (whole_diff ''b'') Manual" by code_simp
  have 16: "d_id (line_delta ''a'' ''b'') \<notin> set (s_deltas init_snapshot)" by code_simp
  have 17: "get_delta (d_id (line_delta ''a'' ''b'')) edited_db = Ok (line_delta ''a'' ''b'')" by code_simp
  have 18: "snapshot_merge sample_env [init_snapshot, edited_snapshot] (d_id (line_delta ''a'' ''b'')) ''staged'' False
    = Ok merged_snapshot" by code_simp
  have 19: "get_snapshot sample_env (s_id merged_snapshot) edited_db = Err (Database QueryReturnedNoRows)"
    by code_simp
  have 20: "restore_newline ?a (str_lines ?b) = ?b" by code_simp
  have 21: "d_diff (line_delta ''a'' ''b'') = whole_diff ''b''" by (simp add: line_delta_def)
  have "\<exists>s'. merge_manual_to_staged sample_env edited_db = (Ok (s_id merged_snapshot), s')
     \<and> get_partition staged_partition_id s' = Ok (advance staged_init (s_id merged_snapshot))
     \<and> s_parents merged_snapshot = [s_id init_snapshot, s_id edited_snapshot] \<and> \<not> s_has_conflicts merged_snapshot
     \<and> reconstruct_text sample_env merged_snapshot s' = (Ok (restore_newline ?a (str_lines ?b)), s')"
    using manual_merge_text [OF edited_db_ok 1 2 3 4 5 6 7 8 9 10 11 sample_env_contract 12 13 14 15 16 _ 18]
      17 19 21 by simp
  then show ?thesis using 20 by metis
qed

end
