(* ===== verification/Backup_Merge.thy ===== *)
theory Backup_Merge
  imports Backup_Store Layer_Theorems
begin

text \<open>
  Bringing a backup back: \<open>merge_to_staged\<close> of \<^verbatim>\<open>src/backup/backup_repo.rs\<close> and
  \<open>merge_backup_to_staged\<close> of \<^verbatim>\<open>src/layered/transition.rs\<close>. The transaction is on the database of
  the backups, which the merge only reads; what it writes to the database of the layers is not undone
  when it fails. The lemmas say what the text of the staged partition is afterwards.
\<close>

section \<open>The merge\<close>

definition backup_intact :: "env \<Rightarrow> backup_snapshot \<Rightarrow> bool" where
  "backup_intact E b \<longleftrightarrow>
     bs_id ((backup_with_options E (bs_source_snapshot b) (bs_file b) (bs_deltas b) (bs_label b)
       (bs_agent_id b) (bs_source_type b) (bs_file_content b))\<lparr>bs_backed_at := bs_backed_at b\<rparr>) = bs_id b"

definition utf8_content :: "bytes \<Rightarrow> (string, lt_error) result" where
  "utf8_content c = ok_or (from_utf8 c) (General (''non-utf8 file content: '' @ utf8_error_display c))"

definition backup_merge_diff ::
    "env \<Rightarrow> backup_snapshot \<Rightarrow> string \<Rightarrow> string \<Rightarrow> string \<Rightarrow> delta list \<Rightarrow> string \<Rightarrow> string
      \<Rightarrow> (line_diff, lt_error) result" where
  "backup_merge_diff E b backup_base backup_text staged_base staged_deltas staged_text merged =
     (if merged = backup_text \<and> length (bs_deltas b) = 1 then Ok (d_diff (bs_deltas b ! 0))
      else if merged = staged_text \<and> length staged_deltas = 1 \<and> staged_base = backup_base
        then Ok (d_diff (staged_deltas ! 0))
      else diff_to_line_diff E backup_base merged)"

definition merge_file :: "backup_snapshot \<Rightarrow> file_node" where
  "merge_file b = (case list_last (bs_deltas b) of Some d \<Rightarrow> d_file d | None \<Rightarrow> bs_file b)"

text \<open>From \<open>let merge_delta = ...\<close> on.\<close>

definition write_backup_merge ::
    "env \<Rightarrow> backup_snapshot \<Rightarrow> partition \<Rightarrow> snapshot \<Rightarrow> line_diff \<Rightarrow> snapshot_id sys" where
  "write_backup_merge E b staged_partition staged_snapshot diff =
     (let merge_delta = delta_new E (merge_file b) diff Backup
      in sbind (storage (store_delta E merge_delta)) (\<lambda>_.
         sbind (read_snapshot E (bs_source_snapshot b)) (\<lambda>source_snapshot.
         sbind (lift_result (snapshot_merge E [staged_snapshot, source_snapshot] (d_id merge_delta) ''staged'' False))
           (\<lambda>merged.
         sbind (storage (store_snapshot E merged [])) (\<lambda>_.
         sbind (storage (update_pointer E (p_id staged_partition) (s_id merged))) (\<lambda>_.
         ret (s_id merged)))))))"

definition merge_to_staged :: "env \<Rightarrow> backup_codec \<Rightarrow> backup_db \<Rightarrow> backup_id \<Rightarrow> snapshot_id sys" where
  "merge_to_staged E bc bdb i =
     sbind (lift_result (get_backup E bc i bdb)) (\<lambda>b.
     if \<not> backup_intact E b then fail (General ''backup data integrity check failed'')
     else
       let backup_base = from_utf8_lossy (bs_file_content b) in
       sbind (lift_result (apply_deltas backup_base (bs_deltas b))) (\<lambda>backup_text.
       sbind (storage (query (get_partition_by_name ''staged''))) (\<lambda>staged_partition.
       sbind (read_snapshot E (p_current staged_partition)) (\<lambda>staged_snapshot.
       sbind (read_deltas (s_deltas staged_snapshot)) (\<lambda>staged_deltas.
       sbind (storage (query (get_file_content (path_str (s_file staged_snapshot))
           (base_hash (s_file staged_snapshot))))) (\<lambda>content.
       sbind (lift_result (utf8_content content)) (\<lambda>staged_base.
       sbind (lift_result (apply_deltas staged_base staged_deltas)) (\<lambda>staged_text.
       sbind (lift_result (merge_texts E backup_base staged_text backup_text)) (\<lambda>(merged_text, conflicts).
       sbind (lift_result (backup_merge_diff E b backup_base backup_text staged_base staged_deltas staged_text
           merged_text)) (\<lambda>diff.
       write_backup_merge E b staged_partition staged_snapshot diff))))))))))"

definition merge_backup_to_staged :: "env \<Rightarrow> backup_codec \<Rightarrow> backup_db \<Rightarrow> backup_id \<Rightarrow> snapshot_id sys" where
  "merge_backup_to_staged E bc bdb i = merge_to_staged E bc bdb i"

section \<open>What it changes\<close>

lemma get_by_name_id:
  assumes "partitions_ok s" and "get_partition_by_name n s = Ok p"
  shows "get_partition (p_id p) s = Ok p"
proof -
  from assms(2) obtain r where r: "select_row pr_name n (t_partitions s) = Some r" "p = row_to_partition s r"
    by (auto simp: get_partition_by_name_def and_then_eq_Ok query_row_def split: option.splits)
  from select_row_SomeD [OF r(1)] have "r \<in> set (t_partitions s)" by simp
  moreover have "distinct (map pr_id (t_partitions s))" using assms(1) by (simp add: partitions_ok_def)
  ultimately have "select_row pr_id (pr_id r) (t_partitions s) = Some r"
    using find_Some_iff_distinct [of pr_id "t_partitions s" r] by (simp add: select_row_def)
  then show ?thesis by (simp add: get_partition_def r(2) row_to_partition_def query_row_def)
qed

lemma engine_error_Ok [simp]: "engine_error E (Ok x) = Ok x"
  by (simp add: engine_error_def)

lemma stays_write_backup_merge: "stays (layer_step {p_id p}) (write_backup_merge E b p x diff)"
  unfolding write_backup_merge_def Let_def
  by (intro stays_rules stays_stores stays_update_pointer)

section \<open>What the text of staged is afterwards\<close>

lemma write_backup_merge_text:
  assumes "partitions_ok s" and "distinct (map dr_id (t_deltas s))"
    and "get_partition_by_name ''staged'' s = Ok p"
    and "text_at E s x base ds txt" and "content_ok E x"
    and "delta = delta_new E (merge_file b) diff Backup"
    and "d_id delta \<notin> set (s_deltas x)" and "\<And>w. get_delta (d_id delta) s = Ok w \<Longrightarrow> d_diff w = diff"
    and "get_snapshot E (bs_source_snapshot b) s = Ok src"
    and "snapshot_merge E [x, src] (d_id delta) ''staged'' False = Ok snap"
    and "\<not> (\<exists>w. get_snapshot E (s_id snap) s = Ok w)"
  obtains s' where "write_backup_merge E b p x diff s = (Ok (s_id snap), s')"
    and "get_partition (p_id p) s' = Ok (advance p (s_id snap))"
    and "get_snapshot E (s_id snap) s' = Ok snap"
    and "reconstruct_text E snap s' = (engine_error E (and_then (apply_line_diff (str_lines txt) diff)
      (\<lambda>ls. Ok (restore_newline base ls))), s')"
proof -
  let ?s1 = "snd (store_delta E delta s)"
  let ?s2 = "snd (store_snapshot E snap [] ?s1)"
  let ?s' = "pushed E (p_id p) (s_id snap) ?s2"
  have ok: "partitions_ok ?s2" using assms(1) by (subst partitions_ok_cong [where s = s]) simp_all
  have get: "get_partition (p_id p) ?s2 = Ok p"
    using get_by_name_id [OF assms(1,3)] by (subst get_partition_cong [where s = s]) simp_all
  note push = push_get [OF ok get, of E "s_id snap"]
  have src: "get_snapshot E (bs_source_snapshot b) ?s1 = Ok src"
    using assms(9) get_snapshot_cong [of ?s1 s] by simp
  have "write_backup_merge E b p x diff s = (Ok (s_id snap), ?s')"
    unfolding write_backup_merge_def Let_def assms(6) [symmetric]
    by (simp add: sbind_run [where m = "store_delta E delta", OF store_run(2)]
        sbind_apply_Ok [where m = "read_snapshot E (bs_source_snapshot b)", OF read_snapshot_Ok [OF src]]
        assms(10) sbind_run [where m = "store_snapshot E snap []", OF store_run(3)]
        sbind_run [where m = "update_pointer E (p_id p) (s_id snap)", OF push(1)] ret_def
        del: snapshot_merge.simps)
  moreover have snap: "s_file snap = s_file x" "s_deltas snap = s_deltas x @ [d_id delta]"
    "s_content snap = s_content x"
    using assms(10) by auto
  moreover have "\<not> (\<exists>w. get_snapshot E (s_id snap) ?s1 = Ok w)"
    using assms(11) get_snapshot_cong [of ?s1 s] by simp
  then have "get_snapshot E (s_id snap) ?s2 = Ok snap"
    using snapshots.get_put_fresh [of E snap ?s1 "[]"] assms(5) snap(3) by (simp add: content_ok_def)
  then have "get_snapshot E (s_id snap) ?s' = Ok snap"
    using get_snapshot_cong [of ?s' ?s2] by simp
  moreover have "reconstruct_text E snap ?s' = (engine_error E (and_then (apply_line_diff (str_lines txt) (d_diff delta))
      (\<lambda>ls. Ok (restore_newline base ls))), ?s')"
    using assms(6,8) by (intro extended_reads [OF assms(2,4,7) _ snap(1,2)]) simp_all
  ultimately show thesis using that push(2) assms(6) by simp
qed

lemma merge_to_staged_run:
  assumes "get_backup E bc i bdb = Ok b" and "backup_intact E b"
    and "apply_deltas (from_utf8_lossy (bs_file_content b)) (bs_deltas b) = Ok backup_text"
    and "get_partition_by_name ''staged'' s = Ok p" and "get_snapshot E (p_current p) s = Ok x"
    and "text_at E s x base ds txt"
    and "get_file_content (path_str (s_file x)) (base_hash (s_file x)) s = Ok c" and "utf8_valid c"
    and "merge_texts E (from_utf8_lossy (bs_file_content b)) txt backup_text = Ok (merged, confl)"
    and "backup_merge_diff E b (from_utf8_lossy (bs_file_content b)) backup_text base ds txt merged = Ok diff"
  shows "merge_to_staged E bc bdb i s = write_backup_merge E b p x diff s"
proof -
  have "c = base" "get_deltas (s_deltas x) s = Ok ds" "apply_deltas base ds = Ok txt"
    using assms(6-8) by (auto simp: text_at_def path_str_def from_utf8_lossy_valid)
  then show ?thesis
    using assms
    by (simp add: merge_to_staged_def Let_def sbind_map_err_query [where h = "get_partition_by_name ''staged''"]
        sbind_apply_Ok [where m = "read_snapshot E (p_current p)", OF read_snapshot_Ok [OF assms(5)]]
        read_deltas_def sbind_map_err_query [where h = "get_deltas (s_deltas x)"] utf8_content_def from_utf8_def
        sbind_map_err_query [where h = "get_file_content (path_str (s_file x)) (base_hash (s_file x))"])
qed

text \<open>C15: a backup can be brought back. When staged has the text the backup started from, an intact backup
  is merged without loss: the call succeeds, the staged partition advances to a new snapshot, and the text
  rebuilt from it has exactly the lines of the text that was backed up.\<close>

theorem backup_merge_restores:
  assumes "get_backup E bc i bdb = Ok b" and "backup_intact E b"
    and "base = from_utf8_lossy (bs_file_content b)"
    and "apply_deltas base (bs_deltas b) = Ok txt"
    and "apply_diffs (str_lines base) (map d_diff (bs_deltas b)) = Ok (str_lines txt)"
    and "partitions_ok s" and "distinct (map dr_id (t_deltas s))"
    and "get_partition_by_name ''staged'' s = Ok p" and "get_snapshot E (p_current p) s = Ok x"
    and "text_at E s x sbase ds base" and "content_ok E x"
    and "get_file_content (path_str (s_file x)) (base_hash (s_file x)) s = Ok c" and "utf8_valid c"
    and "merged = with_newline (any_newline base base txt) (if base = txt then base else txt)"
    and "text_ok base" and "text_ok merged" and "diff_contract E base merged"
    and "backup_merge_diff E b base txt sbase ds base merged = Ok diff"
    and "delta = delta_new E (merge_file b) diff Backup"
    and "d_id delta \<notin> set (s_deltas x)" and "\<And>w. get_delta (d_id delta) s = Ok w \<Longrightarrow> d_diff w = diff"
    and "get_snapshot E (bs_source_snapshot b) s = Ok src"
    and "snapshot_merge E [x, src] (d_id delta) ''staged'' False = Ok snap"
    and "\<not> (\<exists>w. get_snapshot E (s_id snap) s = Ok w)"
  shows "\<exists>s'. merge_to_staged E bc bdb i s = (Ok (s_id snap), s')
     \<and> get_partition (p_id p) s' = Ok (advance p (s_id snap))
     \<and> reconstruct_text E snap s' = (Ok (restore_newline sbase (str_lines txt)), s')"
proof -
  have merge: "merge_texts E base base txt = Ok (merged, [])"
    using assms(14) by (auto simp: merge_texts_def Let_def)
  have lines: "str_lines merged = str_lines txt"
    using assms(14,16) by (auto simp: text_ok_def str_lines_with_newline split: if_splits)
  have "apply_line_diff (str_lines base) diff = Ok (str_lines txt)"
  proof -
    consider (backup) d where "bs_deltas b = [d]" "diff = d_diff d"
      | (staged) d where "ds = [d]" "diff = d_diff d" "merged = base" "sbase = base"
      | (diff) "diff_to_line_diff E base merged = Ok diff"
      using assms(18) by (auto simp: backup_merge_diff_def length_Suc_conv split: if_splits)
    then show ?thesis
    proof cases
      case backup
      with assms(5) show ?thesis by (simp add: and_then_eq_Ok)
    next
      case staged
      with assms(10) lines show ?thesis by (simp add: text_at_def and_then_eq_Ok)
    next
      case diff
      from diff_apply_lines [OF assms(17,15,16) diff] lines show ?thesis by simp
    qed
  qed
  with write_backup_merge_text [OF assms(6-8,10,11,19-24)] obtain s' where
    w: "write_backup_merge E b p x diff s = (Ok (s_id snap), s')"
      "get_partition (p_id p) s' = Ok (advance p (s_id snap))"
      "reconstruct_text E snap s' = (Ok (restore_newline sbase (str_lines txt)), s')"
    by (metis and_then.simps(1) engine_error_Ok)
  have "merge_to_staged E bc bdb i s = write_backup_merge E b p x diff s"
    using assms(3,4,18) merge merge_to_staged_run [OF assms(1,2) _ assms(8-10,12,13)] by simp
  with w show ?thesis by simp
qed

section \<open>A backup is kept\<close>

lemma collected:
  assumes "collect_backup E core i label = Ok b"
  obtains f ds a t c where "b = backup_with_options E i f ds label a t c"
  using assms
  by (auto simp: collect_backup_def and_then_eq_Ok split_beta)

lemma intact_with_options: "backup_intact E (backup_with_options E i f ds label a t c)"
  by (simp add: backup_intact_def)

text \<open>C10: a backup is kept as it was taken. Backing up a snapshot of the layers stores one row; from then on
  its identifier gives back exactly the snapshot's file, deltas, content and label, it passes the integrity
  check that guards the merge, and every other backup reads as before.\<close>

theorem backup_roundtrip:
  assumes "collect_backup E core i label = Ok b" and "codec_ok E bc (bs_deltas b)"
    and "\<forall>r \<in> set (b_snapshots s). bk_id r \<noteq> id_bytes (bs_id b)"
  shows "\<exists>s'. create_backup E bc core i label s = (Ok (bs_id b), s')
     \<and> get_backup E bc (bs_id b) s' = Ok b \<and> bs_source_snapshot b = i \<and> bs_label b = label
     \<and> backup_intact E b
     \<and> (\<forall>j. j \<noteq> bs_id b \<longrightarrow> get_backup E bc j s' = get_backup E bc j s)
     \<and> backup_count s' = Ok (Suc (length (b_snapshots s)))"
proof -
  from get_backup_stored [OF assms(2,3)] obtain s' where
    s': "in_transaction (store_backup_inner E bc b) s = (Ok (), s')" "get_backup E bc (bs_id b) s' = Ok b"
      "\<forall>j. j \<noteq> bs_id b \<longrightarrow> get_backup E bc j s' = get_backup E bc j s"
      "length (b_snapshots s') = Suc (length (b_snapshots s))"
    by blast
  have "create_backup E bc core i label s = (Ok (bs_id b), s')"
    by (simp add: create_backup_def assms(1) sbind_run [where m = "in_transaction (store_backup_inner E bc b)", OF s'(1)] ret_def)
  moreover obtain f ds a t c where "b = backup_with_options E i f ds label a t c"
    by (rule collected [OF assms(1)])
  then have "bs_source_snapshot b = i \<and> bs_label b = label \<and> backup_intact E b"
    using intact_with_options by simp
  ultimately show ?thesis
    using s' by (simp add: backup_count_def)
qed

subsection \<open>A small backup\<close>

definition sample_codec :: backup_codec where
  "sample_codec =
     \<lparr>bc_to_json = (\<lambda>ds. if ds = [] then Inr [] else if ds = [line_delta ''a'' ''b''] then Inr ''d'' else Inl ''unknown''),
      bc_from_json = (\<lambda>js. if js = [] then Inr [] else Inr [line_delta ''a'' ''b''])\<rparr>"

definition edited_backup :: backup_snapshot where
  "edited_backup = backup_with_options sample_env (s_id edited_snapshot) (d_file (line_delta ''a'' ''b''))
     [line_delta ''a'' ''b''] (Some ''v1'') None (Some ''manual'') (text_of [''a''])"

definition sample_backup_db :: backup_db where
  "sample_backup_db =
     snd (create_backup sample_env sample_codec edited_db (s_id edited_snapshot) (Some ''v1'') empty_backup_db)"

definition restored_snapshot :: snapshot where
  "restored_snapshot =
     (case snapshot_merge sample_env [init_snapshot, edited_snapshot] (d_id (line_delta ''a'' ''b'')) ''staged'' False
      of Ok x \<Rightarrow> x | _ \<Rightarrow> init_snapshot)"

theorem backup_roundtrip_witness:
  "\<exists>s'. create_backup sample_env sample_codec edited_db (s_id edited_snapshot) (Some ''v1'') empty_backup_db
         = (Ok (bs_id edited_backup), s')
     \<and> get_backup sample_env sample_codec (bs_id edited_backup) s' = Ok edited_backup"
proof -
  have 1: "collect_backup sample_env edited_db (s_id edited_snapshot) (Some ''v1'') = Ok edited_backup" by code_simp
  have "compress_deltas sample_env sample_codec (bs_deltas edited_backup) = Ok ''zd''"
    "decompress_deltas sample_env sample_codec ''zd'' = Ok (bs_deltas edited_backup)" by code_simp+
  then have 2: "codec_ok sample_env sample_codec (bs_deltas edited_backup)" by (auto simp: codec_ok_def)
  have 3: "\<forall>r \<in> set (b_snapshots empty_backup_db). bk_id r \<noteq> id_bytes (bs_id edited_backup)"
    by (simp add: empty_backup_db_def)
  show ?thesis using backup_roundtrip [OF 1 2 3] by blast
qed

theorem backup_merge_restores_witness:
  "\<exists>s'. merge_to_staged sample_env sample_codec sample_backup_db (bs_id edited_backup) edited_db
         = (Ok (s_id restored_snapshot), s')
     \<and> reconstruct_text sample_env restored_snapshot s' = (Ok (text_of [''b'']), s')"
proof -
  let ?a = "text_of [''a'']" and ?b = "text_of [''b'']"
  have 1: "get_backup sample_env sample_codec (bs_id edited_backup) sample_backup_db = Ok edited_backup" by code_simp
  have 2: "backup_intact sample_env edited_backup" by code_simp
  have 3: "?a = from_utf8_lossy (bs_file_content edited_backup)" by code_simp
  have 4: "apply_deltas ?a (bs_deltas edited_backup) = Ok ?b" by code_simp
  have 5: "apply_diffs (str_lines ?a) (map d_diff (bs_deltas edited_backup)) = Ok (str_lines ?b)" by code_simp
  have 6: "distinct (map dr_id (t_deltas edited_db))" by code_simp
  have 7: "get_partition_by_name ''staged'' edited_db = Ok staged_init" by code_simp
  have 8: "get_snapshot sample_env (p_current staged_init) edited_db = Ok init_snapshot" by code_simp
  have 9: "text_at sample_env edited_db init_snapshot ?a [] ?a" by code_simp
  have 10: "content_ok sample_env init_snapshot" by code_simp
  have 11: "get_file_content (path_str (s_file init_snapshot)) (base_hash (s_file init_snapshot)) edited_db = Ok ?a"
    by code_simp
  have 12: "utf8_valid ?a" by code_simp
  have 13: "?b = with_newline (any_newline ?a ?a ?b) (if ?a = ?b then ?a else ?b)" by code_simp
  have 14: "text_ok ?a" "text_ok ?b" by (simp_all add: text_ok_def text_of_def)
  have 15: "backup_merge_diff sample_env edited_backup ?a ?b ?a [] ?a ?b = Ok (whole_diff ''b'')" by code_simp
  have 16: "line_delta ''a'' ''b'' = delta_new sample_env (merge_file edited_backup) (whole_diff ''b'') Manual"
    by code_simp
  let ?d = "delta_new sample_env (merge_file edited_backup) (whole_diff ''b'') Backup"
  have 17: "d_id ?d \<notin> set (s_deltas init_snapshot)" by code_simp
  have 18: "get_delta (d_id ?d) edited_db = Ok (line_delta ''a'' ''b'')" by code_simp
  have 19: "get_snapshot sample_env (bs_source_snapshot edited_backup) edited_db = Ok edited_snapshot" by code_simp
  have 20: "snapshot_merge sample_env [init_snapshot, edited_snapshot] (d_id ?d) ''staged'' False
    = Ok restored_snapshot" by code_simp
  have 21: "get_snapshot sample_env (s_id restored_snapshot) edited_db = Err (Database QueryReturnedNoRows)"
    by code_simp
  have 22: "restore_newline ?a (str_lines ?b) = ?b" by code_simp
  have 23: "d_diff (line_delta ''a'' ''b'') = whole_diff ''b''" by (simp add: line_delta_def)
  show ?thesis
    using backup_merge_restores [OF 1 2 3 4 5 edited_db_ok 6 7 8 9 10 11 12 13 14 sample_env_contract 15 refl 17 _
        19 20] 18 21 22 23 by fastforce
qed

text \<open>C33: bringing back a backup can apply an edit a second time. The delta of the merge turns the base of
  the backup into the merged text, but it is appended to the deltas staged already has. So when staged is
  one delta away from the base of the backup and the three-way merge has nothing to change in it, the text of
  staged afterwards is its text with a delta applied once more: the delta of the backup when the backup has
  the text of staged and one delta (as right after backing staged up), otherwise that of staged. When that
  cannot be applied to the text, staged can no longer be read. (The delta of the merge is not one of those of
  staged, and the merged snapshot is not stored yet.)\<close>

theorem backup_merge_repeats_staged_edit:
  assumes "get_backup E bc i bdb = Ok b" and "backup_intact E b"
    and "base = from_utf8_lossy (bs_file_content b)" and "apply_deltas base (bs_deltas b) = Ok btxt"
    and "partitions_ok s" and "distinct (map dr_id (t_deltas s))"
    and "get_partition_by_name ''staged'' s = Ok p" and "get_snapshot E (p_current p) s = Ok x"
    and "text_at E s x base [d] txt" and "content_ok E x"
    and "get_file_content (path_str (s_file x)) (base_hash (s_file x)) s = Ok c" and "utf8_valid c"
    and "merge_texts E base txt btxt = Ok (txt, confl)"
    and "diff = (if txt = btxt \<and> length (bs_deltas b) = 1 then d_diff (hd (bs_deltas b)) else d_diff d)"
    and "delta = delta_new E (merge_file b) diff Backup"
    and "d_id delta \<notin> set (s_deltas x)" and "\<And>w. get_delta (d_id delta) s = Ok w \<Longrightarrow> d_diff w = diff"
    and "get_snapshot E (bs_source_snapshot b) s = Ok src"
    and "snapshot_merge E [x, src] (d_id delta) ''staged'' False = Ok snap"
    and "\<not> (\<exists>w. get_snapshot E (s_id snap) s = Ok w)"
  shows "\<exists>s'. merge_to_staged E bc bdb i s = (Ok (s_id snap), s')
     \<and> get_partition (p_id p) s' = Ok (advance p (s_id snap))
     \<and> reconstruct_text E snap s' = (engine_error E (and_then (apply_line_diff (str_lines txt) diff)
          (\<lambda>twice. Ok (restore_newline base twice))), s')"
proof -
  have diff: "backup_merge_diff E b base btxt base [d] txt txt = Ok diff"
    using assms(14) by (cases "bs_deltas b") (auto simp: backup_merge_diff_def)
  from write_backup_merge_text [OF assms(5-7,9,10,15-20)] obtain s' where
    w: "write_backup_merge E b p x diff s = (Ok (s_id snap), s')"
      "get_partition (p_id p) s' = Ok (advance p (s_id snap))"
      "reconstruct_text E snap s' = (engine_error E (and_then (apply_line_diff (str_lines txt) diff)
        (\<lambda>twice. Ok (restore_newline base twice))), s')"
    by blast
  from merge_to_staged_run [OF assms(1,2) _ assms(7-9,11,12)] assms(3,4,13) diff
  have "merge_to_staged E bc bdb i s = write_backup_merge E b p x diff s" by simp
  with w show ?thesis by simp
qed

text \<open>An environment whose identifiers tell deltas of a backup from the others.\<close>

definition tagged_env :: env where
  "tagged_env = sample_env\<lparr>env_delta_json := (\<lambda>f d src.
     map_option ((#) (if src = Backup then CHR ''B'' else CHR ''M'')) (env_delta_json sample_env f d src))\<rparr>"

definition append_b :: delta where
  "append_b = delta_new tagged_env (file_node_new tagged_env ''f'' (text_of [''a'']))
     \<lparr>ld_hunks = [\<lparr>h_old_start = 1, h_old_len = 1, h_new_start = 1, h_new_len = 2,
        h_ops = [Replace 1 1 1 [''a'', ''b'']]\<rparr>]\<rparr> Manual"

definition appended_snapshot :: snapshot where
  "appended_snapshot = snapshot_from_parent tagged_env init_snapshot (d_id append_b) ''staged''"

definition appended_db :: db where
  "appended_db =
     snd (update_pointer tagged_env staged_partition_id (s_id appended_snapshot)
       (snd (store_snapshot tagged_env appended_snapshot []
         (snd (store_delta tagged_env append_b layer_db)))))"

lemma appended_db_ok: "partitions_ok appended_db"
  unfolding appended_db_def
  by (intro stays_partitions_ok [OF stays_update_pointer] stays_partitions_ok [OF stays_store_snapshot]
      stays_partitions_ok [OF stays_store_delta] layer_db_ok)

definition base_backup :: backup_snapshot where
  "base_backup = backup_with_options tagged_env (s_id init_snapshot) (s_file init_snapshot) [] None None None
     (text_of [''a''])"

definition base_backup_db :: backup_db where
  "base_backup_db =
     snd (create_backup tagged_env sample_codec appended_db (s_id init_snapshot) None empty_backup_db)"

definition repeated_snapshot :: snapshot where
  "repeated_snapshot =
     (case snapshot_merge tagged_env [appended_snapshot, init_snapshot]
         (d_id (delta_new tagged_env (bs_file base_backup) (d_diff append_b) Backup)) ''staged'' False
      of Ok x \<Rightarrow> x | _ \<Rightarrow> init_snapshot)"

theorem backup_merge_repeats_staged_edit_witness:
  "\<exists>s'. merge_to_staged tagged_env sample_codec base_backup_db (bs_id base_backup) appended_db
         = (Ok (s_id repeated_snapshot), s')
     \<and> reconstruct_text tagged_env repeated_snapshot s' = (Ok (text_of [''a'', ''b'', ''b'']), s')"
proof -
  let ?a = "text_of [''a'']" and ?ab = "text_of [''a'', ''b'']"
  let ?d = "delta_new tagged_env (bs_file base_backup) (d_diff append_b) Backup"
  have 1: "get_backup tagged_env sample_codec (bs_id base_backup) base_backup_db = Ok base_backup" by code_simp
  have 2: "backup_intact tagged_env base_backup" by code_simp
  have 3: "?a = from_utf8_lossy (bs_file_content base_backup)" by code_simp
  have 4: "apply_deltas ?a (bs_deltas base_backup) = Ok ?a" by code_simp
  have 5: "distinct (map dr_id (t_deltas appended_db))" by code_simp
  have 6: "get_partition_by_name ''staged'' appended_db = Ok (advance staged_init (s_id appended_snapshot))"
    by code_simp
  have 7: "get_snapshot tagged_env (p_current (advance staged_init (s_id appended_snapshot))) appended_db
    = Ok appended_snapshot" by code_simp
  have 8: "text_at tagged_env appended_db appended_snapshot ?a [append_b] ?ab" by code_simp
  have 9: "content_ok tagged_env appended_snapshot" by code_simp
  have 10: "get_file_content (path_str (s_file appended_snapshot)) (base_hash (s_file appended_snapshot)) appended_db
    = Ok ?a" by code_simp
  have 11: "utf8_valid ?a" by code_simp
  have 12: "merge_texts tagged_env ?a ?ab ?a = Ok (?ab, [])" by code_simp
  have 13: "d_diff append_b = (if ?ab = ?a \<and> length (bs_deltas base_backup) = 1 then d_diff (hd (bs_deltas base_backup))
      else d_diff append_b)" by code_simp
  have 14: "d_id ?d \<notin> set (s_deltas appended_snapshot)" by code_simp
  have same_file: "?d = delta_new tagged_env (merge_file base_backup) (d_diff append_b) Backup" by code_simp
  have 15: "get_delta (d_id ?d) appended_db = Err (Database QueryReturnedNoRows)" by code_simp
  have 16: "get_snapshot tagged_env (bs_source_snapshot base_backup) appended_db = Ok init_snapshot" by code_simp
  have 17: "snapshot_merge tagged_env [appended_snapshot, init_snapshot] (d_id ?d) ''staged'' False
    = Ok repeated_snapshot" by code_simp
  have 18: "get_snapshot tagged_env (s_id repeated_snapshot) appended_db = Err (Database QueryReturnedNoRows)"
    by code_simp
  have 19: "apply_line_diff (str_lines ?ab) (d_diff append_b) = Ok [''a'', ''b'', ''b'']" by code_simp
  have 20: "restore_newline ?a [''a'', ''b'', ''b''] = text_of [''a'', ''b'', ''b'']" by code_simp
  show ?thesis
    using backup_merge_repeats_staged_edit [OF 1 2 3 4 appended_db_ok 5 6 7 8 9 10 11 12 13 same_file 14 _ 16 17 _]
      15 18 19 20 by fastforce
qed

end
