(* ===== verification/Layer_Isolation.thy ===== *)
theory Layer_Isolation
  imports Backup_Merge
begin

text \<open>
  The isolation of the layers: every operation of \<^verbatim>\<open>src/layered/\<close> and of the state machine of
  \<^verbatim>\<open>src/layered.rs\<close> as one datatype, the partitions each is for, and that it changes no other.
\<close>

section \<open>The operations\<close>

datatype layer_operation =
    EnsureManual snapshot_id
  | EnsureAgent agent_instance_id snapshot_id
  | EnsureApproval agent_instance_id snapshot_id
  | EnsureIntegrated string snapshot_id
  | EnsureStaged snapshot_id
  | CreateFeature string snapshot_id
  | FeatureBaseline string
  | EditManual string string
  | EditAgent agent_instance_id string string
  | DiscardAgent agent_instance_id
  | SubmitAgent agent_instance_id
  | RejectSubmission agent_instance_id
  | ListApprovals
  | PendingSubmissions
  | AgentIntoFeature agent_instance_id string
  | ManualIntoStaged
  | FeatureIntoStaged string
  | FeaturesIntoStaged "string list"
  | BackupIntoStaged backup_codec backup_db backup_id
  | ValidateStaged
  | CommitStaged string string string
  | ResetStaged snapshot_id
  | Migrate uuid uuid
  | Forward forward_transition "string list"
  | RollbackPartition uuid
  | RollbackStaged layer_type
  | Rollback rollback_transition "string list"
  | ReadText snapshot
  | ParentOfType snapshot string
  | DevelopFeature string agent_instance_id "string \<Rightarrow> (string, lt_error) result"
  | DevelopTogether string "(agent_instance_id \<times> (string \<Rightarrow> (string, lt_error) result)) list"
  | MergeFeatures "string list"
  | GetPartition uuid
  | GetOrCreatePartition uuid partition
  | UpdatePartitionPointer uuid snapshot_id
  | SwitchToBranch string
  | SyncLayers

definition unit_of :: "'a sys \<Rightarrow> unit sys" where
  "unit_of m = sbind m (\<lambda>_. ret ())"

fun run_operation :: "env \<Rightarrow> layer_operation \<Rightarrow> unit sys" where
  "run_operation E (EnsureManual i) = unit_of (ensure_manual_partition E i)"
| "run_operation E (EnsureAgent a i) = unit_of (ensure_agent_partition E a i)"
| "run_operation E (EnsureApproval a i) = unit_of (ensure_approval_agent_partition E a i)"
| "run_operation E (EnsureIntegrated n i) = unit_of (ensure_integrated_partition E n i)"
| "run_operation E (EnsureStaged i) = unit_of (ensure_staged_partition E i)"
| "run_operation E (CreateFeature n i) = unit_of (create_feature_branch E n i)"
| "run_operation E (FeatureBaseline n) = unit_of (get_feature_baseline E n)"
| "run_operation E (EditManual path txt) = unit_of (apply_manual_edit E path txt)"
| "run_operation E (EditAgent a path txt) = unit_of (apply_agent_edit E a path txt)"
| "run_operation E (DiscardAgent a) = discard_agent_edit E a"
| "run_operation E (SubmitAgent a) = unit_of (move_agent_to_approval E a)"
| "run_operation E (RejectSubmission a) = unit_of (reject_approval E a)"
| "run_operation E ListApprovals = unit_of list_approval_partitions"
| "run_operation E PendingSubmissions = unit_of list_pending_approvals"
| "run_operation E (AgentIntoFeature a n) = unit_of (merge_agent_to_feature E a n)"
| "run_operation E ManualIntoStaged = unit_of (merge_manual_to_staged E)"
| "run_operation E (FeatureIntoStaged n) = unit_of (merge_feature_to_staged E n)"
| "run_operation E (FeaturesIntoStaged ns) = unit_of (merge_features_to_staged E ns)"
| "run_operation E (BackupIntoStaged bc bdb i) = unit_of (merge_backup_to_staged E bc bdb i)"
| "run_operation E ValidateStaged = unit_of (validate_staged_for_commit E)"
| "run_operation E (CommitStaged b m a) = unit_of (commit_staged_to_checkpoint E b m a)"
| "run_operation E (ResetStaged i) = reset_staged E i"
| "run_operation E (Migrate f t) = migrate_between_partitions E f t"
| "run_operation E (Forward t ps) = unit_of (execute_forward E t ps)"
| "run_operation E (RollbackPartition pid) = unit_of (rollback_partition E pid)"
| "run_operation E (RollbackStaged l) = unit_of (rollback_staged_to_layer E l)"
| "run_operation E (Rollback t ps) = unit_of (execute_rollback E t ps)"
| "run_operation E (ReadText x) = unit_of (reconstruct_text E x)"
| "run_operation E (ParentOfType x t) = unit_of (has_parent_of_type E x t)"
| "run_operation E (DevelopFeature n a edit) = unit_of (develop_single_feature E n a edit)"
| "run_operation E (DevelopTogether n aes) = unit_of (develop_feature_with_collaboration E n aes)"
| "run_operation E (MergeFeatures ns) = unit_of (merge_multiple_features E ns)"
| "run_operation E (GetPartition pid) = unit_of (sm_get_partition pid)"
| "run_operation E (GetOrCreatePartition pid p) = unit_of (sm_get_or_create_partition E pid p)"
| "run_operation E (UpdatePartitionPointer pid i) = sm_update_partition_pointer E pid i"
| "run_operation E (SwitchToBranch n) = unit_of (switch_branch E n)"
| "run_operation E SyncLayers = sync_layers E"

text \<open>The partitions an operation is for. A backup goes to the partition with the name staged; a switch of
  branch creates staged, with a random identifier, when it is missing.\<close>

definition first_agent :: "string list \<Rightarrow> agent_instance_id" where
  "first_agent ps = AgentInstanceId (case ps of [] \<Rightarrow> [] | a # _ \<Rightarrow> a)"

definition second_name :: "string list \<Rightarrow> string" where
  "second_name ps = (case ps of _ # n # _ \<Rightarrow> n | _ \<Rightarrow> [])"

definition agent_path :: "env \<Rightarrow> agent_instance_id \<Rightarrow> string \<Rightarrow> uuid set" where
  "agent_path E a n = {agent_partition_id E a, approval_agent_partition_id E a, integrated_partition_id E n}"

fun targets :: "env \<Rightarrow> db \<Rightarrow> layer_operation \<Rightarrow> uuid set" where
  "targets E s (EnsureManual i) = {manual_partition_id}"
| "targets E s (EnsureAgent a i) = {agent_partition_id E a}"
| "targets E s (EnsureApproval a i) = {approval_agent_partition_id E a}"
| "targets E s (EnsureIntegrated n i) = {integrated_partition_id E n}"
| "targets E s (EnsureStaged i) = {staged_partition_id}"
| "targets E s (CreateFeature n i) = {integrated_partition_id E n}"
| "targets E s (EditManual path txt) = {manual_partition_id}"
| "targets E s (EditAgent a path txt) = {agent_partition_id E a}"
| "targets E s (DiscardAgent a) = {agent_partition_id E a}"
| "targets E s (SubmitAgent a) = {approval_agent_partition_id E a}"
| "targets E s (RejectSubmission a) = {approval_agent_partition_id E a}"
| "targets E s (AgentIntoFeature a n) = {integrated_partition_id E n, approval_agent_partition_id E a}"
| "targets E s ManualIntoStaged = {staged_partition_id}"
| "targets E s (FeatureIntoStaged n) = {staged_partition_id}"
| "targets E s (FeaturesIntoStaged ns) = {staged_partition_id}"
| "targets E s (BackupIntoStaged bc bdb i) = (case get_partition_by_name ''staged'' s of Ok p \<Rightarrow> {p_id p} | _ \<Rightarrow> {})"
| "targets E s (ResetStaged i) = {staged_partition_id}"
| "targets E s (Migrate f t) = {t}"
| "targets E s (Forward t ps) = (case t of
     ManualToStaged \<Rightarrow> {staged_partition_id}
   | AgentToApproval \<Rightarrow> {approval_agent_partition_id E (first_agent ps)}
   | ApprovalToIntegrated \<Rightarrow> {integrated_partition_id E (second_name ps), approval_agent_partition_id E (first_agent ps)}
   | IntegratedToStaged \<Rightarrow> {staged_partition_id})"
| "targets E s (RollbackPartition pid) = {pid}"
| "targets E s (RollbackStaged l) = {staged_partition_id}"
| "targets E s (Rollback t ps) = (case t of
     ApprovalToAgentRaw \<Rightarrow> {approval_agent_partition_id E (first_agent ps)}
   | _ \<Rightarrow> {staged_partition_id})"
| "targets E s (DevelopFeature n a edit) = insert staged_partition_id (agent_path E a n)"
| "targets E s (DevelopTogether n aes) =
     insert staged_partition_id (insert (integrated_partition_id E n) (\<Union>ae \<in> set aes. agent_path E (fst ae) n))"
| "targets E s (MergeFeatures ns) = {staged_partition_id}"
| "targets E s (GetOrCreatePartition pid p) = {p_id p}"
| "targets E s (UpdatePartitionPointer pid i) = {pid}"
| "targets E s (SwitchToBranch n) = {staged_partition_id, env_uuid_v7 E}"
| "targets E s op = {}"

text \<open>A partition that is handed over has a history that ends at its current snapshot, as one made by
  \<open>Partition::new\<close> has.\<close>

fun operation_wf :: "layer_operation \<Rightarrow> bool" where
  "operation_wf (GetOrCreatePartition pid p) = partition_wf p"
| "operation_wf op = True"

section \<open>Every operation is isolated\<close>

lemma stays_unit_of: "stays (layer_step P) m \<Longrightarrow> stays (layer_step P) (unit_of m)"
  unfolding unit_of_def by (intro stays_rules)

lemma stays_list: "stays R m \<Longrightarrow> (\<And>x xs. stays R (f x xs)) \<Longrightarrow> stays R (case ys of [] \<Rightarrow> m | x # xs \<Rightarrow> f x xs)"
  by (cases ys) simp_all

lemma stays_reads_only:
  "stays (layer_step P) (reconstruct_text E x)" "stays (layer_step P) (has_parent_of_type E x t)"
  "stays (layer_step P) list_approval_partitions" "stays (layer_step P) list_pending_approvals"
  "stays (layer_step P) (get_current_baseline E)" "stays (layer_step P) staged_current"
  "stays (layer_step P) (sm_get_partition pid)" "stays (layer_step P) (sync_layers E)"
proof -
  show "stays (layer_step P) (reconstruct_text E x)"
    unfolding reconstruct_text_def by (intro stays_rules stays_stores)
  show "stays (layer_step P) (has_parent_of_type E x t)"
  proof -
    have "stays (layer_step P) (any_parent_contains E t is)" for "is"
      by (induction "is") (auto intro!: stays_rules stays_stores)
    then show ?thesis by (simp add: has_parent_of_type_def)
  qed
  show "stays (layer_step P) list_approval_partitions" "stays (layer_step P) list_pending_approvals"
    unfolding list_pending_approvals_def list_approval_partitions_def by (intro stays_rules stays_stores)+
  show "stays (layer_step P) (get_current_baseline E)" "stays (layer_step P) staged_current"
    unfolding get_current_baseline_def staged_current_def by (intro stays_rules stays_stores)+
  show "stays (layer_step P) (sm_get_partition pid)" "stays (layer_step P) (sync_layers E)"
    unfolding sm_get_partition_def sync_layers_def by (intro stays_rules stays_stores stays_branch)+
qed

lemma stays_param_bind:
  assumes "i < length ps \<Longrightarrow> stays (layer_step P) (f (ps ! i))"
  shows "stays (layer_step P) (sbind (param ps i msg) f)"
  using assms layer.stays_lift_result [of P "ok_or None (StateMachine msg)"]
  by (cases "i < length ps") (simp_all add: param_def sbind_def lift_result_def stays_def)

lemma stays_execute:
  "stays (layer_step (targets E s (Forward t ps))) (execute_forward E t ps)"
  "stays (layer_step (targets E s (Rollback t' ps))) (execute_rollback E t' ps)"
proof -
  have first: "AgentInstanceId (ps ! 0) = first_agent ps" if "0 < length ps"
    using that by (cases ps) (simp_all add: first_agent_def)
  have second: "ps ! 1 = second_name ps" if "1 < length ps"
    using that by (cases ps; cases "tl ps") (auto simp: second_name_def)
  show "stays (layer_step (targets E s (Forward t ps))) (execute_forward E t ps)"
  proof (cases t)
    case ApprovalToIntegrated
    have "stays (layer_step {integrated_partition_id E (second_name ps), approval_agent_partition_id E (first_agent ps)})
        (sbind (merge_agent_to_feature E (AgentInstanceId (ps ! 0)) (ps ! 1)) (\<lambda>r. ret (res_snapshot r)))"
      if "0 < length ps" "1 < length ps"
      unfolding first [OF that(1)] second [OF that(2)] by (intro stays_rules stays_merge_agent_to_feature)
    then show ?thesis by (auto simp: ApprovalToIntegrated execute_forward_def intro!: stays_param_bind)
  next
    case AgentToApproval
    have "stays (layer_step {approval_agent_partition_id E (first_agent ps)})
        (move_agent_to_approval E (AgentInstanceId (ps ! 0)))" if "0 < length ps"
      unfolding first [OF that] by (rule stays_move_agent_to_approval)
    then show ?thesis by (auto simp: AgentToApproval execute_forward_def intro!: stays_rules stays_param_bind)
  qed (auto simp: execute_forward_def intro!: stays_rules stays_merge_manual_to_staged stays_param_bind
      stays_merge_features_to_staged)
  show "stays (layer_step (targets E s (Rollback t' ps))) (execute_rollback E t' ps)"
  proof (cases t')
    case ApprovalToAgentRaw
    have "stays (layer_step {approval_agent_partition_id E (first_agent ps)})
        (reject_approval E (AgentInstanceId (ps ! 0)))" if "0 < length ps"
      unfolding first [OF that] by (rule stays_reject_approval)
    then show ?thesis by (auto simp: ApprovalToAgentRaw execute_rollback_def intro!: stays_rules stays_param_bind)
  qed (auto simp: execute_rollback_def intro!: stays_rules stays_rollback_staged)
qed

lemma stays_develop:
  "stays (layer_step (targets E s (DevelopFeature n a edit))) (develop_single_feature E n a edit)"
  "stays (layer_step (targets E s (DevelopTogether n aes))) (develop_feature_with_collaboration E n aes)"
  "stays (layer_step {staged_partition_id}) (merge_multiple_features E ns)"
proof -
  show "stays (layer_step (targets E s (DevelopFeature n a edit))) (develop_single_feature E n a edit)"
    unfolding develop_single_feature_def
    by (intro stays_rules stays_no_conflicts stays_reads_only
        stays_mono [OF stays_create_feature] stays_mono [OF stays_apply_agent_edit] stays_mono [OF stays_move_agent_to_approval]
        stays_mono [OF stays_merge_agent_to_feature] stays_mono [OF stays_merge_features_to_staged])
      (auto simp: agent_path_def)
  have one: "stays (layer_step (agent_path E (fst ae) n)) (collaborate E n x ae)" for x ae
    unfolding collaborate_def case_prod_beta
    by (intro stays_rules stays_no_conflicts stays_reads_only
        stays_mono [OF stays_apply_agent_edit] stays_mono [OF stays_move_agent_to_approval]
        stays_mono [OF stays_merge_agent_to_feature]) (auto simp: agent_path_def)
  have each: "stays (layer_step P) (for_each (collaborate E n x) xs)"
    if "(\<Union>ae \<in> set xs. agent_path E (fst ae) n) \<subseteq> P" for P x xs
    using that by (induction xs) (auto intro!: stays_rules stays_mono [OF one])
  show "stays (layer_step (targets E s (DevelopTogether n aes))) (develop_feature_with_collaboration E n aes)"
    unfolding develop_feature_with_collaboration_def
    by (intro stays_rules stays_no_conflicts stays_reads_only each
        stays_mono [OF stays_create_feature] stays_mono [OF stays_merge_features_to_staged]) auto
  show "stays (layer_step {staged_partition_id}) (merge_multiple_features E ns)"
    unfolding merge_multiple_features_def
    by (intro stays_rules stays_no_conflicts stays_reads_only stays_merge_features_to_staged)
qed

lemma stays_state_machine:
  "stays (layer_step {staged_partition_id, env_uuid_v7 E}) (switch_branch E n)"
  "partition_wf p \<Longrightarrow> stays (layer_step {p_id p}) (sm_get_or_create_partition E pid p)"
  "stays (layer_step {pid}) (sm_update_partition_pointer E pid i)"
  "stays (layer_step {staged_partition_id}) (reset_staged E i)"
proof -
  have "p_id (partition_new E ''staged'' PStaged base) = env_uuid_v7 E" for base
    by (simp add: partition_new_def)
  then have create: "stays (layer_step {staged_partition_id, env_uuid_v7 E})
      (create_partition E (partition_new E ''staged'' PStaged base))" for base
    using stays_mono [OF stays_create [OF partition_wf_new, of E "''staged''" PStaged base]] by simp
  show "stays (layer_step {staged_partition_id, env_uuid_v7 E}) (switch_branch E n)"
    unfolding switch_branch_def
    by (intro stays_rules stays_stores stays_list create stays_mono [OF stays_update_pointer]) auto
  show "stays (layer_step {p_id p}) (sm_get_or_create_partition E pid p)" if "partition_wf p"
    unfolding sm_get_or_create_partition_def by (intro stays_rules stays_stores stays_create that)
  show "stays (layer_step {pid}) (sm_update_partition_pointer E pid i)"
    "stays (layer_step {staged_partition_id}) (reset_staged E i)"
    unfolding sm_update_partition_pointer_def reset_staged_def by (intro stays_rules stays_update_pointer)+
qed

text \<open>A backup is merged into the partition with the name staged.\<close>

lemma read_first:
  "(\<And>x. r = Ok x \<Longrightarrow> R (snd (f x s))) \<Longrightarrow> R s \<Longrightarrow> R (snd (sbind (lift_result r) f s))"
  "(\<And>x. g s = Ok x \<Longrightarrow> R (snd (h x s))) \<Longrightarrow> R s \<Longrightarrow> R (snd (sbind (storage (query g)) h s))"
  "R s \<Longrightarrow> R (snd (fail e s))"
  "(b \<Longrightarrow> R (snd (m s))) \<Longrightarrow> (\<not> b \<Longrightarrow> R (snd (n s))) \<Longrightarrow> R (snd ((if b then m else n) s))"
  by (auto simp: sbind_def lift_result_def query_def map_err_def fail_def split: result.split prod.split
      elim!: result_map_err.elims)

lemma backup_step: "layer_step (targets E s (BackupIntoStaged bc bdb i)) s (snd (merge_to_staged E bc bdb i s))"
proof -
  have refl: "layer_step P s s" for P by (simp add: layer_step_def objects_kept_def)
  have rest: "stays (layer_step {p_id p}) (sbind (read_snapshot E (p_current p)) (\<lambda>x.
       sbind (read_deltas (s_deltas x)) (\<lambda>ds.
       sbind (storage (query (get_file_content (path_str (s_file x)) (base_hash (s_file x))))) (\<lambda>content.
       sbind (lift_result (utf8_content content)) (\<lambda>base.
       sbind (lift_result (apply_deltas base ds)) (\<lambda>txt.
       sbind (lift_result (merge_texts E bbase txt btxt)) (\<lambda>(merged, confl).
       sbind (lift_result (backup_merge_diff E b bbase btxt base ds txt merged)) (\<lambda>diff.
       write_backup_merge E b p x diff))))))))" for p b bbase btxt
    by (intro stays_rules stays_stores stays_cases stays_write_backup_merge)
  show ?thesis
    unfolding merge_to_staged_def Let_def
    by (intro read_first [where R = "layer_step (targets E s (BackupIntoStaged bc bdb i)) s"] refl)
      (use rest in \<open>simp add: stays_def\<close>)
qed

lemma stays_step: "stays (layer_step P) m \<Longrightarrow> layer_step P s (snd (m s))"
  by (simp add: stays_def)

lemma operation_step:
  assumes "operation_wf op"
  shows "layer_step (targets E s op) s (snd (run_operation E op s))"
proof (cases op)
  case (BackupIntoStaged bc bdb i)
  have "snd (unit_of m s) = snd (m s)" for m :: "snapshot_id sys"
    by (simp add: unit_of_def sbind_def ret_def split: prod.split result.split)
  then show ?thesis using backup_step [of E s bc bdb i]
    by (simp only: BackupIntoStaged run_operation.simps merge_backup_to_staged_def)
next
  case (GetOrCreatePartition pid p)
  with assms show ?thesis by (auto intro!: stays_step stays_unit_of stays_state_machine)
next
  case (Forward t ps)
  then show ?thesis
    by (simp only: run_operation.simps) (rule stays_step [OF stays_unit_of [OF stays_execute(1)]])
next
  case (Rollback t ps)
  then show ?thesis
    by (simp only: run_operation.simps) (rule stays_step [OF stays_unit_of [OF stays_execute(2)]])
next
  case (DevelopFeature n a edit)
  then show ?thesis
    by (simp only: run_operation.simps) (rule stays_step [OF stays_unit_of [OF stays_develop(1)]])
next
  case (DevelopTogether n aes)
  then show ?thesis
    by (simp only: run_operation.simps) (rule stays_step [OF stays_unit_of [OF stays_develop(2)]])
qed (simp only: run_operation.simps targets.simps;
  intro stays_step stays_unit_of stays_ensure_partitions stays_ensure_integrated stays_create_feature stays_feature_baseline
    stays_apply_manual_edit stays_apply_agent_edit stays_discard_agent_edit stays_move_agent_to_approval
    stays_reject_approval stays_reads_only stays_merge_agent_to_feature stays_merge_manual_to_staged
    stays_merge_feature_to_staged stays_merge_features_to_staged stays_validate stays_commit stays_migrate
    stays_rollback stays_rollback_staged stays_develop(3) stays_state_machine)+

section \<open>Isolation\<close>

text \<open>C1: layer operations are isolated and never destroy anything, whatever they return. Every operation of
  the layers and of their state machine (the creation of partitions, edits, submissions, approvals and
  rejections, merges into features and into staged, the merge of a backup, validation and commit, the reset of
  staged, migrations, the forward flows and the rollbacks, the two development scenarios and the merge of
  features, reads, the switch of branch and the synchronisation of the layer table) changes the pointers of
  the partitions it is for only, keeps the partition tables consistent, and keeps every stored file content,
  delta, snapshot and checkpoint. A partition that is handed over to be created has a history that ends at
  its current snapshot. (\<open>with_transaction\<close> runs a program that its caller gives; it is not one of these.)\<close>

theorem layer_operations_isolated:
  assumes "operation_wf op"
  shows "objects_kept s (snd (run_operation E op s))
     \<and> (partitions_ok s \<longrightarrow> partitions_ok (snd (run_operation E op s))
         \<and> (\<forall>q. q \<notin> targets E s op \<longrightarrow> pointer_view q (snd (run_operation E op s)) = pointer_view q s))"
  using operation_step [OF assms, of E s] by (simp add: layer_step_def)

text \<open>An agent's edit leaves the partition of the manual edits alone.\<close>

theorem layer_operations_isolated_witness:
  "partitions_ok layer_db \<and> pointer_view manual_partition_id
       (snd (run_operation sample_env (EditAgent (AgentInstanceId ''bot'') ''f'' (text_of [''b''])) layer_db))
     = pointer_view manual_partition_id layer_db"
proof -
  let ?op = "EditAgent (AgentInstanceId ''bot'') ''f'' (text_of [''b''])"
  have "manual_partition_id \<notin> targets sample_env layer_db ?op" by code_simp
  moreover have "operation_wf ?op" by simp
  ultimately show ?thesis using layer_operations_isolated [of ?op layer_db sample_env] layer_db_ok by blast
qed

end
