(* ===== verification/Graph_Search.thy ===== *)
theory Graph_Search
  imports Core_Types
begin

text \<open>
  The breadth-first loops of \<^verbatim>\<open>src/checkpoint\<close> and \<^verbatim>\<open>src/git_sync/gc.rs\<close>: a queue and a set of
  visited nodes over a finite map from a node to its neighbours. A loop has one of three shapes
  (stop at the popped node, collect the popped nodes, stop at a neighbour of the popped node). Each
  terminates, since a node with neighbours is expanded once, and is characterised by reachability.
\<close>

type_synonym graph = "(content_id, content_id list) fmap"

definition succs :: "graph \<Rightarrow> content_id \<Rightarrow> content_id list" where
  "succs g x = (case fmlookup g x of None \<Rightarrow> [] | Some ys \<Rightarrow> ys)"

definition edges :: "graph \<Rightarrow> (content_id \<times> content_id) set" where
  "edges g = {(x, y). y \<in> set (succs g x)}"

lemma succs_outside: "x |\<notin>| fmdom g \<Longrightarrow> succs g x = []"
  by (simp add: succs_def fmdom_notD)

lemma edges_iff [simp]: "(x, y) \<in> edges g \<longleftrightarrow> y \<in> set (succs g x)"
  by (simp add: edges_def)

definition pushed_nodes :: "graph \<Rightarrow> content_id list \<Rightarrow> content_id \<Rightarrow> content_id list" where
  "pushed_nodes g vis x = filter (\<lambda>y. y \<notin> set vis) (succs g x)"

lemma pushed_nodes_outside [simp]: "x |\<notin>| fmdom g \<Longrightarrow> pushed_nodes g vis x = []"
  by (simp add: pushed_nodes_def succs_outside)

lemma set_pushed_nodes: "set (pushed_nodes g vis x) = set (succs g x) - set vis"
  by (auto simp: pushed_nodes_def)

definition unseen :: "graph \<Rightarrow> content_id list \<Rightarrow> nat" where
  "unseen g vis = card (fset (fmdom g) - set vis)"

lemma unseen_expand:
  "x \<notin> set vis \<Longrightarrow> unseen g (x # vis) < unseen g vis \<or>
     unseen g (x # vis) = unseen g vis \<and> pushed_nodes g (x # vis) x = []"
proof (cases "x |\<in>| fmdom g")
  case True
  assume "x \<notin> set vis"
  with True have "fset (fmdom g) - set (x # vis) \<subset> fset (fmdom g) - set vis" by auto
  then show ?thesis by (auto simp: unseen_def intro: psubset_card_mono)
next
  case False
  then have "fset (fmdom g) - set (x # vis) = fset (fmdom g) - set vis" by auto
  with False show ?thesis by (simp add: unseen_def)
qed

section \<open>Stopping at a popped node\<close>

function search :: "graph \<Rightarrow> (content_id \<Rightarrow> bool) \<Rightarrow> content_id list \<Rightarrow> content_id list \<Rightarrow> content_id option" where
  "search g stop vis [] = None"
| "search g stop vis (x # q) =
     (if stop x then Some x
      else if x \<in> set vis then search g stop vis q
      else search g stop (x # vis) (q @ pushed_nodes g (x # vis) x))"
  by pat_completeness auto
termination
  by (relation "measures [\<lambda>(g, stop, vis, q). unseen g vis, \<lambda>(g, stop, vis, q). length q]")
    (auto dest: unseen_expand)

section \<open>Collecting the popped nodes\<close>

function explore :: "graph \<Rightarrow> content_id list \<Rightarrow> content_id list \<Rightarrow> content_id list" where
  "explore g vis [] = []"
| "explore g vis (x # q) =
     (if x \<in> set vis then explore g vis q
      else x # explore g (x # vis) (q @ pushed_nodes g (x # vis) x))"
  by pat_completeness auto
termination
  by (relation "measures [\<lambda>(g, vis, q). unseen g vis, \<lambda>(g, vis, q). length q]")
    (auto dest: unseen_expand)

text \<open>The same search with two lists, the level at hand and the next one, exchanged when the level at
  hand is used up.\<close>

function explore_levels :: "graph \<Rightarrow> content_id list \<Rightarrow> content_id list \<Rightarrow> content_id list \<Rightarrow> content_id list" where
  "explore_levels g vis [] [] = []"
| "explore_levels g vis [] (y # nxt) = explore_levels g vis (y # nxt) []"
| "explore_levels g vis (x # cur) nxt =
     (if x \<in> set vis then explore_levels g vis cur nxt
      else x # explore_levels g (x # vis) cur (nxt @ pushed_nodes g (x # vis) x))"
  by pat_completeness auto
termination
  by (relation "measures [\<lambda>(g, vis, cur, nxt). unseen g vis, \<lambda>(g, vis, cur, nxt). length cur + length nxt,
      \<lambda>(g, vis, cur, nxt). length nxt]")
    (auto dest: unseen_expand)

lemma explore_levels_eq: "explore_levels g vis cur nxt = explore g vis (cur @ nxt)"
  by (induction g vis cur nxt rule: explore_levels.induct) simp_all

section \<open>Stopping at a neighbour\<close>

function search_succ :: "graph \<Rightarrow> content_id \<Rightarrow> content_id list \<Rightarrow> content_id list \<Rightarrow> bool" where
  "search_succ g d vis [] = False"
| "search_succ g d vis (x # q) =
     (if x \<in> set vis then search_succ g d vis q
      else if d \<in> set (succs g x) then True
      else search_succ g d (x # vis) (q @ pushed_nodes g (x # vis) x))"
  by pat_completeness auto
termination
  by (relation "measures [\<lambda>(g, d, vis, q). unseen g vis, \<lambda>(g, d, vis, q). length q]")
    (auto dest: unseen_expand)

section \<open>Reachability\<close>

text \<open>The neighbours of a visited node are visited or queued.\<close>

definition frontier_ok :: "graph \<Rightarrow> content_id list \<Rightarrow> content_id list \<Rightarrow> bool" where
  "frontier_ok g vis q \<longleftrightarrow> (\<forall>v \<in> set vis. set (succs g v) \<subseteq> set vis \<union> set q)"

lemma frontier_start [simp]: "frontier_ok g [] q"
  by (simp add: frontier_ok_def)

lemma frontier_skip: "frontier_ok g vis (x # q) \<Longrightarrow> x \<in> set vis \<Longrightarrow> frontier_ok g vis q"
  by (auto simp: frontier_ok_def)

lemma frontier_expand:
  "frontier_ok g vis (x # q) \<Longrightarrow> frontier_ok g (x # vis) (q @ pushed_nodes g (x # vis) x)"
  by (auto simp: frontier_ok_def set_pushed_nodes)

definition reach :: "graph \<Rightarrow> content_id set \<Rightarrow> content_id set" where
  "reach g A = (edges g)\<^sup>* `` A"

lemma reach_incl: "A \<subseteq> reach g A"
  by (auto simp: reach_def)

lemma reach_iff: "y \<in> reach g A \<longleftrightarrow> (\<exists>x \<in> A. (x, y) \<in> (edges g)\<^sup>*)"
  by (auto simp: reach_def)

lemma reach_closed:
  assumes "\<And>v. v \<in> A \<Longrightarrow> set (succs g v) \<subseteq> A"
  shows "reach g A = A"
proof -
  have "y \<in> A" if "(x, y) \<in> (edges g)\<^sup>*" and "x \<in> A" for x y
    using that by (induction rule: rtrancl_induct) (use assms in auto)
  then show ?thesis using reach_incl by (auto simp: reach_iff)
qed

lemma reach_expand:
  "reach g (insert x (A \<union> set (succs g x))) = reach g (insert x A)"
proof -
  have "(x, z) \<in> (edges g)\<^sup>*" if "y \<in> set (succs g x)" and "(y, z) \<in> (edges g)\<^sup>*" for y z
    using that by (meson converse_rtrancl_into_rtrancl edges_iff)
  then show ?thesis by (auto simp: reach_iff)
qed

text \<open>The nodes visited and queued before and after an expansion reach the same nodes.\<close>

lemma reach_step:
  "reach g (set (x # vis) \<union> set (q @ pushed_nodes g (x # vis) x)) = reach g (set vis \<union> set (x # q))"
proof -
  have "set (x # vis) \<union> set (q @ pushed_nodes g (x # vis) x)
      = insert x ((set vis \<union> set q) \<union> set (succs g x))"
    by (auto simp: set_pushed_nodes)
  then show ?thesis by (simp only: reach_expand) simp
qed

lemma search_Some:
  "search g stop vis q = Some y \<Longrightarrow> stop y \<and> y \<in> reach g (set q)"
proof (induction g stop vis q rule: search.induct)
  case (2 g stop vis x q)
  show ?case
  proof (cases "stop x")
    case True
    with "2.prems" show ?thesis using reach_incl by fastforce
  next
    case stop: False
    show ?thesis
    proof (cases "x \<in> set vis")
      case True
      with stop 2 show ?thesis by (auto simp: reach_iff)
    next
      case False
      with stop 2 have y: "stop y" "y \<in> reach g (set (q @ pushed_nodes g (x # vis) x))" by simp_all
      from y(2) have "y \<in> reach g (insert x (set q \<union> set (succs g x)))"
        by (auto simp: reach_iff set_pushed_nodes)
      then have "y \<in> reach g (insert x (set q))" by (simp only: reach_expand)
      with y(1) show ?thesis by simp
    qed
  qed
qed simp

lemma search_None:
  assumes "search g stop vis q = None" and "frontier_ok g vis q" and "\<forall>v \<in> set vis. \<not> stop v"
  shows "\<forall>y \<in> reach g (set vis \<union> set q). \<not> stop y"
  using assms
proof (induction g stop vis q rule: search.induct)
  case (1 g stop vis)
  then show ?case using reach_closed [of "set vis" g] by (simp add: frontier_ok_def)
next
  case (2 g stop vis x q)
  then have stop: "\<not> stop x" by (auto split: if_splits)
  show ?case
  proof (cases "x \<in> set vis")
    case True
    have "set vis \<union> set (x # q) = set vis \<union> set q" using True by auto
    moreover have "search g stop vis q = None" using "2.prems"(1) stop True by simp
    ultimately show ?thesis
      using "2.IH"(1) [OF stop True] frontier_skip [OF "2.prems"(2) True] "2.prems"(3) by simp
  next
    case False
    have "search g stop (x # vis) (q @ pushed_nodes g (x # vis) x) = None"
      using "2.prems"(1) stop False by simp
    moreover have "\<forall>v \<in> set (x # vis). \<not> stop v" using "2.prems"(3) stop by simp
    ultimately have "\<forall>y \<in> reach g (set (x # vis) \<union> set (q @ pushed_nodes g (x # vis) x)). \<not> stop y"
      using "2.IH"(2) [OF stop False] frontier_expand [OF "2.prems"(2)] by blast
    then show ?thesis by (simp only: reach_step)
  qed
qed

lemma search_iff: "(\<exists>y. search g stop [] q = Some y) \<longleftrightarrow> (\<exists>y \<in> reach g (set q). stop y)"
proof
  assume "\<exists>y. search g stop [] q = Some y"
  then show "\<exists>y \<in> reach g (set q). stop y" using search_Some by blast
next
  assume "\<exists>y \<in> reach g (set q). stop y"
  then show "\<exists>y. search g stop [] q = Some y"
    using search_None [of g stop "[]" q] by (cases "search g stop [] q") auto
qed

lemma explore_visited: "set (explore g vis q) \<inter> set vis = {} \<and> distinct (explore g vis q)"
  by (induction g vis q rule: explore.induct) auto

lemma set_explore:
  assumes "frontier_ok g vis q"
  shows "set vis \<union> set (explore g vis q) = reach g (set vis \<union> set q)"
  using assms
proof (induction g vis q rule: explore.induct)
  case (1 g vis)
  then show ?case using reach_closed [of "set vis" g] by (simp add: frontier_ok_def)
next
  case (2 g vis x q)
  show ?case
  proof (cases "x \<in> set vis")
    case True
    then have "set vis \<union> set (x # q) = set vis \<union> set q" by auto
    with 2 True show ?thesis by (auto dest: frontier_skip)
  next
    case False
    with 2 have "set (x # vis) \<union> set (explore g (x # vis) (q @ pushed_nodes g (x # vis) x))
        = reach g (set (x # vis) \<union> set (q @ pushed_nodes g (x # vis) x))"
      by (auto dest: frontier_expand)
    with False show ?thesis by (simp only: reach_step) auto
  qed
qed

lemma explore_iff: "set (explore g [] q) = reach g (set q) \<and> distinct (explore g [] q)"
  using set_explore [of g "[]" q] explore_visited [of g "[]" q] by simp

definition reach_plus :: "graph \<Rightarrow> content_id set \<Rightarrow> content_id set" where
  "reach_plus g A = (edges g)\<^sup>+ `` A"

lemma reach_plus_reach: "d \<in> reach_plus g A \<longleftrightarrow> (\<exists>x \<in> reach g A. d \<in> set (succs g x))"
proof
  assume "d \<in> reach_plus g A"
  then obtain x where x: "x \<in> A" "(x, d) \<in> (edges g)\<^sup>+" by (auto simp: reach_plus_def)
  from tranclD2 [OF x(2)] obtain y where "(x, y) \<in> (edges g)\<^sup>*" "(y, d) \<in> edges g" by blast
  with x(1) show "\<exists>x \<in> reach g A. d \<in> set (succs g x)" by (meson edges_iff reach_iff)
next
  assume "\<exists>x \<in> reach g A. d \<in> set (succs g x)"
  then obtain x y where "x \<in> A" "(x, y) \<in> (edges g)\<^sup>*" "(y, d) \<in> edges g" by (auto simp: reach_iff)
  then have "(x, d) \<in> (edges g)\<^sup>+" by (blast intro: rtrancl_into_trancl1)
  with \<open>x \<in> A\<close> show "d \<in> reach_plus g A" by (auto simp: reach_plus_def)
qed

lemma reach_mono: "A \<subseteq> B \<Longrightarrow> reach g A \<subseteq> reach g B"
  by (auto simp: reach_def)

lemma search_succ_True: "search_succ g d vis q \<Longrightarrow> d \<in> reach_plus g (set q)"
proof (induction g d vis q rule: search_succ.induct)
  case (2 g d vis x q)
  show ?case
  proof (cases "x \<in> set vis")
    case True
    with 2 have "d \<in> reach_plus g (set q)" by simp
    then show ?thesis by (auto simp: reach_plus_def)
  next
    case vis: False
    show ?thesis
    proof (cases "d \<in> set (succs g x)")
      case True
      then show ?thesis using reach_incl [of "set (x # q)" g] by (auto simp: reach_plus_reach)
    next
      case False
      with vis 2 have "d \<in> reach_plus g (set (q @ pushed_nodes g (x # vis) x))" by simp
      moreover have "set (q @ pushed_nodes g (x # vis) x) \<subseteq> insert x (set q \<union> set (succs g x))"
        by (auto simp: set_pushed_nodes)
      ultimately have "\<exists>y \<in> reach g (insert x (set q \<union> set (succs g x))). d \<in> set (succs g y)"
        unfolding reach_plus_reach using reach_mono by blast
      then show ?thesis by (simp add: reach_expand reach_plus_reach)
    qed
  qed
qed simp

lemma search_succ_False:
  assumes "\<not> search_succ g d vis q" and "frontier_ok g vis q" and "\<forall>v \<in> set vis. d \<notin> set (succs g v)"
  shows "d \<notin> reach_plus g (set vis \<union> set q)"
  using assms
proof (induction g d vis q rule: search_succ.induct)
  case (1 g d vis)
  then show ?case using reach_closed [of "set vis" g] by (simp add: frontier_ok_def reach_plus_reach)
next
  case (2 g d vis x q)
  show ?case
  proof (cases "x \<in> set vis")
    case True
    have "set vis \<union> set (x # q) = set vis \<union> set q" using True by auto
    moreover have "\<not> search_succ g d vis q" using "2.prems"(1) True by simp
    ultimately show ?thesis
      using "2.IH"(1) [OF True] frontier_skip [OF "2.prems"(2) True] "2.prems"(3) by simp
  next
    case False
    then have d: "d \<notin> set (succs g x)"
      and "\<not> search_succ g d (x # vis) (q @ pushed_nodes g (x # vis) x)"
      using "2.prems"(1) by (auto split: if_splits)
    moreover have "\<forall>v \<in> set (x # vis). d \<notin> set (succs g v)" using "2.prems"(3) d by simp
    ultimately have "d \<notin> reach_plus g (set (x # vis) \<union> set (q @ pushed_nodes g (x # vis) x))"
      using "2.IH"(2) [OF False d] frontier_expand [OF "2.prems"(2)] by blast
    then show ?thesis by (simp only: reach_plus_reach reach_step) simp
  qed
qed

lemma search_succ_iff: "search_succ g d [] q \<longleftrightarrow> d \<in> reach_plus g (set q)"
  using search_succ_True search_succ_False [of g d "[]" q] by auto

text \<open>What is out of reach does not matter.\<close>

lemma explore_cong:
  assumes "\<And>x. x \<in> reach g (set q) \<Longrightarrow> succs g' x = succs g x"
    and "\<And>x. x \<in> reach g (set q) \<Longrightarrow> x \<in> set vis' \<longleftrightarrow> x \<in> set vis"
  shows "explore g' vis' q = explore g vis q"
  using assms
proof (induction g vis q arbitrary: vis' rule: explore.induct)
  case (2 g vis x q)
  have sub: "reach g (set q) \<subseteq> reach g (set (x # q))" by (intro reach_mono) auto
  have x: "succs g' x = succs g x" "x \<in> set vis' \<longleftrightarrow> x \<in> set vis"
    using "2.prems"(1) [of x] "2.prems"(2) [of x] reach_incl [of "set (x # q)" g] by auto
  show ?case
  proof (cases "x \<in> set vis")
    case True
    with "2.IH"(1) [OF True, of vis'] "2.prems" sub x show ?thesis by (simp add: subset_iff)
  next
    case False
    have succs: "set (succs g x) \<subseteq> reach g (set (x # q))"
      using r_into_rtrancl [of "(x, _)" "edges g"] by (auto simp: reach_iff)
    then have "pushed_nodes g' (x # vis') x = pushed_nodes g (x # vis) x"
      unfolding pushed_nodes_def x using "2.prems"(2) by (intro filter_cong) auto
    moreover have "reach g (set (q @ pushed_nodes g (x # vis) x)) \<subseteq> reach g (set (x # q))"
    proof -
      have "set (q @ pushed_nodes g (x # vis) x) \<subseteq> insert x (set q \<union> set (succs g x))"
        by (auto simp: set_pushed_nodes)
      from reach_mono [OF this, of g] show ?thesis by (simp add: reach_expand)
    qed
    ultimately show ?thesis
      using "2.IH"(2) [OF False, of "x # vis'"] "2.prems" False x by (simp add: subset_iff)
  qed
qed simp

section \<open>The search finds a nearest node\<close>

text \<open>While the nodes at distance \<open>n\<close> are popped, the queue holds what is left of them (\<open>A\<close>), then nodes
  at distance \<open>n + 1\<close> (\<open>B\<close>).\<close>

definition levels :: "graph \<Rightarrow> (content_id \<Rightarrow> bool) \<Rightarrow> content_id \<Rightarrow> nat \<Rightarrow> content_id list \<Rightarrow> content_id list \<Rightarrow>
    content_id list \<Rightarrow> bool" where
  "levels g stop x n vis A B \<longleftrightarrow>
     set A \<subseteq> (edges g ^^ n) `` {x} \<and> set B \<subseteq> (edges g ^^ Suc n) `` {x}
     \<and> (\<forall>m < n. (edges g ^^ m) `` {x} \<subseteq> set vis) \<and> (edges g ^^ n) `` {x} \<subseteq> set vis \<union> set A
     \<and> frontier_ok g vis (A @ B) \<and> (\<forall>v \<in> set vis. \<not> stop v)"

lemma levels_start: "levels g stop x 0 [] [x] []"
  by (simp add: levels_def)

lemma levels_next:
  assumes "levels g stop x n vis [] B"
  shows "levels g stop x (Suc n) vis B []"
proof -
  have "(edges g ^^ m) `` {x} \<subseteq> set vis" if "m < Suc n" for m
    using assms that by (cases "m = n") (auto simp: levels_def)
  moreover have "y \<in> set vis \<union> set B" if "(x, y) \<in> edges g ^^ Suc n" for y
  proof -
    from that obtain z where "(x, z) \<in> edges g ^^ n" "y \<in> set (succs g z)" by auto
    with assms show ?thesis by (auto simp: levels_def frontier_ok_def)
  qed
  ultimately show ?thesis using assms by (auto simp: levels_def)
qed

lemma levels_skip:
  "levels g stop x n vis (y # A) B \<Longrightarrow> y \<in> set vis \<Longrightarrow> levels g stop x n vis A B"
  by (auto simp: levels_def dest: frontier_skip)

lemma levels_expand:
  assumes "levels g stop x n vis (y # A) B" and "\<not> stop y"
  shows "levels g stop x n (y # vis) A (B @ pushed_nodes g (y # vis) y)"
proof -
  have "(x, y) \<in> edges g ^^ n" using assms(1) by (simp add: levels_def)
  then have "set (pushed_nodes g (y # vis) y) \<subseteq> (edges g ^^ Suc n) `` {x}"
    by (auto simp: set_pushed_nodes)
  moreover have "frontier_ok g (y # vis) (A @ B @ pushed_nodes g (y # vis) y)"
    using assms(1) frontier_expand [of g vis y "A @ B"] by (simp add: levels_def)
  ultimately show ?thesis using assms by (auto simp: levels_def)
qed

lemma search_levels:
  assumes "search g stop vis q = Some y" and "q = A @ B" and "levels g stop x n vis A B"
  shows "\<exists>k. (x, y) \<in> edges g ^^ k \<and> (\<forall>m < k. \<forall>z. (x, z) \<in> edges g ^^ m \<longrightarrow> \<not> stop z)"
  using assms
proof (induction g stop vis q arbitrary: A B n rule: search.induct)
  case (2 g stop vis z q)
  obtain k A' B' where q: "q = A' @ B'" and lv: "levels g stop x k vis (z # A') B'"
  proof (cases A)
    case Nil
    with "2.prems" that [of q "[]" "Suc n"] levels_next show thesis by simp
  next
    case (Cons a A')
    with "2.prems" that [of A' B n] show thesis by simp
  qed
  show ?case
  proof (cases "stop z")
    case True
    with "2.prems"(1) have "z = y" by simp
    with lv have "(x, y) \<in> edges g ^^ k" and seen: "\<forall>m < k. (edges g ^^ m) `` {x} \<subseteq> set vis"
      and no: "\<forall>v \<in> set vis. \<not> stop v"
      by (simp_all add: levels_def)
    moreover have "\<forall>m < k. \<forall>w. (x, w) \<in> edges g ^^ m \<longrightarrow> \<not> stop w" using seen no by blast
    ultimately show ?thesis by blast
  next
    case stop: False
    show ?thesis
    proof (cases "z \<in> set vis")
      case True
      have "search g stop vis q = Some y" using "2.prems"(1) stop True by simp
      from "2.IH"(1) [OF stop True this q levels_skip [OF lv True]] show ?thesis .
    next
      case False
      have "search g stop (z # vis) (q @ pushed_nodes g (z # vis) z) = Some y"
        using "2.prems"(1) stop False by simp
      from "2.IH"(2) [OF stop False this _ levels_expand [OF lv stop]] q show ?thesis by simp
    qed
  qed
qed simp

lemma search_nearest:
  assumes "search g stop [] [x] = Some y"
  obtains k where "(x, y) \<in> edges g ^^ k" and "\<And>m z. m < k \<Longrightarrow> (x, z) \<in> edges g ^^ m \<Longrightarrow> \<not> stop z"
  using search_levels [OF assms _ levels_start] by auto

text \<open>The loops are unfolded only where they are evaluated.\<close>

declare search.simps(2) [simp del] explore.simps(2) [simp del] search_succ.simps(2) [simp del]

end
