(* ===== verification/Checkpoint_Dag.thy ===== *)
theory Checkpoint_Dag
  imports Graph_Search Store_Objects
begin

text \<open>
  \<^verbatim>\<open>src/checkpoint/dag.rs\<close>: the graph of the checkpoints, kept as a map from a checkpoint to its
  children and a map from a checkpoint to its generation. The generation is meant to grow along
  every edge, and the reachability queries use it to stop early. The parents of a checkpoint are
  not in the graph: the queries that go upwards take them as an argument, here the map of the
  parents, which is what the repository passes. A hash set is a list without repetitions, and the
  order of the keys of a hash map is that of the identifiers. A generation is a \<open>nat\<close>: a \<open>u64\<close> does
  not wrap before 2 to the 64 nodes.
\<close>

section \<open>The graph\<close>

record dag =
  dag_nodes :: dag_nodes
  dag_gens :: dag_generations

definition dag_new :: dag where
  "dag_new = \<lparr>dag_nodes = fmempty, dag_gens = fmempty\<rparr>"

text \<open>\<open>entry(k).or_insert(v)\<close>\<close>

definition entry_or_insert :: "checkpoint_id \<Rightarrow> nat \<Rightarrow> dag_generations \<Rightarrow> dag_generations" where
  "entry_or_insert k v m = (case fmlookup m k of None \<Rightarrow> fmupd k v m | Some w \<Rightarrow> m)"

definition gen_or_zero :: "dag_generations \<Rightarrow> checkpoint_id \<Rightarrow> nat" where
  "gen_or_zero m k = (case fmlookup m k of None \<Rightarrow> 0 | Some n \<Rightarrow> n)"

definition dag_add_node :: "checkpoint_id \<Rightarrow> dag \<Rightarrow> dag" where
  "dag_add_node i G =
     \<lparr>dag_nodes = entry_or_default i (dag_nodes G), dag_gens = entry_or_insert i 0 (dag_gens G)\<rparr>"

definition dag_add_edge_unchecked :: "checkpoint_id \<Rightarrow> checkpoint_id \<Rightarrow> dag \<Rightarrow> dag" where
  "dag_add_edge_unchecked parent child G =
     (let nodes = entry_insert parent child
            (entry_or_default child (entry_or_default parent (dag_nodes G)));
          gens = entry_or_insert parent 0 (dag_gens G);
          parent_gen = gen_or_zero gens parent;
          gens = entry_or_insert child 0 gens
      in \<lparr>dag_nodes = nodes,
          dag_gens = fmupd child (max (gen_or_zero gens child) (parent_gen + 1)) gens\<rparr>)"

definition would_create_cycle :: "checkpoint_id \<Rightarrow> checkpoint_id \<Rightarrow> dag \<Rightarrow> bool" where
  "would_create_cycle parent child G =
     (if parent = child then True
      else if gen_or_zero (dag_gens G) child \<ge> gen_or_zero (dag_gens G) parent then False
      else search (dag_nodes G) (\<lambda>x. x = parent) [] [child] \<noteq> None)"

definition dag_add_edge :: "checkpoint_id \<Rightarrow> checkpoint_id \<Rightarrow> dag \<Rightarrow> bool \<times> dag" where
  "dag_add_edge parent child G =
     (if would_create_cycle parent child G then (False, G)
      else (True, dag_add_edge_unchecked parent child G))"

definition has_node :: "checkpoint_id \<Rightarrow> dag \<Rightarrow> bool" where
  "has_node i G \<longleftrightarrow> fmlookup (dag_nodes G) i \<noteq> None"

definition set_generation :: "checkpoint_id \<Rightarrow> nat \<Rightarrow> dag \<Rightarrow> dag" where
  "set_generation i n G = G\<lparr>dag_gens := fmupd i n (dag_gens G)\<rparr>"

definition get_children :: "checkpoint_id \<Rightarrow> dag \<Rightarrow> checkpoint_id list" where
  "get_children i G = (case fmlookup (dag_nodes G) i of None \<Rightarrow> [] | Some cs \<Rightarrow> cs)"

definition dag_generation :: "checkpoint_id \<Rightarrow> dag \<Rightarrow> nat option" where
  "dag_generation i G = fmlookup (dag_gens G) i"

definition all_nodes :: "dag \<Rightarrow> checkpoint_id list" where
  "all_nodes G = map fst (sorted_list_of_fmap (dag_nodes G))"

definition remove_node :: "checkpoint_id \<Rightarrow> dag \<Rightarrow> dag" where
  "remove_node i G =
     \<lparr>dag_nodes = fmmap (removeAll i) (fmdrop i (dag_nodes G)), dag_gens = fmdrop i (dag_gens G)\<rparr>"

definition dag_len :: "dag \<Rightarrow> nat" where
  "dag_len G = length (all_nodes G)"

definition dag_is_empty :: "dag \<Rightarrow> bool" where
  "dag_is_empty G \<longleftrightarrow> dag_len G = 0"

section \<open>Queries\<close>

definition ancestors :: "graph \<Rightarrow> checkpoint_id \<Rightarrow> checkpoint_id list" where
  "ancestors parents i = filter (\<lambda>x. x \<noteq> i) (explore parents [] [i])"

definition is_ancestor :: "checkpoint_id \<Rightarrow> checkpoint_id \<Rightarrow> dag \<Rightarrow> bool" where
  "is_ancestor anc desc G =
     (if anc = desc then True
      else if (case (fmlookup (dag_gens G) anc, fmlookup (dag_gens G) desc) of
                 (Some ag, Some dg) \<Rightarrow> ag \<ge> dg | _ \<Rightarrow> False) then False
      else search_succ (dag_nodes G) desc [] [anc])"

definition merge_base :: "graph \<Rightarrow> checkpoint_id \<Rightarrow> checkpoint_id \<Rightarrow> checkpoint_id option" where
  "merge_base parents id1 id2 =
     (let ancestors1 = ancestors parents id1 @ [id1]
      in search parents (\<lambda>x. x \<in> set ancestors1) [] [id2])"

section \<open>Graphs whose generations grow along every edge\<close>

abbreviation dag_edges :: "dag \<Rightarrow> (checkpoint_id \<times> checkpoint_id) set" where
  "dag_edges G \<equiv> edges (dag_nodes G)"

definition dag_ok :: "dag \<Rightarrow> bool" where
  "dag_ok G \<longleftrightarrow> fmdom (dag_nodes G) = fmdom (dag_gens G)
     \<and> (\<forall>x. \<forall>y \<in> set (succs (dag_nodes G) x). y |\<in>| fmdom (dag_nodes G)
          \<and> gen_or_zero (dag_gens G) x < gen_or_zero (dag_gens G) y)
     \<and> (\<forall>x. distinct (succs (dag_nodes G) x))"

lemma gen_or_zero_fmupd [simp]:
  "gen_or_zero (fmupd k v m) x = (if x = k then v else gen_or_zero m x)"
  by (simp add: gen_or_zero_def)

lemma gen_entry_or_insert [simp]: "gen_or_zero (entry_or_insert k 0 m) = gen_or_zero m"
  by (auto simp: entry_or_insert_def gen_or_zero_def fun_eq_iff split: option.splits)

lemma dom_entry_or_insert [simp]: "fmdom (entry_or_insert k v m) = finsert k (fmdom m)"
  by (auto simp: entry_or_insert_def fmdomI split: option.splits)

lemma dom_entry_or_default [simp]: "fmdom (entry_or_default k m) = finsert k (fmdom m)"
  by (auto simp: entry_or_default_def fmdomI split: option.splits)

lemma dom_entry_insert [simp]: "fmdom (entry_insert p c m) = finsert p (fmdom m)"
  by (auto simp: entry_insert_def split: option.splits)

lemma succs_entry_or_default [simp]: "succs (entry_or_default k m) = succs m"
  by (auto simp: entry_or_default_def succs_def fun_eq_iff split: option.splits)

lemma succs_entry_insert [simp]:
  "succs (entry_insert p c m) x = (if x = p then set_insert c (succs m p) else succs m x)"
  by (auto simp: entry_insert_def succs_def set_insert_def split: option.splits)

lemma succs_empty [simp]: "succs fmempty x = []"
  by (simp add: succs_def)

lemma set_set_insert [simp]: "set (set_insert x xs) = insert x (set xs)"
  by (auto simp: set_insert_def)

lemma distinct_set_insert [simp]: "distinct (set_insert x xs) = distinct xs"
  by (simp add: set_insert_def)

lemma gen_step: "dag_ok G \<Longrightarrow> (x, y) \<in> dag_edges G \<Longrightarrow> gen_or_zero (dag_gens G) x < gen_or_zero (dag_gens G) y"
  by (simp add: dag_ok_def)

lemma gen_path:
  assumes "dag_ok G" and "(x, y) \<in> (dag_edges G)\<^sup>+"
  shows "gen_or_zero (dag_gens G) x < gen_or_zero (dag_gens G) y \<and> y |\<in>| fmdom (dag_nodes G)"
  using assms(2)
  by (induction rule: trancl_induct) (use assms(1) gen_step in \<open>auto simp: dag_ok_def intro: less_trans\<close>)

lemma dag_ok_acyclic: "dag_ok G \<Longrightarrow> acyclic (dag_edges G)"
  using gen_path by (fastforce simp: acyclic_def)

lemma search_node: "(\<exists>z. search g (\<lambda>x. x = y) [] [x] = Some z) \<longleftrightarrow> (x, y) \<in> (edges g)\<^sup>*"
  using search_iff [of g "\<lambda>x. x = y" "[x]"] by (auto simp: reach_iff)

lemma would_create_cycle_iff:
  assumes "dag_ok G"
  shows "would_create_cycle p c G \<longleftrightarrow> (c, p) \<in> (dag_edges G)\<^sup>*"
proof (cases "p = c")
  case False
  have "(c, p) \<notin> (dag_edges G)\<^sup>*" if "gen_or_zero (dag_gens G) c \<ge> gen_or_zero (dag_gens G) p"
    using gen_path [OF assms, of c p] that False by (auto simp: rtrancl_eq_or_trancl)
  with False show ?thesis by (auto simp: would_create_cycle_def search_node)
qed (simp add: would_create_cycle_def)

lemma dag_ok_new: "dag_ok dag_new"
  by (simp add: dag_ok_def dag_new_def succs_def)

lemma dag_ok_add_node: "dag_ok G \<Longrightarrow> dag_ok (dag_add_node i G)"
  by (auto simp: dag_ok_def dag_add_node_def)

lemma edges_add_node [simp]: "dag_edges (dag_add_node i G) = dag_edges G"
  by (auto simp: dag_add_node_def edges_def)

lemma edges_add_edge [simp]: "dag_edges (dag_add_edge_unchecked p c G) = insert (p, c) (dag_edges G)"
  by (auto simp: dag_add_edge_unchecked_def Let_def edges_def split: if_splits)

lemma succs_remove_node:
  "succs (dag_nodes (remove_node i G)) x = (if x = i then [] else removeAll i (succs (dag_nodes G) x))"
  by (cases "fmlookup (dag_nodes G) x") (simp_all add: succs_def remove_node_def)

lemma gen_remove_node:
  "gen_or_zero (dag_gens (remove_node i G)) x = (if x = i then 0 else gen_or_zero (dag_gens G) x)"
  by (auto simp: gen_or_zero_def remove_node_def)

lemma dag_ok_remove_node:
  assumes "dag_ok G"
  shows "dag_ok (remove_node i G)"
proof -
  have "fmdom (dag_nodes (remove_node i G)) = fmdom (dag_nodes G) |-| {|i|}"
    "fmdom (dag_gens (remove_node i G)) = fmdom (dag_gens G) |-| {|i|}"
    by (auto simp: remove_node_def)
  with assms show ?thesis
    by (auto simp: dag_ok_def succs_remove_node gen_remove_node distinct_removeAll split: if_splits)
qed

text \<open>An edge to a node without children, as a new checkpoint is.\<close>

lemma dag_ok_add_edge:
  assumes "dag_ok G" and "succs (dag_nodes G) c = []" and "p \<noteq> c"
  shows "dag_ok (dag_add_edge_unchecked p c G)"
proof -
  have "x \<noteq> c" if "y \<in> set (succs (dag_nodes G) x)" for x y
    using that assms(2) by auto
  with assms show ?thesis
    unfolding dag_ok_def dag_add_edge_unchecked_def Let_def by (auto simp: less_max_iff_disj split: if_splits)
qed

lemma is_ancestor_iff:
  assumes "dag_ok G"
  shows "is_ancestor a d G \<longleftrightarrow> (a, d) \<in> (dag_edges G)\<^sup>*"
proof (cases "a = d")
  case False
  have "(a, d) \<notin> (dag_edges G)\<^sup>+" if "fmlookup (dag_gens G) a = Some m" "fmlookup (dag_gens G) d = Some n" "m \<ge> n"
    for m n
    using gen_path [OF assms, of a d] that by (auto simp: gen_or_zero_def)
  with False show ?thesis
    by (auto simp: is_ancestor_def search_succ_iff reach_plus_def rtrancl_eq_or_trancl split: option.splits)
qed (simp add: is_ancestor_def)

section \<open>Properties\<close>

text \<open>C26: under growing generations the graph never gets a cycle, and the reachability query is
  exact. The empty graph is well formed; adding a node, deleting a node and adding an edge to a node
  without children keep it so; the check before an edge refuses exactly the edges that would close
  a cycle; and an ancestor query is true exactly when the descendant can be reached.\<close>

theorem dag_queries_exact:
  assumes "dag_ok G"
  shows "acyclic (dag_edges G)
     \<and> dag_ok dag_new \<and> dag_ok (dag_add_node i G) \<and> dag_ok (remove_node i G)
     \<and> fst (dag_add_edge p c G) = ((c, p) \<notin> (dag_edges G)\<^sup>*)
     \<and> (fst (dag_add_edge p c G) \<longrightarrow> succs (dag_nodes G) c = [] \<longrightarrow>
         dag_ok (snd (dag_add_edge p c G)) \<and> dag_edges (snd (dag_add_edge p c G)) = insert (p, c) (dag_edges G))
     \<and> (is_ancestor a d G \<longleftrightarrow> (a, d) \<in> (dag_edges G)\<^sup>*)"
proof -
  note anc = is_ancestor_iff [OF assms, of a d]
  have edge: "fst (dag_add_edge p c G) = ((c, p) \<notin> (dag_edges G)\<^sup>*)"
    by (simp add: dag_add_edge_def would_create_cycle_iff [OF assms])
  have "dag_ok (snd (dag_add_edge p c G)) \<and> dag_edges (snd (dag_add_edge p c G)) = insert (p, c) (dag_edges G)"
    if "fst (dag_add_edge p c G)" "succs (dag_nodes G) c = []"
  proof -
    from that(1) edge have "p \<noteq> c" by auto
    with that dag_ok_add_edge [OF assms that(2)] show ?thesis
      by (simp add: dag_add_edge_def split: if_splits)
  qed
  with anc edge show ?thesis
    using dag_ok_acyclic dag_ok_new dag_ok_add_node dag_ok_remove_node assms by blast
qed

definition sample_dag :: dag where
  "sample_dag =
     dag_add_edge_unchecked (ContentId ''b'') (ContentId ''c'')
       (dag_add_edge_unchecked (ContentId ''a'') (ContentId ''b'') dag_new)"

lemma sample_dag_ok: "dag_ok sample_dag"
  unfolding sample_dag_def
  by (intro dag_ok_add_edge dag_ok_new) (simp_all add: dag_add_edge_unchecked_def dag_new_def Let_def)

theorem dag_queries_exact_witness:
  "is_ancestor (ContentId ''a'') (ContentId ''c'') sample_dag \<and> \<not> fst (dag_add_edge (ContentId ''c'') (ContentId ''a'') sample_dag)
   \<and> (ContentId ''a'', ContentId ''c'') \<in> (dag_edges sample_dag)\<^sup>*"
proof -
  have 1: "is_ancestor (ContentId ''a'') (ContentId ''c'') sample_dag" by code_simp
  then have 2: "(ContentId ''a'', ContentId ''c'') \<in> (dag_edges sample_dag)\<^sup>*"
    using dag_queries_exact [OF sample_dag_ok] by blast
  with 1 show ?thesis using dag_queries_exact [OF sample_dag_ok] by blast
qed

text \<open>Generations are not propagated, so an edge to a node that has children already can break
  the graph. After \<open>a \<rightarrow> b\<close> and \<open>c \<rightarrow> a\<close> the generations of \<open>a\<close> and \<open>b\<close> are equal: \<open>a\<close> is no longer
  reported as an ancestor of its own child, and the checked insertion accepts \<open>b \<rightarrow> a\<close>, which
  closes a cycle.\<close>

lemma late_parent_breaks_dag:
  "\<exists>G1 G2 G3. dag_add_edge (ContentId ''a'') (ContentId ''b'') dag_new = (True, G1)
     \<and> dag_add_edge (ContentId ''c'') (ContentId ''a'') G1 = (True, G2)
     \<and> dag_add_edge (ContentId ''b'') (ContentId ''a'') G2 = (True, G3)
     \<and> get_children (ContentId ''a'') G2 = [ContentId ''b'']
     \<and> \<not> is_ancestor (ContentId ''a'') (ContentId ''b'') G2
     \<and> get_children (ContentId ''a'') G3 = [ContentId ''b'']
     \<and> get_children (ContentId ''b'') G3 = [ContentId ''a'']"
proof -
  let ?a = "ContentId ''a''" and ?b = "ContentId ''b''" and ?c = "ContentId ''c''"
  let ?G1 = "\<lparr>dag_nodes = fmap_of_list [(?a, [?b]), (?b, [])], dag_gens = fmap_of_list [(?a, 0), (?b, 1)]\<rparr>"
  let ?G2 = "\<lparr>dag_nodes = fmap_of_list [(?a, [?b]), (?b, []), (?c, [?a])],
    dag_gens = fmap_of_list [(?a, 1), (?b, 1), (?c, 0)]\<rparr>"
  have 1: "dag_add_edge ?a ?b dag_new = (True, ?G1)" by code_simp
  have 2: "dag_add_edge ?c ?a ?G1 = (True, ?G2)" by code_simp
  let ?G3 = "\<lparr>dag_nodes = fmap_of_list [(?a, [?b]), (?b, [?a]), (?c, [?a])],
    dag_gens = fmap_of_list [(?a, 2), (?b, 1), (?c, 0)]\<rparr>"
  have 3: "dag_add_edge ?b ?a ?G2 = (True, ?G3)" by code_simp
  have 4: "get_children ?a ?G2 = [?b]" "\<not> is_ancestor ?a ?b ?G2" by code_simp+
  have 5: "get_children ?a ?G3 = [?b]" "get_children ?b ?G3 = [?a]" by code_simp+
  show ?thesis using 1 2 3 4 5 by (intro exI conjI)
qed

lemma ancestors_reach:
  "set (ancestors P i) = {x. (i, x) \<in> (edges P)\<^sup>* \<and> x \<noteq> i}" "distinct (ancestors P i)"
proof -
  have "set (explore P [] [i]) = {x. (i, x) \<in> (edges P)\<^sup>*}" "distinct (explore P [] [i])"
    using explore_iff [of P "[i]"] by (simp_all add: reach_def Image_def)
  then show "set (ancestors P i) = {x. (i, x) \<in> (edges P)\<^sup>* \<and> x \<noteq> i}" "distinct (ancestors P i)"
    by (simp_all add: ancestors_def)
qed

lemma merge_base_search: "merge_base P i j = search P (\<lambda>x. (i, x) \<in> (edges P)\<^sup>*) [] [j]"
proof -
  have "(\<lambda>x. x \<in> set (ancestors P i @ [i])) = (\<lambda>x. (i, x) \<in> (edges P)\<^sup>*)"
    by (rule ext) (simp add: ancestors_reach(1), blast)
  then show ?thesis by (simp only: merge_base_def Let_def)
qed

lemma merge_base_Some:
  assumes "merge_base P i j = Some b"
  shows "(i, b) \<in> (edges P)\<^sup>*"
    and "\<exists>k. (j, b) \<in> edges P ^^ k \<and> (\<forall>m < k. \<forall>z. (j, z) \<in> edges P ^^ m \<longrightarrow> (i, z) \<notin> (edges P)\<^sup>*)"
proof -
  note found = assms [unfolded merge_base_search]
  show "(i, b) \<in> (edges P)\<^sup>*" using search_Some [OF found] by simp
  from search_nearest [OF found] obtain k where "(j, b) \<in> edges P ^^ k"
    and "\<And>m z. m < k \<Longrightarrow> (j, z) \<in> edges P ^^ m \<Longrightarrow> (i, z) \<notin> (edges P)\<^sup>*" by metis
  then show "\<exists>k. (j, b) \<in> edges P ^^ k \<and> (\<forall>m < k. \<forall>z. (j, z) \<in> edges P ^^ m \<longrightarrow> (i, z) \<notin> (edges P)\<^sup>*)"
    by blast
qed

text \<open>The upward queries terminate on any parent map, cyclic ones included, and are exact. The
  ancestors of a checkpoint are the other nodes that can be reached, each once; a merge base is found
  exactly when there is a common ancestor, it is one (a checkpoint counts as its own ancestor), and
  no common ancestor is nearer to the second checkpoint.\<close>

lemma merge_base_nearest:
  "set (ancestors P i) = {x. (i, x) \<in> (edges P)\<^sup>* \<and> x \<noteq> i} \<and> distinct (ancestors P i)
   \<and> ((\<exists>b. merge_base P i j = Some b) \<longleftrightarrow> (\<exists>b. (i, b) \<in> (edges P)\<^sup>* \<and> (j, b) \<in> (edges P)\<^sup>*))
   \<and> (merge_base P i j = Some b \<longrightarrow>
       (i, b) \<in> (edges P)\<^sup>* \<and>
       (\<exists>k. (j, b) \<in> edges P ^^ k \<and> (\<forall>m < k. \<forall>z. (j, z) \<in> edges P ^^ m \<longrightarrow> (i, z) \<notin> (edges P)\<^sup>*)))"
proof -
  have "(\<exists>b. merge_base P i j = Some b) \<longleftrightarrow> (\<exists>b. (i, b) \<in> (edges P)\<^sup>* \<and> (j, b) \<in> (edges P)\<^sup>*)"
    unfolding merge_base_search search_iff by (auto simp: reach_iff)
  then show ?thesis using ancestors_reach merge_base_Some by simp
qed

definition sample_parents :: graph where
  "sample_parents = fmap_of_list
     [(ContentId ''c'', [ContentId ''a'']), (ContentId ''d'', [ContentId ''a'']), (ContentId ''e'', [ContentId ''c'', ContentId ''d''])]"

lemma merge_base_nearest_witness:
  "merge_base sample_parents (ContentId ''c'') (ContentId ''d'') = Some (ContentId ''a'')
   \<and> (ContentId ''c'', ContentId ''a'') \<in> (edges sample_parents)\<^sup>*"
proof -
  have "merge_base sample_parents (ContentId ''c'') (ContentId ''d'') = Some (ContentId ''a'')" by code_simp
  then show ?thesis
    using merge_base_nearest [of sample_parents "ContentId ''c''" "ContentId ''d''" "ContentId ''a''"] by blast
qed

end
