(* ===== verification/Checkpoint_Time_Index.thy ===== *)
theory Checkpoint_Time_Index
  imports Checkpoint_Types "HOL-Library.Multiset"
begin

text \<open>
  \<^verbatim>\<open>src/checkpoint/time_index.rs\<close>: the checkpoints by creation time. The \<open>BTreeMap\<close> from a time
  to its checkpoints is an association list with growing times. A time is an \<open>int\<close>: the
  differences of two \<open>i64\<close> times that \<open>find_nearest\<close> takes fit an \<open>i64\<close> for times of any real clock.
\<close>

type_synonym time_index = "(int \<times> checkpoint_id list) list"

definition ti_new :: time_index where
  "ti_new = []"

text \<open>\<open>entry(t).or_default().push(id)\<close>\<close>

fun ti_push :: "int \<Rightarrow> checkpoint_id \<Rightarrow> time_index \<Rightarrow> time_index" where
  "ti_push t i [] = [(t, [i])]"
| "ti_push t i ((k, is) # r) =
     (if t < k then (t, [i]) # (k, is) # r
      else if t = k then (k, is @ [i]) # r
      else (k, is) # ti_push t i r)"

definition ti_insert :: "checkpoint \<Rightarrow> time_index \<Rightarrow> time_index" where
  "ti_insert cp ti = ti_push (cp_created_at cp) (cp_id cp) ti"

text \<open>\<open>retain\<close>, then the removal of an entry that has become empty.\<close>

fun ti_retain :: "int \<Rightarrow> checkpoint_id \<Rightarrow> time_index \<Rightarrow> time_index" where
  "ti_retain t i [] = []"
| "ti_retain t i ((k, is) # r) =
     (if t = k then (let is' = filter (\<lambda>j. j \<noteq> i) is in if is' = [] then r else (k, is') # r)
      else (k, is) # ti_retain t i r)"

definition ti_remove :: "checkpoint \<Rightarrow> time_index \<Rightarrow> time_index" where
  "ti_remove cp ti = ti_retain (cp_created_at cp) (cp_id cp) ti"

text \<open>\<open>flat_map(|(time, ids)| ids.iter().map(|id| (time, id)))\<close>\<close>

definition ti_flat :: "time_index \<Rightarrow> (int \<times> checkpoint_id) list" where
  "ti_flat ti = concat (map (\<lambda>(t, is). map (Pair t) is) ti)"

text \<open>\<open>BTreeMap::range\<close> panics when the start lies after the end.\<close>

definition ti_query_range :: "int \<Rightarrow> int \<Rightarrow> time_index \<Rightarrow> ((int \<times> checkpoint_id) list, lt_error) result" where
  "ti_query_range from_t to_t ti =
     (if to_t < from_t then Panic
      else Ok (ti_flat (filter (\<lambda>(t, is). from_t \<le> t \<and> t \<le> to_t) ti)))"

definition ti_before :: "int \<Rightarrow> time_index \<Rightarrow> (int \<times> checkpoint_id) list" where
  "ti_before ts ti = ti_flat (filter (\<lambda>(t, is). t < ts) ti)"

definition ti_after :: "int \<Rightarrow> time_index \<Rightarrow> (int \<times> checkpoint_id) list" where
  "ti_after ts ti = ti_flat (filter (\<lambda>(t, is). ts \<le> t) ti)"

definition first_id :: "int \<times> checkpoint_id list \<Rightarrow> (int \<times> checkpoint_id) option" where
  "first_id e = map_option (Pair (fst e)) (list_first (snd e))"

definition ti_find_nearest :: "int \<Rightarrow> time_index \<Rightarrow> (int \<times> checkpoint_id) option" where
  "ti_find_nearest target ti =
     (case (list_last (filter (\<lambda>(t, is). t < target) ti), list_first (filter (\<lambda>(t, is). target \<le> t) ti)) of
        (Some e1, Some e2) \<Rightarrow> if \<bar>target - fst e1\<bar> \<le> \<bar>fst e2 - target\<bar> then first_id e1 else first_id e2
      | (Some e, None) \<Rightarrow> first_id e
      | (None, Some e) \<Rightarrow> first_id e
      | (None, None) \<Rightarrow> None)"

definition ti_len :: "time_index \<Rightarrow> nat" where
  "ti_len ti = sum_list (map (\<lambda>(t, is). length is) ti)"

definition ti_is_empty :: "time_index \<Rightarrow> bool" where
  "ti_is_empty ti \<longleftrightarrow> ti = []"

definition ti_from_checkpoints :: "checkpoint list \<Rightarrow> time_index" where
  "ti_from_checkpoints cps = fold ti_insert cps ti_new"

definition ti_earliest :: "time_index \<Rightarrow> int option" where
  "ti_earliest ti = map_option fst (list_first ti)"

definition ti_latest :: "time_index \<Rightarrow> int option" where
  "ti_latest ti = map_option fst (list_last ti)"

section \<open>The index is ordered and has no empty entry\<close>

definition ti_ok :: "time_index \<Rightarrow> bool" where
  "ti_ok ti \<longleftrightarrow> sorted_wrt (<) (map fst ti) \<and> (\<forall>e \<in> set ti. snd e \<noteq> [])"

lemma ti_ok_Nil [simp]: "ti_ok []"
  by (simp add: ti_ok_def)

lemma ti_ok_Cons [simp]:
  "ti_ok ((k, is) # r) \<longleftrightarrow> is \<noteq> [] \<and> (\<forall>e \<in> set r. k < fst e) \<and> ti_ok r"
  by (auto simp: ti_ok_def)

lemma fst_ti_push: "e \<in> set (ti_push t i ti) \<Longrightarrow> fst e = t \<or> fst e \<in> fst ` set ti"
  by (induction t i ti rule: ti_push.induct) (auto split: if_splits)

lemma fst_ti_retain: "e \<in> set (ti_retain t i ti) \<Longrightarrow> fst e \<in> fst ` set ti"
  by (induction t i ti rule: ti_retain.induct) (auto simp: Let_def split: if_splits)

lemma ti_ok_push: "ti_ok ti \<Longrightarrow> ti_ok (ti_push t i ti)"
  by (induction t i ti rule: ti_push.induct) (auto dest!: fst_ti_push)

lemma ti_ok_retain: "ti_ok ti \<Longrightarrow> ti_ok (ti_retain t i ti)"
  by (induction t i ti rule: ti_retain.induct) (auto simp: Let_def dest!: fst_ti_retain)

lemma ti_flat_Nil [simp]: "ti_flat [] = []"
  by (simp add: ti_flat_def)

lemma ti_flat_Cons [simp]: "ti_flat ((k, is) # r) = map (Pair k) is @ ti_flat r"
  by (simp add: ti_flat_def)

lemma mset_ti_push: "mset (ti_flat (ti_push t i ti)) = add_mset (t, i) (mset (ti_flat ti))"
  by (induction t i ti rule: ti_push.induct) auto

lemma ti_flat_fst: "x \<in> set (ti_flat ti) \<Longrightarrow> fst x \<in> fst ` set ti"
  by (force simp: ti_flat_def)

lemma mset_ti_retain:
  "ti_ok ti \<Longrightarrow> mset (ti_flat (ti_retain t i ti)) = filter_mset (\<lambda>e. e \<noteq> (t, i)) (mset (ti_flat ti))"
proof (induction t i ti rule: ti_retain.induct)
  case (2 t i k "is" r)
  have pairs: "filter_mset (\<lambda>e. e \<noteq> (t, i)) (mset (map (Pair k) is))
      = mset (map (Pair k) (if t = k then filter (\<lambda>j. j \<noteq> i) is else is))"
    by (induction "is") auto
  show ?case
  proof (cases "t = k")
    case True
    have "(t, i) \<notin> set (ti_flat r)" using True "2.prems" ti_flat_fst by fastforce
    then have "filter_mset (\<lambda>e. e \<noteq> (t, i)) (mset (ti_flat r)) = mset (ti_flat r)"
      by (auto intro!: filter_mset_cong [where g = "\<lambda>_. True", simplified])
    moreover have "ti_flat (ti_retain t i ((k, is) # r)) = map (Pair k) (filter (\<lambda>j. j \<noteq> i) is) @ ti_flat r"
      using True by (cases "filter (\<lambda>j. j \<noteq> i) is") (simp_all add: Let_def)
    ultimately show ?thesis using pairs True by (simp del: ti_retain.simps)
  next
    case False
    with 2 pairs show ?thesis by simp
  qed
qed simp

lemma ti_flat_filter: "ti_flat (filter (\<lambda>(t, is). P t) ti) = filter (\<lambda>e. P (fst e)) (ti_flat ti)"
proof (induction ti)
  case (Cons e ti)
  obtain k "is" where "e = (k, is)" by (cases e)
  with Cons show ?case by (induction "is") auto
qed simp

lemma ti_flat_sorted: "ti_ok ti \<Longrightarrow> sorted (map fst (ti_flat ti))"
proof (induction ti)
  case (Cons e ti)
  obtain k "is" where e: "e = (k, is)" by (cases e)
  with Cons show ?case
    by (force simp: sorted_append o_def sorted_map sorted_wrt_true dest: ti_flat_fst intro: sorted_replicate)
qed simp

lemma set_ti_flat: "(t, i) \<in> set (ti_flat ti) \<longleftrightarrow> (\<exists>is. (t, is) \<in> set ti \<and> i \<in> set is)"
  by (auto simp: ti_flat_def)

lemma ti_from_checkpoints_contents:
  "ti_ok (ti_from_checkpoints cps)
   \<and> mset (ti_flat (ti_from_checkpoints cps)) = mset (map (\<lambda>c. (cp_created_at c, cp_id c)) cps)"
proof -
  have "ti_ok (fold ti_insert cps t)
     \<and> mset (ti_flat (fold ti_insert cps t)) = mset (map (\<lambda>c. (cp_created_at c, cp_id c)) cps) + mset (ti_flat t)"
    if "ti_ok t" for t
    using that by (induction cps arbitrary: t) (simp_all add: ti_insert_def ti_ok_push mset_ti_push)
  from this [of "[]"] show ?thesis
    by (simp add: ti_from_checkpoints_def ti_new_def)
qed

text \<open>The time index answers for exactly the checkpoints put into it. Insertion adds one entry and
  removal deletes the entries of the checkpoint, both keep the index ordered, a range query returns
  in order of time the entries between its bounds (and panics when they are swapped), and building
  the index from checkpoints gives one entry per checkpoint.\<close>

lemma time_index_contents:
  assumes "ti_ok ti"
  shows "ti_ok (ti_insert cp ti) \<and> mset (ti_flat (ti_insert cp ti)) = add_mset (cp_created_at cp, cp_id cp) (mset (ti_flat ti))
     \<and> ti_ok (ti_remove cp ti)
     \<and> mset (ti_flat (ti_remove cp ti)) = filter_mset (\<lambda>e. e \<noteq> (cp_created_at cp, cp_id cp)) (mset (ti_flat ti))
     \<and> ti_query_range a b ti =
         (if b < a then Panic else Ok (filter (\<lambda>e. a \<le> fst e \<and> fst e \<le> b) (ti_flat ti)))
     \<and> sorted (map fst (ti_flat ti)) \<and> ti_len ti = length (ti_flat ti)
     \<and> ti_ok (ti_from_checkpoints cps)
     \<and> mset (ti_flat (ti_from_checkpoints cps)) = mset (map (\<lambda>c. (cp_created_at c, cp_id c)) cps)"
proof -
  note built = ti_from_checkpoints_contents [of cps]
  have "ti_len ti = length (ti_flat ti)"
    by (induction ti) (auto simp: ti_len_def)
  with built show ?thesis
    using assms
    by (simp add: ti_insert_def ti_remove_def ti_ok_push mset_ti_push ti_ok_retain mset_ti_retain
        ti_query_range_def ti_flat_filter [where P = "\<lambda>t. a \<le> t \<and> t \<le> b"] ti_flat_sorted)
qed

definition timed_checkpoint :: "string \<Rightarrow> int \<Rightarrow> checkpoint" where
  "timed_checkpoint n t =
     \<lparr>cp_id = ContentId n, cp_parents = [], cp_snapshots = [], cp_metadata = metadata_new ''x'' ''y'',
      cp_created_at = t, cp_sources = fmempty\<rparr>"

definition sample_index :: time_index where
  "sample_index = ti_from_checkpoints [timed_checkpoint ''a'' 5, timed_checkpoint ''b'' 1, timed_checkpoint ''c'' 5]"

lemma sample_index_eq: "sample_index = [(1, [ContentId ''b'']), (5, [ContentId ''a'', ContentId ''c''])]"
  by code_simp

lemma time_index_contents_witness:
  "ti_query_range 2 9 sample_index = Ok [(5, ContentId ''a''), (5, ContentId ''c'')]
   \<and> ti_query_range 9 2 sample_index = Panic"
proof -
  have "ti_ok sample_index" by (simp add: sample_index_eq)
  from time_index_contents [OF this, of "timed_checkpoint ''d'' 3" 2 9] time_index_contents [OF this, of "timed_checkpoint ''d'' 3" 9 2]
  show ?thesis by (simp add: sample_index_eq)
qed

section \<open>The nearest entry\<close>

lemma first_id_Some: "snd e \<noteq> [] \<Longrightarrow> \<exists>i. first_id e = Some (fst e, i) \<and> i \<in> set (snd e)"
  by (cases "snd e") (auto simp: first_id_def)

lemma ti_split:
  assumes "ti_ok ti"
  obtains l r where "ti = l @ r" and "filter (\<lambda>(t, is). t < x) ti = l" and "filter (\<lambda>(t, is). x \<le> t) ti = r"
    and "ti_ok l" and "ti_ok r"
proof -
  have "ti = filter (\<lambda>(t, is). t < x) ti @ filter (\<lambda>(t, is). x \<le> t) ti
      \<and> ti_ok (filter (\<lambda>(t, is). t < x) ti) \<and> ti_ok (filter (\<lambda>(t, is). x \<le> t) ti)"
    using assms
  proof (induction ti)
    case (Cons e ti)
    obtain k "is" where e: "e = (k, is)" by (cases e)
    show ?case
    proof (cases "k < x")
      case True
      with Cons e show ?thesis by auto
    next
      case False
      with Cons.prems e have "\<forall>d \<in> set ti. \<not> fst d < x" by auto
      then have "filter (\<lambda>(t, is). t < x) ti = []" by (auto simp: filter_empty_conv)
      with Cons e False show ?thesis by auto
    qed
  qed simp
  with that show thesis by blast
qed

lemma ti_ok_last: "ti_ok (l @ [e]) \<Longrightarrow> d \<in> set (l @ [e]) \<Longrightarrow> fst d \<le> fst e"
  by (induction l) auto

definition nearer :: "int \<Rightarrow> int \<Rightarrow> int \<Rightarrow> bool" where
  "nearer x t u \<longleftrightarrow> \<bar>t - x\<bar> < \<bar>u - x\<bar> \<or> \<bar>t - x\<bar> = \<bar>u - x\<bar> \<and> t \<le> u"

lemma nearer_trans: "nearer x t u \<Longrightarrow> nearer x u v \<Longrightarrow> nearer x t v"
  unfolding nearer_def by linarith

lemma nearest_entry:
  assumes "ti_ok ti" and "ti \<noteq> []"
  shows "\<exists>e \<in> set ti. ti_find_nearest x ti = first_id e \<and> (\<forall>d \<in> set ti. nearer x (fst e) (fst d))"
proof -
  obtain l r where s: "ti = l @ r" "filter (\<lambda>(t, is). t < x) ti = l" "filter (\<lambda>(t, is). x \<le> t) ti = r"
    "ti_ok l" "ti_ok r" by (rule ti_split [OF assms(1)])
  have l: "fst d < x" if "d \<in> set l" for d using that unfolding s(2) [symmetric] by auto
  have r: "x \<le> fst d" if "d \<in> set r" for d using that unfolding s(3) [symmetric] by auto
  have from_l: "nearer x (fst e) (fst d)" if "l = l' @ [e]" "d \<in> set l" for l' e d
    using ti_ok_last [of l' e d] s(4) l [of e] l [of d] that by (auto simp: nearer_def)
  have from_r: "nearer x (fst e) (fst d)" if "r = e # r'" "d \<in> set r" for r' e d
  proof -
    have "fst e \<le> fst d" using that s(5) by (cases e) (auto intro: less_imp_le)
    with r [of e] r [of d] that show ?thesis by (auto simp: nearer_def)
  qed
  have find: "ti_find_nearest x ti = (case (list_last l, list_first r) of
        (Some e1, Some e2) \<Rightarrow> if \<bar>x - fst e1\<bar> \<le> \<bar>fst e2 - x\<bar> then first_id e1 else first_id e2
      | (Some e, None) \<Rightarrow> first_id e
      | (None, Some e) \<Rightarrow> first_id e
      | (None, None) \<Rightarrow> None)"
    by (simp only: ti_find_nearest_def s(2,3))
  show ?thesis
  proof (cases l rule: rev_cases)
    case Nil
    then obtain e r' where re: "r = e # r'" using assms(2) s(1) by (cases r) auto
    then have "ti_find_nearest x ti = first_id e" using Nil by (simp add: find)
    with Nil re from_r [OF re] s(1) show ?thesis by auto
  next
    case (snoc l' e1)
    show ?thesis
    proof (cases r)
      case Nil
      then have "ti_find_nearest x ti = first_id e1" using snoc by (simp add: find)
      with Nil snoc from_l [OF snoc] s(1) show ?thesis by auto
    next
      case (Cons e2 r')
      have e1: "fst e1 < x" and e2: "x \<le> fst e2" using l r snoc Cons by auto
      show ?thesis
      proof (cases "\<bar>x - fst e1\<bar> \<le> \<bar>fst e2 - x\<bar>")
        case True
        then have "nearer x (fst e1) (fst e2)" using e1 e2 unfolding nearer_def by linarith
        then have "nearer x (fst e1) (fst d)" if "d \<in> set ti" for d
          using that s(1) from_l [OF snoc, of d] from_r [OF Cons, of d] by (auto intro: nearer_trans)
        moreover have "ti_find_nearest x ti = first_id e1" using True snoc Cons by (simp add: find)
        ultimately show ?thesis using s(1) snoc by auto
      next
        case False
        then have "nearer x (fst e2) (fst e1)" using e1 e2 unfolding nearer_def by linarith
        then have "nearer x (fst e2) (fst d)" if "d \<in> set ti" for d
          using that s(1) from_l [OF snoc, of d] from_r [OF Cons, of d] by (auto intro: nearer_trans)
        moreover have "ti_find_nearest x ti = first_id e2" using False snoc Cons by (simp add: find)
        ultimately show ?thesis using s(1) Cons by auto
      qed
    qed
  qed
qed

text \<open>The nearest lookup finds a checkpoint exactly when the index has one. What it finds is in the
  index, no entry is nearer to the target time, and of two entries at the same distance it takes the
  earlier one.\<close>

lemma find_nearest_spec:
  assumes "ti_ok ti"
  shows "(ti_find_nearest x ti = None \<longleftrightarrow> ti = [])
     \<and> (ti_find_nearest x ti = Some (t, i) \<longrightarrow> (t, i) \<in> set (ti_flat ti)
         \<and> (\<forall>(u, j) \<in> set (ti_flat ti). \<bar>t - x\<bar> < \<bar>u - x\<bar> \<or> \<bar>t - x\<bar> = \<bar>u - x\<bar> \<and> t \<le> u))"
proof (cases "ti = []")
  case False
  from nearest_entry [OF assms this, of x] obtain e where e: "e \<in> set ti"
    "ti_find_nearest x ti = first_id e" "\<forall>d \<in> set ti. nearer x (fst e) (fst d)" by blast
  have "snd e \<noteq> []" using assms e(1) by (auto simp: ti_ok_def)
  from first_id_Some [OF this] obtain j where j: "first_id e = Some (fst e, j)" "j \<in> set (snd e)" by blast
  have "(fst e, j) \<in> set (ti_flat ti)" using e(1) j(2) by (auto simp: set_ti_flat intro!: exI [of _ "snd e"])
  moreover have "nearer x (fst e) u" if "(u, k) \<in> set (ti_flat ti)" for u k
    using that e(3) by (auto simp: set_ti_flat)
  ultimately show ?thesis using False e(2) j(1) by (auto simp: nearer_def)
qed (simp add: ti_find_nearest_def)

lemma find_nearest_spec_witness:
  "ti_find_nearest 3 sample_index = Some (1, ContentId ''b'') \<and> \<bar>1 - 3\<bar> \<le> \<bar>5 - 3 :: int\<bar>"
proof -
  have "ti_ok sample_index" by (simp add: sample_index_eq)
  moreover have found: "ti_find_nearest 3 sample_index = Some (1, ContentId ''b'')" by code_simp
  moreover have "(5, ContentId ''a'') \<in> set (ti_flat sample_index)" by (simp add: sample_index_eq)
  ultimately have "\<bar>1 - 3\<bar> < \<bar>5 - 3 :: int\<bar> \<or> \<bar>1 - 3\<bar> = \<bar>5 - 3 :: int\<bar> \<and> (1 :: int) \<le> 5"
    using find_nearest_spec [of sample_index 3 1 "ContentId ''b''"] by blast
  with found show ?thesis by auto
qed

end
