(* ===== verification/Checkpoint_Repo.thy ===== *)
theory Checkpoint_Repo
  imports Checkpoint_Dag Checkpoint_Time_Index Layer_Base
begin

text \<open>
  \<^verbatim>\<open>src/checkpoint/repo.rs\<close>: the repository of checkpoints. It keeps branches, the checkpoints,
  their graph and their time index in memory, and, when a storage is attached, writes through to
  it. Here the attached storage is the database itself, a component of the repository, so that a
  program on the repository shows its effect on both. An operation that fails keeps the changes
  it has made so far. The order of a hash map is that of the identifiers.
\<close>

section \<open>State\<close>

record repo =
  r_branches :: "branch list"
  r_current :: nat
  r_dag :: dag
  r_checkpoints :: "(checkpoint_id, checkpoint) fmap"
  r_snapshots :: "(snapshot_id, snapshot) fmap"
  r_storage :: "db option"
  r_time_index :: time_index
  r_deleted_checkpoints :: "checkpoint_id list"
  r_deleted_branches :: "string list"
  r_dirty :: "checkpoint_id list"

type_synonym 'a repo_prog = "(repo, 'a, lt_error) prog"

definition fmap_values :: "('k::linorder, 'v) fmap \<Rightarrow> 'v list" where
  "fmap_values m = map snd (sorted_list_of_fmap m)"

definition fmap_keys :: "('k::linorder, 'v) fmap \<Rightarrow> 'k list" where
  "fmap_keys m = map fst (sorted_list_of_fmap m)"

text \<open>\<open>if let Some(storage) = &self.storage \{ ... \}\<close>\<close>

definition on_storage :: "unit db_prog \<Rightarrow> unit repo_prog" where
  "on_storage m = (\<lambda>r. case r_storage r of
     None \<Rightarrow> (Ok (), r)
   | Some s \<Rightarrow> (case m s of (res, s') \<Rightarrow> (result_map_err Storage res, r\<lparr>r_storage := Some s'\<rparr>)))"

text \<open>\<open>let _ = ...\<close>: a failure is ignored.\<close>

definition ignore_errors :: "unit db_prog \<Rightarrow> unit db_prog" where
  "ignore_errors m = match_err m ret (ret ())"

subsection \<open>The lazy map of checkpoints\<close>

record lazy_map =
  lm_loaded :: "(checkpoint_id, checkpoint) fmap"
  lm_storage :: "db option"

definition lazy_new :: "db option \<Rightarrow> lazy_map" where
  "lazy_new st = \<lparr>lm_loaded = fmempty, lm_storage = st\<rparr>"

definition lazy_with_loaded :: "(checkpoint_id, checkpoint) fmap \<Rightarrow> db option \<Rightarrow> lazy_map" where
  "lazy_with_loaded loaded st = \<lparr>lm_loaded = loaded, lm_storage = st\<rparr>"

definition not_found_checkpoint :: "checkpoint_id \<Rightarrow> lt_error" where
  "not_found_checkpoint i = NotFound (''checkpoint '' @ to_hex i @ '' not found'')"

definition lazy_insert :: "checkpoint_id \<Rightarrow> checkpoint \<Rightarrow> lazy_map \<Rightarrow> lazy_map" where
  "lazy_insert i cp m = m\<lparr>lm_loaded := fmupd i cp (lm_loaded m)\<rparr>"

definition lazy_get :: "env \<Rightarrow> checkpoint_id \<Rightarrow> (lazy_map, checkpoint, lt_error) prog" where
  "lazy_get E i = (\<lambda>m. case fmlookup (lm_loaded m) i of
     Some cp \<Rightarrow> (Ok cp, m)
   | None \<Rightarrow> (case lm_storage m of
         Some s \<Rightarrow> (case get_checkpoint E i s of
             Ok cp \<Rightarrow> (Ok cp, lazy_insert i cp m)
           | Err e \<Rightarrow> (Err (Storage e), m)
           | Panic \<Rightarrow> (Panic, m))
       | None \<Rightarrow> (Err (not_found_checkpoint i), m)))"

definition lazy_contains_key :: "checkpoint_id \<Rightarrow> lazy_map \<Rightarrow> bool" where
  "lazy_contains_key i m \<longleftrightarrow> fmlookup (lm_loaded m) i \<noteq> None"

definition lazy_keys :: "lazy_map \<Rightarrow> checkpoint_id list" where
  "lazy_keys m = fmap_keys (lm_loaded m)"

definition lazy_into_loaded :: "lazy_map \<Rightarrow> (checkpoint_id, checkpoint) fmap" where
  "lazy_into_loaded m = lm_loaded m"

section \<open>Construction\<close>

definition create_root_checkpoint :: "env \<Rightarrow> snapshot_id list \<Rightarrow> checkpoint_id \<times> checkpoint \<times> branch" where
  "create_root_checkpoint E snaps =
     (let root = checkpoint_new E snaps [] (metadata_new ''system'' ''root checkpoint'')
      in (cp_id root, root, branch_new E ''main'' (cp_id root)))"

definition repo_new :: "env \<Rightarrow> snapshot_id list \<Rightarrow> repo" where
  "repo_new E snaps =
     (case create_root_checkpoint E snaps of (root_id, root, main) \<Rightarrow>
        \<lparr>r_branches = [main], r_current = 0, r_dag = dag_add_node root_id dag_new,
         r_checkpoints = fmupd root_id root fmempty, r_snapshots = fmempty, r_storage = None,
         r_time_index = ti_insert root ti_new, r_deleted_checkpoints = [], r_deleted_branches = [],
         r_dirty = []\<rparr>)"

definition repo_new_single :: "env \<Rightarrow> snapshot_id \<Rightarrow> repo" where
  "repo_new_single E snap = repo_new E [snap]"

text \<open>\<open>build_dag_from_checkpoints\<close>, for the checkpoints in the order the map yields them.\<close>

definition add_checkpoint_edges :: "checkpoint \<Rightarrow> dag \<Rightarrow> dag" where
  "add_checkpoint_edges cp G =
     fold (\<lambda>p. dag_add_edge_unchecked p (cp_id cp)) (cp_parents cp) (dag_add_node (cp_id cp) G)"

definition build_dag :: "checkpoint list \<Rightarrow> dag" where
  "build_dag cps = fold add_checkpoint_edges cps dag_new"

text \<open>The graph read back from the DAG tables.\<close>

definition restore_dag :: "dag_nodes \<Rightarrow> dag_generations \<Rightarrow> dag" where
  "restore_dag nodes gens =
     (let G = fold (\<lambda>(n, children) G. fold (\<lambda>c. dag_add_edge_unchecked n c) children (dag_add_node n G))
                (sorted_list_of_fmap nodes) dag_new
      in fold (\<lambda>(n, g) G. if has_node n G then set_generation n g G else G) (sorted_list_of_fmap gens) G)"

definition collect_checkpoints :: "checkpoint list \<Rightarrow> (checkpoint_id, checkpoint) fmap" where
  "collect_checkpoints cps = fold (\<lambda>cp. fmupd (cp_id cp) cp) cps fmempty"

definition load_snapshots :: "env \<Rightarrow> checkpoint list \<Rightarrow> db \<Rightarrow> (snapshot_id, snapshot) fmap" where
  "load_snapshots E cps s =
     fold (\<lambda>i m. case get_snapshot E i s of Ok x \<Rightarrow> fmupd i x m | _ \<Rightarrow> m)
       (remdups (concat (map cp_snapshots cps))) fmempty"

text \<open>The first part of \<open>load\<close>: a root checkpoint and a main branch when there is no checkpoint.\<close>

definition load_or_init :: "env \<Rightarrow> ((checkpoint_id, checkpoint) fmap \<times> branch list) sys" where
  "load_or_init E =
     sbind (storage (query (list_checkpoints E))) (\<lambda>cps.
     sbind (storage (query list_branches)) (\<lambda>bs.
     if collect_checkpoints cps = fmempty then
       (case create_root_checkpoint E [] of (root_id, root, main) \<Rightarrow>
          sbind (storage (store_checkpoint E root)) (\<lambda>_.
          sbind (storage (store_branch main)) (\<lambda>_.
          sbind (storage (store_metadata E ''current_branch'' ''main'')) (\<lambda>_.
          ret (fmupd root_id root fmempty, bs @ [main])))))
     else ret (collect_checkpoints cps, bs)))"

definition load_graph :: "(checkpoint_id, checkpoint) fmap \<Rightarrow> branch list \<Rightarrow> db \<Rightarrow> (dag, storage_error) result" where
  "load_graph cps bs s =
     (let head = (case bs of [] \<Rightarrow> zero_id | b # _ \<Rightarrow> br_head b)
      in if result_ok (dag_has_node head s) = Some True
         then and_then (load_dag s) (\<lambda>(nodes, gens). Ok (restore_dag nodes gens))
         else Ok (build_dag (fmap_values cps)))"

definition repo_load :: "env \<Rightarrow> db \<Rightarrow> (repo, lt_error) result \<times> db" where
  "repo_load E =
     sbind (load_or_init E) (\<lambda>(cps, bs).
     sbind (storage (query (load_graph cps bs))) (\<lambda>G.
     sbind (storage (query (load_metadata ''current_branch''))) (\<lambda>name.
     query (\<lambda>s. Ok
       \<lparr>r_branches = bs,
        r_current = (case position (\<lambda>b. br_name b = (case name of None \<Rightarrow> ''main'' | Some n \<Rightarrow> n)) bs of
            None \<Rightarrow> 0 | Some i \<Rightarrow> i),
        r_dag = G, r_checkpoints = cps, r_snapshots = load_snapshots E (fmap_values cps) s,
        r_storage = Some s, r_time_index = ti_from_checkpoints (fmap_values cps),
        r_deleted_checkpoints = [], r_deleted_branches = [], r_dirty = []\<rparr>))))"

definition attach_storage :: "db \<Rightarrow> repo \<Rightarrow> repo" where
  "attach_storage s r = r\<lparr>r_dirty := fmap_keys (r_checkpoints r), r_storage := Some s\<rparr>"

definition rebuild_dag :: "env \<Rightarrow> unit repo_prog" where
  "rebuild_dag E =
     sbind (\<lambda>r. case r_storage r of
         None \<Rightarrow> (Ok (), r)
       | Some s \<Rightarrow> (case list_checkpoints E s of
             Ok cps \<Rightarrow> (Ok (), r\<lparr>r_checkpoints := collect_checkpoints cps\<rparr>)
           | Err e \<Rightarrow> (Err (Storage e), r)
           | Panic \<Rightarrow> (Panic, r))) (\<lambda>_.
     update (\<lambda>r. r\<lparr>r_dag := build_dag (fmap_values (r_checkpoints r)),
       r_time_index := ti_from_checkpoints (fmap_values (r_checkpoints r))\<rparr>))"

section \<open>Branches in use\<close>

text \<open>Indexing \<open>self.branches[self.current_branch]\<close> panics out of range.\<close>

definition current_branch :: "branch repo_prog" where
  "current_branch = query (\<lambda>r.
     if r_current r < length (r_branches r) then Ok (r_branches r ! r_current r) else Panic)"

definition current_branch_head :: "checkpoint_id repo_prog" where
  "current_branch_head = sbind current_branch (\<lambda>b. ret (br_head b))"

definition current_branch_name :: "string repo_prog" where
  "current_branch_name = sbind current_branch (\<lambda>b. ret (br_name b))"

definition set_current_head :: "env \<Rightarrow> checkpoint_id \<Rightarrow> unit repo_prog" where
  "set_current_head E i =
     sbind current_branch (\<lambda>b.
     update (\<lambda>r. r\<lparr>r_branches := (r_branches r)[r_current r := set_head E b i]\<rparr>))"

definition repo_get_checkpoint :: "checkpoint_id \<Rightarrow> repo \<Rightarrow> (checkpoint, lt_error) result" where
  "repo_get_checkpoint i r = ok_or (fmlookup (r_checkpoints r) i) (not_found_checkpoint i)"

section \<open>Synchronisation\<close>

definition sync_checkpoint :: "env \<Rightarrow> checkpoint_id \<Rightarrow> unit repo_prog" where
  "sync_checkpoint E i = (\<lambda>r. case fmlookup (r_checkpoints r) i of
     None \<Rightarrow> (Ok (), r)
   | Some cp \<Rightarrow> on_storage (store_checkpoint E cp) r)"

definition store_parent_edges :: "checkpoint \<Rightarrow> dag \<Rightarrow> unit db_prog" where
  "store_parent_edges cp G =
     for_each (\<lambda>p. case dag_generation (cp_id cp) G of
         Some g \<Rightarrow> store_dag_edge p (cp_id cp) g
       | None \<Rightarrow> ret ()) (cp_parents cp)"

definition sync_dirty :: "env \<Rightarrow> repo \<Rightarrow> checkpoint_id \<Rightarrow> unit db_prog" where
  "sync_dirty E r i = (case fmlookup (r_checkpoints r) i of
     Some cp \<Rightarrow> sbind (store_checkpoint E cp) (\<lambda>_. store_parent_edges cp (r_dag r))
   | None \<Rightarrow> ret ())"

text \<open>\<open>sync_all\<close> under an attached storage. The sets are those at the start, \<open>r0\<close>: a set that is
  drained is empty afterwards even when the loop over it fails.\<close>

definition sync_storage :: "env \<Rightarrow> repo \<Rightarrow> unit repo_prog" where
  "sync_storage E r0 =
     sbind (update (\<lambda>r. r\<lparr>r_dirty := []\<rparr>)) (\<lambda>_.
     sbind (on_storage (for_each (sync_dirty E r0) (r_dirty r0))) (\<lambda>_.
     sbind (update (\<lambda>r. r\<lparr>r_deleted_checkpoints := []\<rparr>)) (\<lambda>_.
     sbind (on_storage (for_each (\<lambda>i. sbind (ignore_errors (delete_checkpoint i))
         (\<lambda>_. ignore_errors (delete_dag_node i))) (r_deleted_checkpoints r0))) (\<lambda>_.
     sbind (update (\<lambda>r. r\<lparr>r_deleted_branches := []\<rparr>)) (\<lambda>_.
     sbind (on_storage (for_each (\<lambda>n. ignore_errors (delete_branch n)) (r_deleted_branches r0))) (\<lambda>_.
     sbind (on_storage (for_each store_branch (r_branches r0))) (\<lambda>_.
     sbind current_branch (\<lambda>b.
     on_storage (store_metadata E ''current_branch'' (br_name b))))))))))"

definition sync_all :: "env \<Rightarrow> unit repo_prog" where
  "sync_all E = (\<lambda>r. if r_storage r = None then (Ok (), r) else sync_storage E r r)"

section \<open>Commits\<close>

text \<open>The checkpoint, its edges, then the head of the branch.\<close>

definition persist_db :: "env \<Rightarrow> checkpoint \<Rightarrow> dag \<Rightarrow> string \<Rightarrow> unit db_prog" where
  "persist_db E cp G name =
     sbind (store_checkpoint E cp) (\<lambda>_.
     sbind (store_parent_edges cp G) (\<lambda>_.
     update_branch_head E name (cp_id cp)))"

definition persist_checkpoint :: "env \<Rightarrow> checkpoint \<Rightarrow> unit repo_prog" where
  "persist_checkpoint E cp =
     sbind current_branch (\<lambda>b r. on_storage (persist_db E cp (r_dag r) (br_name b)) r)"

text \<open>\<open>add_node\<close>, then \<open>add_edge\<close> from each parent.\<close>

definition add_to_dag :: "checkpoint \<Rightarrow> dag \<Rightarrow> dag" where
  "add_to_dag cp G =
     fold (\<lambda>p G. snd (dag_add_edge p (cp_id cp) G)) (cp_parents cp) (dag_add_node (cp_id cp) G)"

text \<open>What \<open>commit\<close>, \<open>commit_allow_empty\<close> and \<open>merge_branches\<close> do with the new checkpoint.\<close>

definition record_checkpoint :: "env \<Rightarrow> checkpoint \<Rightarrow> checkpoint_id repo_prog" where
  "record_checkpoint E cp =
     sbind (update (\<lambda>r. r\<lparr>r_time_index := ti_insert cp (r_time_index r)\<rparr>)) (\<lambda>_.
     sbind (update (\<lambda>r. r\<lparr>r_dag := add_to_dag cp (r_dag r)\<rparr>)) (\<lambda>_.
     sbind (set_current_head E (cp_id cp)) (\<lambda>_.
     sbind (persist_checkpoint E cp) (\<lambda>_.
     sbind (update (\<lambda>r. r\<lparr>r_dirty := set_insert (cp_id cp) (r_dirty r)\<rparr>)) (\<lambda>_.
     sbind (update (\<lambda>r. r\<lparr>r_checkpoints := fmupd (cp_id cp) cp (r_checkpoints r)\<rparr>)) (\<lambda>_.
     ret (cp_id cp)))))))"

definition repo_commit :: "env \<Rightarrow> snapshot_id list \<Rightarrow> string \<Rightarrow> string \<Rightarrow> checkpoint_id repo_prog" where
  "repo_commit E snaps message author =
     (if snaps = [] then fail (CheckpointErr ''cannot commit with empty snapshot list'')
      else
        sbind current_branch_head (\<lambda>head.
        sbind (query (repo_get_checkpoint head)) (\<lambda>current_cp.
        if cp_snapshots current_cp = snaps
        then fail (CheckpointErr ''no changes to commit (same snapshot IDs as current head)'')
        else record_checkpoint E (checkpoint_new E snaps [head] (metadata_new author message)))))"

definition commit_single :: "env \<Rightarrow> snapshot_id \<Rightarrow> string \<Rightarrow> string \<Rightarrow> checkpoint_id repo_prog" where
  "commit_single E snap message author = repo_commit E [snap] message author"

definition commit_allow_empty :: "env \<Rightarrow> snapshot_id list \<Rightarrow> string \<Rightarrow> string \<Rightarrow> checkpoint_id repo_prog" where
  "commit_allow_empty E snaps message author =
     sbind current_branch_head (\<lambda>head.
     record_checkpoint E (checkpoint_new E snaps [head] (metadata_new author message)))"

section \<open>Branch operations\<close>

definition branch_exists :: "string \<Rightarrow> repo \<Rightarrow> bool" where
  "branch_exists name r \<longleftrightarrow> list_ex (\<lambda>b. br_name b = name) (r_branches r)"

definition add_branch :: "branch \<Rightarrow> unit repo_prog" where
  "add_branch b =
     sbind (on_storage (store_branch b)) (\<lambda>_.
     update (\<lambda>r. r\<lparr>r_branches := r_branches r @ [b]\<rparr>))"

definition already_exists :: "string \<Rightarrow> lt_error" where
  "already_exists name = CheckpointErr (''branch '' @ quoted name @ '' already exists'')"

definition create_branch :: "env \<Rightarrow> string \<Rightarrow> unit repo_prog" where
  "create_branch E name = (\<lambda>r.
     if branch_exists name r then fail (already_exists name) r
     else sbind current_branch_head (\<lambda>head. add_branch (branch_new E name head)) r)"

definition create_branch_from :: "env \<Rightarrow> string \<Rightarrow> checkpoint_id \<Rightarrow> unit repo_prog" where
  "create_branch_from E name from_cp = (\<lambda>r.
     if fmlookup (r_checkpoints r) from_cp = None then fail (not_found_checkpoint from_cp) r
     else if branch_exists name r then fail (already_exists name) r
     else add_branch (branch_new E name from_cp) r)"

definition find_branch :: "string \<Rightarrow> repo \<Rightarrow> (nat, lt_error) result" where
  "find_branch name r =
     ok_or (position (\<lambda>b. br_name b = name) (r_branches r)) (NotFound (''branch '' @ quoted name @ '' not found''))"

definition repo_switch_branch :: "env \<Rightarrow> string \<Rightarrow> checkpoint_id repo_prog" where
  "repo_switch_branch E name =
     sbind (query (find_branch name)) (\<lambda>idx.
     sbind (update (\<lambda>r. r\<lparr>r_current := idx\<rparr>)) (\<lambda>_.
     sbind (on_storage (store_metadata E ''current_branch'' name)) (\<lambda>_.
     query (\<lambda>r. Ok (br_head (r_branches r ! idx))))))"

definition repo_list_branches :: "repo \<Rightarrow> branch list" where
  "repo_list_branches r = r_branches r"

definition remove_branch :: "string \<Rightarrow> unit repo_prog" where
  "remove_branch name =
     sbind (query (find_branch name)) (\<lambda>idx.
     sbind (update (\<lambda>r. r\<lparr>r_branches := take idx (r_branches r) @ drop (Suc idx) (r_branches r)\<rparr>)) (\<lambda>_.
     sbind (update (\<lambda>r. if r_storage r = None
         then r\<lparr>r_deleted_branches := set_insert name (r_deleted_branches r)\<rparr> else r)) (\<lambda>_.
     on_storage (delete_branch name))))"

definition get_branch_head :: "string \<Rightarrow> repo \<Rightarrow> (checkpoint_id, lt_error) result" where
  "get_branch_head name r = and_then (find_branch name r) (\<lambda>idx. Ok (br_head (r_branches r ! idx)))"

definition merge_branches ::
    "env \<Rightarrow> string \<Rightarrow> snapshot_id list \<Rightarrow> string \<Rightarrow> string \<Rightarrow> checkpoint_id repo_prog" where
  "merge_branches E source snaps message author =
     (if snaps = [] then fail (CheckpointErr ''cannot merge with empty snapshot list'')
      else
        sbind (query (get_branch_head source)) (\<lambda>source_head.
        sbind current_branch_head (\<lambda>head.
        record_checkpoint E (checkpoint_new E snaps [head, source_head] (metadata_new author message)))))"

section \<open>History\<close>

definition parent_graph :: "repo \<Rightarrow> graph" where
  "parent_graph r = fmmap cp_parents (r_checkpoints r)"

text \<open>A checkpoint that is not in memory has no parents and is not reported, so the loop reports the
  first \<open>count\<close> known checkpoints in the order of the search.\<close>

definition log_from :: "checkpoint_id \<Rightarrow> nat \<Rightarrow> repo \<Rightarrow> checkpoint list" where
  "log_from start n r =
     take n (List.map_filter (fmlookup (r_checkpoints r)) (explore (parent_graph r) [] [start]))"

definition repo_log :: "nat \<Rightarrow> checkpoint list repo_prog" where
  "repo_log n = sbind current_branch_head (\<lambda>head. query (\<lambda>r. Ok (log_from head n r)))"

definition checkpoint_count :: "repo \<Rightarrow> nat" where
  "checkpoint_count r = length (fmap_keys (r_checkpoints r))"

text \<open>The part of a list up to and including the first element that satisfies \<open>p\<close>.\<close>

fun take_until :: "('a \<Rightarrow> bool) \<Rightarrow> 'a list \<Rightarrow> 'a list" where
  "take_until p [] = []"
| "take_until p (x # xs) = (if p x then [x] else x # take_until p xs)"

definition get_ancestors_to :: "checkpoint_id \<Rightarrow> checkpoint list repo_prog" where
  "get_ancestors_to target =
     sbind current_branch_head (\<lambda>head r.
       let found = List.map_filter (fmlookup (r_checkpoints r))
             (take_until (\<lambda>i. i = target \<and> fmlookup (r_checkpoints r) i \<noteq> None)
               (explore (parent_graph r) [] [head]))
       in if map_option cp_id (list_last found) \<noteq> Some target
          then (Err (NotFound (''checkpoint '' @ to_hex target @ '' is not an ancestor of current head'')), r)
          else (Ok found, r))"

definition get_ancestry_chain :: "checkpoint_id \<Rightarrow> repo \<Rightarrow> (checkpoint_id list, lt_error) result" where
  "get_ancestry_chain i r = Ok (rev (explore_levels (parent_graph r) [] [i] []))"

section \<open>Removal, rollback, snapshots\<close>

definition remove_checkpoint :: "checkpoint_id \<Rightarrow> unit repo_prog" where
  "remove_checkpoint i = (\<lambda>r. case fmlookup (r_checkpoints r) i of
     None \<Rightarrow> (Err (not_found_checkpoint i), r)
   | Some cp \<Rightarrow>
       sbind (update (\<lambda>r. r\<lparr>r_checkpoints := fmdrop i (r_checkpoints r),
           r_time_index := ti_remove cp (r_time_index r),
           r_deleted_checkpoints := (if r_storage r = None then set_insert i (r_deleted_checkpoints r)
             else r_deleted_checkpoints r),
           r_dag := remove_node i (r_dag r)\<rparr>)) (\<lambda>_.
       on_storage (sbind (delete_checkpoint i) (\<lambda>_. delete_dag_node i))) r)"

definition rollback_to :: "checkpoint_id \<Rightarrow> repo \<Rightarrow> (snapshot_id list, lt_error) result" where
  "rollback_to i r = and_then (repo_get_checkpoint i r) (\<lambda>cp. Ok (cp_snapshots cp))"

definition get_snapshot_by_id :: "env \<Rightarrow> snapshot_id \<Rightarrow> repo \<Rightarrow> (snapshot, lt_error) result" where
  "get_snapshot_by_id E i r = (case fmlookup (r_snapshots r) i of
     Some x \<Rightarrow> Ok x
   | None \<Rightarrow> (case r_storage r of
         Some s \<Rightarrow> result_map_err Storage (get_snapshot E i s)
       | None \<Rightarrow> Err (NotFound (''Snapshot '' @ to_hex i @ '' not found''))))"

definition cache_snapshot :: "snapshot \<Rightarrow> repo \<Rightarrow> repo" where
  "cache_snapshot x r = r\<lparr>r_snapshots := fmupd (s_id x) x (r_snapshots r)\<rparr>"

definition set_snapshot_source :: "checkpoint_id \<Rightarrow> snapshot_id \<Rightarrow> string \<Rightarrow> unit repo_prog" where
  "set_snapshot_source i snap source = (\<lambda>r. case fmlookup (r_checkpoints r) i of
     None \<Rightarrow> (Err (not_found_checkpoint i), r)
   | Some cp \<Rightarrow> (Ok (),
       r\<lparr>r_checkpoints := fmupd i (cp\<lparr>cp_sources := fmupd snap source (cp_sources cp)\<rparr>) (r_checkpoints r),
         r_dirty := set_insert i (r_dirty r)\<rparr>))"

end
