(* ===== verification/Checkpoint_Restore.thy ===== *)
theory Checkpoint_Restore
  imports Checkpoint_Repo
begin

text \<open>
  \<^verbatim>\<open>src/checkpoint/transaction.rs\<close> and \<^verbatim>\<open>src/checkpoint/restore.rs\<close>: committing several contents
  as one checkpoint, and reading the contents of a checkpoint back, by identifier, by source or by
  time. The order of a hash set is that of the list it is made from.
\<close>

section \<open>Transactions\<close>

datatype transaction_status = Open | Committed | RolledBack

record transaction =
  tx_snapshots :: "(snapshot_content \<times> string) list"
  tx_metadata :: checkpoint_metadata
  tx_parents :: "checkpoint_id list"
  tx_status :: transaction_status

definition tx_new :: "checkpoint_metadata \<Rightarrow> checkpoint_id list \<Rightarrow> transaction" where
  "tx_new md parents = \<lparr>tx_snapshots = [], tx_metadata = md, tx_parents = parents, tx_status = Open\<rparr>"

definition add_snapshot :: "string \<Rightarrow> snapshot_content \<Rightarrow> transaction \<Rightarrow> transaction" where
  "add_snapshot source content tx = tx\<lparr>tx_snapshots := tx_snapshots tx @ [(content, source)]\<rparr>"

definition snapshot_count :: "transaction \<Rightarrow> nat" where
  "snapshot_count tx = length (tx_snapshots tx)"

definition is_open :: "transaction \<Rightarrow> bool" where
  "is_open tx \<longleftrightarrow> tx_status tx = Open"

definition is_committed :: "transaction \<Rightarrow> bool" where
  "is_committed tx \<longleftrightarrow> tx_status tx = Committed"

definition tx_rollback :: "transaction \<Rightarrow> transaction" where
  "tx_rollback tx = tx\<lparr>tx_status := RolledBack\<rparr>"

text \<open>\<open>transaction\<close> and \<open>transaction_with_metadata\<close>\<close>

definition repo_transaction_with_metadata :: "string \<Rightarrow> string \<Rightarrow> transaction repo_prog" where
  "repo_transaction_with_metadata author message =
     sbind current_branch_head (\<lambda>head. ret (tx_new (metadata_new author message) [head]))"

definition repo_transaction :: "transaction repo_prog" where
  "repo_transaction =
     sbind current_branch_head (\<lambda>head. ret (tx_new (metadata_new ''system'' ''transaction'') [head]))"

definition content_to_snapshot :: "env \<Rightarrow> snapshot_content \<Rightarrow> string \<Rightarrow> snapshot" where
  "content_to_snapshot E content source =
     snapshot_new_with_content E (file_node_new E source (to_bytes E content)) content source [] [] []"

definition store_snapshot_content :: "env \<Rightarrow> snapshot_content \<Rightarrow> string \<Rightarrow> snapshot repo_prog" where
  "store_snapshot_content E content source =
     (let snap = content_to_snapshot E content source
      in sbind (on_storage (store_snapshot E snap (to_bytes E content))) (\<lambda>_.
         sbind (update (cache_snapshot snap)) (\<lambda>_. ret snap)))"

definition store_checkpoint_internal :: "env \<Rightarrow> checkpoint \<Rightarrow> unit repo_prog" where
  "store_checkpoint_internal E cp =
     sbind (update (\<lambda>r. r\<lparr>r_checkpoints := fmupd (cp_id cp) cp (r_checkpoints r)\<rparr>)) (\<lambda>_.
     sbind (update (\<lambda>r. r\<lparr>r_dag := add_to_dag cp (r_dag r)\<rparr>)) (\<lambda>_.
     sbind (set_current_head E (cp_id cp)) (\<lambda>_.
     sbind (update (\<lambda>r. r\<lparr>r_dirty := set_insert (cp_id cp) (r_dirty r)\<rparr>)) (\<lambda>_.
     sbind current_branch (\<lambda>b.
     on_storage (sbind (store_checkpoint E cp) (\<lambda>_. update_branch_head E (br_name b) (cp_id cp))))))))"

text \<open>The loop over the contents collects the identifiers and the map of the sources.\<close>

fun store_contents ::
    "env \<Rightarrow> (snapshot_content \<times> string) list \<Rightarrow> snapshot_id list \<Rightarrow> (snapshot_id, string) fmap
      \<Rightarrow> (snapshot_id list \<times> (snapshot_id, string) fmap) repo_prog" where
  "store_contents E [] ids sources = ret (ids, sources)"
| "store_contents E ((content, source) # xs) ids sources =
     sbind (store_snapshot_content E content source) (\<lambda>snap.
       store_contents E xs (ids @ [s_id snap]) (fmupd (s_id snap) source sources))"

text \<open>The transaction is consumed by its commit, so nobody can see its final status.\<close>

definition tx_commit :: "env \<Rightarrow> transaction \<Rightarrow> checkpoint_id repo_prog" where
  "tx_commit E tx =
     (if tx_snapshots tx = [] then fail (TransactionErr ''Cannot commit empty transaction'')
      else
        sbind (store_contents E (tx_snapshots tx) [] fmempty) (\<lambda>(ids, sources).
        let cp = (checkpoint_new E ids (tx_parents tx) (tx_metadata tx))\<lparr>cp_sources := sources\<rparr>
        in sbind (store_checkpoint_internal E cp) (\<lambda>_. ret (cp_id cp))))"

section \<open>Restore\<close>

record restore_request =
  rq_checkpoint :: "checkpoint_id option"
  rq_filter :: "string list option"
  rq_range :: "(int \<times> int) option"

type_synonym restored = "snapshot_id \<times> snapshot_content \<times> string"

record restore_response =
  rs_checkpoint :: checkpoint
  rs_snapshots :: "restored list"
  rs_ancestry :: "checkpoint_id list"

text \<open>One snapshot: with a storage its text is rebuilt from its deltas and its source is the path of
  the last delta; without, both are those of the cached snapshot.\<close>

definition restored_content :: "env \<Rightarrow> db option \<Rightarrow> snapshot \<Rightarrow> (snapshot_content, lt_error) result" where
  "restored_content E st x = (case st of
     Some s \<Rightarrow> and_then (fst (reconstruct_text E x s)) (\<lambda>t. Ok (FileContent t))
   | None \<Rightarrow> Ok (case s_content x of None \<Rightarrow> FileContent [] | Some c \<Rightarrow> c))"

definition restored_source :: "db option \<Rightarrow> snapshot \<Rightarrow> (string, lt_error) result" where
  "restored_source st x = (case st of
     Some s \<Rightarrow> and_then (result_map_err Storage (get_deltas (s_deltas x) s)) (\<lambda>ds.
       Ok (case list_last ds of Some d \<Rightarrow> path_str (d_file d) | None \<Rightarrow> path_str (s_file x)))
   | None \<Rightarrow> Ok (s_source x))"

definition load_snapshot_content :: "env \<Rightarrow> repo \<Rightarrow> snapshot_id \<Rightarrow> (restored, lt_error) result" where
  "load_snapshot_content E r i =
     and_then (get_snapshot_by_id E i r) (\<lambda>x.
     and_then (restored_content E (r_storage r) x) (\<lambda>content.
     and_then (restored_source (r_storage r) x) (\<lambda>source.
     Ok (i, content, source))))"

definition load_all_snapshot_contents :: "env \<Rightarrow> snapshot_id list \<Rightarrow> repo \<Rightarrow> (restored list, lt_error) result" where
  "load_all_snapshot_contents E ids r = collect_results (load_snapshot_content E r) ids"

definition restore_full :: "env \<Rightarrow> checkpoint_id \<Rightarrow> repo \<Rightarrow> (restore_response, lt_error) result" where
  "restore_full E i r =
     and_then (repo_get_checkpoint i r) (\<lambda>cp.
     and_then (get_ancestry_chain i r) (\<lambda>ancestry.
     and_then (load_all_snapshot_contents E (cp_snapshots cp) r) (\<lambda>xs.
     Ok \<lparr>rs_checkpoint = cp, rs_snapshots = xs, rs_ancestry = ancestry\<rparr>)))"

definition source_of :: "checkpoint \<Rightarrow> snapshot_id \<Rightarrow> string" where
  "source_of cp i = (case fmlookup (cp_sources cp) i of None \<Rightarrow> [] | Some s \<Rightarrow> s)"

definition restore_selective ::
    "env \<Rightarrow> checkpoint_id \<Rightarrow> string list \<Rightarrow> repo \<Rightarrow> (restore_response, lt_error) result" where
  "restore_selective E i filters r =
     and_then (repo_get_checkpoint i r) (\<lambda>cp.
     and_then (get_ancestry_chain i r) (\<lambda>ancestry.
     let ids = filter (\<lambda>x. list_ex (matches_glob (source_of cp x)) filters) (cp_snapshots cp)
     in and_then (load_all_snapshot_contents E ids r) (\<lambda>xs.
        Ok \<lparr>rs_checkpoint = cp, rs_snapshots = xs, rs_ancestry = ancestry\<rparr>)))"

definition restore_filtered ::
    "env \<Rightarrow> checkpoint_id \<Rightarrow> string list option \<Rightarrow> repo \<Rightarrow> (restore_response, lt_error) result" where
  "restore_filtered E i filters r = (case filters of
     Some (f # fs) \<Rightarrow> restore_selective E i (f # fs) r
   | _ \<Rightarrow> restore_full E i r)"

text \<open>\<open>max_by_key\<close> keeps the last of the greatest entries.\<close>

definition later :: "int \<times> checkpoint_id \<Rightarrow> int \<times> checkpoint_id \<Rightarrow> int \<times> checkpoint_id" where
  "later e best = (if fst best \<le> fst e then e else best)"

fun latest_entry :: "(int \<times> checkpoint_id) list \<Rightarrow> (int \<times> checkpoint_id) option" where
  "latest_entry [] = None"
| "latest_entry (e # es) = Some (fold later es e)"

definition restore_by_time_range ::
    "env \<Rightarrow> int \<Rightarrow> int \<Rightarrow> string list option \<Rightarrow> repo \<Rightarrow> (restore_response, lt_error) result" where
  "restore_by_time_range E start_t end_t filters r =
     and_then (ti_query_range start_t end_t (r_time_index r)) (\<lambda>candidates.
     case latest_entry candidates of
       None \<Rightarrow> Err (NotFound (''No checkpoint found in time range ['' @ show_int start_t @ '', ''
                 @ show_int end_t @ '']''))
     | Some (t, i) \<Rightarrow> restore_filtered E i filters r)"

definition restore_by_time ::
    "env \<Rightarrow> int \<Rightarrow> string list option \<Rightarrow> repo \<Rightarrow> (restore_response, lt_error) result" where
  "restore_by_time E target filters r =
     and_then (ok_or (ti_find_nearest target (r_time_index r)) (NotFound ''No checkpoint near target time''))
       (\<lambda>(t, i). restore_filtered E i filters r)"

definition restore :: "env \<Rightarrow> restore_request \<Rightarrow> repo \<Rightarrow> (restore_response, lt_error) result" where
  "restore E rq r = (case rq_range rq of
     Some (start_t, end_t) \<Rightarrow> restore_by_time_range E start_t end_t (rq_filter rq) r
   | None \<Rightarrow> (case rq_checkpoint rq of
       Some i \<Rightarrow> (case rq_filter rq of
           Some filters \<Rightarrow> restore_selective E i filters r
         | None \<Rightarrow> restore_full E i r)
     | None \<Rightarrow> Err (General ''RestoreRequest must specify either checkpoint_id or time_range'')))"

section \<open>Inspection\<close>

definition list_snapshots ::
    "env \<Rightarrow> checkpoint_id \<Rightarrow> repo \<Rightarrow> ((snapshot_id \<times> string \<times> string \<times> nat) list, lt_error) result" where
  "list_snapshots E i r =
     and_then (repo_get_checkpoint i r) (\<lambda>cp.
     Ok (map (\<lambda>x. case result_ok (get_snapshot_by_id E x r) of
           None \<Rightarrow> (x, source_of cp x, ''unknown'', 0)
         | Some y \<Rightarrow> (x, source_of cp x,
             case s_content y of None \<Rightarrow> ''unknown'' | Some c \<Rightarrow> content_type c,
             case s_content y of None \<Rightarrow> 0 | Some c \<Rightarrow> length (to_bytes E c)))
       (cp_snapshots cp)))"

definition content_of :: "env \<Rightarrow> repo \<Rightarrow> snapshot_id \<Rightarrow> snapshot_content option" where
  "content_of E r i = Option.bind (result_ok (get_snapshot_by_id E i r)) s_content"

definition diff_checkpoints ::
    "env \<Rightarrow> checkpoint_id \<Rightarrow> checkpoint_id \<Rightarrow> repo \<Rightarrow> (checkpoint_diff, lt_error) result" where
  "diff_checkpoints E from_id to_id r =
     and_then (repo_get_checkpoint from_id r) (\<lambda>from_cp.
     and_then (repo_get_checkpoint to_id r) (\<lambda>to_cp.
     let from_set = remdups (cp_snapshots from_cp); to_set = remdups (cp_snapshots to_cp);
       removed = filter (\<lambda>i. i \<notin> set to_set) from_set;
       added = filter (\<lambda>i. i \<notin> set from_set) to_set;
       common = filter (\<lambda>i. i \<in> set to_set) from_set;
       modified = filter (\<lambda>i. content_of E r i \<noteq> content_of E r i) common
     in Ok (checkpoint_diff_new from_id to_id added removed modified)))"

definition snapshot_issues :: "env \<Rightarrow> checkpoint \<Rightarrow> repo \<Rightarrow> snapshot_id \<Rightarrow> string list" where
  "snapshot_issues E cp r i = (case result_ok (get_snapshot_by_id E i r) of
     None \<Rightarrow> [''Snapshot '' @ to_hex i @ '' referenced but not found'']
   | Some x \<Rightarrow>
       (if snapshot_compute_id E x \<noteq> i
        then [''Snapshot '' @ to_hex i @ '' has mismatched ID (expected '' @ to_hex (snapshot_compute_id E x) @ '')'']
        else [])
       @ (if fmlookup (cp_sources cp) i = None
          then [''Snapshot '' @ to_hex i @ '' is missing source mapping in checkpoint''] else []))"

definition validate_integrity :: "env \<Rightarrow> checkpoint_id \<Rightarrow> repo \<Rightarrow> (string list, lt_error) result" where
  "validate_integrity E i r =
     and_then (repo_get_checkpoint i r) (\<lambda>cp. Ok (concat (map (snapshot_issues E cp r) (cp_snapshots cp))))"

section \<open>Writing files\<close>

record restore_apply_result =
  ra_checkpoint :: checkpoint_id
  ra_files :: "string list"

text \<open>The file system is a state of its own. Its two operations are arguments: creating the directory of
  a path where it has one, and writing a file; an error is already the message of the code.\<close>

definition write_restored ::
    "env \<Rightarrow> (string \<Rightarrow> ('fs, unit, lt_error) prog) \<Rightarrow> (string \<Rightarrow> bytes \<Rightarrow> ('fs, unit, lt_error) prog)
      \<Rightarrow> string list option \<Rightarrow> restored \<Rightarrow> ('fs, string list, lt_error) prog" where
  "write_restored E make_dirs write_file filters x =
     (case x of (i, content, source) \<Rightarrow>
        if (case filters of None \<Rightarrow> False | Some fs \<Rightarrow> \<not> list_ex (matches_glob source) fs) then ret []
        else (case strip_prefix source ''file://'' of
            None \<Rightarrow> ret []
          | Some path \<Rightarrow>
              sbind (make_dirs path) (\<lambda>_.
              sbind (write_file path (to_bytes E content)) (\<lambda>_. ret [path]))))"

fun write_all_restored ::
    "(restored \<Rightarrow> ('fs, string list, lt_error) prog) \<Rightarrow> restored list \<Rightarrow> ('fs, string list, lt_error) prog" where
  "write_all_restored wr [] = ret []"
| "write_all_restored wr (x # xs) =
     sbind (wr x) (\<lambda>ps. sbind (write_all_restored wr xs) (\<lambda>qs. ret (ps @ qs)))"

definition apply_restore ::
    "env \<Rightarrow> (string \<Rightarrow> ('fs, unit, lt_error) prog) \<Rightarrow> (string \<Rightarrow> bytes \<Rightarrow> ('fs, unit, lt_error) prog)
      \<Rightarrow> restore_response \<Rightarrow> string list option \<Rightarrow> ('fs, restore_apply_result, lt_error) prog" where
  "apply_restore E make_dirs write_file resp filters =
     sbind (write_all_restored (write_restored E make_dirs write_file filters) (rs_snapshots resp)) (\<lambda>files.
     ret \<lparr>ra_checkpoint = cp_id (rs_checkpoint resp), ra_files = files\<rparr>)"

end
