(* ===== verification/Checkpoint_History.thy ===== *)
theory Checkpoint_History
  imports Checkpoint_Repo
begin

text \<open>
  What the repository of checkpoints guarantees: an invariant that ties branches, checkpoints,
  graph and time index together, the effect of a commit, what is read back from the storage when
  the repository is opened again, and the operations that break these guarantees.
\<close>

section \<open>Lemmas on the state\<close>

lemma current_branch_run:
  "r_current r < length (r_branches r) \<Longrightarrow> current_branch r = (Ok (r_branches r ! r_current r), r)"
  by (simp add: current_branch_def query_def)

lemma on_storage_run:
  "(\<And>s. fst (m s) = Ok ()) \<Longrightarrow> on_storage m r = (Ok (), r\<lparr>r_storage := map_option (\<lambda>s. snd (m s)) (r_storage r)\<rparr>)"
  by (cases "r_storage r") (auto simp: on_storage_def split: prod.split, metis fst_conv result_map_err.simps(1))

lemma for_each_run:
  "(\<And>x s. fst (f x s) = Ok ()) \<Longrightarrow> fst (for_each f xs s) = Ok ()"
proof (induction xs arbitrary: s)
  case (Cons x xs)
  then show ?case by (cases "f x s") (auto simp: sbind_def split: result.splits, (metis fst_conv result.distinct)+)
qed (simp add: ret_def)

lemma store_checkpoint_run:
  "cp_sources cp = fmempty \<Longrightarrow> store_checkpoint E cp s
     = (Ok (), s\<lparr>t_checkpoints := insert_or_ignore cr_id (checkpoint_to_row cp None) (t_checkpoints s)\<rparr>)"
  by (simp add: store_checkpoint_def sources_column_def sbind_def lift_result_def update_def)

lemma store_parent_edges_run: "fst (store_parent_edges cp G s) = Ok ()"
  unfolding store_parent_edges_def
  by (rule for_each_run) (simp add: store_dag_edge_def update_def ret_def split: option.split)

lemma persist_db_run: "cp_sources cp = fmempty \<Longrightarrow> fst (persist_db E cp G name s) = Ok ()"
  using store_parent_edges_run [of cp G]
  by (simp add: persist_db_def sbind_def store_checkpoint_run update_branch_head_def update_def
      split: prod.split result.split)
    (metis fst_conv result.distinct)

section \<open>The invariant of the repository\<close>

definition parents_known :: "(checkpoint_id, checkpoint) fmap \<Rightarrow> bool" where
  "parents_known cps \<longleftrightarrow> (\<forall>i cp. fmlookup cps i = Some cp \<longrightarrow> cp_id cp = i \<and> set (cp_parents cp) \<subseteq> fset (fmdom cps))"

definition dag_matches :: "(checkpoint_id, checkpoint) fmap \<Rightarrow> dag \<Rightarrow> bool" where
  "dag_matches cps G \<longleftrightarrow> dag_ok G \<and> fmdom (dag_nodes G) = fmdom cps
     \<and> (\<forall>p c. c \<in> set (succs (dag_nodes G) p) \<longleftrightarrow> (\<exists>cp. fmlookup cps c = Some cp \<and> p \<in> set (cp_parents cp)))"

definition index_matches :: "(checkpoint_id, checkpoint) fmap \<Rightarrow> time_index \<Rightarrow> bool" where
  "index_matches cps ti \<longleftrightarrow> ti_ok ti \<and> distinct (ti_flat ti)
     \<and> (\<forall>t i. (t, i) \<in> set (ti_flat ti) \<longleftrightarrow> (\<exists>cp. fmlookup cps i = Some cp \<and> cp_created_at cp = t))"

definition branches_ok :: "branch list \<Rightarrow> nat \<Rightarrow> (checkpoint_id, checkpoint) fmap \<Rightarrow> bool" where
  "branches_ok bs n cps \<longleftrightarrow> n < length bs \<and> distinct (map br_name bs)
     \<and> (\<forall>b \<in> set bs. br_head b |\<in>| fmdom cps)"

definition repo_ok :: "repo \<Rightarrow> bool" where
  "repo_ok r \<longleftrightarrow> parents_known (r_checkpoints r) \<and> dag_matches (r_checkpoints r) (r_dag r)
     \<and> index_matches (r_checkpoints r) (r_time_index r)
     \<and> branches_ok (r_branches r) (r_current r) (r_checkpoints r)"

text \<open>Edges to a node without children are all accepted.\<close>

lemma no_path_from_leaf: "succs g c = [] \<Longrightarrow> (c, p) \<in> (edges g)\<^sup>* \<longleftrightarrow> p = c"
  by (auto elim: converse_rtranclE)

lemma add_edges_leaf:
  assumes "dag_ok G" and "succs (dag_nodes G) c = []" and "c \<notin> set ps"
    and "finsert c (fset_of_list ps) |\<subseteq>| fmdom (dag_nodes G)"
  defines "G' \<equiv> fold (\<lambda>p G. snd (dag_add_edge p c G)) ps G"
  shows "dag_ok G' \<and> fmdom (dag_nodes G') = fmdom (dag_nodes G)
     \<and> (\<forall>x y. y \<in> set (succs (dag_nodes G') x) \<longleftrightarrow> y \<in> set (succs (dag_nodes G) x) \<or> y = c \<and> x \<in> set ps)"
  using assms(1-4) unfolding G'_def
proof (induction ps arbitrary: G)
  case (Cons p ps)
  let ?G = "dag_add_edge_unchecked p c G"
  have "snd (dag_add_edge p c G) = ?G"
    using Cons.prems by (auto simp: dag_add_edge_def would_create_cycle_iff no_path_from_leaf)
  moreover have "dag_ok ?G" using Cons.prems by (intro dag_ok_add_edge) auto
  moreover have succs: "set (succs (dag_nodes ?G) x) = set (succs (dag_nodes G) x) \<union> (if x = p then {c} else {})" for x
    by (simp add: dag_add_edge_unchecked_def Let_def)
  moreover have "fmdom (dag_nodes ?G) = fmdom (dag_nodes G)"
    using Cons.prems by (auto simp: dag_add_edge_unchecked_def Let_def)
  moreover have "succs (dag_nodes ?G) c = []"
    using Cons.prems by (simp add: dag_add_edge_unchecked_def Let_def)
  ultimately show ?case using Cons.IH [of ?G] Cons.prems by (auto split: if_splits)
qed simp

lemma fresh_no_succs:
  "dag_matches cps G \<Longrightarrow> c |\<notin>| fmdom cps \<Longrightarrow> succs (dag_nodes G) c = []"
  by (intro succs_outside) (simp add: dag_matches_def)

lemma dag_matches_add:
  assumes "dag_matches cps G" and "cp_id cp |\<notin>| fmdom cps" and "set (cp_parents cp) \<subseteq> fset (fmdom cps)"
    and "parents_known cps"
  shows "dag_matches (fmupd (cp_id cp) cp cps) (add_to_dag cp G)"
proof -
  let ?c = "cp_id cp" and ?G = "dag_add_node (cp_id cp) G"
  have G: "dag_ok ?G" "succs (dag_nodes ?G) = succs (dag_nodes G)" "fmdom (dag_nodes ?G) = finsert ?c (fmdom cps)"
    using assms(1) by (auto simp: dag_matches_def dag_ok_add_node) (auto simp: dag_add_node_def)
  have "finsert ?c (fset_of_list (cp_parents cp)) |\<subseteq>| fmdom (dag_nodes ?G)"
    using assms(3) by (auto simp: G(3) fset_of_list_elem)
  moreover have "?c \<notin> set (cp_parents cp)" using assms(2,3) by auto
  ultimately have new: "dag_ok (add_to_dag cp G) \<and> fmdom (dag_nodes (add_to_dag cp G)) = fmdom (dag_nodes ?G)
     \<and> (\<forall>x y. y \<in> set (succs (dag_nodes (add_to_dag cp G)) x) \<longleftrightarrow>
           y \<in> set (succs (dag_nodes ?G) x) \<or> y = ?c \<and> x \<in> set (cp_parents cp))"
    unfolding add_to_dag_def using G fresh_no_succs [OF assms(1,2)] by (intro add_edges_leaf) auto
  have "?c \<notin> set (succs (dag_nodes G) p)" for p
    using assms(1,2) by (auto simp: dag_matches_def)
  with new assms(1) show ?thesis by (auto simp: dag_matches_def G)
qed

lemma index_matches_add:
  assumes "index_matches cps ti" and "cp_id cp |\<notin>| fmdom cps"
  shows "index_matches (fmupd (cp_id cp) cp cps) (ti_insert cp ti)"
proof -
  have "mset (ti_flat (ti_insert cp ti)) = mset ((cp_created_at cp, cp_id cp) # ti_flat ti)"
    by (simp add: ti_insert_def mset_ti_push)
  then have new: "distinct (ti_flat (ti_insert cp ti)) = distinct ((cp_created_at cp, cp_id cp) # ti_flat ti)"
    "set (ti_flat (ti_insert cp ti)) = set ((cp_created_at cp, cp_id cp) # ti_flat ti)"
    by (rule mset_eq_imp_distinct_iff, rule mset_eq_setD)
  have fresh: "(t, cp_id cp) \<notin> set (ti_flat ti)" for t
    using assms by (auto simp: index_matches_def)
  have "(t, i) \<in> set (ti_flat (ti_insert cp ti)) \<longleftrightarrow>
      (\<exists>c. fmlookup (fmupd (cp_id cp) cp cps) i = Some c \<and> cp_created_at c = t)" for t i
    using assms(1) fresh by (auto simp: new(2) index_matches_def)
  moreover have "ti_ok (ti_insert cp ti)" using assms(1) by (simp add: index_matches_def ti_insert_def ti_ok_push)
  moreover have "distinct (ti_flat (ti_insert cp ti))" using new(1) fresh assms(1) by (simp add: index_matches_def)
  ultimately show ?thesis by (simp add: index_matches_def)
qed

lemma parents_known_add:
  "parents_known cps \<Longrightarrow> set (cp_parents cp) \<subseteq> fset (fmdom cps) \<Longrightarrow> parents_known (fmupd (cp_id cp) cp cps)"
  unfolding parents_known_def by auto

lemma branches_ok_set_head:
  "branches_ok bs n cps \<Longrightarrow> fmdom cps |\<subseteq>| fmdom cps' \<Longrightarrow> i |\<in>| fmdom cps' \<Longrightarrow>
   branches_ok (bs[n := set_head E (bs ! n) i]) n cps'"
  unfolding branches_ok_def
  by (auto simp: map_update set_head_def list_update_id dest!: set_update_subset_insert [THEN subsetD])
    (metis length_map list_update_id map_update nth_map)

section \<open>Recording a checkpoint\<close>

definition recorded :: "env \<Rightarrow> checkpoint \<Rightarrow> repo \<Rightarrow> repo" where
  "recorded E cp r =
     (let G = add_to_dag cp (r_dag r); b = r_branches r ! r_current r
      in r\<lparr>r_time_index := ti_insert cp (r_time_index r), r_dag := G,
           r_branches := (r_branches r)[r_current r := set_head E b (cp_id cp)],
           r_storage := map_option (\<lambda>s. snd (persist_db E cp G (br_name b) s)) (r_storage r),
           r_dirty := set_insert (cp_id cp) (r_dirty r),
           r_checkpoints := fmupd (cp_id cp) cp (r_checkpoints r)\<rparr>)"

lemma set_head_name [simp]: "br_name (set_head E b i) = br_name b" "br_head (set_head E b i) = i"
  by (simp_all add: set_head_def)

lemma record_checkpoint_run:
  assumes "r_current r < length (r_branches r)" and "cp_sources cp = fmempty"
  shows "record_checkpoint E cp r = (Ok (cp_id cp), recorded E cp r)"
  using assms(1)
  by (simp add: record_checkpoint_def set_current_head_def persist_checkpoint_def sbind_def update_def
      current_branch_run on_storage_run [OF persist_db_run [OF assms(2)]] ret_def recorded_def Let_def)

lemma repo_ok_recorded:
  assumes "repo_ok r" and "cp_id cp |\<notin>| fmdom (r_checkpoints r)"
    and "set (cp_parents cp) \<subseteq> fset (fmdom (r_checkpoints r))"
  shows "repo_ok (recorded E cp r)"
  using assms unfolding repo_ok_def recorded_def Let_def
  by (auto intro!: parents_known_add dag_matches_add index_matches_add branches_ok_set_head)

lemma current_head_known:
  assumes "repo_ok r"
  shows "current_branch_head r = (Ok (br_head (r_branches r ! r_current r)), r)"
    and "br_head (r_branches r ! r_current r) |\<in>| fmdom (r_checkpoints r)"
    and "r_current r < length (r_branches r)"
  using assms
  by (auto simp: current_branch_head_def sbind_def current_branch_run ret_def repo_ok_def branches_ok_def)

lemma succs_parent_graph:
  "succs (parent_graph r) i = (case fmlookup (r_checkpoints r) i of None \<Rightarrow> [] | Some cp \<Rightarrow> cp_parents cp)"
  by (simp add: succs_def parent_graph_def split: option.split)

lemma reach_known:
  assumes "parents_known (r_checkpoints r)" and "A \<subseteq> fset (fmdom (r_checkpoints r))"
  shows "reach (parent_graph r) A \<subseteq> fset (fmdom (r_checkpoints r))"
proof -
  have "reach (parent_graph r) (fset (fmdom (r_checkpoints r))) = fset (fmdom (r_checkpoints r))"
  proof (rule reach_closed)
    fix v
    show "set (succs (parent_graph r) v) \<subseteq> fset (fmdom (r_checkpoints r))"
      using assms(1) by (cases "fmlookup (r_checkpoints r) v") (simp_all add: succs_parent_graph parents_known_def)
  qed
  with reach_mono [OF assms(2)] show ?thesis by blast
qed

text \<open>The log from a new checkpoint with one parent is that checkpoint, then the log from the parent.\<close>

lemma log_recorded:
  assumes "parents_known (r_checkpoints r)" and "h |\<in>| fmdom (r_checkpoints r)"
    and "cp_id cp |\<notin>| fmdom (r_checkpoints r)" and "cp_parents cp = [h]"
    and "r_checkpoints r' = fmupd (cp_id cp) cp (r_checkpoints r)"
  shows "log_from (cp_id cp) (Suc n) r' = cp # log_from h n r"
proof -
  let ?c = "cp_id cp" and ?P = "parent_graph r" and ?P' = "parent_graph r'"
  have known: "reach ?P (set [h]) \<subseteq> fset (fmdom (r_checkpoints r))"
    using assms(2) by (intro reach_known [OF assms(1)]) simp
  have "succs ?P' ?c = [h]" by (simp add: succs_parent_graph assms(4,5))
  moreover have "h \<noteq> ?c" using assms(2,3) by auto
  ultimately have "explore ?P' [] [?c] = ?c # explore ?P' [?c] [h]"
    by (simp add: explore.simps(2) pushed_nodes_def)
  moreover have "explore ?P' [?c] [h] = explore ?P [] [h]"
    using known assms(3) by (intro explore_cong) (auto simp: succs_parent_graph assms(5))
  moreover have "List.map_filter (fmlookup (r_checkpoints r')) (explore ?P [] [h])
      = List.map_filter (fmlookup (r_checkpoints r)) (explore ?P [] [h])"
  proof (rule map_filter_cong_set)
    fix x assume "x \<in> set (explore ?P [] [h])"
    with known explore_iff [of ?P "[h]"] assms(3)
    show "fmlookup (r_checkpoints r') x = fmlookup (r_checkpoints r) x" by (auto simp: assms(5))
  qed
  ultimately show ?thesis by (simp add: log_from_def map_filter_simps assms(5))
qed

text \<open>C9: a commit extends the history of the current branch and nothing else. On a consistent repository,
  for snapshots that differ from those of the head and an identifier not seen before, it succeeds;
  the new checkpoint is the head of the current branch, its only parent is the old head, which the
  graph reports as its ancestor, the log is the new checkpoint followed by the old log, the other
  branches and the earlier checkpoints are as they were, and the repository is consistent again.\<close>

theorem commit_extends_history:
  assumes "repo_ok r" and "snaps \<noteq> []"
    and "current_branch_head r = (Ok head, r)" and "fmlookup (r_checkpoints r) head = Some cur"
    and "cp_snapshots cur \<noteq> snaps"
    and "cp = checkpoint_new E snaps [head] (metadata_new author message)"
    and "cp_id cp |\<notin>| fmdom (r_checkpoints r)"
  shows "\<exists>r'. repo_commit E snaps message author r = (Ok (cp_id cp), r') \<and> repo_ok r'
     \<and> current_branch_head r' = (Ok (cp_id cp), r')
     \<and> r_checkpoints r' = fmupd (cp_id cp) cp (r_checkpoints r)
     \<and> (\<forall>j. j \<noteq> r_current r \<longrightarrow> r_branches r' ! j = r_branches r ! j)
     \<and> is_ancestor head (cp_id cp) (r_dag r')
     \<and> log_from (cp_id cp) (Suc n) r' = cp # log_from head n r"
proof -
  let ?r = "recorded E cp r"
  note known = current_head_known [OF assms(1)]
  have head: "br_head (r_branches r ! r_current r) = head" using known(1) assms(3) by simp
  have cp: "cp_parents cp = [head]" "cp_sources cp = fmempty" by (simp_all add: assms(6))
  have ok: "repo_ok ?r"
    using assms(1,7) known(2) by (intro repo_ok_recorded) (auto simp: cp head)
  have "repo_commit E snaps message author r = (Ok (cp_id cp), ?r)"
    using assms(2,5) record_checkpoint_run [OF known(3) cp(2), of E]
    by (simp add: repo_commit_def sbind_def assms(3,4) query_def repo_get_checkpoint_def flip: assms(6))
  moreover have "current_branch_head ?r = (Ok (cp_id cp), ?r)"
    using current_head_known(1) [OF ok] known(3) by (simp add: recorded_def Let_def)
  moreover have cps: "r_checkpoints ?r = fmupd (cp_id cp) cp (r_checkpoints r)"
    by (simp add: recorded_def Let_def)
  moreover have "\<forall>j. j \<noteq> r_current r \<longrightarrow> r_branches ?r ! j = r_branches r ! j"
    by (simp add: recorded_def Let_def)
  moreover have "is_ancestor head (cp_id cp) (r_dag ?r)"
  proof -
    have "dag_ok (r_dag ?r)" and "cp_id cp \<in> set (succs (dag_nodes (r_dag ?r)) head)"
      using ok cp(1) by (auto simp: repo_ok_def dag_matches_def cps)
    then show ?thesis by (simp add: is_ancestor_iff r_into_rtrancl)
  qed
  moreover have "log_from (cp_id cp) (Suc n) ?r = cp # log_from head n r"
    using assms(1,7) known(2) by (intro log_recorded) (simp_all add: repo_ok_def cps cp head)
  ultimately show ?thesis using ok by blast
qed

lemma repo_new_parts:
  "r_checkpoints (repo_new E ss) = fmupd (cp_id (checkpoint_new E ss [] (metadata_new ''system'' ''root checkpoint'')))
     (checkpoint_new E ss [] (metadata_new ''system'' ''root checkpoint'')) fmempty"
  "current_branch_head (repo_new E ss)
   = (Ok (cp_id (checkpoint_new E ss [] (metadata_new ''system'' ''root checkpoint''))), repo_new E ss)"
  "r_current (repo_new E ss) = 0" "length (r_branches (repo_new E ss)) = 1"
  by (simp_all add: repo_new_def create_root_checkpoint_def Let_def current_branch_head_def sbind_def
      current_branch_def query_def branch_new_def ret_def)

section \<open>Every operation keeps the invariant\<close>

lemma on_storage_only: "\<exists>st. snd (on_storage m r) = r\<lparr>r_storage := st\<rparr>"
  by (auto simp: on_storage_def split: option.splits prod.splits intro: exI [of _ "r_storage r"])

lemma repo_ok_storage [simp]:
  "repo_ok (r\<lparr>r_storage := st\<rparr>) = repo_ok r" "repo_ok (r\<lparr>r_dirty := d\<rparr>) = repo_ok r"
  "repo_ok (r\<lparr>r_deleted_checkpoints := d\<rparr>) = repo_ok r" "repo_ok (r\<lparr>r_deleted_branches := db\<rparr>) = repo_ok r"
  "repo_ok (r\<lparr>r_snapshots := sn\<rparr>) = repo_ok r"
  by (simp_all add: repo_ok_def)

abbreviation keeps_ok :: "'a repo_prog \<Rightarrow> bool" where
  "keeps_ok m \<equiv> stays (\<lambda>r r'. repo_ok r \<longrightarrow> repo_ok r') m"

interpretation repo_inv: state_preorder "\<lambda>r r'. repo_ok r \<longrightarrow> repo_ok r'"
  by unfold_locales auto

lemma keeps_ok_on_storage: "keeps_ok (on_storage m)"
  unfolding stays_def
proof
  fix r
  obtain st where "snd (on_storage m r) = r\<lparr>r_storage := st\<rparr>" using on_storage_only [of m r] by blast
  then show "repo_ok r \<longrightarrow> repo_ok (snd (on_storage m r))" by simp
qed

lemma keeps_ok_update: "(\<And>r. repo_ok r \<Longrightarrow> repo_ok (f r)) \<Longrightarrow> keeps_ok (update f)"
  by (simp add: stays_def update_def)

lemma keeps_ok_current: "keeps_ok current_branch" "keeps_ok current_branch_head"
  by (auto simp: current_branch_head_def current_branch_def intro!: repo_inv.stays_intros)

lemma keeps_ok_sync: "keeps_ok (sync_all E)" "keeps_ok (sync_checkpoint E i)"
proof -
  show "keeps_ok (sync_checkpoint E i)"
    using keeps_ok_on_storage by (auto simp: stays_def sync_checkpoint_def split: option.split)
  have "keeps_ok (sync_storage E r)" for r
    unfolding sync_storage_def
    by (intro repo_inv.stays_sbind keeps_ok_on_storage keeps_ok_update keeps_ok_current) simp_all
  then show "keeps_ok (sync_all E)" by (simp add: stays_def sync_all_def)
qed

lemma add_branch_ok:
  assumes "repo_ok r" and "\<not> branch_exists (br_name b) r" and "br_head b |\<in>| fmdom (r_checkpoints r)"
  shows "repo_ok (snd (add_branch b r))"
proof -
  obtain st where st: "snd (on_storage (store_branch b) r) = r\<lparr>r_storage := st\<rparr>"
    using on_storage_only [of "store_branch b" r] by blast
  have ok: "repo_ok (r\<lparr>r_branches := r_branches r @ [b]\<rparr>)"
    using assms by (auto simp: repo_ok_def branches_ok_def branch_exists_def list_ex_iff)
  have "snd (add_branch b r) = r\<lparr>r_storage := st\<rparr>
     \<or> snd (add_branch b r) = r\<lparr>r_storage := st, r_branches := r_branches r @ [b]\<rparr>"
    using st by (auto simp: add_branch_def sbind_def update_def split: prod.splits result.splits)
  moreover have "r\<lparr>r_storage := st, r_branches := r_branches r @ [b]\<rparr>
      = (r\<lparr>r_branches := r_branches r @ [b]\<rparr>)\<lparr>r_storage := st\<rparr>" by simp
  ultimately show ?thesis using assms(1) ok by auto
qed

lemma keeps_ok_create_branch: "keeps_ok (create_branch E name)" "keeps_ok (create_branch_from E name i)"
proof -
  have "repo_ok (snd (create_branch E name r))" if "repo_ok r" for r
    using add_branch_ok [OF that, of "branch_new E name (br_head (r_branches r ! r_current r))"]
      current_head_known [OF that] that
    by (auto simp: create_branch_def fail_def sbind_def branch_new_def)
  then show "keeps_ok (create_branch E name)" by (simp add: stays_def)
  have "repo_ok (snd (create_branch_from E name i r))" if "repo_ok r" for r
    using add_branch_ok [OF that, of "branch_new E name i"] that
    by (auto simp: create_branch_from_def fail_def branch_new_def intro: fmdomI)
  then show "keeps_ok (create_branch_from E name i)" by (simp add: stays_def)
qed

lemma keeps_ok_switch: "keeps_ok (repo_switch_branch E name)"
proof -
  have "repo_ok (snd (repo_switch_branch E name r))" if "repo_ok r" for r
  proof (cases "position (\<lambda>b. br_name b = name) (r_branches r)")
    case None
    with that show ?thesis by (simp add: repo_switch_branch_def sbind_def query_def find_branch_def)
  next
    case (Some idx)
    let ?r = "r\<lparr>r_current := idx\<rparr>"
    have "repo_ok ?r" using position_SomeD [OF Some] that by (simp add: repo_ok_def branches_ok_def)
    moreover have "snd (repo_switch_branch E name r) = snd (on_storage (store_metadata E ''current_branch'' name) ?r)"
      using Some by (simp add: repo_switch_branch_def sbind_def query_def find_branch_def update_def
          split: prod.split result.split)
    ultimately show ?thesis using keeps_ok_on_storage by (simp add: stays_def)
  qed
  then show ?thesis by (simp add: stays_def)
qed

lemma keeps_ok_source: "keeps_ok (set_snapshot_source i x source)"
proof -
  have "repo_ok (snd (set_snapshot_source i x source r))" if ok: "repo_ok r" for r
  proof (cases "fmlookup (r_checkpoints r) i")
    case None
    with ok show ?thesis by (simp add: set_snapshot_source_def)
  next
    case (Some cp)
    let ?cps = "fmupd i (cp\<lparr>cp_sources := fmupd x source (cp_sources cp)\<rparr>) (r_checkpoints r)"
    have dom: "fmdom ?cps = fmdom (r_checkpoints r)" using Some by (auto intro: fmdomI)
    have "parents_known ?cps"
      using ok Some unfolding repo_ok_def parents_known_def by (auto simp: dom)
    moreover have "dag_matches ?cps (r_dag r)"
      using ok Some unfolding repo_ok_def dag_matches_def dom by auto
    moreover have "index_matches ?cps (r_time_index r)"
      using ok Some unfolding repo_ok_def index_matches_def by auto
    moreover have "branches_ok (r_branches r) (r_current r) ?cps"
      using ok unfolding repo_ok_def branches_ok_def dom by simp
    ultimately show ?thesis using Some by (simp add: set_snapshot_source_def repo_ok_def)
  qed
  then show ?thesis by (simp add: stays_def)
qed

lemma repo_ok_new: "repo_ok (repo_new E snaps)"
proof -
  let ?root = "checkpoint_new E snaps [] (metadata_new ''system'' ''root checkpoint'')"
  have succs: "succs (dag_nodes (dag_add_node i dag_new)) = (\<lambda>x. [])" for i
    by (auto simp: dag_add_node_def dag_new_def)
  have "dag_ok (dag_add_node (cp_id ?root) dag_new)" by (intro dag_ok_add_node dag_ok_new)
  then have "dag_matches (fmupd (cp_id ?root) ?root fmempty) (dag_add_node (cp_id ?root) dag_new)"
    unfolding dag_matches_def succs by (simp add: dag_add_node_def dag_new_def)
  then show ?thesis
    by (auto simp add: repo_ok_def repo_new_def create_root_checkpoint_def parents_known_def index_matches_def
        branches_ok_def branch_new_def ti_insert_def ti_new_def Let_def)
qed

theorem commit_extends_history_witness:
  "\<exists>i r'. repo_commit sample_env [ContentId ''t''] ''msg'' ''ann'' (repo_new sample_env [ContentId ''s'']) = (Ok i, r')
     \<and> current_branch_head r' = (Ok i, r') \<and> length (log_from i 2 r') = 2"
proof -
  let ?r = "repo_new sample_env [ContentId ''s'']"
  let ?root = "checkpoint_new sample_env [ContentId ''s''] [] (metadata_new ''system'' ''root checkpoint'')"
  let ?cp = "checkpoint_new sample_env [ContentId ''t''] [cp_id ?root] (metadata_new ''ann'' ''msg'')"
  have cur: "fmlookup (r_checkpoints ?r) (cp_id ?root) = Some ?root" by (simp add: repo_new_parts)
  have "cp_id ?cp \<noteq> cp_id ?root" by code_simp
  then have fresh: "cp_id ?cp |\<notin>| fmdom (r_checkpoints ?r)" by (simp add: repo_new_parts)
  have snaps: "[ContentId ''t''] \<noteq> []" "cp_snapshots ?root \<noteq> [ContentId ''t'']" by simp_all
  from commit_extends_history [OF repo_ok_new snaps(1) repo_new_parts(2) cur snaps(2) refl fresh, of 1]
  obtain r' where r': "repo_commit sample_env [ContentId ''t''] ''msg'' ''ann'' ?r = (Ok (cp_id ?cp), r')"
    "current_branch_head r' = (Ok (cp_id ?cp), r')"
    "log_from (cp_id ?cp) (Suc 1) r' = ?cp # log_from (cp_id ?root) 1 ?r" by blast
  have "log_from (cp_id ?root) 1 ?r = [?root]"
    by (simp add: log_from_def explore.simps(2) pushed_nodes_def succs_parent_graph repo_new_parts map_filter_simps)
  then have "length (log_from (cp_id ?cp) 2 r') = 2" using r'(3) by (simp add: numeral_2_eq_2)
  with r'(1,2) show ?thesis by blast
qed

lemma recorded_kept:
  assumes "repo_ok r" and "cp_sources cp = fmempty" and "cp_id cp |\<notin>| fmdom (r_checkpoints r)"
    and "set (cp_parents cp) \<subseteq> fset (fmdom (r_checkpoints r))"
  shows "repo_ok (snd (record_checkpoint E cp r))"
  using assms by (simp add: record_checkpoint_run current_head_known(3) repo_ok_recorded)

lemma source_head_known:
  "repo_ok r \<Longrightarrow> get_branch_head name r = Ok i \<Longrightarrow> i |\<in>| fmdom (r_checkpoints r)"
  by (auto simp: get_branch_head_def find_branch_def and_then_eq_Ok repo_ok_def branches_ok_def
      dest!: position_SomeD)

text \<open>Deleting a branch leaves the index of the current branch as it is.\<close>

lemma remove_branch_parts:
  assumes "find_branch name r = Ok idx"
  obtains st ds where "snd (remove_branch name r)
    = r\<lparr>r_branches := take idx (r_branches r) @ drop (Suc idx) (r_branches r), r_deleted_branches := ds, r_storage := st\<rparr>"
proof -
  let ?rest = "r\<lparr>r_branches := take idx (r_branches r) @ drop (Suc idx) (r_branches r)\<rparr>"
  let ?r1 = "if r_storage r = None then ?rest\<lparr>r_deleted_branches := set_insert name (r_deleted_branches ?rest)\<rparr> else ?rest"
  obtain st where st: "snd (on_storage (delete_branch name) ?r1) = ?r1\<lparr>r_storage := st\<rparr>"
    using on_storage_only [of "delete_branch name" ?r1] by blast
  have run: "snd (remove_branch name r) = ?r1\<lparr>r_storage := st\<rparr>"
    using st by (simp add: remove_branch_def sbind_def query_def assms update_def)
  show thesis
  proof (cases "r_storage r = None")
    case True
    with run show ?thesis by (intro that) simp
  next
    case False
    with run show ?thesis by (intro that [where ds = "r_deleted_branches r"]) simp
  qed
qed

lemma remove_branch_ok:
  assumes "repo_ok r"
  shows "repo_ok (snd (remove_branch name r)) \<longleftrightarrow> r_current r < length (r_branches (snd (remove_branch name r)))"
proof (cases "find_branch name r")
  case (Ok idx)
  obtain st ds where rest: "snd (remove_branch name r)
    = r\<lparr>r_branches := take idx (r_branches r) @ drop (Suc idx) (r_branches r), r_deleted_branches := ds, r_storage := st\<rparr>"
    by (rule remove_branch_parts [OF Ok])
  have names: "distinct (map br_name (r_branches r))" using assms by (simp add: repo_ok_def branches_ok_def)
  then have "distinct (map br_name (take idx (r_branches r) @ drop (Suc idx) (r_branches r)))"
    by (simp add: set_take_disj_set_drop_if_distinct flip: take_map drop_map set_map)
  moreover have "set (take idx (r_branches r) @ drop (Suc idx) (r_branches r)) \<subseteq> set (r_branches r)"
    by (auto dest: in_set_takeD in_set_dropD)
  ultimately show ?thesis using assms by (auto simp: rest repo_ok_def branches_ok_def)
qed (use assms in \<open>simp_all add: remove_branch_def sbind_def query_def repo_ok_def branches_ok_def\<close>)

text \<open>C7: the invariant of the repository holds from its creation on. Branches have different names and
  known heads, the current branch exists, parents are known, the graph has exactly the edges of the
  checkpoints with growing generations, and the time index has each checkpoint once. A commit, an
  annotation, a merge (for an identifier not seen before), the creation of a branch (at the current head or
  at a checkpoint), a switch of branch, a change of sources and the synchronisation keep it, whether they
  succeed or fail. The deletion of a branch keeps it exactly when the index of the current branch, which
  it leaves as it is, is still the index of a branch.\<close>

theorem repo_invariant:
  assumes "repo_ok r"
    and "\<And>ps. cp_id (checkpoint_new E snaps ps (metadata_new author message)) |\<notin>| fmdom (r_checkpoints r)"
  shows "repo_ok (repo_new E ss)
     \<and> repo_ok (snd (repo_commit E snaps message author r))
     \<and> repo_ok (snd (commit_allow_empty E snaps message author r))
     \<and> repo_ok (snd (merge_branches E name snaps message author r))
     \<and> repo_ok (snd (create_branch E name r)) \<and> repo_ok (snd (create_branch_from E name i r))
     \<and> repo_ok (snd (repo_switch_branch E name r)) \<and> repo_ok (snd (set_snapshot_source i x source r))
     \<and> repo_ok (snd (sync_all E r)) \<and> repo_ok (snd (sync_checkpoint E i r))
     \<and> (repo_ok (snd (remove_branch name r)) \<longleftrightarrow> r_current r < length (r_branches (snd (remove_branch name r))))"
proof -
  note known = current_head_known [OF assms(1)]
  have rec_ok: "repo_ok (snd (record_checkpoint E (checkpoint_new E snaps ps (metadata_new author message)) r))"
    if "set ps \<subseteq> fset (fmdom (r_checkpoints r))" for ps
    using that by (intro recorded_kept assms) simp_all
  have "repo_ok (snd (commit_allow_empty E snaps message author r))"
    using rec_ok [of "[br_head (r_branches r ! r_current r)]"] known(2)
    by (simp add: commit_allow_empty_def sbind_def known(1))
  moreover have "repo_ok (snd (repo_commit E snaps message author r))"
    using rec_ok [of "[br_head (r_branches r ! r_current r)]"] known(2) assms(1)
    by (auto simp: repo_commit_def sbind_def known(1) fail_def query_def split: result.split)
  moreover have "repo_ok (snd (merge_branches E name snaps message author r))"
  proof (cases "get_branch_head name r")
    case (Ok h)
    have "h |\<in>| fmdom (r_checkpoints r)" by (rule source_head_known [OF assms(1) Ok])
    with rec_ok [of "[br_head (r_branches r ! r_current r), h]"] known(2) assms(1) Ok show ?thesis
      by (simp add: merge_branches_def sbind_def known(1) fail_def query_def)
  qed (use assms(1) in \<open>simp_all add: merge_branches_def sbind_def fail_def query_def\<close>)
  ultimately show ?thesis
    using repo_ok_new keeps_ok_create_branch [of E name] keeps_ok_switch [of E name] keeps_ok_source [of i x source]
      keeps_ok_sync [of E] assms(1) remove_branch_ok [OF assms(1), of name]
    by (simp add: stays_def)
qed

theorem repo_invariant_witness:
  "repo_ok (snd (repo_commit sample_env [ContentId ''t''] ''msg'' ''ann'' (repo_new sample_env [])))"
proof -
  have "cp_id (checkpoint_new sample_env [ContentId ''t''] ps (metadata_new ''ann'' ''msg''))
      |\<notin>| fmdom (r_checkpoints (repo_new sample_env []))" for ps
  proof -
    have "last (xs @ ''msg'') \<noteq> last ''systemroot checkpoint''" for xs :: string by simp
    then have "xs @ ''msg'' \<noteq> ''systemroot checkpoint''" for xs by metis
    then show ?thesis
      by (simp add: repo_new_parts checkpoint_new_def Let_def checkpoint_compute_id_def checkpoint_preimage_def
          metadata_new_def sample_env_def flip: append_assoc)
  qed
  from repo_invariant [OF repo_ok_new this] show ?thesis by blast
qed

section \<open>Deleting a branch\<close>

text \<open>Deleting a branch before the current one moves the current branch. The index of the current
  branch stays as it is while the branches after the deleted one move down: the repository then
  works on the next branch, and when the current branch was the last one every use of it panics.\<close>

lemma remove_branch_moves_current:
  assumes "repo_ok r" and "find_branch name r = Ok idx" and "idx < r_current r"
  shows "(Suc (r_current r) < length (r_branches r) \<longrightarrow>
           fst (current_branch (snd (remove_branch name r))) = Ok (r_branches r ! Suc (r_current r)))
     \<and> (Suc (r_current r) = length (r_branches r) \<longrightarrow>
           fst (current_branch (snd (remove_branch name r))) = Panic)"
proof -
  have len: "r_current r < length (r_branches r)" by (rule current_head_known(3) [OF assms(1)])
  obtain st ds where rest: "snd (remove_branch name r)
    = r\<lparr>r_branches := take idx (r_branches r) @ drop (Suc idx) (r_branches r), r_deleted_branches := ds, r_storage := st\<rparr>"
    by (rule remove_branch_parts [OF assms(2)])
  then have "r_current (snd (remove_branch name r)) = r_current r
     \<and> r_branches (snd (remove_branch name r)) = take idx (r_branches r) @ drop (Suc idx) (r_branches r)"
    by simp
  moreover have "(take idx (r_branches r) @ drop (Suc idx) (r_branches r)) ! r_current r
      = r_branches r ! Suc (r_current r)" if "Suc (r_current r) < length (r_branches r)"
    using that assms(3) by (simp add: nth_append)
  ultimately show ?thesis using len assms(3) by (auto simp: current_branch_def query_def)
qed

lemma remove_branch_moves_current_witness:
  "fst (current_branch (snd (remove_branch ''main''
     (snd (repo_switch_branch sample_env ''dev'' (snd (create_branch sample_env ''dev'' (repo_new sample_env [])))))))) = Panic"
proof -
  let ?r1 = "snd (create_branch sample_env ''dev'' (repo_new sample_env []))"
  let ?r = "snd (repo_switch_branch sample_env ''dev'' ?r1)"
  have "repo_ok ?r1"
    using keeps_ok_create_branch(1) [of sample_env "''dev''"] repo_ok_new by (simp add: stays_def)
  then have "repo_ok ?r" using keeps_ok_switch [of sample_env "''dev''"] by (simp add: stays_def)
  moreover have "find_branch ''main'' ?r = Ok 0" "0 < r_current ?r" "Suc (r_current ?r) = length (r_branches ?r)"
    by code_simp+
  ultimately show ?thesis using remove_branch_moves_current by blast
qed

end
