(* ===== verification/Checkpoint_Storage.thy ===== *)
theory Checkpoint_Storage
  imports Checkpoint_History
begin

text \<open>
  The repository and its storage: what a commit writes is what the next \<open>load\<close> reads; what the
  synchronisation does not write; and the graph built from the checkpoints alone.
\<close>

section \<open>Maps read from tables\<close>

lemma set_sorted_list_of_fmap: "(k, v) \<in> set (sorted_list_of_fmap m) \<longleftrightarrow> fmlookup m k = Some v"
  by (auto simp: sorted_list_of_fmap_def intro: fmdomI)

lemma set_fmap_values: "v \<in> set (fmap_values m) \<longleftrightarrow> (\<exists>k. fmlookup m k = Some v)"
  by (auto simp: fmap_values_def set_sorted_list_of_fmap intro: rev_image_eqI [of "(_, v)"])

lemma distinct_fmap_values:
  assumes "\<And>k v. fmlookup m k = Some v \<Longrightarrow> f v = k"
  shows "distinct (map f (fmap_values m))"
proof -
  have "map f (fmap_values m) = map fst (sorted_list_of_fmap m)"
    using assms by (auto simp: fmap_values_def set_sorted_list_of_fmap)
  then show ?thesis by (simp add: sorted_list_of_fmap_def o_def sorted_list_of_fset.rep_eq)
qed

lemma collect_lookup:
  assumes "distinct (map cp_id cps)"
  shows "fmlookup (collect_checkpoints cps) i = Some cp \<longleftrightarrow> cp \<in> set cps \<and> cp_id cp = i"
proof -
  have "fmlookup (fold (\<lambda>cp. fmupd (cp_id cp) cp) cps m) i = Some cp
      \<longleftrightarrow> (cp \<in> set cps \<and> cp_id cp = i) \<or> (i \<notin> cp_id ` set cps \<and> fmlookup m i = Some cp)" for m
    using assms by (induction cps arbitrary: m) auto
  then show ?thesis by (simp add: collect_checkpoints_def)
qed

lemma get_checkpoint_iff:
  assumes "distinct (map cr_id (t_checkpoints s))"
  shows "get_checkpoint E i s = Ok cp \<longleftrightarrow> (\<exists>row \<in> set (t_checkpoints s). ContentId (cr_id row) = i \<and> cp = row_to_checkpoint E row)"
proof -
  have "select_row cr_id (id_bytes i) (t_checkpoints s) = Some row
      \<longleftrightarrow> row \<in> set (t_checkpoints s) \<and> ContentId (cr_id row) = i" for row
    using assms find_Some_iff_distinct [of cr_id "t_checkpoints s" row] select_row_SomeD [of cr_id "id_bytes i"]
    by (cases i) (auto simp: select_row_def)
  then show ?thesis by (auto simp: get_checkpoint_def and_then_eq_Ok)
qed

lemma row_to_checkpoint_id [simp]: "cp_id (row_to_checkpoint E row) = ContentId (cr_id row)"
  by (simp add: row_to_checkpoint_def)

section \<open>Opening a repository again\<close>

text \<open>The storage has what the memory has, but for the time at which a branch was last moved: memory and
  storage read the clock on their own.\<close>

definition undated :: "branch \<Rightarrow> branch" where
  "undated b = b\<lparr>br_updated_at := 0\<rparr>"

lemma undated_parts [simp]:
  "br_name (undated b) = br_name b" "br_head (undated b) = br_head b" "br_created_at (undated b) = br_created_at b"
  by (simp_all add: undated_def)

lemma undated_same: "undated b = undated b' \<Longrightarrow> br_name b = br_name b' \<and> br_head b = br_head b'"
  by (metis undated_parts(1,2))

lemma undated_member:
  assumes "undated ` A = undated ` B" and "b \<in> A"
  obtains b' where "b' \<in> B" and "br_name b = br_name b'" and "br_head b = br_head b'"
proof -
  have "undated b \<in> undated ` B" using assms by blast
  then obtain b' where "b' \<in> B" "undated b = undated b'" by blast
  with undated_same that show thesis by blast
qed

definition persisted :: "env \<Rightarrow> repo \<Rightarrow> db \<Rightarrow> bool" where
  "persisted E r s \<longleftrightarrow> r_storage r = Some s \<and> distinct (map cr_id (t_checkpoints s))
     \<and> (\<forall>i cp. get_checkpoint E i s = Ok cp \<longleftrightarrow> fmlookup (r_checkpoints r) i = Some cp)
     \<and> distinct (map br_name (t_branches s)) \<and> undated ` set (t_branches s) = undated ` set (r_branches r)
     \<and> load_metadata ''current_branch'' s = Ok (Some (br_name (r_branches r ! r_current r)))"

lemma row_to_checkpoint_moment [simp]: "row_to_checkpoint (at_moment E now u) = row_to_checkpoint E"
  by (rule ext) (simp add: row_to_checkpoint_def at_moment_def split: option.split)

lemma get_checkpoint_moment [simp]: "get_checkpoint (at_moment E now u) i s = get_checkpoint E i s"
  by (simp add: get_checkpoint_def)

lemma persisted_moment [simp]: "persisted (at_moment E now u) r s = persisted E r s"
  by (simp add: persisted_def)

lemma collect_listed:
  assumes "persisted E r s" and "list_checkpoints E s = Ok cps"
  shows "collect_checkpoints cps = r_checkpoints r"
proof (rule fmap_ext)
  fix i
  have keys: "distinct (map cr_id (t_checkpoints s))" using assms(1) by (simp add: persisted_def)
  have cps: "cps = map (row_to_checkpoint E) (order_by_desc cr_created_at (t_checkpoints s))"
    using assms(2) by (simp add: list_checkpoints_def)
  have "mset (map cr_id (order_by_desc cr_created_at (t_checkpoints s))) = mset (map cr_id (t_checkpoints s))"
    by (simp add: order_by_desc_def)
  then have "distinct (map cr_id (order_by_desc cr_created_at (t_checkpoints s)))"
    using keys mset_eq_imp_distinct_iff by blast
  then have "distinct (map ContentId (map cr_id (order_by_desc cr_created_at (t_checkpoints s))))"
    by (subst distinct_map) (auto simp: inj_on_def)
  then have "distinct (map cp_id cps)" by (simp add: cps o_def)
  then have "fmlookup (collect_checkpoints cps) i = Some cp \<longleftrightarrow> get_checkpoint E i s = Ok cp" for cp
    by (auto simp: collect_lookup get_checkpoint_iff [OF keys] cps order_by_desc_def)
  with assms(1) have "fmlookup (collect_checkpoints cps) i = Some cp \<longleftrightarrow> fmlookup (r_checkpoints r) i = Some cp" for cp
    by (simp add: persisted_def)
  then show "fmlookup (collect_checkpoints cps) i = fmlookup (r_checkpoints r) i"
    by (metis not_Some_eq)
qed

lemma index_of_checkpoints:
  assumes "parents_known cps"
  shows "index_matches cps (ti_from_checkpoints (fmap_values cps))"
proof -
  let ?f = "\<lambda>c. (cp_created_at c, cp_id c)"
  have ids: "cp_id cp = i" if "fmlookup cps i = Some cp" for i cp
    using assms that by (simp add: parents_known_def)
  have m: "mset (ti_flat (ti_from_checkpoints (fmap_values cps))) = mset (map ?f (fmap_values cps))"
    and ok: "ti_ok (ti_from_checkpoints (fmap_values cps))"
    using ti_from_checkpoints_contents [of "fmap_values cps"] by auto
  have "distinct (map snd (map ?f (fmap_values cps)))"
    using distinct_fmap_values [of cps cp_id] ids by (simp add: o_def)
  then have "distinct (map ?f (fmap_values cps))" by (simp only: distinct_map)
  with mset_eq_imp_distinct_iff [OF m] have "distinct (ti_flat (ti_from_checkpoints (fmap_values cps)))" by blast
  moreover have "(t, i) \<in> set (ti_flat (ti_from_checkpoints (fmap_values cps)))
      \<longleftrightarrow> (\<exists>cp. fmlookup cps i = Some cp \<and> cp_created_at cp = t)" for t i
    unfolding mset_eq_setD [OF m] using ids by (force simp: set_fmap_values)
  ultimately show ?thesis using ok by (simp add: index_matches_def)
qed

lemma result_exhaust_Ok: "r \<noteq> Panic \<Longrightarrow> \<not> (\<exists>e. r = Err e) \<Longrightarrow> \<exists>x. r = Ok x"
  by (cases r) auto

lemma load_graph_Ok: "\<exists>G. load_graph cps bs s = Ok G"
  by (simp add: load_graph_def load_dag_def Let_def)

lemma unique_branch:
  assumes "distinct (map br_name bs)" and "b \<in> set bs" and "b' \<in> set bs" and "br_name b = br_name b'"
  shows "b = b'"
  using assms by (metis distinct_map inj_onD)

lemma load_persisted:
  assumes "repo_ok r" and "persisted E r s"
  obtains r' where "repo_load E s = (Ok r', s)" and "r_storage r' = Some s"
    and "r_checkpoints r' = r_checkpoints r" and "undated ` set (r_branches r') = undated ` set (r_branches r)"
    and "current_branch_head r' = (Ok (br_head (r_branches r ! r_current r)), r')"
    and "index_matches (r_checkpoints r) (r_time_index r')"
proof -
  let ?b = "r_branches r ! r_current r" and ?cps = "r_checkpoints r"
  obtain cps where cps: "list_checkpoints E s = Ok cps" by (simp add: list_checkpoints_def)
  define bs where "bs = sort_key br_name (t_branches s)"
  obtain G where G: "load_graph ?cps bs s = Ok G" using load_graph_Ok by blast
  have collected: "collect_checkpoints cps = ?cps" by (rule collect_listed [OF assms(2) cps])
  have "?cps \<noteq> fmempty" using current_head_known(2) [OF assms(1)] by auto
  then have init: "load_or_init E s = (Ok (?cps, bs), s)"
    by (simp add: load_or_init_def sbind_map_err_query [where h = "list_checkpoints E", OF cps] collected
        sbind_map_err_query [where h = list_branches and x = bs] list_branches_def bs_def ret_def)
  have name: "load_metadata ''current_branch'' s = Ok (Some (br_name ?b))"
    using assms(2) by (simp add: persisted_def)
  have set_bs: "undated ` set bs = undated ` set (r_branches r)" using assms(2) by (simp add: bs_def persisted_def)
  have b: "?b \<in> set (r_branches r)" using current_head_known(3) [OF assms(1)] by simp
  obtain b0 where "b0 \<in> set bs" "br_name ?b = br_name b0"
    by (rule undated_member [OF set_bs [symmetric] b])
  then obtain j where j: "position (\<lambda>b. br_name b = br_name ?b) bs = Some j"
    using position_None_iff [of "\<lambda>b. br_name b = br_name ?b" bs] by fastforce
  from position_SomeD [OF j] have at_j: "j < length bs" "br_name (bs ! j) = br_name ?b" by auto
  obtain b' where b': "b' \<in> set (r_branches r)" "br_name (bs ! j) = br_name b'" "br_head (bs ! j) = br_head b'"
    by (rule undated_member [OF set_bs nth_mem [OF at_j(1)]])
  have "distinct (map br_name (r_branches r))" using assms(1) by (simp add: repo_ok_def branches_ok_def)
  then have "b' = ?b" using b'(1) b by (rule unique_branch) (simp add: b'(2) [symmetric] at_j(2))
  with b'(3) have head_j: "br_head (bs ! j) = br_head ?b" by simp
  define r' where "r' = \<lparr>r_branches = bs, r_current = j, r_dag = G, r_checkpoints = ?cps,
      r_snapshots = load_snapshots E (fmap_values ?cps) s, r_storage = Some s,
      r_time_index = ti_from_checkpoints (fmap_values ?cps),
      r_deleted_checkpoints = [], r_deleted_branches = [], r_dirty = []\<rparr>"
  have "repo_load E s = (Ok r', s)"
    by (simp add: repo_load_def sbind_apply_Ok [where m = "load_or_init E", OF init]
        sbind_map_err_query [where h = "load_graph ?cps bs", OF G]
        sbind_map_err_query [where h = "load_metadata ''current_branch''", OF name])
      (simp add: query_def j r'_def)
  moreover have "index_matches ?cps (r_time_index r')"
    using assms(1) by (simp add: r'_def repo_ok_def index_of_checkpoints)
  ultimately show thesis
    using that [of r'] set_bs at_j(1) head_j
    by (simp add: r'_def current_branch_head_def current_branch_run sbind_def ret_def)
qed

section \<open>A commit is persisted\<close>

definition dag_tables_only :: "db \<Rightarrow> db \<Rightarrow> bool" where
  "dag_tables_only s s' \<longleftrightarrow> (\<exists>es gs. s' = s\<lparr>t_dag_edges := es, t_dag_generations := gs\<rparr>)"

interpretation dag_tables: state_preorder dag_tables_only
proof
  show "dag_tables_only s s" for s
    unfolding dag_tables_only_def by (intro exI [of _ "t_dag_edges s"] exI [of _ "t_dag_generations s"]) simp
qed (auto simp: dag_tables_only_def, blast)

lemma store_parent_edges_tables:
  "\<exists>es gs. snd (store_parent_edges cp G s) = s\<lparr>t_dag_edges := es, t_dag_generations := gs\<rparr>"
proof -
  have edge: "stays dag_tables_only (store_dag_edge p c g)" for p c g
    by (auto simp: stays_def dag_tables_only_def store_dag_edge_def update_def Let_def store_dag_edge_row_def
        store_generation_row_def)
  have "stays dag_tables_only (store_parent_edges cp G)"
    unfolding store_parent_edges_def
    by (intro dag_tables.stays_for_each) (auto intro: dag_tables.stays_ret edge split: option.split)
  then show ?thesis by (simp add: stays_def dag_tables_only_def)
qed

lemma persist_db_tables:
  assumes "cp_sources cp = fmempty"
  obtains es gs where "snd (persist_db E cp G name s) =
    s\<lparr>t_checkpoints := insert_or_ignore cr_id (checkpoint_to_row cp None) (t_checkpoints s),
      t_dag_edges := es, t_dag_generations := gs,
      t_branches := update_rows (\<lambda>b. br_name b = name) (\<lambda>b. row_head E b (cp_id cp)) (t_branches s)\<rparr>"
proof -
  let ?s = "s\<lparr>t_checkpoints := insert_or_ignore cr_id (checkpoint_to_row cp None) (t_checkpoints s)\<rparr>"
  obtain es gs where t: "snd (store_parent_edges cp G ?s) = ?s\<lparr>t_dag_edges := es, t_dag_generations := gs\<rparr>"
    using store_parent_edges_tables by blast
  then have "store_parent_edges cp G ?s = (Ok (), ?s\<lparr>t_dag_edges := es, t_dag_generations := gs\<rparr>)"
    using store_parent_edges_run [of cp G ?s] by (metis prod.collapse)
  then show thesis
    using that [where es = es and gs = gs]
    by (simp add: persist_db_def sbind_def store_checkpoint_run [OF assms] update_branch_head_def update_def)
qed

lemma checkpoint_row_roundtrip:
  "cp_sources cp = fmempty \<Longrightarrow> row_to_checkpoint E (checkpoint_to_row cp None) = cp"
  by (cases cp, cases "cp_metadata cp") (simp add: row_to_checkpoint_def checkpoint_to_row_def)

lemma set_update_rows:
  "set (update_rows p f xs) = (\<lambda>x. if p x then f x else x) ` set xs"
  by (simp add: update_rows_def)

text \<open>A new head in memory and in the storage, up to the time.\<close>

definition rehead :: "string \<Rightarrow> checkpoint_id \<Rightarrow> branch \<Rightarrow> branch" where
  "rehead n i b = (if br_name b = n then b\<lparr>br_head := i\<rparr> else b)"

lemma undated_heads:
  "undated (if br_name b = n then row_head E b i else b) = rehead n i (undated b)"
  "undated (if br_name b = n then set_head E b i else b) = rehead n i (undated b)"
  by (simp_all add: undated_def rehead_def set_head_def)

lemma set_branches_updated:
  assumes "n < length bs" and "distinct (map br_name bs)"
  shows "set (bs[n := f (bs ! n)]) = (\<lambda>b. if br_name b = br_name (bs ! n) then f b else b) ` set bs"
proof -
  have "bs[n := f (bs ! n)] = map (\<lambda>b. if br_name b = br_name (bs ! n) then f b else b) bs"
    using assms by (intro nth_equalityI) (auto simp: nth_list_update distinct_conv_nth)
  then show ?thesis by simp
qed

lemma persisted_recorded:
  assumes "repo_ok r" and "persisted E r s" and "cp_sources cp = fmempty"
    and "cp_id cp |\<notin>| fmdom (r_checkpoints r)"
  obtains s' where "persisted E (recorded E cp r) s'"
proof -
  let ?b = "r_branches r ! r_current r" and ?G = "add_to_dag cp (r_dag r)"
  let ?row = "checkpoint_to_row cp None"
  obtain es gs where s': "snd (persist_db E cp ?G (br_name ?b) s) =
    s\<lparr>t_checkpoints := insert_or_ignore cr_id ?row (t_checkpoints s),
      t_dag_edges := es, t_dag_generations := gs,
      t_branches := update_rows (\<lambda>b. br_name b = br_name ?b) (\<lambda>b. row_head E b (cp_id cp)) (t_branches s)\<rparr>"
    (is "_ = ?s'") by (rule persist_db_tables [OF assms(3)])
  have keys: "distinct (map cr_id (t_checkpoints s))" using assms(2) by (simp add: persisted_def)
  have new: "\<not> list_ex (\<lambda>x. cr_id x = cr_id ?row) (t_checkpoints s)"
  proof
    assume "list_ex (\<lambda>x. cr_id x = cr_id ?row) (t_checkpoints s)"
    then obtain x where "x \<in> set (t_checkpoints s)" "ContentId (cr_id x) = cp_id cp"
      by (auto simp: list_ex_iff checkpoint_to_row_def)
    then have "\<exists>w. get_checkpoint E (cp_id cp) s = Ok w" by (auto simp: get_checkpoint_iff [OF keys])
    with assms(2,4) show False by (auto simp: persisted_def intro: fmdomI)
  qed
  then have rows: "t_checkpoints ?s' = t_checkpoints s @ [?row]" by (simp add: insert_or_ignore_def)
  then have keys': "distinct (map cr_id (t_checkpoints ?s'))"
    using keys new by (auto simp: list_ex_iff)
  have get: "get_checkpoint E i ?s' = Ok w \<longleftrightarrow> fmlookup (fmupd (cp_id cp) cp (r_checkpoints r)) i = Some w" for i w
  proof -
    have "get_checkpoint E i ?s' = Ok w \<longleftrightarrow> get_checkpoint E i s = Ok w \<or> ContentId (cr_id ?row) = i \<and> w = cp"
      by (auto simp: get_checkpoint_iff [OF keys'] get_checkpoint_iff [OF keys] rows
          checkpoint_row_roundtrip [OF assms(3)])
    then show ?thesis using assms(2,4) by (auto simp: persisted_def checkpoint_to_row_def intro: fmdomI)
  qed
  have names: "distinct (map br_name (r_branches r))" and len: "r_current r < length (r_branches r)"
    using assms(1) by (simp_all add: repo_ok_def branches_ok_def)
  have "map br_name (t_branches ?s') = map br_name (t_branches s)" by (simp add: update_rows_def)
  moreover have "undated ` set (t_branches ?s')
      = undated ` set ((r_branches r)[r_current r := set_head E ?b (cp_id cp)])"
  proof -
    have "undated ` set (t_branches ?s') = rehead (br_name ?b) (cp_id cp) ` undated ` set (t_branches s)"
      by (simp add: set_update_rows image_image undated_heads(1) del: if_image_distrib)
    moreover have "undated ` set ((r_branches r)[r_current r := set_head E ?b (cp_id cp)])
        = rehead (br_name ?b) (cp_id cp) ` undated ` set (r_branches r)"
      by (simp add: set_branches_updated [OF len names, of "\<lambda>b. set_head E b (cp_id cp)"] image_image undated_heads(2)
          del: if_image_distrib)
    ultimately show ?thesis using assms(2) by (simp add: persisted_def)
  qed
  moreover have "load_metadata ''current_branch'' ?s' = Ok (Some (br_name ?b))"
    using assms(2) by (simp add: persisted_def load_metadata_def)
  ultimately have "persisted E (recorded E cp r) ?s'"
    using assms(2) keys' get s' len unfolding persisted_def recorded_def Let_def by simp
  then show thesis by (rule that)
qed

text \<open>A storage without checkpoints gets a root checkpoint and a main branch.\<close>

lemma load_initial:
  obtains r s where "repo_load E empty_db = (Ok r, s)" and "repo_ok r" and "persisted E r s"
    and "r_checkpoints r = fmupd (cp_id (checkpoint_new E [] [] (metadata_new ''system'' ''root checkpoint'')))
      (checkpoint_new E [] [] (metadata_new ''system'' ''root checkpoint'')) fmempty"
    and "current_branch_head r = (Ok (cp_id (checkpoint_new E [] [] (metadata_new ''system'' ''root checkpoint''))), r)"
proof -
  let ?root = "checkpoint_new E [] [] (metadata_new ''system'' ''root checkpoint'')"
  let ?main = "branch_new E ''main'' (cp_id ?root)"
  let ?s = "empty_db\<lparr>t_checkpoints := [checkpoint_to_row ?root None], t_branches := [?main],
    t_dag_store := [\<lparr>mr_key = ''current_branch'', mr_value = ''main'', mr_updated_at = env_now E RowClock\<rparr>]\<rparr>"
  let ?cps = "fmupd (cp_id ?root) ?root fmempty"
  have init: "load_or_init E empty_db = (Ok (?cps, [?main]), ?s)"
    by (simp add: load_or_init_def list_checkpoints_def list_branches_def empty_db_def sbind_def query_def map_err_def
        order_by_desc_def collect_checkpoints_def create_root_checkpoint_def Let_def store_checkpoint_run
        insert_or_ignore_def store_branch_def store_metadata_def insert_or_replace_def update_def ret_def)
  have name: "load_metadata ''current_branch'' ?s = Ok (Some ''main'')"
    by (simp add: load_metadata_def select_row_def) code_simp
  have vals: "fmap_values ?cps = [?root]" by (simp add: fmap_values_def sorted_list_of_fmap_def sorted_list_of_fset.rep_eq)
  have graph: "load_graph ?cps [?main] ?s = Ok (build_dag [?root])"
    by (simp add: load_graph_def dag_has_node_def empty_db_def Let_def branch_new_def vals)
  define r where "r = \<lparr>r_branches = [?main], r_current = 0, r_dag = build_dag [?root], r_checkpoints = ?cps,
      r_snapshots = load_snapshots E [?root] ?s, r_storage = Some ?s,
      r_time_index = ti_from_checkpoints [?root],
      r_deleted_checkpoints = [], r_deleted_branches = [], r_dirty = []\<rparr>"
  have "repo_load E empty_db = (Ok r, ?s)"
    by (simp add: repo_load_def sbind_apply_Ok [where m = "load_or_init E", OF init]
        sbind_map_err_query [where h = "load_graph ?cps [?main]", OF graph]
        sbind_map_err_query [where h = "load_metadata ''current_branch''", OF name] vals)
      (simp add: query_def r_def branch_new_def)
  moreover have "repo_ok r"
  proof -
    have "r_checkpoints r = r_checkpoints (repo_new E [])" "r_dag r = r_dag (repo_new E [])"
      "r_time_index r = r_time_index (repo_new E [])" "r_branches r = r_branches (repo_new E [])"
      "r_current r = r_current (repo_new E [])"
      by (simp_all add: r_def repo_new_def create_root_checkpoint_def Let_def build_dag_def add_checkpoint_edges_def
          ti_from_checkpoints_def)
    with repo_ok_new [of E "[]"] show ?thesis by (simp add: repo_ok_def)
  qed
  moreover have "persisted E r ?s"
    using name checkpoint_row_roundtrip [of ?root E]
    by (auto simp: persisted_def r_def get_checkpoint_iff empty_db_def branch_new_def)
  moreover have "r_checkpoints r = ?cps" by (simp add: r_def)
  moreover have "current_branch_head r = (Ok (cp_id ?root), r)"
    by (simp add: current_branch_head_def sbind_def current_branch_run r_def branch_new_def ret_def)
  ultimately show thesis by (rule that)
qed



section \<open>Sources recorded after the commit\<close>

text \<open>A snapshot source that is recorded after the commit never reaches the storage. The row of a stored
  checkpoint is not replaced: after recording a source and synchronising that checkpoint, memory has
  the new source and the storage still answers with the checkpoint as it was stored first.\<close>

lemma source_never_persisted:
  assumes "r_storage r = Some s" and "get_checkpoint E i s = Ok w" and "fmlookup (r_checkpoints r) i = Some cp"
    and "cp_id cp = i"
    and "r' = snd (sync_checkpoint E i (snd (set_snapshot_source i x source r)))"
  shows "\<exists>s'. r_storage r' = Some s' \<and> get_checkpoint E i s' = Ok w
     \<and> (\<exists>cp'. fmlookup (r_checkpoints r') i = Some cp' \<and> fmlookup (cp_sources cp') x = Some source)"
proof -
  let ?cp = "cp\<lparr>cp_sources := fmupd x source (cp_sources cp)\<rparr>"
  have "get_checkpoint E i (snd (store_checkpoint E ?cp s)) = Ok w"
    by (rule checkpoints.get_stable [OF assms(2)])
  then show ?thesis
    unfolding assms(5)
    by (cases "store_checkpoint E ?cp s")
      (simp add: set_snapshot_source_def assms(1,3) sync_checkpoint_def on_storage_def)
qed

lemma source_never_persisted_witness:
  "\<exists>s' cp'. let root = checkpoint_new sample_env [] [] (metadata_new ''a'' ''b'');
      r' = snd (sync_checkpoint sample_env (cp_id root) (snd (set_snapshot_source (cp_id root) zero_id ''file://x''
             ((repo_new sample_env [])\<lparr>r_checkpoints := fmupd (cp_id root) root fmempty,
                r_storage := Some (snd (store_checkpoint sample_env root empty_db))\<rparr>))))
    in r_storage r' = Some s' \<and> get_checkpoint sample_env (cp_id root) s' = Ok root
     \<and> fmlookup (r_checkpoints r') (cp_id root) = Some cp' \<and> fmlookup (cp_sources cp') zero_id = Some ''file://x''"
proof -
  let ?root = "checkpoint_new sample_env [] [] (metadata_new ''a'' ''b'')"
  let ?s = "snd (store_checkpoint sample_env ?root empty_db)"
  let ?r = "(repo_new sample_env [])\<lparr>r_checkpoints := fmupd (cp_id ?root) ?root fmempty, r_storage := Some ?s\<rparr>"
  have 1: "r_storage ?r = Some ?s" "fmlookup (r_checkpoints ?r) (cp_id ?root) = Some ?root" by simp_all
  have 2: "get_checkpoint sample_env (cp_id ?root) ?s = Ok ?root"
    by (simp add: store_checkpoint_run empty_db_def insert_or_ignore_def get_checkpoint_iff checkpoint_row_roundtrip)
  show ?thesis
    using source_never_persisted [OF 1(1) 2 1(2) refl refl, of zero_id "''file://x''"]
    unfolding Let_def by blast
qed

section \<open>The graph built from the checkpoints\<close>

text \<open>No checkpoint comes after one of its children.\<close>

fun parents_first :: "checkpoint list \<Rightarrow> bool" where
  "parents_first [] = True"
| "parents_first (cp # cps) = (cp_id cp \<notin> set (cp_parents cp)
     \<and> (\<forall>c \<in> set cps. cp_id c \<noteq> cp_id cp \<and> cp_id c \<notin> set (cp_parents cp)) \<and> parents_first cps)"

lemma add_checkpoint_edges_leaf:
  assumes "dag_ok G" and "succs (dag_nodes G) (cp_id cp) = []" and "cp_id cp \<notin> set (cp_parents cp)"
  shows "dag_ok (add_checkpoint_edges cp G)
     \<and> dag_edges (add_checkpoint_edges cp G) = dag_edges G \<union> {(p, cp_id cp) | p. p \<in> set (cp_parents cp)}"
proof -
  let ?c = "cp_id cp"
  have "dag_ok (fold (\<lambda>p. dag_add_edge_unchecked p ?c) ps H)
     \<and> dag_edges (fold (\<lambda>p. dag_add_edge_unchecked p ?c) ps H) = dag_edges H \<union> {(p, ?c) | p. p \<in> set ps}"
    if "dag_ok H" "succs (dag_nodes H) ?c = []" "?c \<notin> set ps" for ps H
    using that
  proof (induction ps arbitrary: H)
    case (Cons p ps)
    let ?H = "dag_add_edge_unchecked p ?c H"
    have "dag_ok ?H" using Cons.prems by (intro dag_ok_add_edge) auto
    moreover have "succs (dag_nodes ?H) ?c = []"
      using Cons.prems by (simp add: dag_add_edge_unchecked_def Let_def)
    ultimately show ?case using Cons.IH [of ?H] Cons.prems by auto
  qed simp
  from this [of "dag_add_node ?c G" "cp_parents cp"] assms show ?thesis
    by (simp add: add_checkpoint_edges_def dag_ok_add_node) (simp add: dag_add_node_def)
qed

text \<open>The graph built from the checkpoints alone is exact when no checkpoint comes after one of its
  children: generations grow along every edge, the edges are those of the parents, and an ancestor
  query is reachability.\<close>

lemma build_dag_parents_first:
  assumes "parents_first cps"
  shows "dag_ok (build_dag cps) \<and> dag_edges (build_dag cps) = {(p, cp_id c) | p c. c \<in> set cps \<and> p \<in> set (cp_parents c)}
     \<and> (is_ancestor a d (build_dag cps) \<longleftrightarrow>
         (a, d) \<in> {(p, cp_id c) | p c. c \<in> set cps \<and> p \<in> set (cp_parents c)}\<^sup>*)"
proof -
  have built: "dag_ok (fold add_checkpoint_edges cps G)
     \<and> dag_edges (fold add_checkpoint_edges cps G) = dag_edges G \<union> {(p, cp_id c) | p c. c \<in> set cps \<and> p \<in> set (cp_parents c)}"
    if "dag_ok G" "\<forall>c \<in> set cps. succs (dag_nodes G) (cp_id c) = []" for G
    using assms that
  proof (induction cps arbitrary: G)
    case (Cons cp cps)
    let ?G = "add_checkpoint_edges cp G"
    have G: "dag_ok ?G" "dag_edges ?G = dag_edges G \<union> {(p, cp_id cp) | p. p \<in> set (cp_parents cp)}"
      using add_checkpoint_edges_leaf [of G cp] Cons.prems by auto
    have "succs (dag_nodes ?G) (cp_id c) = []" if "c \<in> set cps" for c
    proof -
      have "(cp_id c, y) \<notin> dag_edges ?G" for y
        unfolding G(2) using Cons.prems that by auto
      then show ?thesis by (metis edges_iff list.set_intros(1) neq_Nil_conv)
    qed
    with Cons.IH [of ?G] Cons.prems G show ?case by auto
  qed simp
  have "dag_edges dag_new = {}" by (auto simp: dag_new_def edges_def)
  then have "dag_ok (build_dag cps)"
    "dag_edges (build_dag cps) = {(p, cp_id c) | p c. c \<in> set cps \<and> p \<in> set (cp_parents c)}"
    using built [OF dag_ok_new] by (simp_all add: build_dag_def dag_new_def)
  then show ?thesis by (simp add: is_ancestor_iff)
qed

definition linked_checkpoint :: "string \<Rightarrow> string list \<Rightarrow> checkpoint" where
  "linked_checkpoint n ps =
     \<lparr>cp_id = ContentId n, cp_parents = map ContentId ps, cp_snapshots = [], cp_metadata = metadata_new ''x'' ''y'',
      cp_created_at = 0, cp_sources = fmempty\<rparr>"

lemma build_dag_parents_first_witness:
  "is_ancestor (ContentId ''a'') (ContentId ''c'')
     (build_dag [linked_checkpoint ''a'' [], linked_checkpoint ''b'' [''a''], linked_checkpoint ''c'' [''b'']])"
proof -
  let ?cps = "[linked_checkpoint ''a'' [], linked_checkpoint ''b'' [''a''], linked_checkpoint ''c'' [''b'']]"
  let ?E = "{(p, cp_id c) | p c. c \<in> set ?cps \<and> p \<in> set (cp_parents c)}"
  have "parents_first ?cps" by (simp add: linked_checkpoint_def)
  moreover have edge: "(p, cp_id c) \<in> ?E" if "c \<in> set ?cps" "p \<in> set (cp_parents c)" for p c
    using that by blast
  have "(ContentId ''a'', ContentId ''b'') \<in> ?E" "(ContentId ''b'', ContentId ''c'') \<in> ?E"
    using edge [of "linked_checkpoint ''b'' [''a'']" "ContentId ''a''"]
      edge [of "linked_checkpoint ''c'' [''b'']" "ContentId ''b''"]
    by (simp_all add: linked_checkpoint_def)
  then have "(ContentId ''a'', ContentId ''c'') \<in> ?E\<^sup>*" by (meson converse_rtrancl_into_rtrancl r_into_rtrancl)
  ultimately show ?thesis using build_dag_parents_first [of ?cps] by blast
qed

text \<open>In another order of the same checkpoints, which is the order of a hash map, the graph can be wrong.
  When the child of \<open>a\<close> is taken before \<open>a\<close>, it gets the generation that \<open>a\<close> gets later, and \<open>a\<close> is not
  reported as the ancestor of its own child.\<close>

lemma build_dag_order_matters:
  "is_ancestor (ContentId ''a'') (ContentId ''b'')
     (build_dag [linked_checkpoint ''a'' [''r''], linked_checkpoint ''b'' [''a'']])
   \<and> \<not> is_ancestor (ContentId ''a'') (ContentId ''b'')
     (build_dag [linked_checkpoint ''b'' [''a''], linked_checkpoint ''a'' [''r'']])"
  by (intro conjI) code_simp+

end
