(* ===== verification/Checkpoint_Recovery.thy ===== *)
theory Checkpoint_Recovery
  imports Checkpoint_Restore Checkpoint_Storage
begin

text \<open>
  What transactions and restore guarantee: without a storage the contents of a committed transaction
  are read back; with one the commit of sources fails after memory has changed; a restore by time
  takes the latest checkpoint of the range; what a comparison, an integrity check and an ancestry
  chain report; and which files a restore writes.
\<close>

section \<open>Transactions in memory\<close>

definition stored_id :: "env \<Rightarrow> snapshot_content \<times> string \<Rightarrow> snapshot_id" where
  "stored_id E x = s_id (content_to_snapshot E (fst x) (snd x))"

lemma content_to_snapshot_simps [simp]:
  "s_content (content_to_snapshot E c src) = Some c" "s_source (content_to_snapshot E c src) = src"
  "s_id (content_to_snapshot E c src) = stored_id E (c, src)"
  by (simp_all add: stored_id_def) (simp_all add: content_to_snapshot_def snapshot_new_with_content_def)

lemma fold_fmupd_inj:
  assumes "inj_on k (set xs)" and "x \<in> set xs"
  shows "fmlookup (fold (\<lambda>x. fmupd (k x) (v x)) xs m) (k x) = Some (v x)"
  using assms
proof (induction xs arbitrary: m)
  case (Cons y ys)
  have other: "fmlookup (fold (\<lambda>x. fmupd (k x) (v x)) ys m') i = fmlookup m' i" if "i \<notin> k ` set ys" for m' i
    using that by (induction ys arbitrary: m') auto
  show ?case
  proof (cases "x \<in> set ys")
    case False
    then have "x = y" and "k x \<notin> k ` set ys" using Cons.prems by (auto dest: inj_onD)
    then show ?thesis by (simp add: other)
  qed (use Cons in auto)
qed simp

definition store_contents_db :: "env \<Rightarrow> (snapshot_content \<times> string) list \<Rightarrow> db \<Rightarrow> db" where
  "store_contents_db E cs s =
     fold (\<lambda>x s. snd (store_snapshot E (content_to_snapshot E (fst x) (snd x)) (to_bytes E (fst x)) s)) cs s"

lemma store_contents_run:
  "store_contents E cs ids m r = (Ok (ids @ map (stored_id E) cs, fold (\<lambda>x. fmupd (stored_id E x) (snd x)) cs m),
     r\<lparr>r_storage := map_option (store_contents_db E cs) (r_storage r),
       r_snapshots := fold (\<lambda>x. fmupd (stored_id E x) (content_to_snapshot E (fst x) (snd x))) cs (r_snapshots r)\<rparr>)"
proof (induction cs arbitrary: r ids m)
  case Nil
  have "store_contents_db E [] = (\<lambda>s. s)" by (simp add: store_contents_db_def fun_eq_iff)
  then show ?case by (simp add: ret_def option.map_ident)
next
  case (Cons x xs)
  obtain c src where x: "x = (c, src)" by (cases x)
  let ?x = "content_to_snapshot E c src"
  have "store_snapshot_content E c src r
      = (Ok ?x, r\<lparr>r_storage := map_option (\<lambda>s. snd (store_snapshot E ?x (to_bytes E c) s)) (r_storage r),
           r_snapshots := fmupd (stored_id E (c, src)) ?x (r_snapshots r)\<rparr>)"
    by (simp add: store_snapshot_content_def Let_def sbind_def on_storage_run update_def ret_def cache_snapshot_def)
  then show ?case
    by (simp add: x sbind_def Cons.IH store_contents_db_def option.map_comp o_def)
qed

lemma stored_rows:
  "x \<in> set cs \<Longrightarrow> \<exists>row \<in> set (t_snapshots (store_contents_db E cs s)). sr_id row = id_bytes (stored_id E x)"
proof (induction cs rule: rev_induct)
  case (snoc y ys)
  let ?s = "store_contents_db E ys s"
  have s: "store_contents_db E (ys @ [y]) s
      = snd (store_snapshot E (content_to_snapshot E (fst y) (snd y)) (to_bytes E (fst y)) ?s)"
    by (simp add: store_contents_db_def)
  have "set (t_snapshots ?s) \<subseteq> set (t_snapshots (store_contents_db E (ys @ [y]) s))
     \<and> (\<exists>row \<in> set (t_snapshots (store_contents_db E (ys @ [y]) s)). sr_id row = id_bytes (stored_id E y))"
    unfolding s by (auto simp: store_snapshot_def update_def insert_or_ignore_def list_ex_iff)
  with snoc show ?case by auto
qed simp

definition tx_recorded :: "env \<Rightarrow> checkpoint \<Rightarrow> repo \<Rightarrow> repo" where
  "tx_recorded E cp r =
     r\<lparr>r_checkpoints := fmupd (cp_id cp) cp (r_checkpoints r), r_dag := add_to_dag cp (r_dag r),
       r_branches := (r_branches r)[r_current r := set_head E (r_branches r ! r_current r) (cp_id cp)],
       r_dirty := set_insert (cp_id cp) (r_dirty r)\<rparr>"

lemma store_checkpoint_internal_run:
  assumes "r_current r < length (r_branches r)"
  shows "store_checkpoint_internal E cp r
    = on_storage (sbind (store_checkpoint E cp)
        (\<lambda>_. update_branch_head E (br_name (r_branches r ! r_current r)) (cp_id cp))) (tx_recorded E cp r)"
  using assms
  by (simp add: store_checkpoint_internal_def sbind_def update_def set_current_head_def current_branch_run
      tx_recorded_def cong del: prod.case_cong_weak result.case_cong_weak)

definition tx_checkpoint :: "env \<Rightarrow> transaction \<Rightarrow> checkpoint" where
  "tx_checkpoint E tx =
     (checkpoint_new E (map (stored_id E) (tx_snapshots tx)) (tx_parents tx) (tx_metadata tx))
       \<lparr>cp_sources := fold (\<lambda>x. fmupd (stored_id E x) (snd x)) (tx_snapshots tx) fmempty\<rparr>"

lemma tx_checkpoint_simps [simp]:
  "cp_snapshots (tx_checkpoint E tx) = map (stored_id E) (tx_snapshots tx)"
  "cp_parents (tx_checkpoint E tx) = tx_parents tx"
  "cp_sources (tx_checkpoint E tx) = fold (\<lambda>x. fmupd (stored_id E x) (snd x)) (tx_snapshots tx) fmempty"
  by (simp_all add: tx_checkpoint_def)

lemma tx_commit_run:
  fixes E :: env
  assumes "tx_snapshots tx \<noteq> []" and "r_current r < length (r_branches r)"
  defines "r1 \<equiv> r\<lparr>r_storage := map_option (store_contents_db E (tx_snapshots tx)) (r_storage r),
     r_snapshots := fold (\<lambda>x. fmupd (stored_id E x) (content_to_snapshot E (fst x) (snd x)))
       (tx_snapshots tx) (r_snapshots r)\<rparr>"
  shows "tx_commit E tx r
    = sbind (on_storage (sbind (store_checkpoint E (tx_checkpoint E tx))
          (\<lambda>_. update_branch_head E (br_name (r_branches r ! r_current r)) (cp_id (tx_checkpoint E tx)))))
        (\<lambda>_. ret (cp_id (tx_checkpoint E tx))) (tx_recorded E (tx_checkpoint E tx) r1)"
proof -
  have "tx_commit E tx r = sbind (store_checkpoint_internal E (tx_checkpoint E tx)) (\<lambda>_. ret (cp_id (tx_checkpoint E tx))) r1"
    using assms(1) unfolding tx_commit_def tx_checkpoint_def r1_def
    by (simp add: sbind_apply_Ok [OF store_contents_run] Let_def)
  moreover have "r_branches r1 = r_branches r" "r_current r1 = r_current r" by (simp_all add: r1_def)
  ultimately show ?thesis
    using assms(2) store_checkpoint_internal_run [of r1 E "tx_checkpoint E tx"] by (simp add: sbind_def)
qed

text \<open>Reading back contents that are in the cache.\<close>

lemma load_cached:
  assumes "r_storage r = None"
    and "\<And>x. x \<in> set cs \<Longrightarrow> fmlookup (r_snapshots r) (stored_id E x) = Some (content_to_snapshot E (fst x) (snd x))"
  shows "load_all_snapshot_contents E (map (stored_id E) cs) r
     = Ok (map (\<lambda>x. (stored_id E x, fst x, snd x)) cs)"
  using assms(2)
  by (induction cs)
    (simp_all add: load_all_snapshot_contents_def load_snapshot_content_def get_snapshot_by_id_def
      restored_content_def restored_source_def assms(1))

text \<open>The repository without a storage after the commit of a transaction.\<close>

definition tx_memory :: "env \<Rightarrow> transaction \<Rightarrow> repo \<Rightarrow> repo" where
  "tx_memory E tx r = tx_recorded E (tx_checkpoint E tx)
     (r\<lparr>r_snapshots := fold (\<lambda>x. fmupd (stored_id E x) (content_to_snapshot E (fst x) (snd x)))
        (tx_snapshots tx) (r_snapshots r)\<rparr>)"

lemma tx_commit_in_memory:
  "r_storage r = None \<Longrightarrow> r_current r < length (r_branches r) \<Longrightarrow> tx_snapshots tx \<noteq> [] \<Longrightarrow>
   tx_commit E tx r = (Ok (cp_id (tx_checkpoint E tx)), tx_memory E tx r)"
  by (simp add: tx_commit_run sbind_def on_storage_def ret_def tx_recorded_def tx_memory_def)

lemma tx_memory_cached:
  "inj_on (stored_id E) (set (tx_snapshots tx)) \<Longrightarrow> x \<in> set (tx_snapshots tx) \<Longrightarrow>
   fmlookup (r_snapshots (tx_memory E tx r)) (stored_id E x) = Some (content_to_snapshot E (fst x) (snd x))"
  using fold_fmupd_inj [where v = "\<lambda>x. content_to_snapshot E (fst x) (snd x)"]
  by (simp add: tx_memory_def tx_recorded_def)

lemma content_to_snapshot_id: "snapshot_compute_id E (content_to_snapshot E c src) = stored_id E (c, src)"
  using snapshot_seal_compute_id unfolding stored_id_def content_to_snapshot_def snapshot_new_with_content_def by simp

text \<open>C14: a transaction commits its contents as one checkpoint that can be restored. In a repository
  without a storage, when different contents get different identifiers, the commit succeeds, the
  checkpoint is the head of the current branch, a full restore returns exactly the contents with
  their sources in the order they were added, a selective restore those whose source matches, and
  earlier checkpoints are as they were.\<close>

theorem transaction_restores:
  assumes "r_storage r = None" and "r_current r < length (r_branches r)" and "tx_snapshots tx \<noteq> []"
    and "inj_on (stored_id E) (set (tx_snapshots tx))"
  shows "\<exists>i r' cp anc. tx_commit E tx r = (Ok i, r') \<and> current_branch_head r' = (Ok i, r')
     \<and> restore_full E i r' = Ok \<lparr>rs_checkpoint = cp,
          rs_snapshots = map (\<lambda>x. (stored_id E x, fst x, snd x)) (tx_snapshots tx), rs_ancestry = anc\<rparr>
     \<and> restore_selective E i filters r' = Ok \<lparr>rs_checkpoint = cp,
          rs_snapshots = map (\<lambda>x. (stored_id E x, fst x, snd x))
            (filter (\<lambda>x. list_ex (matches_glob (snd x)) filters) (tx_snapshots tx)), rs_ancestry = anc\<rparr>
     \<and> cp_parents cp = tx_parents tx
     \<and> (\<forall>j. j \<noteq> i \<longrightarrow> repo_get_checkpoint j r' = repo_get_checkpoint j r)"
proof -
  let ?cs = "tx_snapshots tx" and ?cp = "tx_checkpoint E tx" and ?r = "tx_memory E tx r"
  note run = tx_memory_def tx_recorded_def
  have "tx_commit E tx r = (Ok (cp_id ?cp), ?r)" by (rule tx_commit_in_memory [OF assms(1-3)])
  moreover have "current_branch_head ?r = (Ok (cp_id ?cp), ?r)"
    using assms(2) by (simp add: current_branch_head_def sbind_def current_branch_run ret_def run)
  moreover have cp: "repo_get_checkpoint (cp_id ?cp) ?r = Ok ?cp"
    by (simp add: repo_get_checkpoint_def run)
  moreover obtain anc where anc: "get_ancestry_chain (cp_id ?cp) ?r = Ok anc" by (simp add: get_ancestry_chain_def)
  have cached: "fmlookup (r_snapshots ?r) (stored_id E x) = Some (content_to_snapshot E (fst x) (snd x))"
    if "x \<in> set ?cs" for x
    by (rule tx_memory_cached [OF assms(4) that])
  have nost: "r_storage ?r = None" using assms(1) by (simp add: run)
  have "restore_full E (cp_id ?cp) ?r = Ok \<lparr>rs_checkpoint = ?cp,
      rs_snapshots = map (\<lambda>x. (stored_id E x, fst x, snd x)) ?cs, rs_ancestry = anc\<rparr>"
    using load_cached [OF nost cached, of ?cs] by (simp add: restore_full_def cp anc)
  moreover have "restore_selective E (cp_id ?cp) filters ?r = Ok \<lparr>rs_checkpoint = ?cp,
      rs_snapshots = map (\<lambda>x. (stored_id E x, fst x, snd x))
        (filter (\<lambda>x. list_ex (matches_glob (snd x)) filters) ?cs), rs_ancestry = anc\<rparr>"
  proof -
    have "source_of ?cp (stored_id E x) = snd x" if "x \<in> set ?cs" for x
      using fold_fmupd_inj [OF assms(4) that, of snd] by (simp add: source_of_def)
    then have "filter (\<lambda>i. list_ex (matches_glob (source_of ?cp i)) filters) (map (stored_id E) ?cs)
        = map (stored_id E) (filter (\<lambda>x. list_ex (matches_glob (snd x)) filters) ?cs)"
      by (simp add: filter_map o_def cong: filter_cong)
    with load_cached [OF nost cached, of "filter (\<lambda>x. list_ex (matches_glob (snd x)) filters) ?cs"] show ?thesis
      by (simp add: restore_selective_def cp anc Let_def)
  qed
  moreover have "\<forall>j. j \<noteq> cp_id ?cp \<longrightarrow> repo_get_checkpoint j ?r = repo_get_checkpoint j r"
    by (simp add: repo_get_checkpoint_def run)
  ultimately show ?thesis using tx_checkpoint_simps(2) by blast
qed

theorem transaction_restores_witness:
  "\<exists>i r' cp anc. tx_commit sample_env (add_snapshot ''agent://a'' (Structured ''state'')
        (add_snapshot ''file://f'' (FileContent ''text'') (tx_new (metadata_new ''x'' ''y'') [])))
      (repo_new sample_env []) = (Ok i, r')
   \<and> restore_selective sample_env i [''file://''] r' = Ok \<lparr>rs_checkpoint = cp,
        rs_snapshots = [(stored_id sample_env (FileContent ''text'', ''file://f''), FileContent ''text'', ''file://f'')],
        rs_ancestry = anc\<rparr>"
proof -
  let ?tx = "add_snapshot ''agent://a'' (Structured ''state'')
        (add_snapshot ''file://f'' (FileContent ''text'') (tx_new (metadata_new ''x'' ''y'') []))"
  have cs: "tx_snapshots ?tx = [(FileContent ''text'', ''file://f''), (Structured ''state'', ''agent://a'')]"
    by (simp add: add_snapshot_def tx_new_def)
  have "stored_id sample_env (FileContent ''text'', ''file://f'') \<noteq> stored_id sample_env (Structured ''state'', ''agent://a'')"
    by code_simp
  then have inj: "inj_on (stored_id sample_env) (set (tx_snapshots ?tx))" by (simp add: cs inj_on_def)
  have r: "r_storage (repo_new sample_env []) = None" "r_current (repo_new sample_env []) < length (r_branches (repo_new sample_env []))"
    by (simp_all add: repo_new_def create_root_checkpoint_def Let_def)
  have ne: "tx_snapshots ?tx \<noteq> []" by (simp add: cs)
  have f: "filter (\<lambda>x. list_ex (matches_glob (snd x)) [''file://'']) (tx_snapshots ?tx) = [(FileContent ''text'', ''file://f'')]"
    unfolding cs by code_simp
  from transaction_restores [OF r ne inj, of "[''file://'']"] show ?thesis
    unfolding f by auto
qed

section \<open>Transactions and the storage\<close>

text \<open>With a storage a transaction fails after it has changed memory. The sources of a checkpoint are
  a map whose keys are not strings, which serde_json refuses to write. The commit then returns that
  error, but the new checkpoint is in memory and is the head of the current branch, while the
  tables of checkpoints and branches do not have it.\<close>

lemma transaction_fails_half_done:
  assumes "r_storage r = Some s" and "r_current r < length (r_branches r)" and "tx_snapshots tx \<noteq> []"
    and "\<And>m. m \<noteq> fmempty \<Longrightarrow> env_sources_to_json E m = Inl ''key must be a string''"
  shows "\<exists>r' s' i. tx_commit E tx r = (Err (Storage (SSerialization ''key must be a string'')), r')
     \<and> current_branch_head r' = (Ok i, r') \<and> fmlookup (r_checkpoints r') i \<noteq> None
     \<and> r_storage r' = Some s' \<and> t_checkpoints s' = t_checkpoints s \<and> t_branches s' = t_branches s
     \<and> (\<forall>x \<in> set (tx_snapshots tx). \<exists>row \<in> set (t_snapshots s'). sr_id row = id_bytes (stored_id E x))"
proof -
  let ?cs = "tx_snapshots tx" and ?cp = "tx_checkpoint E tx"
  let ?r1 = "r\<lparr>r_storage := map_option (store_contents_db E ?cs) (r_storage r),
     r_snapshots := fold (\<lambda>x. fmupd (stored_id E x) (content_to_snapshot E (fst x) (snd x))) ?cs (r_snapshots r)\<rparr>"
  let ?r = "tx_recorded E ?cp ?r1"
  have "cp_sources ?cp \<noteq> fmempty"
  proof -
    obtain x xs where "?cs = xs @ [x]" using assms(3) by (cases ?cs rule: rev_cases) auto
    then have "fmlookup (cp_sources ?cp) (stored_id E x) = Some (snd x)" by simp
    then show ?thesis by auto
  qed
  then have "store_checkpoint E ?cp s' = (Err (SSerialization ''key must be a string''), s')" for s'
    by (intro store_checkpoint_fails) (simp add: sources_column_def assms(4))
  then have "tx_commit E tx r = (Err (Storage (SSerialization ''key must be a string'')), ?r)"
    by (simp add: tx_commit_run [OF assms(3,2)] sbind_def on_storage_def assms(1) tx_recorded_def)
  moreover have "current_branch_head ?r = (Ok (cp_id ?cp), ?r)"
    using assms(2) by (simp add: current_branch_head_def sbind_def current_branch_run ret_def tx_recorded_def)
  moreover have "fmlookup (r_checkpoints ?r) (cp_id ?cp) \<noteq> None" by (simp add: tx_recorded_def)
  moreover have "r_storage ?r = Some (store_contents_db E ?cs s)" by (simp add: tx_recorded_def assms(1))
  moreover have "t_checkpoints (store_contents_db E cs s) = t_checkpoints s
      \<and> t_branches (store_contents_db E cs s) = t_branches s" for cs
    unfolding store_contents_db_def by (induction cs arbitrary: s) (simp_all add: store_snapshot_def update_def)
  moreover have "\<exists>row \<in> set (t_snapshots (store_contents_db E ?cs s)). sr_id row = id_bytes (stored_id E x)"
    if "x \<in> set ?cs" for x
    using that by (rule stored_rows)
  ultimately show ?thesis by blast
qed

lemma transaction_fails_half_done_witness:
  "\<exists>r' i. tx_commit sample_env (add_snapshot ''file://f'' (FileContent ''text'') (tx_new (metadata_new ''x'' ''y'') []))
      (attach_storage empty_db (repo_new sample_env []))
      = (Err (Storage (SSerialization ''key must be a string'')), r')
   \<and> current_branch_head r' = (Ok i, r') \<and> r_storage r' \<noteq> None"
proof -
  let ?tx = "add_snapshot ''file://f'' (FileContent ''text'') (tx_new (metadata_new ''x'' ''y'') [])"
  let ?r = "attach_storage empty_db (repo_new sample_env [])"
  have 1: "r_storage ?r = Some empty_db" "r_current ?r < length (r_branches ?r)" "tx_snapshots ?tx \<noteq> []"
    by (simp_all add: attach_storage_def repo_new_parts add_snapshot_def)
  have "env_sources_to_json sample_env m = Inl ''key must be a string''" if "m \<noteq> fmempty" for m
    using that by (simp add: sample_env_def)
  from transaction_fails_half_done [OF 1 this] show ?thesis by auto
qed

section \<open>Restore by time\<close>

lemma later_max:
  "fold later es e \<in> set (e # es) \<and> (\<forall>d \<in> set (e # es). fst d \<le> fst (fold later es e))"
proof (induction es arbitrary: e)
  case (Cons d es)
  have "later d e \<in> {d, e} \<and> fst d \<le> fst (later d e) \<and> fst e \<le> fst (later d e)" by (simp add: later_def)
  with Cons [of "later d e"] show ?case by fastforce
qed simp

lemma latest_entry_spec:
  "(latest_entry es = None \<longleftrightarrow> es = [])
   \<and> (\<forall>e. latest_entry es = Some e \<longrightarrow> e \<in> set es \<and> (\<forall>d \<in> set es. fst d \<le> fst e))"
  using later_max by (cases es) (simp, force)

lemma range_entries:
  "ti_query_range a b ti = Ok es \<Longrightarrow> (t, i) \<in> set es \<longleftrightarrow> (t, i) \<in> set (ti_flat ti) \<and> a \<le> t \<and> t \<le> b"
  by (auto simp: ti_query_range_def set_ti_flat split: if_splits)

text \<open>C34: a restore by a range of times is a restore of the latest checkpoint of that range. On a
  consistent repository it panics exactly when the start lies after the end, reports that nothing was
  found exactly when no checkpoint was created in the range, and otherwise restores, with the filter,
  a known checkpoint of the range than which no other of the range is later.\<close>

theorem time_range_restores_latest:
  assumes "repo_ok r"
  shows "(start_t > end_t \<longrightarrow> restore_by_time_range E start_t end_t filters r = Panic)
     \<and> (start_t \<le> end_t \<longrightarrow>
         (if \<exists>i cp. fmlookup (r_checkpoints r) i = Some cp \<and> start_t \<le> cp_created_at cp \<and> cp_created_at cp \<le> end_t
          then \<exists>i cp. fmlookup (r_checkpoints r) i = Some cp \<and> start_t \<le> cp_created_at cp \<and> cp_created_at cp \<le> end_t
            \<and> (\<forall>j cq. fmlookup (r_checkpoints r) j = Some cq \<and> start_t \<le> cp_created_at cq \<and> cp_created_at cq \<le> end_t
                 \<longrightarrow> cp_created_at cq \<le> cp_created_at cp)
            \<and> restore_by_time_range E start_t end_t filters r = restore_filtered E i filters r
          else \<exists>msg. restore_by_time_range E start_t end_t filters r = Err (NotFound msg)))"
proof (cases "end_t < start_t")
  case True
  then show ?thesis by (simp add: restore_by_time_range_def ti_query_range_def)
next
  case False
  then obtain es where es: "ti_query_range start_t end_t (r_time_index r) = Ok es"
    by (simp add: ti_query_range_def)
  let ?known = "\<lambda>i cp. fmlookup (r_checkpoints r) i = Some cp \<and> start_t \<le> cp_created_at cp \<and> cp_created_at cp \<le> end_t"
  have mem: "(t, i) \<in> set es \<longleftrightarrow> (\<exists>cp. ?known i cp \<and> cp_created_at cp = t)" for t i
    using assms range_entries [OF es, of t i] by (auto simp: repo_ok_def index_matches_def)
  show ?thesis
  proof (cases "latest_entry es")
    case None
    then have "\<not> ?known i cp" for i cp using mem [of _ i] latest_entry_spec [of es] by auto
    with False None es show ?thesis by (auto simp: restore_by_time_range_def)
  next
    case (Some e)
    obtain t i where e: "e = (t, i)" by (cases e)
    have max: "(t, i) \<in> set es" "\<forall>d \<in> set es. fst d \<le> t" using latest_entry_spec [of es] Some e by auto
    from max(1) mem obtain cp where cp: "?known i cp" "cp_created_at cp = t" by blast
    have "cp_created_at cq \<le> cp_created_at cp" if "?known j cq" for j cq
      using max(2) mem [of "cp_created_at cq" j] that cp(2) by auto
    with cp False Some e es show ?thesis by (auto simp: restore_by_time_range_def)
  qed
qed

theorem time_range_restores_latest_witness:
  "restore_by_time_range sample_env 0 5 None (repo_new sample_env []) \<noteq> Panic
   \<and> restore_by_time_range sample_env 5 0 None (repo_new sample_env []) = Panic
   \<and> (\<exists>msg. restore_by_time_range sample_env 3 5 None (repo_new sample_env []) = Err (NotFound msg))"
proof -
  let ?r = "repo_new sample_env []"
  have t: "env_now sample_env x = 0" for x by (simp add: sample_env_def)
  note R = time_range_restores_latest [OF repo_ok_new, of _ _ sample_env None sample_env "[]"]
  have "\<exists>msg. restore_by_time_range sample_env 3 5 None ?r = Err (NotFound msg)"
    using R [of 5 3] by (auto simp: repo_new_parts t split: if_splits)
  moreover have "restore_by_time_range sample_env 0 5 None ?r
      = restore_filtered sample_env (cp_id (checkpoint_new sample_env [] [] (metadata_new ''system'' ''root checkpoint''))) None ?r"
    using R [of 5 0] by (auto simp: repo_new_parts t split: if_splits)
  moreover have "restore_by_time_range sample_env 5 0 None ?r = Panic" using R [of 0 5] by simp
  ultimately show ?thesis
    by (simp add: restore_filtered_def restore_full_def repo_get_checkpoint_def repo_new_parts get_ancestry_chain_def
        load_all_snapshot_contents_def)
qed

section \<open>Inspecting checkpoints\<close>

text \<open>The comparison of two known checkpoints gives exactly the snapshots to take away and to add,
  each once, so that the second set comes from the first; it is empty exactly when both have the
  same snapshots. It never reports a modified snapshot, since it reads the same identifier twice. An
  unknown checkpoint is an error.\<close>

lemma checkpoint_diff_exact:
  "(case (fmlookup (r_checkpoints r) a, fmlookup (r_checkpoints r) b) of
      (Some ca, Some cb) \<Rightarrow> (\<exists>d. diff_checkpoints E a b r = Ok d
          \<and> set (cd_added d) = set (cp_snapshots cb) - set (cp_snapshots ca)
          \<and> set (cd_removed d) = set (cp_snapshots ca) - set (cp_snapshots cb)
          \<and> (set (cp_snapshots ca) - set (cd_removed d)) \<union> set (cd_added d) = set (cp_snapshots cb)
          \<and> distinct (cd_added d) \<and> distinct (cd_removed d) \<and> cd_modified d = []
          \<and> (checkpoint_diff_is_empty d \<longleftrightarrow> set (cp_snapshots ca) = set (cp_snapshots cb)))
    | _ \<Rightarrow> \<exists>i. diff_checkpoints E a b r = Err (not_found_checkpoint i) \<and> i \<in> {a, b} \<and> i |\<notin>| fmdom (r_checkpoints r))"
proof (cases "fmlookup (r_checkpoints r) a"; cases "fmlookup (r_checkpoints r) b")
  fix ca cb
  assume "fmlookup (r_checkpoints r) a = Some ca" "fmlookup (r_checkpoints r) b = Some cb"
  then show ?thesis
    by (auto simp: diff_checkpoints_def repo_get_checkpoint_def Let_def checkpoint_diff_new_def
        checkpoint_diff_is_empty_def filter_empty_conv)
qed (auto simp: diff_checkpoints_def repo_get_checkpoint_def fmdom_notI intro: exI [of _ a] exI [of _ b])

text \<open>The integrity check of a checkpoint reports nothing exactly when every snapshot of it can be
  read, has the identifier its data hash to, and has a source. A checkpoint committed by a
  transaction without a storage passes it.\<close>

lemma integrity_check_exact:
  "(fmlookup (r_checkpoints r) i = Some cp \<longrightarrow>
      (validate_integrity E i r = Ok [] \<longleftrightarrow>
        (\<forall>x \<in> set (cp_snapshots cp). \<exists>y. get_snapshot_by_id E x r = Ok y \<and> snapshot_compute_id E y = x
           \<and> fmlookup (cp_sources cp) x \<noteq> None)))
   \<and> (r_storage r = None \<and> r_current r < length (r_branches r) \<and> tx_snapshots tx \<noteq> []
        \<and> inj_on (stored_id E) (set (tx_snapshots tx)) \<longrightarrow>
      (\<exists>j r'. tx_commit E tx r = (Ok j, r') \<and> validate_integrity E j r' = Ok []))"
proof -
  have exact: "validate_integrity E i r = Ok [] \<longleftrightarrow>
        (\<forall>x \<in> set (cp_snapshots cp). \<exists>y. get_snapshot_by_id E x r = Ok y \<and> snapshot_compute_id E y = x
           \<and> fmlookup (cp_sources cp) x \<noteq> None)" if "fmlookup (r_checkpoints r) i = Some cp" for i cp r
  proof -
    have "snapshot_issues E cp r x = [] \<longleftrightarrow> (\<exists>y. get_snapshot_by_id E x r = Ok y \<and> snapshot_compute_id E y = x
           \<and> fmlookup (cp_sources cp) x \<noteq> None)" for x
      by (cases "get_snapshot_by_id E x r") (auto simp: snapshot_issues_def)
    with that show ?thesis by (simp add: validate_integrity_def repo_get_checkpoint_def)
  qed
  moreover have "\<exists>j r'. tx_commit E tx r = (Ok j, r') \<and> validate_integrity E j r' = Ok []"
    if tx: "r_storage r = None" "r_current r < length (r_branches r)" "tx_snapshots tx \<noteq> []"
      "inj_on (stored_id E) (set (tx_snapshots tx))"
  proof -
    let ?cs = "tx_snapshots tx"
    note run = tx_commit_in_memory [OF tx(1-3)] tx_memory_cached [OF tx(4)]
    have "validate_integrity E (cp_id (tx_checkpoint E tx)) (tx_memory E tx r) = Ok []"
      using run(2) fold_fmupd_inj [OF tx(4), of _ snd]
      by (subst exact [where cp = "tx_checkpoint E tx"])
        (auto simp: get_snapshot_by_id_def content_to_snapshot_id tx_memory_def tx_recorded_def)
    with run(1) show ?thesis by blast
  qed
  ultimately show ?thesis by blast
qed

lemma integrity_check_exact_witness:
  "\<exists>j r'. tx_commit sample_env (add_snapshot ''file://f'' (FileContent ''text'') (tx_new (metadata_new ''x'' ''y'') []))
        (repo_new sample_env []) = (Ok j, r') \<and> validate_integrity sample_env j r' = Ok []"
proof -
  let ?tx = "add_snapshot ''file://f'' (FileContent ''text'') (tx_new (metadata_new ''x'' ''y'') [])"
  have "r_storage (repo_new sample_env []) = None" by (simp add: repo_new_def create_root_checkpoint_def Let_def)
  moreover have "r_current (repo_new sample_env []) < length (r_branches (repo_new sample_env []))"
    by (simp add: repo_new_parts)
  moreover have "tx_snapshots ?tx \<noteq> []" "inj_on (stored_id sample_env) (set (tx_snapshots ?tx))"
    by (simp_all add: add_snapshot_def tx_new_def)
  ultimately show ?thesis using integrity_check_exact [of "repo_new sample_env []" undefined undefined sample_env ?tx] by blast
qed

section \<open>The ancestry chain\<close>

text \<open>The ancestry chain of a checkpoint has the checkpoint last and all its ancestors, each once. The
  documentation says that a parent comes before its child; the chain is the search in reverse,
  which does not guarantee it: for \<open>t\<close> with the parents \<open>a\<close> and \<open>b\<close>, \<open>b\<close> with the parent \<open>c\<close> and \<open>c\<close>
  with the parent \<open>a\<close>, the root \<open>a\<close> comes after its descendants \<open>c\<close> and \<open>b\<close>.\<close>

lemma ancestry_chain_contents:
  "(\<exists>xs. get_ancestry_chain i r = Ok (xs @ [i]) \<and> distinct (xs @ [i]) \<and> set (xs @ [i]) = reach (parent_graph r) {i})
   \<and> get_ancestry_chain (ContentId ''t'') ((repo_new E [])\<lparr>r_checkpoints := collect_checkpoints
        [linked_checkpoint ''t'' [''a'', ''b''], linked_checkpoint ''a'' [], linked_checkpoint ''b'' [''c''],
         linked_checkpoint ''c'' [''a'']]\<rparr>)
     = Ok [ContentId ''c'', ContentId ''b'', ContentId ''a'', ContentId ''t'']"
proof
  let ?g = "parent_graph r"
  have chain: "explore ?g [] [i] = i # explore ?g [i] (pushed_nodes ?g [i] i)" by (simp add: explore.simps(2))
  have "get_ancestry_chain i r = Ok (rev (explore ?g [i] (pushed_nodes ?g [i] i)) @ [i])"
    by (simp add: get_ancestry_chain_def explore_levels_eq chain)
  moreover have "set (rev (explore ?g [i] (pushed_nodes ?g [i] i)) @ [i]) = reach ?g {i}
      \<and> distinct (rev (explore ?g [i] (pushed_nodes ?g [i] i)) @ [i])"
    using explore_iff [of ?g "[i]"] by (simp add: chain)
  ultimately show "\<exists>xs. get_ancestry_chain i r = Ok (xs @ [i]) \<and> distinct (xs @ [i])
      \<and> set (xs @ [i]) = reach ?g {i}" by blast
next
  let ?r = "(repo_new E [])\<lparr>r_checkpoints := collect_checkpoints
        [linked_checkpoint ''t'' [''a'', ''b''], linked_checkpoint ''a'' [], linked_checkpoint ''b'' [''c''],
         linked_checkpoint ''c'' [''a'']]\<rparr>"
  have "explore_levels (parent_graph ?r) [] [ContentId ''t''] [] = [ContentId ''t'', ContentId ''a'', ContentId ''b'', ContentId ''c'']"
    by (simp add: pushed_nodes_def succs_parent_graph collect_checkpoints_def linked_checkpoint_def)
  then show "get_ancestry_chain (ContentId ''t'') ?r = Ok [ContentId ''c'', ContentId ''b'', ContentId ''a'', ContentId ''t'']"
    by (simp add: get_ancestry_chain_def)
qed

section \<open>Files written by a restore\<close>

text \<open>Paths as the layer operations record them: of a file, without a scheme.\<close>

definition plain_paths :: "repo \<Rightarrow> db \<Rightarrow> bool" where
  "plain_paths r s \<longleftrightarrow> (\<forall>row \<in> set (t_deltas s). \<not> starts_with (dr_path row) ''file://'')
     \<and> (\<forall>row \<in> set (t_snapshots s). \<not> starts_with (sr_path row) ''file://'')
     \<and> (\<forall>i x. fmlookup (r_snapshots r) i = Some x \<longrightarrow> \<not> starts_with (file_path (s_file x)) ''file://'')"

lemma get_deltas_rows:
  assumes "get_deltas is s = Ok ds" and "d \<in> set ds"
  shows "\<exists>row \<in> set (t_deltas s). d = row_to_delta row"
proof -
  have take: "d \<in> set (take_deltas m js) \<Longrightarrow> \<exists>k. fmlookup m k = Some d" for m js
  proof (induction m js rule: take_deltas.induct)
    case (2 m i js)
    then show ?case by (auto split: option.splits) (metis fmlookup_drop option.distinct(1))
  qed simp
  have map: "fmlookup (fold (\<lambda>r m. fmupd (dr_id r) (row_to_delta r) m) rows m) k = Some d
      \<Longrightarrow> fmlookup m k = Some d \<or> (\<exists>row \<in> set rows. d = row_to_delta row)" for rows m k
    by (induction rows arbitrary: m) (fastforce split: if_splits)+
  from assms take map show ?thesis by (fastforce simp: get_deltas_def delta_map_def split: if_splits)
qed

lemma snapshot_path:
  assumes "get_snapshot_by_id E i r = Ok x" and "r_storage r = Some s" and "plain_paths r s"
  shows "\<not> starts_with (file_path (s_file x)) ''file://''"
proof (cases "fmlookup (r_snapshots r) i")
  case None
  with assms(1,2) obtain row where "row \<in> set (t_snapshots s)" "x = row_to_snapshot E row"
    by (cases "select_row sr_id (id_bytes i) (t_snapshots s)")
      (auto simp: get_snapshot_by_id_def get_snapshot_def query_row_def dest: select_row_SomeD)
  with assms(3) show ?thesis by (simp add: plain_paths_def row_to_snapshot_def)
qed (use assms in \<open>auto simp: get_snapshot_by_id_def plain_paths_def\<close>)

lemma restored_path:
  assumes "load_snapshot_content E r i = Ok (j, c, source)" and "r_storage r = Some s" and "plain_paths r s"
  shows "j = i \<and> \<not> starts_with source ''file://''"
proof -
  from assms(1) obtain x where x: "get_snapshot_by_id E i r = Ok x" "restored_source (r_storage r) x = Ok source" "j = i"
    by (auto simp: load_snapshot_content_def and_then_eq_Ok)
  from x(2) assms(2) obtain ds where ds: "get_deltas (s_deltas x) s = Ok ds"
    "source = (case list_last ds of Some d \<Rightarrow> path_str (d_file d) | None \<Rightarrow> path_str (s_file x))"
    by (cases "get_deltas (s_deltas x) s") (auto simp: restored_source_def)
  show ?thesis
  proof (cases ds rule: rev_cases)
    case Nil
    with ds(2) snapshot_path [OF x(1) assms(2,3)] x(3) show ?thesis by (simp add: list_last_def path_str_def)
  next
    case (snoc ds' d)
    with get_deltas_rows [OF ds(1), of d] assms(3) ds(2) x(3) show ?thesis
      by (auto simp: list_last_def path_str_def row_to_delta_def plain_paths_def)
  qed
qed

lemma collect_results_origin:
  "collect_results f xs = Ok ys \<Longrightarrow> y \<in> set ys \<Longrightarrow> \<exists>x \<in> set xs. f x = Ok y"
  by (induction xs arbitrary: ys) (auto simp: and_then_eq_Ok)

lemma restored_origin:
  assumes "restore E rq r = Ok resp" and "x \<in> set (rs_snapshots resp)"
  shows "\<exists>i. load_snapshot_content E r i = Ok x"
proof -
  have full: "\<exists>i. load_snapshot_content E r i = Ok x" if "restore_full E j r = Ok resp" for j
    using that assms(2)
    by (auto simp: restore_full_def load_all_snapshot_contents_def and_then_eq_Ok dest: collect_results_origin)
  have sel: "\<exists>i. load_snapshot_content E r i = Ok x" if "restore_selective E j fs r = Ok resp" for j fs
    using that assms(2)
    by (auto simp: restore_selective_def load_all_snapshot_contents_def and_then_eq_Ok Let_def dest: collect_results_origin)
  have filtered: "\<exists>i. load_snapshot_content E r i = Ok x" if "restore_filtered E j fs r = Ok resp" for j fs
    using that full sel by (auto simp: restore_filtered_def split: option.splits list.splits)
  show ?thesis
    using assms(1) full sel filtered
    by (auto simp: restore_def restore_by_time_range_def and_then_eq_Ok split: option.splits)
qed

text \<open>C38: a restore from a storage rebuilds the texts and then writes no file. Every content of the answer is
  the text of its snapshot rebuilt from the deltas, but its source is the path of the file, while only
  sources with the scheme \<open>file://\<close> are written: for paths without a scheme, as the layer operations
  record them, applying the restore leaves the file system as it is and reports no file.\<close>

theorem restore_from_storage_writes_nothing:
  assumes "restore E rq r = Ok resp" and "r_storage r = Some s" and "plain_paths r s"
  shows "(\<forall>(i, content, source) \<in> set (rs_snapshots resp). \<exists>y t. get_snapshot_by_id E i r = Ok y
        \<and> fst (reconstruct_text E y s) = Ok t \<and> content = FileContent t)
     \<and> apply_restore E make_dirs write_file resp filters fs
       = (Ok \<lparr>ra_checkpoint = cp_id (rs_checkpoint resp), ra_files = []\<rparr>, fs)"
proof -
  have content: "\<exists>y t. get_snapshot_by_id E i r = Ok y \<and> fst (reconstruct_text E y s) = Ok t \<and> content = FileContent t"
    if "(i, content, source) \<in> set (rs_snapshots resp)" for i content source
    using restored_origin [OF assms(1) that] assms(2)
    by (auto simp: load_snapshot_content_def restored_content_def and_then_eq_Ok)
  have path: "\<not> starts_with source ''file://''" if "(i, content, source) \<in> set (rs_snapshots resp)" for i content source
    using restored_origin [OF assms(1) that] restored_path [OF _ assms(2,3)] by blast
  have "write_all_restored (write_restored E make_dirs write_file filters) xs = ret []"
    if "set xs \<subseteq> set (rs_snapshots resp)" for xs
    using that
  proof (induction xs)
    case (Cons x xs)
    obtain i content source where x: "x = (i, content, source)" by (cases x)
    have "strip_prefix source ''file://'' = None"
      using path [of i content source] Cons.prems x
      by (cases "strip_prefix source ''file://''") (auto simp: strip_prefix_eq_Some starts_with_def)
    then have "write_restored E make_dirs write_file filters x = ret []" by (simp add: write_restored_def x)
    with Cons show ?case by (simp add: sbind_def ret_def)
  qed simp
  then show ?thesis using content by (auto simp: apply_restore_def sbind_def ret_def)
qed

theorem restore_from_storage_writes_nothing_witness:
  "\<exists>resp. restore sample_env \<lparr>rq_checkpoint = Some (ContentId ''c''), rq_filter = None, rq_range = None\<rparr>
        ((repo_new sample_env [])\<lparr>r_checkpoints := collect_checkpoints [sample_checkpoint ''c''], r_storage := Some sample_db\<rparr>)
        = Ok resp
     \<and> rs_snapshots resp = [(ContentId ''a'', FileContent ''text'', ''f'')]
     \<and> ra_files (case apply_restore sample_env (\<lambda>p. ret ()) (\<lambda>p b. update (\<lambda>fs. fs(p \<mapsto> b))) resp None Map.empty of
           (Ok x, fs) \<Rightarrow> x) = []"
proof -
  let ?rq = "\<lparr>rq_checkpoint = Some (ContentId ''c''), rq_filter = None, rq_range = None\<rparr>"
  let ?r = "(repo_new sample_env [])\<lparr>r_checkpoints := collect_checkpoints [sample_checkpoint ''c''], r_storage := Some sample_db\<rparr>"
  have snap: "get_snapshot sample_env (ContentId ''a'') sample_db = Ok (sample_snapshot ''a'')" by code_simp
  have rebuilt: "fst (reconstruct_text sample_env (sample_snapshot ''a'') sample_db) = Ok ''text''" by code_simp
  have "load_snapshot_content sample_env ?r (ContentId ''a'') = Ok (ContentId ''a'', FileContent ''text'', ''f'')"
    using snap rebuilt
    by (simp add: load_snapshot_content_def get_snapshot_by_id_def repo_new_def create_root_checkpoint_def Let_def
        restored_content_def restored_source_def) (simp add: sample_snapshot_def get_deltas_def path_str_def)
  then obtain resp where resp: "restore sample_env ?rq ?r = Ok resp"
    "rs_snapshots resp = [(ContentId ''a'', FileContent ''text'', ''f'')]"
    by (simp add: restore_def restore_full_def repo_get_checkpoint_def collect_checkpoints_def sample_checkpoint_def
        get_ancestry_chain_def load_all_snapshot_contents_def)
  have "plain_paths ?r sample_db"
    unfolding plain_paths_def by (intro conjI) (code_simp, code_simp, simp add: repo_new_def create_root_checkpoint_def Let_def)
  from restore_from_storage_writes_nothing [OF resp(1) _ this, of "\<lambda>p. ret ()" "\<lambda>p b. update (\<lambda>fs. fs(p \<mapsto> b))" None Map.empty]
    resp show ?thesis by auto
qed

end
