(* ===== verification/Checkpoint_Gc.thy ===== *)
theory Checkpoint_Gc
  imports Checkpoint_History
begin

text \<open>
  \<^verbatim>\<open>src/git_sync/gc.rs\<close>: the mark and sweep over the checkpoints of a repository, and the depth of
  the parent chains. The depth is a recursion over the parents, which on a cycle would exhaust the
  stack: here it takes fuel, one more than there are checkpoints, and running out is a panic.
\<close>

section \<open>Marking\<close>

record gc_stats =
  gc_removed_checkpoints :: nat
  gc_removed_snapshots :: nat
  gc_freed_bytes :: nat
  gc_depth_triggered :: bool
  gc_max_depth :: nat

definition gc_stats_new :: gc_stats where
  "gc_stats_new = \<lparr>gc_removed_checkpoints = 0, gc_removed_snapshots = 0, gc_freed_bytes = 0,
     gc_depth_triggered = False, gc_max_depth = 0\<rparr>"

text \<open>The searches from the heads of the branches share the set of visited nodes.\<close>

definition protected_by_heads :: "repo \<Rightarrow> checkpoint_id list" where
  "protected_by_heads r =
     fold (\<lambda>b vis. vis @ explore (parent_graph r) vis [br_head b]) (repo_list_branches r) []"

definition is_anchored :: "repo \<Rightarrow> checkpoint_id \<Rightarrow> bool" where
  "is_anchored r i = (case result_ok (repo_get_checkpoint i r) of
     None \<Rightarrow> False | Some cp \<Rightarrow> md_git_anchor (cp_metadata cp) \<noteq> None)"

definition collect_protected_checkpoints :: "repo \<Rightarrow> checkpoint_id list" where
  "collect_protected_checkpoints r =
     fold set_insert (filter (is_anchored r) (all_nodes (r_dag r))) (protected_by_heads r)"

text \<open>A child is marked when it is queued. The children of a node have no repetitions.\<close>

definition targets :: "graph \<Rightarrow> content_id set" where
  "targets g = \<Union> (set ` fset (fmran g))"

lemma finite_targets: "finite (targets g)"
  by (simp add: targets_def)

lemma pushed_targets: "set (pushed_nodes g vis x) \<subseteq> targets g - set vis"
proof (cases "fmlookup g x")
  case (Some ys)
  then have "set ys \<subseteq> targets g" unfolding targets_def by (intro Union_upper imageI) (rule fmranI)
  with Some show ?thesis by (auto simp: pushed_nodes_def succs_def)
qed (simp add: pushed_nodes_def succs_def)

lemma mark_progress:
  "pushed_nodes g vis x \<noteq> [] \<Longrightarrow> card (targets g - set (vis @ pushed_nodes g vis x)) < card (targets g - set vis)"
  using pushed_targets [of g vis x] finite_targets [of g]
  by (intro psubset_card_mono) (auto simp: neq_Nil_conv)

function mark :: "graph \<Rightarrow> content_id list \<Rightarrow> content_id list \<Rightarrow> content_id list" where
  "mark g vis [] = vis"
| "mark g vis (x # q) = mark g (vis @ pushed_nodes g vis x) (q @ pushed_nodes g vis x)"
  by pat_completeness auto
termination
proof (relation "measures [\<lambda>(g, vis, q). card (targets g - set vis), \<lambda>(g, vis, q). length q]")
  fix g vis x q
  show "((g, vis @ pushed_nodes g vis x, q @ pushed_nodes g vis x), g, vis, x # q)
      \<in> measures [\<lambda>(g, vis, q). card (targets g - set vis), \<lambda>(g, vis, q). length q]"
    using mark_progress [of g vis x] by (cases "pushed_nodes g vis x = []") auto
qed simp

definition mark_reachable :: "repo \<Rightarrow> checkpoint_id list \<Rightarrow> checkpoint_id list" where
  "mark_reachable r protected = mark (dag_nodes (r_dag r)) protected protected"

section \<open>Depth\<close>

fun max_over_parents ::
    "(checkpoint_id \<Rightarrow> dag_generations \<Rightarrow> (nat \<times> dag_generations) option) \<Rightarrow> checkpoint_id list
      \<Rightarrow> dag_generations \<Rightarrow> (nat \<times> dag_generations) option" where
  "max_over_parents f [] memo = Some (0, memo)"
| "max_over_parents f (p # ps) memo = (case f p memo of
     None \<Rightarrow> None
   | Some (d, memo') \<Rightarrow> map_option (\<lambda>(d', m). (max d d', m)) (max_over_parents f ps memo'))"

fun depth_dfs ::
    "nat \<Rightarrow> graph \<Rightarrow> checkpoint_id \<Rightarrow> dag_generations \<Rightarrow> (nat \<times> dag_generations) option" where
  "depth_dfs 0 g i memo = None"
| "depth_dfs (Suc fuel) g i memo = (case fmlookup memo i of
     Some cached \<Rightarrow> Some (cached, memo)
   | None \<Rightarrow> (case fmlookup g i of
       None \<Rightarrow> Some (0, memo)
     | Some ps \<Rightarrow>
         if ps = [] then Some (0, fmupd i 0 memo)
         else map_option (\<lambda>(d, m). (d + 1, fmupd i (d + 1) m)) (max_over_parents (depth_dfs fuel g) ps memo)))"

definition calculate_checkpoint_depth :: "repo \<Rightarrow> checkpoint_id \<Rightarrow> nat option" where
  "calculate_checkpoint_depth r i =
     map_option fst (depth_dfs (Suc (checkpoint_count r)) (parent_graph r) i fmempty)"

fun max_of_all :: "('a \<Rightarrow> nat option) \<Rightarrow> 'a list \<Rightarrow> nat option" where
  "max_of_all f [] = Some 0"
| "max_of_all f (x # xs) = Option.bind (f x) (\<lambda>d. map_option (max d) (max_of_all f xs))"

definition calculate_max_depth :: "repo \<Rightarrow> nat option" where
  "calculate_max_depth r = max_of_all (calculate_checkpoint_depth r) (all_nodes (r_dag r))"

definition check_delta_chain_depth :: "repo \<Rightarrow> (nat \<times> bool, lt_error) result" where
  "check_delta_chain_depth r = (case calculate_max_depth r of
     None \<Rightarrow> Panic | Some d \<Rightarrow> Ok (d, d > 100))"

section \<open>Sweeping\<close>

definition count_removed :: "repo \<Rightarrow> checkpoint_id \<Rightarrow> gc_stats \<Rightarrow> gc_stats" where
  "count_removed r i st = (case result_ok (repo_get_checkpoint i r) of
     None \<Rightarrow> st
   | Some cp \<Rightarrow> st\<lparr>gc_removed_snapshots := gc_removed_snapshots st + length (cp_snapshots cp),
         gc_removed_checkpoints := gc_removed_checkpoints st + 1\<rparr>)"

definition sweep_node :: "checkpoint_id list \<Rightarrow> checkpoint_id \<Rightarrow> gc_stats \<times> repo \<Rightarrow> gc_stats \<times> repo" where
  "sweep_node keep i s = (case s of (st, r) \<Rightarrow>
     if i \<in> set keep then (st, r) else (count_removed r i st, snd (remove_checkpoint i r)))"

definition collect_garbage :: "gc_stats repo_prog" where
  "collect_garbage = (\<lambda>r.
     let keep = mark_reachable r (collect_protected_checkpoints r)
     in case calculate_max_depth r of
          None \<Rightarrow> (Panic, r)
        | Some d \<Rightarrow>
            (case fold (sweep_node keep) (all_nodes (r_dag r))
                (gc_stats_new\<lparr>gc_max_depth := d, gc_depth_triggered := (d > 100)\<rparr>, r) of
               (st, r') \<Rightarrow> (Ok st, r')))"

section \<open>What is marked\<close>

lemma mark_reach:
  assumes "set q \<subseteq> set vis" and "\<forall>v \<in> set vis - set q. set (succs g v) \<subseteq> set vis"
  shows "set (mark g vis q) = reach g (set vis)"
  using assms
proof (induction g vis q rule: mark.induct)
  case (1 g vis)
  then show ?case using reach_closed [of "set vis" g] by simp
next
  case (2 g vis x q)
  let ?new = "pushed_nodes g vis x"
  have "set (mark g (vis @ ?new) (q @ ?new)) = reach g (set (vis @ ?new))"
    using 2(2,3) by (intro 2(1)) (auto simp: set_pushed_nodes)
  moreover have "reach g (set (vis @ ?new)) = reach g (set vis)"
  proof -
    have "x \<in> set vis" using 2(2) by simp
    then have "set (vis @ ?new) = insert x (set vis \<union> set (succs g x))" "insert x (set vis) = set vis"
      by (auto simp: set_pushed_nodes)
    then show ?thesis using reach_expand [of g x "set vis"] by simp
  qed
  ultimately show ?case by simp
qed

lemma set_fold_set_insert: "set (fold set_insert xs ys) = set xs \<union> set ys"
  by (induction xs arbitrary: ys) auto

lemma reach_reach: "reach g (reach g A \<union> B) = reach g (A \<union> B)"
  by (simp add: reach_def Image_Un flip: relcomp_Image)

lemma set_protected_by_heads: "set (protected_by_heads r) = reach (parent_graph r) (br_head ` set (r_branches r))"
proof -
  let ?g = "parent_graph r"
  have "set (fold (\<lambda>b vis. vis @ explore ?g vis [br_head b]) bs vis) = reach ?g (A \<union> br_head ` set bs)"
    if "set vis = reach ?g A" for bs vis A
    using that
  proof (induction bs arbitrary: vis A)
    case (Cons b bs)
    have closed: "set (succs ?g v) \<subseteq> set vis" if "v \<in> set vis" for v
      using that unfolding Cons.prems by (auto simp: reach_iff) (metis edges_iff rtrancl.rtrancl_into_rtrancl)
    then have "frontier_ok ?g vis [br_head b]" by (auto simp: frontier_ok_def)
    from set_explore [OF this] have "set (vis @ explore ?g vis [br_head b]) = reach ?g (reach ?g A \<union> {br_head b})"
      using Cons.prems by simp
    then have "set (vis @ explore ?g vis [br_head b]) = reach ?g (A \<union> {br_head b})"
      by (simp only: reach_reach)
    from Cons.IH [OF this] show ?case by simp
  qed simp
  from this [of "[]" "{}" "r_branches r"] show ?thesis
    by (simp add: protected_by_heads_def repo_list_branches_def reach_def)
qed

lemma set_all_nodes: "set (all_nodes G) = fset (fmdom (dag_nodes G))"
  by (auto simp: all_nodes_def sorted_list_of_fmap_def)

definition protected_set :: "repo \<Rightarrow> checkpoint_id set" where
  "protected_set r = reach (parent_graph r) (br_head ` set (r_branches r))
     \<union> {i. \<exists>cp. fmlookup (r_checkpoints r) i = Some cp \<and> md_git_anchor (cp_metadata cp) \<noteq> None}"

lemma set_collect_protected:
  assumes "fmdom (dag_nodes (r_dag r)) = fmdom (r_checkpoints r)"
  shows "set (collect_protected_checkpoints r) = protected_set r"
proof -
  have "is_anchored r i \<longleftrightarrow> (\<exists>cp. fmlookup (r_checkpoints r) i = Some cp \<and> md_git_anchor (cp_metadata cp) \<noteq> None)" for i
    by (cases "fmlookup (r_checkpoints r) i") (auto simp: is_anchored_def repo_get_checkpoint_def)
  then show ?thesis
    by (auto simp: collect_protected_checkpoints_def set_fold_set_insert set_protected_by_heads set_all_nodes
        protected_set_def assms intro: fmdomI)
qed

lemma set_mark_reachable: "set (mark_reachable r ps) = reach (dag_nodes (r_dag r)) (set ps)"
  unfolding mark_reachable_def by (intro mark_reach) auto

section \<open>The depth is the longest path\<close>

definition is_depth :: "graph \<Rightarrow> checkpoint_id \<Rightarrow> nat \<Rightarrow> bool" where
  "is_depth g x d \<longleftrightarrow> (\<exists>y. (x, y) \<in> edges g ^^ d) \<and> (\<forall>n y. (x, y) \<in> edges g ^^ n \<longrightarrow> n \<le> d)"

lemma path_Suc: "(x, y) \<in> edges g ^^ Suc n \<longleftrightarrow> (\<exists>p \<in> set (succs g x). (p, y) \<in> edges g ^^ n)"
  by (auto simp flip: relpow_commute)

lemma is_depth_leaf:
  assumes "succs g x = []"
  shows "is_depth g x 0"
proof -
  have "n = 0" if "(x, y) \<in> edges g ^^ n" for n y
    using that assms by (cases n) (simp_all add: path_Suc del: relpow.simps(2))
  then show ?thesis unfolding is_depth_def by auto
qed

lemma is_depth_step:
  assumes "p \<in> set (succs g x)" and "is_depth g p d" and "\<forall>q \<in> set (succs g x). \<exists>e \<le> d. is_depth g q e"
  shows "is_depth g x (Suc d)"
proof -
  have "\<exists>y. (x, y) \<in> edges g ^^ Suc d"
    using assms(1,2) unfolding path_Suc is_depth_def by blast
  moreover have "n \<le> Suc d" if "(x, y) \<in> edges g ^^ n" for n y
  proof (cases n)
    case (Suc m)
    with that obtain q where "q \<in> set (succs g x)" "(q, y) \<in> edges g ^^ m" unfolding Suc path_Suc by blast
    with assms(3) obtain e where "e \<le> d" "m \<le> e" unfolding is_depth_def by blast
    with Suc show ?thesis by simp
  qed simp
  ultimately show ?thesis by (simp add: is_depth_def)
qed

definition memo_ok :: "graph \<Rightarrow> dag_generations \<Rightarrow> bool" where
  "memo_ok g memo \<longleftrightarrow> (\<forall>x d. fmlookup memo x = Some d \<longrightarrow> is_depth g x d)"

lemma max_over_parents_sound:
  assumes "max_over_parents f ps memo = Some (d, m)" and "memo_ok g memo"
    and "\<And>p memo e m. f p memo = Some (e, m) \<Longrightarrow> memo_ok g memo \<Longrightarrow> is_depth g p e \<and> memo_ok g m"
  shows "memo_ok g m \<and> (\<forall>p \<in> set ps. \<exists>e \<le> d. is_depth g p e) \<and> (ps \<noteq> [] \<longrightarrow> (\<exists>p \<in> set ps. is_depth g p d))"
  using assms(1,2)
proof (induction ps arbitrary: memo d m)
  case (Cons p ps)
  from Cons.prems(1) obtain e memo' d' where f: "f p memo = Some (e, memo')"
    "max_over_parents f ps memo' = Some (d', m)" "d = max e d'"
    by (auto split: option.splits)
  have p: "is_depth g p e" "memo_ok g memo'" using assms(3) [OF f(1) Cons.prems(2)] by auto
  from Cons.IH [OF f(2) p(2)] have rest: "memo_ok g m" "\<forall>p \<in> set ps. \<exists>e \<le> d'. is_depth g p e"
    "ps \<noteq> [] \<longrightarrow> (\<exists>p \<in> set ps. is_depth g p d')" by auto
  have "d' = 0" if "ps = []" using f(2) that by simp
  then have "\<exists>q \<in> set (p # ps). is_depth g q d"
    using p(1) rest(3) f(3) by (cases "ps = []"; cases "d' \<le> e") (auto simp: max_def)
  moreover have "\<forall>q \<in> set (p # ps). \<exists>e \<le> d. is_depth g q e"
    using p(1) rest(2) f(3) by (auto simp: le_max_iff_disj)
  ultimately show ?case using rest(1) by blast
qed simp

lemma depth_dfs_sound:
  "depth_dfs fuel g x memo = Some (d, m) \<Longrightarrow> memo_ok g memo \<Longrightarrow> is_depth g x d \<and> memo_ok g m"
proof (induction fuel arbitrary: x memo d m)
  case (Suc fuel)
  show ?case
  proof (cases "fmlookup memo x")
    case (Some c)
    with Suc.prems show ?thesis by (auto simp: memo_ok_def)
  next
    case None
    show ?thesis
    proof (cases "fmlookup g x")
      case None': None
      with None Suc.prems show ?thesis by (auto intro: is_depth_leaf simp: succs_def)
    next
      case (Some ps)
      then have succs: "succs g x = ps" by (simp add: succs_def)
      show ?thesis
      proof (cases "ps = []")
        case True
        with None Some Suc.prems is_depth_leaf [of g x] succs show ?thesis
          by (auto simp: memo_ok_def split: if_splits)
      next
        case False
        with None Some Suc.prems(1) obtain e m' where e: "max_over_parents (depth_dfs fuel g) ps memo = Some (e, m')"
          "d = e + 1" "m = fmupd x d m'" by auto
        from max_over_parents_sound [OF e(1) Suc.prems(2) Suc.IH] False
        have spec: "memo_ok g m'" "\<forall>p \<in> set ps. \<exists>e' \<le> e. is_depth g p e'" "\<exists>p \<in> set ps. is_depth g p e" by auto
        then have "is_depth g x d" using is_depth_step [of _ g x e] e(2) succs by auto
        with spec(1) e(3) show ?thesis by (auto simp: memo_ok_def split: if_splits)
      qed
    qed
  qed
qed simp

lemma max_over_parents_total:
  "(\<And>p memo. p \<in> set ps \<Longrightarrow> f p memo \<noteq> None) \<Longrightarrow> max_over_parents f ps memo \<noteq> None"
proof (induction ps arbitrary: memo)
  case (Cons p ps)
  obtain e m where "f p memo = Some (e, m)" using Cons.prems [of p memo] by auto
  moreover have "max_over_parents f ps m \<noteq> None" by (rule Cons.IH) (use Cons.prems in auto)
  ultimately show ?case by auto
qed simp

text \<open>Below a node there are fewer known nodes than at it.\<close>

lemma reach_below:
  assumes "acyclic (edges g)" and "x |\<in>| fmdom g" and "p \<in> set (succs g x)"
  shows "card (fset (fmdom g) \<inter> reach g {p}) < card (fset (fmdom g) \<inter> reach g {x})"
proof (rule psubset_card_mono)
  have edge: "(x, p) \<in> edges g" using assms(3) by simp
  then have "(p, x) \<notin> (edges g)\<^sup>*"
    using assms(1) by (meson acyclic_def rtrancl_into_trancl2)
  then show "fset (fmdom g) \<inter> reach g {p} \<subset> fset (fmdom g) \<inter> reach g {x}"
    using assms(2) converse_rtrancl_into_rtrancl [OF edge] by (auto simp: reach_iff)
qed simp

lemma depth_dfs_total:
  assumes "acyclic (edges g)"
  shows "card (fset (fmdom g) \<inter> reach g {x}) < fuel \<Longrightarrow> depth_dfs fuel g x memo \<noteq> None"
proof (induction fuel arbitrary: x memo)
  case (Suc fuel)
  have "max_over_parents (depth_dfs fuel g) ps memo \<noteq> None" if "fmlookup g x = Some ps" for ps
  proof (rule max_over_parents_total)
    fix p memo
    assume "p \<in> set ps"
    with that have "card (fset (fmdom g) \<inter> reach g {p}) < card (fset (fmdom g) \<inter> reach g {x})"
      by (intro reach_below [OF assms]) (auto simp: succs_def intro: fmdomI)
    with Suc.prems show "depth_dfs fuel g p memo \<noteq> None" by (intro Suc.IH) simp
  qed
  then show ?case by (auto split: option.splits)
qed simp

lemma parent_edges:
  "dag_matches (r_checkpoints r) (r_dag r) \<Longrightarrow> edges (parent_graph r) = (dag_edges (r_dag r))\<inverse>"
  by (auto simp: dag_matches_def edges_def succs_parent_graph split: option.splits) metis

lemma parents_acyclic: "dag_matches (r_checkpoints r) (r_dag r) \<Longrightarrow> acyclic (edges (parent_graph r))"
  using dag_ok_acyclic [of "r_dag r"] by (simp add: parent_edges dag_matches_def acyclic_converse)

lemma checkpoint_count_card: "checkpoint_count r = card (fset (fmdom (r_checkpoints r)))"
  by (simp add: checkpoint_count_def fmap_keys_def sorted_list_of_fmap_def o_def sorted_list_of_fset.rep_eq)

lemma calculate_checkpoint_depth_spec:
  assumes "dag_matches (r_checkpoints r) (r_dag r)"
  shows "\<exists>d. calculate_checkpoint_depth r i = Some d \<and> is_depth (parent_graph r) i d"
proof -
  let ?g = "parent_graph r"
  have "card (fset (fmdom ?g) \<inter> reach ?g {i}) \<le> checkpoint_count r"
    unfolding checkpoint_count_card by (intro card_mono) (auto simp: parent_graph_def)
  then have "card (fset (fmdom ?g) \<inter> reach ?g {i}) < Suc (checkpoint_count r)" by simp
  from depth_dfs_total [OF parents_acyclic [OF assms] this, of fmempty]
  obtain d m where d: "depth_dfs (Suc (checkpoint_count r)) ?g i fmempty = Some (d, m)" by auto
  with depth_dfs_sound [OF d] show ?thesis by (simp add: calculate_checkpoint_depth_def memo_ok_def)
qed

lemma max_of_all_spec:
  "(\<And>x. x \<in> set xs \<Longrightarrow> f x = Some (g x)) \<Longrightarrow> max_of_all f xs = Some (Max (insert 0 (g ` set xs)))"
proof (induction xs)
  case (Cons x xs)
  then have "max_of_all f (x # xs) = Some (max (g x) (Max (insert 0 (g ` set xs))))" by simp
  also have "max (g x) (Max (insert 0 (g ` set xs))) = Max (insert (g x) (insert 0 (g ` set xs)))" by simp
  finally show ?case by (simp add: insert_commute)
qed simp

lemma depth_total_of_dag: "dag_matches (r_checkpoints r) (r_dag r) \<Longrightarrow> \<exists>d. calculate_max_depth r = Some d"
proof -
  assume "dag_matches (r_checkpoints r) (r_dag r)"
  from calculate_checkpoint_depth_spec [OF this]
  have "calculate_checkpoint_depth r j = Some (the (calculate_checkpoint_depth r j))" for j by (metis option.sel)
  then show ?thesis
    using max_of_all_spec [where f = "calculate_checkpoint_depth r" and g = "\<lambda>j. the (calculate_checkpoint_depth r j)"]
    by (simp add: calculate_max_depth_def)
qed

text \<open>C35: the depth of a checkpoint is the length of the longest path over its parents, and computing it ends.
  On a consistent repository the recursion never runs out of stack, the depth of each checkpoint is
  that of a longest path from it, and the maximal depth is reached by a known checkpoint and exceeded
  by none.\<close>

theorem checkpoint_depth_longest_path:
  assumes "repo_ok r"
  shows "(\<exists>d. calculate_checkpoint_depth r i = Some d \<and> is_depth (parent_graph r) i d)
     \<and> (\<exists>m. check_delta_chain_depth r = Ok (m, m > 100)
         \<and> (\<exists>j. j |\<in>| fmdom (r_checkpoints r) \<and> is_depth (parent_graph r) j m)
         \<and> (\<forall>j. j |\<in>| fmdom (r_checkpoints r) \<longrightarrow> (\<exists>d \<le> m. is_depth (parent_graph r) j d)))"
proof -
  let ?dom = "fset (fmdom (r_checkpoints r))"
  have matches: "dag_matches (r_checkpoints r) (r_dag r)" using assms by (simp add: repo_ok_def)
  note spec = calculate_checkpoint_depth_spec [OF matches]
  from spec have "\<forall>j. \<exists>d. calculate_checkpoint_depth r j = Some d \<and> is_depth (parent_graph r) j d" by blast
  then obtain f where f: "\<And>j. calculate_checkpoint_depth r j = Some (f j) \<and> is_depth (parent_graph r) j (f j)" by metis
  have nodes: "set (all_nodes (r_dag r)) = ?dom"
    using assms by (simp add: set_all_nodes repo_ok_def dag_matches_def)
  have nonempty: "?dom \<noteq> {}" using current_head_known(2) [OF assms] by auto
  define m where "m = Max (f ` ?dom)"
  have "calculate_max_depth r = Some (Max (insert 0 (f ` ?dom)))"
    unfolding calculate_max_depth_def nodes [symmetric] by (rule max_of_all_spec) (simp add: f)
  then have "check_delta_chain_depth r = Ok (m, m > 100)"
    using nonempty by (simp add: check_delta_chain_depth_def m_def)
  moreover have "m \<in> f ` ?dom" unfolding m_def by (rule Max_in) (use nonempty in auto)
  moreover have "f j \<le> m" if "j |\<in>| fmdom (r_checkpoints r)" for j
    unfolding m_def using that by (intro Max_ge) auto
  ultimately show ?thesis using spec f by blast
qed

section \<open>What the sweep removes\<close>

lemma remove_checkpoint_effect:
  "r_checkpoints (snd (remove_checkpoint i r)) = fmdrop i (r_checkpoints r)
   \<and> r_branches (snd (remove_checkpoint i r)) = r_branches r"
proof (cases "fmlookup (r_checkpoints r) i")
  case None
  then have "fmdrop i (r_checkpoints r) = r_checkpoints r" by (intro fmap_ext) auto
  with None show ?thesis by (simp add: remove_checkpoint_def)
next
  case (Some cp)
  have "r_checkpoints (snd (on_storage m r')) = r_checkpoints r' \<and> r_branches (snd (on_storage m r')) = r_branches r'"
    for m r' using on_storage_only [of m r'] by auto
  with Some show ?thesis by (simp add: remove_checkpoint_def sbind_def update_def)
qed

lemma sweep_node_simp:
  "sweep_node keep i (st, r)
   = (if i \<in> set keep then (st, r) else (count_removed r i st, snd (remove_checkpoint i r)))"
  by (simp add: sweep_node_def)

lemma sweep_fold:
  assumes "distinct xs" and "set xs \<subseteq> fset (fmdom (r_checkpoints r))"
    and "fold (sweep_node keep) xs (st, r) = (st', r')"
  shows "(\<forall>j. fmlookup (r_checkpoints r') j
       = (if j \<in> set xs \<and> j \<notin> set keep then None else fmlookup (r_checkpoints r) j))
     \<and> r_branches r' = r_branches r \<and> gc_max_depth st' = gc_max_depth st
     \<and> gc_removed_checkpoints st' = gc_removed_checkpoints st + card (set xs - set keep)"
  using assms
proof (induction xs arbitrary: st r)
  case (Cons x xs)
  note eff = remove_checkpoint_effect [of x r]
  show ?case
  proof (cases "x \<in> set keep")
    case True
    with Cons.IH [of r st] Cons.prems show ?thesis by (auto simp: sweep_node_simp insert_Diff_if)
  next
    case False
    obtain cp where cp: "fmlookup (r_checkpoints r) x = Some cp" using Cons.prems(2) by (auto elim: fmdomE)
    have "set xs \<subseteq> fset (fmdom (r_checkpoints (snd (remove_checkpoint x r))))"
      using Cons.prems(1,2) eff by auto
    moreover have "fold (sweep_node keep) xs (count_removed r x st, snd (remove_checkpoint x r)) = (st', r')"
      using Cons.prems(3) False by (simp add: sweep_node_simp)
    ultimately have "(\<forall>j. fmlookup (r_checkpoints r') j = (if j \<in> set xs \<and> j \<notin> set keep then None
          else fmlookup (r_checkpoints (snd (remove_checkpoint x r))) j))
       \<and> r_branches r' = r_branches (snd (remove_checkpoint x r)) \<and> gc_max_depth st' = gc_max_depth (count_removed r x st)
       \<and> gc_removed_checkpoints st' = gc_removed_checkpoints (count_removed r x st) + card (set xs - set keep)"
      using Cons.prems(1) by (intro Cons.IH) auto
    moreover have "card (set (x # xs) - set keep) = Suc (card (set xs - set keep))"
      using Cons.prems(1) False by (simp add: insert_Diff_if)
    ultimately show ?thesis using eff cp False by (auto simp: count_removed_def repo_get_checkpoint_def)
  qed
qed simp

lemma distinct_all_nodes: "distinct (all_nodes G)"
  by (simp add: all_nodes_def sorted_list_of_fmap_def o_def sorted_list_of_fset.rep_eq)

text \<open>C13: garbage collection keeps what is protected and counts what it removes. On a consistent repository
  it succeeds; a checkpoint survives, unchanged, exactly when it descends from a protected one,
  where the protected ones are the heads of the branches, their ancestors and the checkpoints bound to
  a git commit; the branches stay as they are and the reported number is that of the removed
  checkpoints.\<close>

theorem gc_keeps_protected:
  assumes "repo_ok r"
  shows "\<exists>st r'. collect_garbage r = (Ok st, r')
     \<and> (\<forall>j. fmlookup (r_checkpoints r') j
          = (if j \<in> reach (dag_nodes (r_dag r)) (protected_set r) then fmlookup (r_checkpoints r) j else None))
     \<and> (\<forall>j \<in> protected_set r. fmlookup (r_checkpoints r') j = fmlookup (r_checkpoints r) j)
     \<and> r_branches r' = r_branches r
     \<and> gc_removed_checkpoints st
        = card (fset (fmdom (r_checkpoints r)) - reach (dag_nodes (r_dag r)) (protected_set r))"
proof -
  let ?keep = "mark_reachable r (collect_protected_checkpoints r)" and ?nodes = "all_nodes (r_dag r)"
  have dom: "fmdom (dag_nodes (r_dag r)) = fmdom (r_checkpoints r)" using assms by (simp add: repo_ok_def dag_matches_def)
  have keep: "set ?keep = reach (dag_nodes (r_dag r)) (protected_set r)"
    by (simp add: set_mark_reachable set_collect_protected [OF dom])
  have nodes: "set ?nodes = fset (fmdom (r_checkpoints r))" by (simp add: set_all_nodes dom)
  obtain d where d: "calculate_max_depth r = Some d"
    using depth_total_of_dag [of r] assms by (auto simp: repo_ok_def)
  obtain st r' where fold: "fold (sweep_node ?keep) ?nodes
      (gc_stats_new\<lparr>gc_max_depth := d, gc_depth_triggered := (d > 100)\<rparr>, r) = (st, r')" by fastforce
  from sweep_fold [OF distinct_all_nodes _ fold] nodes
  have "\<forall>j. fmlookup (r_checkpoints r') j = (if j \<in> set ?nodes \<and> j \<notin> set ?keep then None else fmlookup (r_checkpoints r) j)"
    "r_branches r' = r_branches r" "gc_removed_checkpoints st = card (set ?nodes - set ?keep)"
    by (simp_all add: gc_stats_new_def)
  moreover have "fmlookup (r_checkpoints r) j = None" if "j \<notin> set ?nodes" for j using that nodes by auto
  moreover have "collect_garbage r = (Ok st, r')" by (simp add: collect_garbage_def Let_def d fold)
  ultimately show ?thesis using reach_incl [of "protected_set r" "dag_nodes (r_dag r)"]
    unfolding keep nodes by auto
qed

section \<open>Abandoned checkpoints\<close>

text \<open>The repositories in use: those that come from a new repository by commits, annotations, merges
  (each with an identifier not seen before), branch operations, the deletion of branches included, sources
  and synchronisations. Every operation has its own moment, with the times it reads then.\<close>

definition unseen_checkpoint :: "env \<Rightarrow> snapshot_id list \<Rightarrow> string \<Rightarrow> string \<Rightarrow> repo \<Rightarrow> bool" where
  "unseen_checkpoint E snaps message author r \<longleftrightarrow>
     (\<forall>ps. cp_id (checkpoint_new E snaps ps (metadata_new author message)) |\<notin>| fmdom (r_checkpoints r))"

inductive in_use :: "env \<Rightarrow> repo \<Rightarrow> bool" for E where
  created: "in_use E (repo_new (at_moment E now u) snaps)"
| committed: "in_use E r \<Longrightarrow> unseen_checkpoint (at_moment E now u) snaps message author r \<Longrightarrow>
    in_use E (snd (repo_commit (at_moment E now u) snaps message author r))"
| annotated: "in_use E r \<Longrightarrow> unseen_checkpoint (at_moment E now u) snaps message author r \<Longrightarrow>
    in_use E (snd (commit_allow_empty (at_moment E now u) snaps message author r))"
| merged: "in_use E r \<Longrightarrow> unseen_checkpoint (at_moment E now u) snaps message author r \<Longrightarrow>
    in_use E (snd (merge_branches (at_moment E now u) name snaps message author r))"
| branched: "in_use E r \<Longrightarrow> in_use E (snd (create_branch (at_moment E now u) name r))"
| branched_from: "in_use E r \<Longrightarrow> in_use E (snd (create_branch_from (at_moment E now u) name i r))"
| switched: "in_use E r \<Longrightarrow> in_use E (snd (repo_switch_branch (at_moment E now u) name r))"
| branch_removed: "in_use E r \<Longrightarrow> in_use E (snd (remove_branch name r))"
| sourced: "in_use E r \<Longrightarrow> in_use E (snd (set_snapshot_source i x source r))"
| synchronised: "in_use E r \<Longrightarrow> in_use E (snd (sync_all (at_moment E now u) r))"

inductive_cases in_useE: "in_use E r"

definition rooted :: "(checkpoint_id, checkpoint) fmap \<Rightarrow> dag \<Rightarrow> branch list \<Rightarrow> bool" where
  "rooted cps G bs \<longleftrightarrow> parents_known cps \<and> dag_matches cps G \<and> br_head ` set bs \<subseteq> fset (fmdom cps)
     \<and> (\<exists>root. root |\<in>| fmdom cps \<and> (\<forall>i. i |\<in>| fmdom cps \<longrightarrow> (i, root) \<in> (edges (fmmap cp_parents cps))\<^sup>*))"

abbreviation repo_rooted :: "repo \<Rightarrow> bool" where
  "repo_rooted r \<equiv> rooted (r_checkpoints r) (r_dag r) (r_branches r)"

lemma rooted_branches:
  "rooted cps G bs \<Longrightarrow> br_head ` set bs' \<subseteq> fset (fmdom cps) \<Longrightarrow> rooted cps G bs'"
  by (simp add: rooted_def)

lemma rooted_add:
  assumes "rooted cps G bs" and "cp_id cp |\<notin>| fmdom cps" and "set (cp_parents cp) \<subseteq> fset (fmdom cps)"
    and "cp_parents cp \<noteq> []"
  shows "rooted (fmupd (cp_id cp) cp cps) (add_to_dag cp G) bs"
proof -
  let ?cps = "fmupd (cp_id cp) cp cps"
  let ?old = "edges (fmmap cp_parents cps)" and ?new = "edges (fmmap cp_parents ?cps)"
  from assms(1) obtain root where root: "root |\<in>| fmdom cps" "\<And>i. i |\<in>| fmdom cps \<Longrightarrow> (i, root) \<in> ?old\<^sup>*"
    by (auto simp: rooted_def)
  have "succs (fmmap cp_parents cps) (cp_id cp) = []" using assms(2) by (intro succs_outside) simp
  moreover have "succs (fmmap cp_parents ?cps) i = succs (fmmap cp_parents cps) i" if "i \<noteq> cp_id cp" for i
    using that by (simp add: succs_def)
  ultimately have "?old \<subseteq> ?new" by (auto simp: edges_def) (metis empty_iff empty_set)
  then have up: "?old\<^sup>* \<subseteq> ?new\<^sup>*" by (rule rtrancl_mono)
  obtain p where p: "p \<in> set (cp_parents cp)" using assms(4) by (cases "cp_parents cp") auto
  then have "(cp_id cp, p) \<in> ?new" by (simp add: succs_def)
  moreover have "(p, root) \<in> ?new\<^sup>*" using p assms(3) root(2) up by blast
  ultimately have "(cp_id cp, root) \<in> ?new\<^sup>*" by (rule converse_rtrancl_into_rtrancl)
  then have "\<forall>i. i |\<in>| fmdom ?cps \<longrightarrow> (i, root) \<in> ?new\<^sup>*" using root(2) up by auto
  with root(1) assms show ?thesis
    unfolding rooted_def by (auto intro!: parents_known_add dag_matches_add)
qed

lemma rooted_record:
  assumes "repo_rooted r" and "r_current r < length (r_branches r)" and "cp_sources cp = fmempty"
    and "cp_id cp |\<notin>| fmdom (r_checkpoints r)" and "set (cp_parents cp) \<subseteq> fset (fmdom (r_checkpoints r))"
    and "cp_parents cp \<noteq> []"
  shows "repo_rooted (snd (record_checkpoint E cp r))"
proof -
  have "rooted (fmupd (cp_id cp) cp (r_checkpoints r)) (add_to_dag cp (r_dag r)) (r_branches r)"
    by (rule rooted_add [OF assms(1,4-6)])
  moreover have "br_head ` set ((r_branches r)[n := set_head E b (cp_id cp)])
      \<subseteq> fset (fmdom (fmupd (cp_id cp) cp (r_checkpoints r)))" for n b
    using assms(1) by (auto simp: rooted_def dest!: set_update_subset_insert [THEN subsetD])
  ultimately show ?thesis
    unfolding record_checkpoint_run [OF assms(2,3)] recorded_def Let_def by (simp add: rooted_branches)
qed

text \<open>Without a current branch every commit panics at once.\<close>

lemma current_branch_head_cases:
  obtains "current_branch_head r = (Panic, r)"
  | "current_branch_head r = (Ok (br_head (r_branches r ! r_current r)), r)" and "r_current r < length (r_branches r)"
  by (cases "r_current r < length (r_branches r)")
    (auto simp: current_branch_head_def sbind_def current_branch_def query_def ret_def)

lemma rooted_head:
  "repo_rooted r \<Longrightarrow> r_current r < length (r_branches r) \<Longrightarrow> br_head (r_branches r ! r_current r) |\<in>| fmdom (r_checkpoints r)"
  by (auto simp: rooted_def)

lemma rooted_commits:
  assumes "repo_rooted r" and "unseen_checkpoint E snaps message author r"
  shows "repo_rooted (snd (repo_commit E snaps message author r))"
    and "repo_rooted (snd (commit_allow_empty E snaps message author r))"
    and "repo_rooted (snd (merge_branches E name snaps message author r))"
proof -
  have rec_ok: "repo_rooted (snd (record_checkpoint E (checkpoint_new E snaps ps (metadata_new author message)) r))"
    if "r_current r < length (r_branches r)" "set ps \<subseteq> fset (fmdom (r_checkpoints r))" "ps \<noteq> []" for ps
    using assms that by (intro rooted_record) (simp_all add: unseen_checkpoint_def)
  show "repo_rooted (snd (repo_commit E snaps message author r))"
    using assms(1) rec_ok rooted_head [OF assms(1)]
    by (cases r rule: current_branch_head_cases)
      (auto simp: repo_commit_def sbind_def fail_def query_def split: result.split)
  show "repo_rooted (snd (commit_allow_empty E snaps message author r))"
    using assms(1) rec_ok rooted_head [OF assms(1)]
    by (cases r rule: current_branch_head_cases) (auto simp: commit_allow_empty_def sbind_def)
  have "h |\<in>| fmdom (r_checkpoints r)" if "get_branch_head name r = Ok h" for h
    using that assms(1)
    by (auto simp: get_branch_head_def find_branch_def and_then_eq_Ok rooted_def dest!: position_SomeD)
  then show "repo_rooted (snd (merge_branches E name snaps message author r))"
    using assms(1) rec_ok rooted_head [OF assms(1)]
    by (cases r rule: current_branch_head_cases; cases "get_branch_head name r")
      (auto simp: merge_branches_def sbind_def fail_def query_def)
qed

lemma rooted_add_branch:
  assumes "repo_rooted r" and "br_head b |\<in>| fmdom (r_checkpoints r)"
  shows "repo_rooted (snd (add_branch b r))"
proof -
  obtain st where st: "snd (on_storage (store_branch b) r) = r\<lparr>r_storage := st\<rparr>"
    using on_storage_only [of "store_branch b" r] by blast
  have "br_head ` set (r_branches r @ [b]) \<subseteq> fset (fmdom (r_checkpoints r))"
    using assms by (auto simp: rooted_def)
  then have "rooted (r_checkpoints r) (r_dag r) (r_branches r @ [b])" by (rule rooted_branches [OF assms(1)])
  then show ?thesis
    using st assms(1) by (cases "on_storage (store_branch b) r"; cases "fst (on_storage (store_branch b) r)")
      (simp_all add: add_branch_def sbind_def update_def)
qed

lemma rooted_branch_operations:
  assumes "repo_rooted r"
  shows "repo_rooted (snd (create_branch E name r))" and "repo_rooted (snd (create_branch_from E name i r))"
    and "repo_rooted (snd (repo_switch_branch E name r))" and "repo_rooted (snd (remove_branch name r))"
proof -
  show "repo_rooted (snd (create_branch E name r))"
    using assms rooted_add_branch [OF assms, of "branch_new E name (br_head (r_branches r ! r_current r))"]
      rooted_head [OF assms]
    by (cases r rule: current_branch_head_cases) (auto simp: create_branch_def fail_def sbind_def branch_new_def)
  show "repo_rooted (snd (create_branch_from E name i r))"
    using assms rooted_add_branch [OF assms, of "branch_new E name i"]
    by (auto simp: create_branch_from_def fail_def branch_new_def intro: fmdomI)
  have st: "repo_rooted (snd (on_storage m r')) = repo_rooted r'" for m r'
    using on_storage_only [of m r'] by auto
  then show "repo_rooted (snd (repo_switch_branch E name r))"
  proof -
    have "repo_rooted (snd (on_storage m (r\<lparr>r_current := n\<rparr>)))" for m n using assms by (simp add: st)
    then show ?thesis
      using assms
      by (cases "find_branch name r")
        (auto simp: repo_switch_branch_def sbind_def query_def update_def split: prod.split result.split, (metis snd_conv)+)
  qed
  show "repo_rooted (snd (remove_branch name r))"
  proof (cases "find_branch name r")
    case (Ok n)
    have "br_head ` set (take n (r_branches r) @ drop (Suc n) (r_branches r)) \<subseteq> fset (fmdom (r_checkpoints r))"
      using assms by (auto simp: rooted_def dest: in_set_takeD in_set_dropD)
    from rooted_branches [OF assms this] show ?thesis
      by (simp add: remove_branch_def sbind_def query_def update_def Ok st)
  qed (use assms in \<open>simp_all add: remove_branch_def sbind_def query_def\<close>)
qed

lemma rooted_source:
  assumes "repo_rooted r"
  shows "repo_rooted (snd (set_snapshot_source i x source r))"
proof (cases "fmlookup (r_checkpoints r) i")
  case (Some cp)
  let ?cps = "fmupd i (cp\<lparr>cp_sources := fmupd x source (cp_sources cp)\<rparr>) (r_checkpoints r)"
  have dom: "fmdom ?cps = fmdom (r_checkpoints r)" using Some by (auto intro: fmdomI)
  have "fmmap cp_parents ?cps = fmmap cp_parents (r_checkpoints r)"
    using Some by (intro fmap_ext) auto
  moreover have "parents_known ?cps"
    using assms Some unfolding rooted_def parents_known_def by (auto simp: dom)
  moreover have "dag_matches ?cps (r_dag r)"
    using assms Some unfolding rooted_def dag_matches_def dom by auto
  ultimately have "rooted ?cps (r_dag r) (r_branches r)"
    using assms unfolding rooted_def dom by simp
  then show ?thesis by (simp add: set_snapshot_source_def Some)
qed (use assms in \<open>simp add: set_snapshot_source_def\<close>)

interpretation rooted_kept: state_preorder "\<lambda>r r'. repo_rooted r \<longrightarrow> repo_rooted r'"
  by unfold_locales auto

lemma rooted_sync: "repo_rooted r \<Longrightarrow> repo_rooted (snd (sync_all E r))"
proof -
  have storage: "stays (\<lambda>r r'. repo_rooted r \<longrightarrow> repo_rooted r') (on_storage m)" for m :: "unit db_prog"
    unfolding stays_def
  proof
    fix r
    obtain st where "snd (on_storage m r) = r\<lparr>r_storage := st\<rparr>" using on_storage_only [of m r] by blast
    then show "repo_rooted r \<longrightarrow> repo_rooted (snd (on_storage m r))" by simp
  qed
  have update: "stays (\<lambda>r r'. repo_rooted r \<longrightarrow> repo_rooted r') (update f)"
    if "\<And>r. repo_rooted r \<Longrightarrow> repo_rooted (f r)" for f
    using that by (simp add: stays_def update_def)
  have current: "stays (\<lambda>r r'. repo_rooted r \<longrightarrow> repo_rooted r') current_branch"
    by (auto simp: current_branch_def intro!: rooted_kept.stays_intros)
  have "stays (\<lambda>r r'. repo_rooted r \<longrightarrow> repo_rooted r') (sync_storage E r)" for r
    unfolding sync_storage_def by (intro rooted_kept.stays_sbind storage update current) simp_all
  then show "repo_rooted r \<Longrightarrow> repo_rooted (snd (sync_all E r))" by (simp add: stays_def sync_all_def)
qed

lemma rooted_in_use: "in_use E r \<Longrightarrow> repo_rooted r"
proof (induction rule: in_use.induct)
  case (created now u snaps)
  have "repo_ok (repo_new (at_moment E now u) snaps)" by (rule repo_ok_new)
  then show ?case
    by (auto simp: repo_ok_def rooted_def branches_ok_def repo_new_parts)
qed (blast intro: rooted_commits rooted_branch_operations rooted_source rooted_sync)+

text \<open>C37: garbage collection removes nothing from a repository in use that has a branch left, abandoned
  branches included. Every checkpoint descends from the root, the root is an ancestor of the
  remaining head and therefore protected, and all descendants of a protected checkpoint are kept: the
  collection reports zero removed checkpoints and leaves the repository as it was.\<close>

theorem gc_removes_nothing_in_use:
  assumes "in_use E r" and "r_branches r \<noteq> []"
  shows "\<exists>st. collect_garbage r = (Ok st, r) \<and> gc_removed_checkpoints st = 0 \<and> gc_removed_snapshots st = 0"
proof -
  let ?keep = "mark_reachable r (collect_protected_checkpoints r)" and ?nodes = "all_nodes (r_dag r)"
  note rooted = rooted_in_use [OF assms(1), unfolded rooted_def]
  then have matches: "dag_matches (r_checkpoints r) (r_dag r)" by blast
  then have dom: "fmdom (dag_nodes (r_dag r)) = fmdom (r_checkpoints r)" by (simp add: dag_matches_def)
  from rooted obtain root where root: "\<And>i. i |\<in>| fmdom (r_checkpoints r) \<Longrightarrow> (i, root) \<in> (edges (parent_graph r))\<^sup>*"
    by (auto simp: parent_graph_def)
  obtain b where "b \<in> set (r_branches r)" using assms(2) by (cases "r_branches r") auto
  with rooted root [of "br_head b"] have "root \<in> protected_set r" by (auto simp: protected_set_def reach_iff)
  moreover have "(root, i) \<in> (dag_edges (r_dag r))\<^sup>*" if "i |\<in>| fmdom (r_checkpoints r)" for i
    using root [OF that] by (simp add: parent_edges [OF matches] rtrancl_converse)
  ultimately have "set ?nodes \<subseteq> set ?keep"
    by (auto simp: set_all_nodes dom set_mark_reachable set_collect_protected [OF dom] reach_iff) blast
  then have "fold (sweep_node ?keep) xs (st, r) = (st, r)" if "set xs \<subseteq> set ?nodes" for xs st
    using that by (induction xs) (auto simp: sweep_node_simp)
  moreover obtain d where "calculate_max_depth r = Some d"
    using depth_total_of_dag [OF matches] by blast
  ultimately show ?thesis by (simp add: collect_garbage_def Let_def gc_stats_new_def)
qed

subsection \<open>Instances\<close>

text \<open>A repository with two roots, whose branch is at the second one.\<close>

definition two_roots :: repo where
  "two_roots = recorded sample_env (checkpoint_new sample_env [ContentId ''s''] [] (metadata_new ''ann'' ''msg''))
     (repo_new sample_env [])"

abbreviation (input) first_root :: checkpoint where
  "first_root \<equiv> checkpoint_new sample_env [] [] (metadata_new ''system'' ''root checkpoint'')"

abbreviation (input) second_root :: checkpoint where
  "second_root \<equiv> checkpoint_new sample_env [ContentId ''s''] [] (metadata_new ''ann'' ''msg'')"

lemma roots_differ: "cp_id second_root \<noteq> cp_id first_root"
  by code_simp

lemma two_roots_ok: "repo_ok two_roots"
  unfolding two_roots_def
  by (intro repo_ok_recorded repo_ok_new) (use roots_differ in \<open>simp_all add: repo_new_parts\<close>)

lemma two_roots_parts:
  "r_checkpoints two_roots = fmupd (cp_id second_root) second_root (fmupd (cp_id first_root) first_root fmempty)"
  "br_head ` set (r_branches two_roots) = {cp_id second_root}"
  "succs (parent_graph two_roots) = (\<lambda>x. [])" "succs (dag_nodes (r_dag two_roots)) = (\<lambda>x. [])"
proof -
  show cps: "r_checkpoints two_roots = fmupd (cp_id second_root) second_root (fmupd (cp_id first_root) first_root fmempty)"
    by (simp add: two_roots_def recorded_def Let_def repo_new_parts)
  show "br_head ` set (r_branches two_roots) = {cp_id second_root}"
    by (simp add: two_roots_def recorded_def Let_def repo_new_def create_root_checkpoint_def)
  show "succs (parent_graph two_roots) = (\<lambda>x. [])"
    by (auto simp: succs_parent_graph cps split: option.splits if_splits)
  show "succs (dag_nodes (r_dag two_roots)) = (\<lambda>x. [])"
  proof
    fix p
    have "c \<notin> set (succs (dag_nodes (r_dag two_roots)) p)" for c
      using two_roots_ok by (auto simp: repo_ok_def dag_matches_def cps split: if_splits)
    then show "succs (dag_nodes (r_dag two_roots)) p = []" by (metis list.set_intros(1) neq_Nil_conv)
  qed
qed

theorem gc_keeps_protected_witness:
  "\<exists>st r'. collect_garbage two_roots = (Ok st, r') \<and> gc_removed_checkpoints st = 1
     \<and> fmlookup (r_checkpoints r') (cp_id first_root) = None
     \<and> fmlookup (r_checkpoints r') (cp_id second_root) = Some second_root"
proof -
  have reach_id: "reach g A = A" if "succs g = (\<lambda>x. [])" for g A
    using that by (intro reach_closed) simp
  have "protected_set two_roots = {cp_id second_root}"
    unfolding protected_set_def reach_id [OF two_roots_parts(3)] two_roots_parts(1,2)
    by (auto simp: metadata_new_def split: if_splits)
  then have reach: "reach (dag_nodes (r_dag two_roots)) (protected_set two_roots) = {cp_id second_root}"
    by (simp add: reach_id [OF two_roots_parts(4)])
  from gc_keeps_protected [OF two_roots_ok, unfolded reach] obtain st r' where
    run: "collect_garbage two_roots = (Ok st, r')"
    "\<forall>j. fmlookup (r_checkpoints r') j = (if j \<in> {cp_id second_root} then fmlookup (r_checkpoints two_roots) j else None)"
    "gc_removed_checkpoints st = card (fset (fmdom (r_checkpoints two_roots)) - {cp_id second_root})"
    by blast
  have "fset (fmdom (r_checkpoints two_roots)) - {cp_id second_root} = {cp_id first_root}"
    using roots_differ by (auto simp: two_roots_parts(1))
  with run roots_differ show ?thesis by (auto simp: two_roots_parts(1))
qed

theorem checkpoint_depth_longest_path_witness:
  "calculate_checkpoint_depth two_roots (cp_id first_root) = Some 0 \<and> check_delta_chain_depth two_roots = Ok (0, False)"
proof -
  have leaf: "is_depth (parent_graph two_roots) j d \<longleftrightarrow> d = 0" for j d
    using is_depth_leaf [of "parent_graph two_roots" j] by (auto simp: two_roots_parts(3) is_depth_def)
  show ?thesis
    using checkpoint_depth_longest_path [OF two_roots_ok, of "cp_id first_root"] by (auto simp: leaf)
qed

theorem gc_removes_nothing_in_use_witness:
  "\<exists>r st. r = snd (remove_branch ''main'' (snd (create_branch sample_env ''dev'' (repo_new sample_env []))))
     \<and> r_branches r \<noteq> [] \<and> collect_garbage r = (Ok st, r) \<and> gc_removed_checkpoints st = 0"
proof -
  let ?E = "at_moment sample_env (\<lambda>x. 0) 7"
  let ?r = "snd (remove_branch ''main'' (snd (create_branch sample_env ''dev'' (repo_new sample_env []))))"
  have "in_use sample_env (snd (remove_branch ''main'' (snd (create_branch ?E ''dev'' (repo_new ?E [])))))"
    by (intro in_use.intros)
  moreover have "?E = sample_env" by (simp add: at_moment_def sample_env_def)
  ultimately have "in_use sample_env ?r" by simp
  moreover have "r_branches ?r \<noteq> []" by code_simp
  ultimately show ?thesis using gc_removes_nothing_in_use by blast
qed

end
