(* ===== verification/Git_Bridge.thy ===== *)
theory Git_Bridge
  imports Checkpoint_Storage
begin

text \<open>
  \<^verbatim>\<open>src/git_sync/git_bridge.rs\<close>: importing a git commit as a checkpoint, exporting a checkpoint as a git
  commit, and comparing the two. The crate \<open>git2\<close> is not under \<open>src/\<close>: the git repository with its
  index and working tree is a state of its own, and every call of the crate is a field of the record
  \<open>git_lib\<close>, which answers or fails with the text of its error. The storage is the one attached to the
  repository of checkpoints, as in all callers.
\<close>

section \<open>What is used of git\<close>

type_synonym oid = string

text \<open>A tree as its iterator shows it: names that are not UTF-8 are \<open>None\<close>, and so is an object that
  cannot be read.\<close>

datatype git_entry =
    GitTree "string option" "git_entry list option"
  | GitBlob "string option" "bytes option"
  | GitOther "string option"

record git_commit =
  gc_hash :: oid
  gc_author :: "string option"
  gc_text :: "string option"

type_synonym ('g, 'a) git = "('g, 'a, string) prog"

record 'g git_lib =
  gl_open :: "string \<Rightarrow> ('g, unit) git"
  gl_revparse :: "string \<Rightarrow> ('g, oid) git"
  gl_peel_to_commit :: "oid \<Rightarrow> ('g, git_commit) git"
  gl_tree_of :: "oid \<Rightarrow> ('g, git_entry list) git"
  gl_statuses_current :: "('g, bool list) git"
  gl_workdir :: "'g \<Rightarrow> string option"
  gl_open_index :: "('g, unit) git"
  gl_create_dirs :: "string \<Rightarrow> string \<Rightarrow> ('g, unit) git"
  gl_write_file :: "string \<Rightarrow> string \<Rightarrow> bytes \<Rightarrow> ('g, unit) git"
  gl_add_path :: "string \<Rightarrow> ('g, unit) git"
  gl_index_write :: "('g, unit) git"
  gl_index_write_tree :: "('g, oid) git"
  gl_treebuilder :: "('g, unit) git"
  gl_blob :: "bytes \<Rightarrow> ('g, oid) git"
  gl_builder_insert :: "string \<Rightarrow> oid \<Rightarrow> ('g, unit) git"
  gl_builder_write :: "('g, oid) git"
  gl_find_tree :: "oid \<Rightarrow> ('g, unit) git"
  gl_signature :: "string \<Rightarrow> string \<Rightarrow> ('g, unit) git"
  gl_ref_commit :: "string \<Rightarrow> 'g \<Rightarrow> oid option"
  gl_head_commit :: "'g \<Rightarrow> oid option"
  gl_commit :: "string option \<Rightarrow> string \<Rightarrow> string \<Rightarrow> oid \<Rightarrow> oid list \<Rightarrow> ('g, oid) git"
  gl_find_commit :: "oid \<Rightarrow> ('g, unit) git"
  gl_branch :: "string \<Rightarrow> oid \<Rightarrow> ('g, unit) git"
  gl_parse_oid :: "string \<Rightarrow> oid option"
  gl_ahead_behind :: "oid \<Rightarrow> oid \<Rightarrow> 'g \<Rightarrow> (nat \<times> nat) option"
  gl_find_remote :: "string \<Rightarrow> ('g, unit) git"
  gl_fetch :: "string \<Rightarrow> string list \<Rightarrow> ('g, unit) git"

text \<open>Programs on a repository of checkpoints and a git repository.\<close>

type_synonym ('g, 'a) bridge = "(repo \<times> 'g, 'a, lt_error) prog"

definition core_of_repo :: "'a sys \<Rightarrow> 'a repo_prog" where
  "core_of_repo m = (\<lambda>R. case r_storage R of
     Some s \<Rightarrow> (case m s of (r, s') \<Rightarrow> (r, R\<lparr>r_storage := Some s'\<rparr>))
   | None \<Rightarrow> (Panic, R))"

definition on_repo :: "'a repo_prog \<Rightarrow> ('g, 'a) bridge" where
  "on_repo m = (\<lambda>(R, g). case m R of (r, R') \<Rightarrow> (r, (R', g)))"

definition git_call :: "string \<Rightarrow> ('g, 'a) git \<Rightarrow> ('g, 'a, lt_error) prog" where
  "git_call what m = map_err (\<lambda>e. GitSync (what @ '': '' @ e)) m"

definition on_git :: "string \<Rightarrow> ('g, 'a) git \<Rightarrow> ('g, 'a) bridge" where
  "on_git what m = (\<lambda>(R, g). case git_call what m g of (r, g') \<Rightarrow> (r, (R, g')))"

section \<open>Configuration\<close>

datatype ref_namespace = CurrentBranch | Isolated

definition ref_namespace_default :: ref_namespace where
  "ref_namespace_default = CurrentBranch"

record git_sync_config =
  gs_ref_namespace :: ref_namespace
  gs_require_clean_tree :: bool
  gs_write_working_tree :: bool

definition git_sync_config_default :: git_sync_config where
  "git_sync_config_default =
     \<lparr>gs_ref_namespace = CurrentBranch, gs_require_clean_tree = False, gs_write_working_tree = True\<rparr>"

section \<open>Import\<close>

text \<open>\<open>str::trim\<close>: the encodings of the characters with the property White\_Space.\<close>

definition space_encodings :: "string list" where
  "space_encodings =
     [[CHR 0x09], [CHR 0x0A], [CHR 0x0B], [CHR 0x0C], [CHR 0x0D], [CHR 0x20], [CHR 0xC2, CHR 0x85],
      [CHR 0xC2, CHR 0xA0], [CHR 0xE1, CHR 0x9A, CHR 0x80]]
     @ map (\<lambda>k. [CHR 0xE2, CHR 0x80, char_of (k::nat)]) ([0x80..<0x8B] @ [0xA8, 0xA9, 0xAF])
     @ [[CHR 0xE2, CHR 0x81, CHR 0x9F], [CHR 0xE3, CHR 0x80, CHR 0x80]]"

function trim_front :: "string list \<Rightarrow> string \<Rightarrow> string" where
  "trim_front encs s =
     (case List.find (\<lambda>e. e \<noteq> [] \<and> prefix e s) encs of
        None \<Rightarrow> s
      | Some e \<Rightarrow> trim_front encs (drop (length e) s))"
  by pat_completeness auto
termination
  by (relation "measure (length \<circ> snd)") (auto simp: find_Some_iff prefix_def)

declare trim_front.simps [simp del]

definition str_trim :: "string \<Rightarrow> string" where
  "str_trim s = rev (trim_front (map rev space_encodings) (rev (trim_front space_encodings s)))"

definition entry_path :: "string \<Rightarrow> string option \<Rightarrow> string" where
  "entry_path pre name = (let n = (case name of None \<Rightarrow> [] | Some n \<Rightarrow> n)
     in if pre = [] then n else pre @ ''/'' @ n)"

definition import_blob :: "env \<Rightarrow> string \<Rightarrow> bytes \<Rightarrow> snapshot sys" where
  "import_blob E path content =
     (let file = file_node_new E path content;
          delta = delta_new E file (line_diff_new []) Backup;
          x = snapshot_new_initial E file (d_id delta)
      in sbind (storage (store_file_node E file content)) (\<lambda>_.
         sbind (storage (store_delta E delta)) (\<lambda>_.
         sbind (storage (store_snapshot E x content)) (\<lambda>_. ret x))))"

text \<open>The files of a tree in the order of the walk: unreadable objects are skipped.\<close>

fun tree_files :: "string \<Rightarrow> git_entry list \<Rightarrow> (string \<times> bytes) list" where
  "tree_files pre [] = []"
| "tree_files pre (GitTree n (Some sub) # es) = tree_files (entry_path pre n) sub @ tree_files pre es"
| "tree_files pre (GitTree n None # es) = tree_files pre es"
| "tree_files pre (GitBlob n (Some c) # es) = (entry_path pre n, c) # tree_files pre es"
| "tree_files pre (GitBlob n None # es) = tree_files pre es"
| "tree_files pre (GitOther n # es) = tree_files pre es"

text \<open>\<open>walk_tree_and_create_snapshots\<close>\<close>

fun walk_tree :: "env \<Rightarrow> string \<Rightarrow> git_entry list \<Rightarrow> snapshot list \<Rightarrow> snapshot list sys" where
  "walk_tree E pre [] xs = ret xs"
| "walk_tree E pre (GitTree n (Some sub) # es) xs =
     sbind (walk_tree E (entry_path pre n) sub xs) (\<lambda>ys. walk_tree E pre es ys)"
| "walk_tree E pre (GitTree n None # es) xs = walk_tree E pre es xs"
| "walk_tree E pre (GitBlob n (Some c) # es) xs =
     sbind (import_blob E (entry_path pre n) c) (\<lambda>x. walk_tree E pre es (xs @ [x]))"
| "walk_tree E pre (GitBlob n None # es) xs = walk_tree E pre es xs"
| "walk_tree E pre (GitOther n # es) xs = walk_tree E pre es xs"

text \<open>\<open>if let Ok(cp) = get_checkpoint_mut(...) \{ cp.metadata.git_anchor = Some(hash); \}\<close>\<close>

definition set_git_anchor :: "checkpoint_id \<Rightarrow> oid \<Rightarrow> unit repo_prog" where
  "set_git_anchor i hash = update (\<lambda>R. case fmlookup (r_checkpoints R) i of
     None \<Rightarrow> R
   | Some cp \<Rightarrow> R\<lparr>r_checkpoints :=
       fmupd i (cp\<lparr>cp_metadata := (cp_metadata cp)\<lparr>md_git_anchor := Some hash\<rparr>\<rparr>) (r_checkpoints R)\<rparr>)"

definition init_from_git :: "env \<Rightarrow> 'g git_lib \<Rightarrow> string \<Rightarrow> string \<Rightarrow> ('g, unit) bridge" where
  "init_from_git E G path git_ref =
     sbind (on_git ''failed to open git repo'' (gl_open G path)) (\<lambda>_.
     sbind (on_git (''failed to resolve ref '' @ quoted git_ref) (gl_revparse G git_ref)) (\<lambda>obj.
     sbind (on_git ''failed to peel to commit'' (gl_peel_to_commit G obj)) (\<lambda>c.
     sbind (on_git ''failed to get tree'' (gl_tree_of G (gc_hash c))) (\<lambda>tree.
     sbind (on_repo (core_of_repo (walk_tree E [] tree []))) (\<lambda>xs.
     if xs = [] then fail (GitSync ''no files found in git ref'')
     else
       let author = (case gc_author c of None \<Rightarrow> ''git-sync'' | Some a \<Rightarrow> a);
           text = str_trim (case gc_text c of None \<Rightarrow> ''Sync from Git ref: '' @ git_ref | Some m \<Rightarrow> m)
       in sbind (on_repo (repo_commit E (map s_id xs) text author)) (\<lambda>i.
          on_repo (set_git_anchor i (gc_hash c))))))))"

section \<open>Export\<close>

definition create_git_commit ::
    "'g git_lib \<Rightarrow> checkpoint \<Rightarrow> string option \<Rightarrow> string \<Rightarrow> string \<Rightarrow> oid \<Rightarrow> ('g, oid) bridge" where
  "create_git_commit G cp update_ref branch_name message tree =
     sbind (on_git ''failed to create signature''
       (gl_signature G (md_author (cp_metadata cp)) ''layertwine@local'')) (\<lambda>_.
     sbind (query (\<lambda>(R, g). Ok (case update_ref of
         Some r \<Rightarrow> gl_ref_commit G r g
       | None \<Rightarrow> gl_head_commit G g))) (\<lambda>parent.
     sbind (on_git ''failed to commit'' (gl_commit G update_ref (md_author (cp_metadata cp)) message tree
       (case parent of None \<Rightarrow> [] | Some p \<Rightarrow> [p]))) (\<lambda>commit.
     if update_ref = Some ''HEAD'' then
       sbind (on_git ''failed to find commit'' (gl_find_commit G commit)) (\<lambda>_.
       sbind (on_git (''failed to create/update branch '' @ quoted branch_name) (gl_branch G branch_name commit)) (\<lambda>_.
       ret commit))
     else ret commit)))"

definition snapshot_text :: "env \<Rightarrow> snapshot_id \<Rightarrow> (snapshot \<times> string) sys" where
  "snapshot_text E i =
     sbind (read_snapshot E i) (\<lambda>x. sbind (reconstruct_text E x) (\<lambda>t. ret (x, t)))"

definition build_tree_and_commit ::
    "env \<Rightarrow> 'g git_lib \<Rightarrow> checkpoint \<Rightarrow> string option \<Rightarrow> string \<Rightarrow> string \<Rightarrow> ('g, oid) bridge" where
  "build_tree_and_commit E G cp target_ref branch_name message =
     sbind (on_git ''failed to create tree builder'' (gl_treebuilder G)) (\<lambda>_.
     sbind (for_each (\<lambda>i.
         sbind (on_repo (core_of_repo (snapshot_text E i))) (\<lambda>(x, t).
         sbind (on_git ''failed to create blob'' (gl_blob G t)) (\<lambda>blob.
         on_git ''failed to insert tree entry'' (gl_builder_insert G (path_str (s_file x)) blob)))) (cp_snapshots cp))
       (\<lambda>_.
     sbind (on_git ''failed to write tree'' (gl_builder_write G)) (\<lambda>tree.
     sbind (on_git ''failed to find tree'' (gl_find_tree G tree)) (\<lambda>_.
     sbind (create_git_commit G cp target_ref branch_name message tree) (\<lambda>hash.
     sbind (on_repo (set_git_anchor (cp_id cp) hash)) (\<lambda>_. ret hash))))))"

definition stage_snapshot :: "env \<Rightarrow> 'g git_lib \<Rightarrow> string \<Rightarrow> snapshot_id \<Rightarrow> ('g, unit) bridge" where
  "stage_snapshot E G workdir i =
     sbind (on_repo (core_of_repo (snapshot_text E i))) (\<lambda>(x, t).
     sbind (on_git ''failed to create directories'' (gl_create_dirs G workdir (path_str (s_file x)))) (\<lambda>_.
     sbind (on_git ''failed to write file'' (gl_write_file G workdir (path_str (s_file x)) t)) (\<lambda>_.
     on_git ''failed to add file to index'' (gl_add_path G (path_str (s_file x))))))"

definition push_to_git_current_branch ::
    "env \<Rightarrow> 'g git_lib \<Rightarrow> git_sync_config \<Rightarrow> checkpoint \<Rightarrow> string \<Rightarrow> string \<Rightarrow> ('g, oid) bridge" where
  "push_to_git_current_branch E G cfg cp branch_name message =
     sbind (if gs_require_clean_tree cfg
         then sbind (on_git ''failed to get repo status'' (gl_statuses_current G)) (\<lambda>current.
           if list_all id current then ret ()
           else fail (GitSync ''working tree is not clean. Commit or stash changes first.''))
         else ret ()) (\<lambda>_.
     if \<not> gs_write_working_tree cfg
     then build_tree_and_commit E G cp (Some ''HEAD'') branch_name message
     else
       sbind (query (\<lambda>(R, g). ok_or (gl_workdir G g) (GitSync ''bare repository has no workdir''))) (\<lambda>workdir.
       sbind (on_git ''failed to get index'' (gl_open_index G)) (\<lambda>_.
       sbind (for_each (stage_snapshot E G workdir) (cp_snapshots cp)) (\<lambda>_.
       sbind (on_git ''failed to write index'' (gl_index_write G)) (\<lambda>_.
       sbind (on_git ''failed to write tree'' (gl_index_write_tree G)) (\<lambda>tree.
       sbind (on_git ''failed to find tree'' (gl_find_tree G tree)) (\<lambda>_.
       sbind (create_git_commit G cp (Some ''HEAD'') branch_name message tree) (\<lambda>hash.
       sbind (on_repo (set_git_anchor (cp_id cp) hash)) (\<lambda>_. ret hash)))))))))"

definition push_to_git_isolated ::
    "env \<Rightarrow> 'g git_lib \<Rightarrow> checkpoint \<Rightarrow> string \<Rightarrow> string \<Rightarrow> ('g, oid) bridge" where
  "push_to_git_isolated E G cp branch_name message =
     build_tree_and_commit E G cp (Some (''refs/layertwine/'' @ branch_name)) branch_name message"

definition checkpoint_to_push :: "string \<Rightarrow> repo \<Rightarrow> (checkpoint, lt_error) result" where
  "checkpoint_to_push branch_name R =
     and_then (result_map_err (\<lambda>_. NotFound (''branch '' @ quoted branch_name @ '' not found''))
       (get_branch_head branch_name R)) (\<lambda>i.
     and_then (result_map_err (\<lambda>_. NotFound ''checkpoint not found'') (repo_get_checkpoint i R)) (\<lambda>cp.
     if cp_snapshots cp = [] then Err (GitSync ''checkpoint has no baseline snapshots'') else Ok cp))"

definition push_to_git_with_config ::
    "env \<Rightarrow> 'g git_lib \<Rightarrow> git_sync_config \<Rightarrow> string \<Rightarrow> string \<Rightarrow> string \<Rightarrow> ('g, oid) bridge" where
  "push_to_git_with_config E G cfg path branch_name message =
     sbind (on_git ''failed to open git repo'' (gl_open G path)) (\<lambda>_.
     sbind (on_repo (query (checkpoint_to_push branch_name))) (\<lambda>cp.
     case gs_ref_namespace cfg of
       Isolated \<Rightarrow> push_to_git_isolated E G cp branch_name message
     | CurrentBranch \<Rightarrow> push_to_git_current_branch E G cfg cp branch_name message))"

definition push_to_git :: "env \<Rightarrow> 'g git_lib \<Rightarrow> string \<Rightarrow> string \<Rightarrow> string \<Rightarrow> ('g, oid) bridge" where
  "push_to_git E G path branch_name message =
     push_to_git_with_config E G git_sync_config_default path branch_name message"

section \<open>Comparison\<close>

datatype sync_status =
    InSync
  | Ahead nat
  | Behind nat
  | Divergent nat nat

record sync_info =
  si_status :: sync_status
  si_git_head :: "oid option"
  si_local :: "checkpoint_id option"

definition classify :: "nat \<times> nat \<Rightarrow> sync_status" where
  "classify ab = (case ab of (ahead, behind) \<Rightarrow>
     if ahead = 0 \<and> behind = 0 then InSync
     else if 0 < ahead \<and> 0 < behind then Divergent behind ahead
     else if 0 < ahead then Behind ahead
     else Ahead behind)"

definition local_anchor :: "'g git_lib \<Rightarrow> checkpoint_id option \<Rightarrow> repo \<Rightarrow> oid option" where
  "local_anchor G base R =
     Option.bind base (\<lambda>i. Option.bind (result_ok (repo_get_checkpoint i R))
       (\<lambda>cp. Option.bind (md_git_anchor (cp_metadata cp)) (gl_parse_oid G)))"

definition compare_status :: "'g git_lib \<Rightarrow> string \<Rightarrow> string \<Rightarrow> ('g, sync_info) bridge" where
  "compare_status G path branch_name =
     sbind (on_git ''failed to open git repo'' (gl_open G path)) (\<lambda>_.
     query (\<lambda>(R, g).
       let head = gl_head_commit G g; base = result_ok (get_branch_head branch_name R);
           anchor = local_anchor G base R;
           st = (case (head, anchor) of
               (Some h, Some a) \<Rightarrow> classify (case gl_ahead_behind G h a g of None \<Rightarrow> (0, 0) | Some ab \<Rightarrow> ab)
             | (Some h, None) \<Rightarrow> Ahead 1
             | (None, Some a) \<Rightarrow> Ahead 1
             | (None, None) \<Rightarrow> InSync)
       in Ok \<lparr>si_status = st, si_git_head = head, si_local = base\<rparr>))"

definition fetch_from_remote :: "'g git_lib \<Rightarrow> string \<Rightarrow> string \<Rightarrow> ('g, unit, lt_error) prog" where
  "fetch_from_remote G path remote =
     sbind (git_call ''failed to open git repo'' (gl_open G path)) (\<lambda>_.
     sbind (git_call (''failed to find remote '' @ quoted remote) (gl_find_remote G remote)) (\<lambda>_.
     git_call (''failed to fetch from remote '' @ quoted remote) (gl_fetch G remote [''refs/heads/*:refs/remotes/*''])))"

end
