(* ===== verification/Git_Import.thy ===== *)
theory Git_Import
  imports Git_Bridge Layer_Theorems
begin

text \<open>
  What importing a git tree gives: one snapshot for each readable file, in the order of the walk, and
  the text that is rebuilt from it.
\<close>

section \<open>The walk\<close>

definition import_delta :: "env \<Rightarrow> string \<times> bytes \<Rightarrow> delta" where
  "import_delta E f = delta_new E (file_node_new E (fst f) (snd f)) (line_diff_new []) Backup"

definition imported :: "env \<Rightarrow> string \<times> bytes \<Rightarrow> snapshot" where
  "imported E f = snapshot_new_initial E (file_node_new E (fst f) (snd f)) (d_id (import_delta E f))"

definition import_step :: "env \<Rightarrow> string \<times> bytes \<Rightarrow> db \<Rightarrow> db" where
  "import_step E f s =
     snd (store_snapshot E (imported E f) (snd f) (snd (store_delta E (import_delta E f)
       (snd (store_file_node E (file_node_new E (fst f) (snd f)) (snd f) s)))))"

definition import_db :: "env \<Rightarrow> (string \<times> bytes) list \<Rightarrow> db \<Rightarrow> db" where
  "import_db E fs s = fold (import_step E) fs s"

lemma import_db_simps [simp]: "import_db E [] s = s" "import_db E (f # fs) s = import_db E fs (import_step E f s)"
  by (simp_all add: import_db_def)

lemma import_db_append: "import_db E (fs @ gs) s = import_db E gs (import_db E fs s)"
  by (simp add: import_db_def)

lemma import_blob_run: "import_blob E p c s = (Ok (imported E (p, c)), import_step E (p, c) s)"
  by (simp add: import_blob_def Let_def import_step_def imported_def import_delta_def sbind_def ret_def map_err_def
      store_file_node_def store_delta_def store_snapshot_def update_def)

lemma walk_tree_run:
  "walk_tree E pre es xs s = (Ok (xs @ map (imported E) (tree_files pre es)), import_db E (tree_files pre es) s)"
  by (induction E pre es xs arbitrary: s rule: walk_tree.induct)
    (simp_all add: ret_def sbind_def import_blob_run import_db_append)

section \<open>What is read afterwards\<close>

lemma import_step_content:
  "get_file_content p h (import_step E f s)
   = (case get_file_content p h s of
        Ok c \<Rightarrow> Ok c
      | r \<Rightarrow> if (fst f, env_blake3 E (snd f)) = (p, h) then Ok (snd f) else r)"
proof -
  have "get_file_content p h (import_step E f s)
      = get_file_content p h (snd (store_file_node E (file_node_new E (fst f) (snd f)) (snd f) s))"
    by (rule get_file_content_cong) (simp add: import_step_def)
  then show ?thesis
    by (auto simp: get_file_content_def select_store_file_node file_node_new_def query_row_def
        split: option.split)
qed

lemma import_step_delta:
  "get_delta i (import_step E f s) = get_delta i (snd (store_delta E (import_delta E f) s))"
proof -
  have "t_deltas (import_step E f s) = t_deltas (snd (store_delta E (import_delta E f) s))"
    by (simp add: import_step_def) (simp add: store_delta_def update_def)
  then show ?thesis by (simp add: get_delta_def)
qed

lemma import_step_keys: "distinct (map dr_id (t_deltas s)) \<Longrightarrow> distinct (map dr_id (t_deltas (import_step E f s)))"
  using delta_keys_store by (simp add: import_step_def)

lemma import_db_keys: "distinct (map dr_id (t_deltas s)) \<Longrightarrow> distinct (map dr_id (t_deltas (import_db E fs s)))"
  by (induction fs arbitrary: s) (simp_all add: import_step_keys)

lemma import_db_stable:
  "get_file_content p h s = Ok c \<Longrightarrow> get_file_content p h (import_db E fs s) = Ok c"
  "get_delta i s = Ok d \<Longrightarrow> get_delta i (import_db E fs s) = Ok d"
  by (induction fs arbitrary: s) (simp_all add: import_step_content import_step_delta deltas.get_stable)

text \<open>Two contents with one path and one hash are the same content, among the files and in the database.\<close>

definition contents_agree :: "env \<Rightarrow> (string \<times> bytes) list \<Rightarrow> db \<Rightarrow> bool" where
  "contents_agree E fs s \<longleftrightarrow> (\<forall>f \<in> set fs.
     (\<forall>c. get_file_content (fst f) (env_blake3 E (snd f)) s = Ok c \<longrightarrow> c = snd f)
     \<and> (\<forall>g \<in> set fs. fst g = fst f \<and> env_blake3 E (snd g) = env_blake3 E (snd f) \<longrightarrow> snd g = snd f))"

text \<open>A delta of an import that is stored already has no hunks either.\<close>

definition deltas_empty :: "env \<Rightarrow> (string \<times> bytes) list \<Rightarrow> db \<Rightarrow> bool" where
  "deltas_empty E fs s \<longleftrightarrow>
     (\<forall>f \<in> set fs. \<forall>w. get_delta (d_id (import_delta E f)) s = Ok w \<longrightarrow> d_diff w = line_diff_new [])"

lemma contents_agree_step: "contents_agree E (f # fs) s \<Longrightarrow> contents_agree E fs (import_step E f s)"
  unfolding contents_agree_def import_step_content by (auto split: result.splits if_splits)

lemma import_delta_diff [simp]: "d_diff (import_delta E f) = line_diff_new []"
  by (simp add: import_delta_def)

lemma deltas_empty_step:
  assumes "deltas_empty E (f # fs) s"
  shows "deltas_empty E fs (import_step E f s)"
  unfolding deltas_empty_def import_step_delta
proof (intro ballI allI impI)
  fix g w
  assume g: "g \<in> set fs" and w: "get_delta (d_id (import_delta E g)) (snd (store_delta E (import_delta E f) s)) = Ok w"
  show "d_diff w = line_diff_new []"
  proof (cases "\<exists>v. get_delta (d_id (import_delta E g)) s = Ok v")
    case True
    with deltas.get_stable [of _ s _ E "import_delta E f"] w have "get_delta (d_id (import_delta E g)) s = Ok w" by force
    with assms g show ?thesis by (simp add: deltas_empty_def)
  next
    case False
    then have "d_id (import_delta E g) = d_id (import_delta E f)"
      using w deltas.put_frame [of "d_id (import_delta E g)" "import_delta E f" E s] by metis
    with False deltas.get_put_fresh [of "import_delta E f" s E] w have "w = import_delta E f" by force
    then show ?thesis by simp
  qed
qed

lemma import_db_read:
  assumes "contents_agree E fs s" and "deltas_empty E fs s" and "f \<in> set fs"
  shows "get_file_content (fst f) (env_blake3 E (snd f)) (import_db E fs s) = Ok (snd f)
    \<and> (\<exists>d. get_delta (d_id (import_delta E f)) (import_db E fs s) = Ok d \<and> d_diff d = line_diff_new [])"
  using assms
proof (induction fs arbitrary: s)
  case (Cons g fs)
  show ?case
  proof (cases "f \<in> set fs")
    case True
    with Cons show ?thesis using contents_agree_step deltas_empty_step by simp
  next
    case False
    then have f: "f = g" using Cons.prems(3) by simp
    have "get_file_content (fst g) (env_blake3 E (snd g)) (import_step E g s) = Ok (snd g)"
      using Cons.prems(1) unfolding import_step_content contents_agree_def
      by (auto split: result.split)
    moreover have "\<exists>d. get_delta (d_id (import_delta E g)) (import_step E g s) = Ok d \<and> d_diff d = line_diff_new []"
      using Cons.prems(2) deltas.get_put_fresh [of "import_delta E g" s E]
        deltas.get_stable [of "d_id (import_delta E g)" s _ E "import_delta E g"]
      unfolding import_step_delta deltas_empty_def by (metis import_delta_diff list.set_intros(1))
    ultimately show ?thesis using f import_db_stable by (metis import_db_simps(2))
  qed
qed simp

text \<open>C16: what is imported from git. The walk makes one snapshot for each readable file of the tree, in
  order, with the path and the hash of the file; rebuilding its text gives the lines of the file,
  decoded as UTF-8, each ended by a line feed. So a file comes back as it was when it is UTF-8 and has no
  carriage return at the end of a line; a CRLF file comes back with LF.\<close>

theorem git_import_texts:
  assumes "fs = tree_files [] tree" and "contents_agree E fs s" and "deltas_empty E fs s"
    and "distinct (map dr_id (t_deltas s))"
  shows "\<exists>s'. walk_tree E [] tree [] s = (Ok (map (imported E) fs), s')
     \<and> (\<forall>(p, c) \<in> set fs. s_file (imported E (p, c)) = file_node_new E p c
         \<and> reconstruct_text E (imported E (p, c)) s'
           = (Ok (restore_newline (from_utf8_lossy c) (str_lines (from_utf8_lossy c))), s'))"
proof -
  let ?s = "import_db E fs s"
  have "s_file (imported E (p, c)) = file_node_new E p c
      \<and> reconstruct_text E (imported E (p, c)) ?s
        = (Ok (restore_newline (from_utf8_lossy c) (str_lines (from_utf8_lossy c))), ?s)" if f: "(p, c) \<in> set fs" for p c
  proof -
    let ?x = "imported E (p, c)" and ?d = "import_delta E (p, c)"
    have x: "s_file ?x = file_node_new E p c" "s_deltas ?x = [d_id ?d]"
      by (simp_all add: imported_def snapshot_new_initial_def)
    from import_db_read [OF assms(2,3) f] obtain d where
      content: "get_file_content p (env_blake3 E c) ?s = Ok c" and
      d: "get_delta (d_id ?d) ?s = Ok d" "d_diff d = line_diff_new []" by auto
    have read: "get_deltas (s_deltas ?x) ?s = Ok [d]"
      using d(1) get_deltas_lookup [OF import_db_keys [OF assms(4)], of "[d_id ?d]" E fs] x(2)
      by (simp add: map_filter_simps)
    have "apply_deltas (from_utf8_lossy c) [d]
        = Ok (restore_newline (from_utf8_lossy c) (str_lines (from_utf8_lossy c)))"
      by (rule apply_deltas_restore) (simp_all add: d(2) line_diff_new_def apply_line_diff_def)
    with reconstruct_eq(1) [OF _ read] content x(1) show ?thesis by (simp add: file_node_new_def)
  qed
  moreover have "walk_tree E [] tree [] s = (Ok (map (imported E) fs), ?s)"
    by (simp add: walk_tree_run assms(1))
  ultimately show ?thesis by auto
qed

definition sample_tree :: "git_entry list" where
  "sample_tree =
     [GitBlob (Some ''a'') (Some (text_of [''x'', ''y''])),
      GitTree (Some ''d'') (Some [GitBlob (Some ''b'') (Some (''l'' @ [carriage_return, newline])), GitOther None]),
      GitBlob (Some ''c'') None]"

theorem git_import_texts_witness:
  "\<exists>s'. walk_tree sample_env [] sample_tree [] empty_db
       = (Ok (map (imported sample_env) [(''a'', text_of [''x'', ''y'']), (''d/b'', ''l'' @ [carriage_return, newline])]), s')
     \<and> reconstruct_text sample_env (imported sample_env (''a'', text_of [''x'', ''y''])) s' = (Ok (text_of [''x'', ''y'']), s')
     \<and> reconstruct_text sample_env (imported sample_env (''d/b'', ''l'' @ [carriage_return, newline])) s'
       = (Ok (text_of [''l'']), s')"
proof -
  let ?fs = "[(''a'', text_of [''x'', ''y'']), (''d/b'', ''l'' @ [carriage_return, newline])]"
  have 1: "?fs = tree_files [] sample_tree" by code_simp
  have 2: "contents_agree sample_env ?fs empty_db"
    by (simp add: contents_agree_def get_file_content_def empty_db_def select_row_def query_row_def)
  have 3: "deltas_empty sample_env ?fs empty_db"
    by (simp add: deltas_empty_def get_delta_def empty_db_def select_row_def query_row_def)
  have 4: "distinct (map dr_id (t_deltas empty_db))" by (simp add: empty_db_def)
  have 5: "restore_newline (from_utf8_lossy (text_of [''x'', ''y''])) (str_lines (from_utf8_lossy (text_of [''x'', ''y''])))
      = text_of [''x'', ''y'']"
    "restore_newline (from_utf8_lossy (''l'' @ [carriage_return, newline]))
      (str_lines (from_utf8_lossy (''l'' @ [carriage_return, newline]))) = text_of [''l'']"
    by code_simp+
  from git_import_texts [OF 1 2 3 4] 5 show ?thesis by auto
qed

end
