(* ===== verification/Api_Types.thy ===== *)
theory Api_Types
  imports External Errors
begin

text \<open>
  \<^verbatim>\<open>src/api/types.rs\<close>: what the service is asked and what it answers, one record for each
  structure, and the error of the service with its constructors; and \<open>map_error\<close> of
  \<^verbatim>\<open>src/api/service.rs\<close>, by which every error of the program reaches a caller. A \<open>usize\<close> is a
  natural number; the two requests without fields are the unit type.
\<close>

section \<open>The error\<close>

record api_error =
  ae_code :: string
  ae_message :: string
  ae_suggestion :: "string option"
  ae_details :: "json option"

type_synonym 'a api_result = "('a, api_error) result"

definition api_not_found :: "string \<Rightarrow> api_error" where
  "api_not_found msg =
     \<lparr>ae_code = ''NOT_FOUND'', ae_message = msg @ '' not found'',
      ae_suggestion = Some ''check that the name or ID is correct'', ae_details = None\<rparr>"

definition api_invalid_params :: "string \<Rightarrow> api_error" where
  "api_invalid_params msg =
     \<lparr>ae_code = ''INVALID_PARAMS'', ae_message = msg, ae_suggestion = Some ''check the provided parameters'', ae_details = None\<rparr>"

definition api_storage :: "string \<Rightarrow> api_error" where
  "api_storage msg =
     \<lparr>ae_code = ''STORAGE_ERROR'', ae_message = msg, ae_suggestion = Some ''check database integrity and permissions'', ae_details = None\<rparr>"

definition api_engine :: "string \<Rightarrow> api_error" where
  "api_engine msg =
     \<lparr>ae_code = ''ENGINE_ERROR'', ae_message = msg, ae_suggestion = None, ae_details = None\<rparr>"

definition api_state_machine :: "string \<Rightarrow> api_error" where
  "api_state_machine msg =
     \<lparr>ae_code = ''STATE_MACHINE_ERROR'', ae_message = msg, ae_suggestion = None, ae_details = None\<rparr>"

definition api_checkpoint :: "string \<Rightarrow> api_error" where
  "api_checkpoint msg =
     \<lparr>ae_code = ''CHECKPOINT_ERROR'', ae_message = msg, ae_suggestion = None, ae_details = None\<rparr>"

definition api_git_sync :: "string \<Rightarrow> api_error" where
  "api_git_sync msg =
     \<lparr>ae_code = ''GIT_SYNC_ERROR'', ae_message = msg, ae_suggestion = None, ae_details = None\<rparr>"

definition api_gc :: "string \<Rightarrow> api_error" where
  "api_gc msg =
     \<lparr>ae_code = ''GC_ERROR'', ae_message = msg, ae_suggestion = None, ae_details = None\<rparr>"

definition api_internal :: "string \<Rightarrow> api_error" where
  "api_internal msg =
     \<lparr>ae_code = ''INTERNAL_ERROR'', ae_message = msg, ae_suggestion = None, ae_details = None\<rparr>"

definition api_general :: "string \<Rightarrow> api_error" where
  "api_general msg =
     \<lparr>ae_code = ''ERROR'', ae_message = msg, ae_suggestion = None, ae_details = None\<rparr>"

definition api_error_display :: "api_error \<Rightarrow> string" where
  "api_error_display e = ''['' @ ae_code e @ ''] '' @ ae_message e"

fun map_error :: "env \<Rightarrow> lt_error \<Rightarrow> api_error" where
  "map_error E (Storage se) = api_storage (storage_error_display (env_show_sql E) se)"
| "map_error E (Engine s) = api_engine s"
| "map_error E (StateMachine s) = api_state_machine s"
| "map_error E (CheckpointErr s) = api_checkpoint s"
| "map_error E (RestoreErr s) = api_checkpoint (''restore: '' @ s)"
| "map_error E (TransactionErr s) = api_checkpoint (''transaction: '' @ s)"
| "map_error E (Integrity s) = api_checkpoint (''integrity: '' @ s)"
| "map_error E (GitSync s) = api_git_sync s"
| "map_error E (Gc s) = api_gc s"
| "map_error E (NotFound s) = api_not_found s"
| "map_error E (Cli context suggestion) =
     \<lparr>ae_code = ''CLI_ERROR'', ae_message = context, ae_suggestion = suggestion, ae_details = None\<rparr>"
| "map_error E (Serialization s) = api_internal (''serialization: '' @ s)"
| "map_error E (General s) = api_general s"

section \<open>Requests\<close>

record init_request =
  irq_db_path :: "string option"
  irq_git_repo :: "string option"
  irq_git_ref :: "string option"

record edit_request =
  erq_file :: string
  erq_content :: "string option"

record agent_edit_request =
  aerq_agent_id :: string
  aerq_file :: string
  aerq_content :: "string option"

record agent_submit_request =
  asrq_agent_id :: string

record approve_request =
  aprq_agent_id :: string

record commit_request =
  crq_message :: string
  crq_author :: "string option"

record log_request =
  lrq_count :: "nat option"

record branch_create_request =
  bcrq_name :: string

record branch_switch_request =
  bsrq_name :: string

record merge_request =
  mrq_branch :: string
  mrq_message :: "string option"

record backup_request =
  brq_snapshot_id :: string
  brq_label :: "string option"

record backup_restore_request =
  rrq_backup_id :: string

record checkpoint_restore_request =
  crrq_checkpoint_id :: string
  crrq_source_filter :: "string list option"

record checkpoint_restore_by_time_request =
  crtq_target_time :: int
  crtq_source_filter :: "string list option"

record checkpoint_diff_request =
  cdrq_from_id :: string
  cdrq_to_id :: string

record checkpoint_rollback_request =
  cbrq_checkpoint_id :: string

record checkpoint_restore_apply_request =
  carq_checkpoint_id :: string
  carq_source_filter :: "string list option"
  carq_update_staged :: bool
  carq_skip_write :: bool

record git_commit_request =
  gcrq_git_repo :: string
  gcrq_message :: "string option"

record pull_request =
  purq_remote :: "string option"
  purq_git_repo :: string
  purq_git_ref :: "string option"

record show_request =
  srq_show_what :: string
  srq_target_id :: "string option"

record compact_request =
  cmrq_vacuum_full :: "bool option"

record clean_request =
  clrq_branch :: "string option"
  clrq_layer :: "string option"
  clrq_all :: bool

record approve_agent_request =
  aarq_agent_id :: string
  aarq_integrated_name :: "string option"

record reject_agent_request =
  rarq_agent_id :: string

record merge_to_unified_request =
  murq_integration_names :: "string list option"

type_synonym gc_request = unit

type_synonym merge_to_staged_request = unit

definition init_request_default :: init_request where
  "init_request_default =
     \<lparr>irq_db_path = Some ''.layertwine/layertwine.db'', irq_git_repo = None, irq_git_ref = None\<rparr>"

section \<open>Responses\<close>

record restored_snapshot_info =
  rsi_snapshot_id :: string
  rsi_source :: string
  rsi_content_hex :: string
  rsi_content_type :: string

record checkpoint_info =
  cpi_id :: string
  cpi_author :: string
  cpi_message :: string
  cpi_parents :: "string list"
  cpi_snapshots :: "string list"
  cpi_created_at :: int
  cpi_git_anchor :: "string option"

record checkpoint_restore_response =
  crrs_checkpoint :: checkpoint_info
  crrs_snapshots :: "restored_snapshot_info list"
  crrs_ancestry :: "string list"

record checkpoint_diff_response =
  cdrs_from_id :: string
  cdrs_to_id :: string
  cdrs_added :: "string list"
  cdrs_removed :: "string list"
  cdrs_modified :: "string list"
  cdrs_total_changes :: nat

record checkpoint_rollback_response =
  cbrs_checkpoint_id :: string
  cbrs_snapshot_ids :: "string list"

record checkpoint_restore_apply_response =
  cars_checkpoint_id :: string
  cars_files_written :: "string list"
  cars_staged_updated :: bool

record file_diff =
  fd_file_path :: string
  fd_unified_diff :: string
  fd_inserts :: nat
  fd_deletes :: nat

record show_response =
  srs_target :: string
  srs_diffs :: "file_diff list"

record init_response =
  irs_db_path :: string
  irs_manual_partition_id :: string
  irs_staged_partition_id :: string
  irs_branch :: string

record partition_info =
  pi_layer :: string
  pi_name :: string
  pi_current_snapshot :: string
  pi_history_len :: nat

record status_response =
  sts_partitions :: "partition_info list"

record edit_response =
  ers_snapshot_id :: string
  ers_staged_snapshot_id :: "string option"

record submit_response =
  sbrs_snapshot_id :: string

record approve_response =
  aprs_integrated_snapshot_id :: string
  aprs_staged_snapshot_id :: string

record commit_response =
  cors_checkpoint_id :: string
  cors_message :: string

record log_response =
  lrs_checkpoints :: "checkpoint_info list"
  lrs_total :: nat

record branch_create_response =
  bcrs_name :: string
  bcrs_head :: string

record branch_switch_response =
  bsrs_name :: string
  bsrs_checkpoint_id :: string

record branch_info =
  bi_name :: string
  bi_head :: string
  bi_updated_at :: string
  bi_is_current :: bool

record branch_list_response =
  blrs_branches :: "branch_info list"
  blrs_current :: "string option"

record merge_response =
  mrs_checkpoint_id :: string
  mrs_source_branch :: string
  mrs_target_branch :: string

record backup_response =
  brs_backup_id :: string
  brs_source_snapshot_id :: string
  brs_label :: "string option"

record backup_restore_response =
  rrs_backup_id :: string
  rrs_file :: string
  rrs_deltas_restored :: nat
  rrs_merged_snapshot_id :: string

record gc_response =
  gcs_removed_checkpoints :: nat
  gcs_removed_snapshots :: nat
  gcs_freed_bytes :: nat
  gcs_delta_chain_depth_triggered :: bool

record compact_response =
  cmrs_wal_checkpointed :: bool
  cmrs_freelist_before :: int
  cmrs_total_pages :: int
  cmrs_freelist_after :: int
  cmrs_vacuum_performed :: bool
  cmrs_message :: string

record git_commit_response =
  gcrs_git_commit_hash :: string

record clean_response =
  clrs_removed_branches :: nat
  clrs_removed_checkpoints :: nat
  clrs_removed_snapshots :: nat
  clrs_removed_deltas :: nat
  clrs_removed_layers :: nat
  clrs_message :: string

record pull_response =
  purs_remote :: string
  purs_git_ref :: string

record approval_info =
  ai_agent_id :: string
  ai_partition_name :: string
  ai_current_snapshot :: string
  ai_history_len :: nat

record list_pending_approvals_response =
  lpas_approvals :: "approval_info list"
  lpas_total :: nat

record approve_agent_response =
  aars_agent_id :: string
  aars_integrated_snapshot_id :: string

record reject_agent_response =
  rars_agent_id :: string
  rars_baseline_snapshot_id :: string

record merge_to_unified_response =
  murs_unified_snapshot_id :: string
  murs_merged_count :: nat

record merge_to_staged_response =
  mtrs_staged_snapshot_id :: string

end
