(* ===== verification/Service_Base.thy ===== *)
theory Service_Base
  imports Api_Types Backup_Merge Checkpoint_Restore Checkpoint_Gc Git_Bridge
begin

text \<open>
  What the handlers of \<^verbatim>\<open>src/api/service.rs\<close> share: the state of the service, the ways a handler
  reaches its parts, and the helpers that rebuild texts and show differences.

  The service holds the database, a repository of checkpoints loaded from it once and kept in memory
  behind a lock, and the database of the backups. The kept repository writes to the same database, so
  its attached storage is that database whenever a program runs on it. Some handlers load a repository
  of their own instead; the kept one does not notice what they write. The lock is poisoned when a
  handler panics while it holds it for writing: all later uses of the lock fail.
\<close>

section \<open>State\<close>

record service =
  sv_db :: db
  sv_repo :: repo
  sv_backups :: backup_db
  sv_poisoned :: bool
  sv_db_path :: string
  sv_diff_cache :: diff_cache

type_synonym 'a handler = "(service, 'a, api_error) prog"

type_synonym 'a service_prog = "(service, 'a, lt_error) prog"

text \<open>Code of other crates that only the service calls: the rendering of a UUID, the crate \<open>hex\<close>, the
  rendering of differences, and \<open>json_each\<close> of SQLite, which gives the text of each element of an array
  of arrays, or refuses a JSON text that is stored as a BLOB.\<close>

record api_lib =
  al_show_uuid :: "uuid \<Rightarrow> string"
  al_hex :: "bytes \<Rightarrow> string"
  al_diff :: diff_lib
  al_codec :: backup_codec
  al_json_each :: "(content_id \<Rightarrow> string) option"

section \<open>Reaching the parts\<close>

definition on_core :: "'a sys \<Rightarrow> 'a service_prog" where
  "on_core m = (\<lambda>v. case m (sv_db v) of (r, s) \<Rightarrow> (r, v\<lparr>sv_db := s\<rparr>))"

definition on_backups :: "(db \<Rightarrow> (backup_db, 'a, lt_error) prog) \<Rightarrow> 'a service_prog" where
  "on_backups m = (\<lambda>v. case m (sv_db v) (sv_backups v) of (r, b) \<Rightarrow> (r, v\<lparr>sv_backups := b\<rparr>))"

definition storage_of :: "db \<Rightarrow> repo \<Rightarrow> db" where
  "storage_of s R = (case r_storage R of None \<Rightarrow> s | Some s' \<Rightarrow> s')"

definition on_kept :: "'a repo_prog \<Rightarrow> 'a service_prog" where
  "on_kept m = (\<lambda>v. case m ((sv_repo v)\<lparr>r_storage := Some (sv_db v)\<rparr>) of
     (r, R) \<Rightarrow> (r, v\<lparr>sv_repo := R, sv_db := storage_of (sv_db v) R\<rparr>))"

text \<open>\<open>load_checkpoint_repo\<close> and what is done with the loaded repository, which is dropped afterwards.\<close>

definition on_loaded :: "env \<Rightarrow> 'a repo_prog \<Rightarrow> 'a service_prog" where
  "on_loaded E m = (\<lambda>v. case repo_load E (sv_db v) of
     (Ok R, s) \<Rightarrow> (case m R of (r, R') \<Rightarrow> (r, v\<lparr>sv_db := storage_of s R'\<rparr>))
   | (Err e, s) \<Rightarrow> (Err e, v\<lparr>sv_db := s\<rparr>)
   | (Panic, s) \<Rightarrow> (Panic, v\<lparr>sv_db := s\<rparr>))"

text \<open>The same with a git repository.\<close>

definition with_loaded :: "env \<Rightarrow> ('g, 'a) bridge \<Rightarrow> (db \<times> 'g, 'a, lt_error) prog" where
  "with_loaded E m = (\<lambda>(s, g). case repo_load E s of
     (Ok R, s') \<Rightarrow> (case m (R, g) of (r, (R', g')) \<Rightarrow> (r, (storage_of s' R', g')))
   | (Err e, s') \<Rightarrow> (Err e, (s', g))
   | (Panic, s') \<Rightarrow> (Panic, (s', g)))"

definition with_git :: "(db \<times> 'g, 'a, api_error) prog \<Rightarrow> (service \<times> 'g, 'a, api_error) prog" where
  "with_git m = (\<lambda>(v, g). case m (sv_db v, g) of (r, (s, g')) \<Rightarrow> (r, (v\<lparr>sv_db := s\<rparr>, g')))"

definition beside :: "('g, 'a, 'e) prog \<Rightarrow> ('s \<times> 'g, 'a, 'e) prog" where
  "beside m = (\<lambda>(s, g). case m g of (r, g') \<Rightarrow> (r, (s, g')))"

abbreviation api :: "env \<Rightarrow> 'a service_prog \<Rightarrow> 'a handler" where
  "api E m \<equiv> map_err (map_error E) m"

definition lock_error :: api_error where
  "lock_error = api_internal (''Failed to acquire lock: poisoned lock: another task failed inside'')"

definition write_locked :: "'a handler \<Rightarrow> 'a handler" where
  "write_locked m = (\<lambda>v.
     if sv_poisoned v then (Err lock_error, v)
     else (case m v of
         (Panic, v') \<Rightarrow> (Panic, v'\<lparr>sv_poisoned := True\<rparr>)
       | (r, v') \<Rightarrow> (r, v')))"

definition read_locked :: "'a handler \<Rightarrow> 'a handler" where
  "read_locked m = (\<lambda>v. if sv_poisoned v then (Err lock_error, v) else m v)"

section \<open>Opening\<close>

text \<open>\<open>ApiService::open\<close> once the two database files are open.\<close>

definition open_service :: "env \<Rightarrow> string \<Rightarrow> backup_db \<Rightarrow> db \<Rightarrow> service api_result \<times> db" where
  "open_service E path backups =
     map_err (map_error E) (sbind (repo_load E) (\<lambda>R s.
       (Ok \<lparr>sv_db = s, sv_repo = R, sv_backups = backups, sv_poisoned = False, sv_db_path = path,
            sv_diff_cache = fmempty\<rparr>, s)))"

section \<open>Texts and differences\<close>

definition checkpoint_to_info :: "checkpoint \<Rightarrow> checkpoint_info" where
  "checkpoint_to_info cp =
     \<lparr>cpi_id = to_hex (cp_id cp), cpi_author = md_author (cp_metadata cp), cpi_message = md_message (cp_metadata cp),
      cpi_parents = map to_hex (cp_parents cp), cpi_snapshots = map to_hex (cp_snapshots cp),
      cpi_created_at = cp_created_at cp, cpi_git_anchor = md_git_anchor (cp_metadata cp)\<rparr>"

definition snapshot_id_to_hex :: "snapshot_id \<Rightarrow> string" where
  "snapshot_id_to_hex i = to_hex i"

definition reconstruct_text_from_id :: "env \<Rightarrow> snapshot_id \<Rightarrow> string handler" where
  "reconstruct_text_from_id E i = api E (on_core (sbind (read_snapshot E i) (reconstruct_text E)))"

definition baseline_text :: "env \<Rightarrow> checkpoint \<Rightarrow> string handler" where
  "baseline_text E cp = (case cp_snapshots cp of
     [] \<Rightarrow> ret []
   | i # _ \<Rightarrow> match_err (reconstruct_text_from_id E i) ret (ret []))"

definition last_checkpoint_text :: "env \<Rightarrow> string handler" where
  "last_checkpoint_text E =
     match_err (api E (on_core (storage (query (list_checkpoints E)))))
       (\<lambda>cps. case cps of [] \<Rightarrow> ret [] | cp # _ \<Rightarrow> baseline_text E cp)
       (ret [])"

fun op_stats :: "diff_op \<Rightarrow> nat \<times> nat" where
  "op_stats (Insert p ls) = (length ls, 0)"
| "op_stats (Delete p n) = (0, unat n)"
| "op_stats (Replace p n q ls) = (length ls, unat n)"
| "op_stats (Equal n) = (0, 0)"

definition diff_stats :: "line_diff \<Rightarrow> nat \<times> nat" where
  "diff_stats d =
     (let ops = concat (map h_ops (ld_hunks d))
      in (sum_list (map (fst \<circ> op_stats) ops), sum_list (map (snd \<circ> op_stats) ops)))"

definition cached_diff :: "api_lib \<Rightarrow> string \<Rightarrow> string \<Rightarrow> string handler" where
  "cached_diff L old new = (\<lambda>v. case format_unified_diff (al_diff L) old new 3 (sv_diff_cache v) of
     (u, c) \<Rightarrow> (Ok u, v\<lparr>sv_diff_cache := c\<rparr>))"

definition last_delta_path :: "snapshot \<Rightarrow> delta list \<Rightarrow> string" where
  "last_delta_path x ds = (case list_last ds of Some d \<Rightarrow> path_str (d_file d) | None \<Rightarrow> path_str (s_file x))"

text \<open>The end of the three \<open>show\<close> functions: both renderings and the answer.\<close>

definition show_diff :: "env \<Rightarrow> api_lib \<Rightarrow> string \<Rightarrow> string \<Rightarrow> string \<Rightarrow> string \<Rightarrow> show_response handler" where
  "show_diff E L target path old_text new_text =
     sbind (cached_diff L old_text new_text) (\<lambda>u.
     sbind (api E (lift_result (diff_to_line_diff E old_text new_text))) (\<lambda>d.
     ret \<lparr>srs_target = target,
          srs_diffs = [\<lparr>fd_file_path = path, fd_unified_diff = u,
            fd_inserts = fst (diff_stats d), fd_deletes = snd (diff_stats d)\<rparr>]\<rparr>))"

definition show_staged :: "env \<Rightarrow> api_lib \<Rightarrow> show_response handler" where
  "show_staged E L =
     sbind (api E (on_core (storage (query (get_partition staged_partition_id))))) (\<lambda>p.
     sbind (api E (on_core (read_snapshot E (p_current p)))) (\<lambda>x.
     sbind (reconstruct_text_from_id E (p_current p)) (\<lambda>new_text.
     sbind (last_checkpoint_text E) (\<lambda>old_text.
     sbind (api E (on_core (read_deltas (s_deltas x)))) (\<lambda>ds.
     show_diff E L ''staged'' (last_delta_path x ds) old_text new_text)))))"

definition parse_id :: "env \<Rightarrow> string \<Rightarrow> string \<Rightarrow> content_id handler" where
  "parse_id E what s =
     lift_result (and_then (result_map_err (map_error E) (from_hex s)) (\<lambda>x.
       ok_or x (api_invalid_params (''invalid '' @ what @ '' '' @ quoted s))))"

definition show_checkpoint :: "env \<Rightarrow> api_lib \<Rightarrow> string \<Rightarrow> show_response handler" where
  "show_checkpoint E L id_str =
     sbind (parse_id E ''checkpoint ID'' id_str) (\<lambda>i.
     sbind (api E (on_core (storage (query (get_checkpoint E i))))) (\<lambda>cp.
     sbind (lift_result (ok_or (list_first (cp_snapshots cp))
         (api_internal ''checkpoint has no baseline snapshots''))) (\<lambda>new_id.
     sbind (api E (on_core (read_snapshot E new_id))) (\<lambda>x.
     sbind (reconstruct_text_from_id E new_id) (\<lambda>new_text.
     sbind (api E (on_core (read_deltas (s_deltas x)))) (\<lambda>ds.
     sbind (case cp_parents cp of
         parent_id # _ \<Rightarrow> match_err (api E (on_core (storage (query (get_checkpoint E parent_id)))))
           (baseline_text E) (ret [])
       | [] \<Rightarrow> ret []) (\<lambda>old_text.
     show_diff E L (''checkpoint:'' @ id_str) (last_delta_path x ds) old_text new_text)))))))"

definition show_partition :: "env \<Rightarrow> api_lib \<Rightarrow> string \<Rightarrow> show_response handler" where
  "show_partition E L name =
     sbind (match_err (api E (on_core (storage (query (get_partition_by_name name))))) ret
       (fail (api_not_found (''partition '' @ quoted name)))) (\<lambda>p.
     sbind (api E (on_core (read_snapshot E (p_current p)))) (\<lambda>x.
     sbind (reconstruct_text_from_id E (p_current p)) (\<lambda>new_text.
     sbind (api E (on_core (read_deltas (s_deltas x)))) (\<lambda>ds.
     sbind (last_checkpoint_text E) (\<lambda>old_text.
     show_diff E L (''partition:'' @ name) (last_delta_path x ds) old_text new_text)))))"

definition show_target :: "env \<Rightarrow> api_lib \<Rightarrow> show_request \<Rightarrow> show_response handler" where
  "show_target E L req =
     (if srq_show_what req = ''staged'' then show_staged E L
      else if srq_show_what req = ''checkpoint'' then
        (case srq_target_id req of
           None \<Rightarrow> fail (api_invalid_params
             (''checkpoint ID required for '' @ quoted ''checkpoint'' @ '' target''))
         | Some i \<Rightarrow> show_checkpoint E L i)
      else if srq_show_what req = ''partition'' then
        (case srq_target_id req of
           None \<Rightarrow> fail (api_invalid_params
             (''partition name required for '' @ quoted ''partition'' @ '' target''))
         | Some n \<Rightarrow> show_partition E L n)
      else fail (api_invalid_params (''unknown show target '' @ quoted (srq_show_what req)
        @ ''. Use '' @ quoted ''staged'' @ '', '' @ quoted ''checkpoint'' @ '', or '' @ quoted ''partition'')))"

end
