(* ===== verification/Service_Layers.thy ===== *)
theory Service_Layers
  imports Service_Base
begin

text \<open>
  The handlers of \<^verbatim>\<open>src/api/service.rs\<close> that work on the layers: setting up a repository, the status,
  edits, submissions, approvals and the merges into staged.
\<close>

section \<open>Setting up\<close>

text \<open>\<open>init\<close> without a git repository, on the database at the path of the request or, without one, at
  that of the service. The repository of checkpoints is loaded for its effect on the database.\<close>

definition init_objects :: "env \<Rightarrow> snapshot sys" where
  "init_objects E =
     (let file = file_node_new E ''.layertwine/init'' [];
          empty_diff = delta_new E file (line_diff_new []) Manual;
          initial = snapshot_new_initial E file (d_id empty_diff)
      in sbind (storage (store_file_node E file [])) (\<lambda>_.
         sbind (storage (store_delta E empty_diff)) (\<lambda>_.
         sbind (storage (store_snapshot E initial [])) (\<lambda>_. ret initial))))"

definition init_partitions :: "env \<Rightarrow> (partition \<times> partition) sys" where
  "init_partitions E =
     sbind (init_objects E) (\<lambda>initial.
     sbind (ensure_manual_partition E (s_id initial)) (\<lambda>manual.
     sbind (ensure_staged_partition E (s_id initial)) (\<lambda>staged.
     sbind (repo_load E) (\<lambda>_. ret (manual, staged)))))"

definition init_path :: "string \<Rightarrow> init_request \<Rightarrow> string" where
  "init_path own req = (case irq_db_path req of None \<Rightarrow> own | Some p \<Rightarrow> p)"

definition init_empty :: "env \<Rightarrow> api_lib \<Rightarrow> string \<Rightarrow> init_request \<Rightarrow> (db, init_response, api_error) prog" where
  "init_empty E L own req =
     map_err (map_error E) (sbind (init_partitions E) (\<lambda>(manual, staged).
       ret \<lparr>irs_db_path = init_path own req, irs_manual_partition_id = al_show_uuid L (p_id manual),
            irs_staged_partition_id = al_show_uuid L (p_id staged), irs_branch = ''main''\<rparr>))"

section \<open>Status\<close>

fun layer_label :: "partition_type \<Rightarrow> string" where
  "layer_label PManual = ''manual_edit''"
| "layer_label (PAgent a) = ''agent_edit''"
| "layer_label (PApproval a) = ''approval''"
| "layer_label (PIntegrated n) = ''integrated''"
| "layer_label PUnified = ''unified''"
| "layer_label PStaged = ''staged''"

definition partition_to_info :: "partition \<Rightarrow> partition_info" where
  "partition_to_info p =
     \<lparr>pi_layer = layer_label (p_type p), pi_name = p_name p, pi_current_snapshot = to_hex (p_current p),
      pi_history_len = length (p_history p)\<rparr>"

definition status :: "env \<Rightarrow> status_response handler" where
  "status E =
     sbind (api E (on_core (storage (query list_partitions)))) (\<lambda>ps.
     ret \<lparr>sts_partitions = map partition_to_info ps\<rparr>)"

section \<open>Edits\<close>

definition content_required :: "string option \<Rightarrow> string handler" where
  "content_required c = lift_result (ok_or c
     (api_invalid_params ''edit content is required (provide via -c/--content or pipe via stdin)''))"

text \<open>\<open>map_err(...).ok()\<close>: a failure of the merge is not an error.\<close>

definition edit :: "env \<Rightarrow> edit_request \<Rightarrow> edit_response handler" where
  "edit E req =
     sbind (content_required (erq_content req)) (\<lambda>content.
     sbind (api E (on_core (apply_manual_edit E (erq_file req) content))) (\<lambda>i.
     sbind (match_err (api E (on_core (merge_manual_to_staged E))) (\<lambda>j. ret (Some j)) (ret None)) (\<lambda>staged.
     ret \<lparr>ers_snapshot_id = snapshot_id_to_hex i,
          ers_staged_snapshot_id = map_option snapshot_id_to_hex staged\<rparr>)))"

text \<open>Without a staged partition the first edit of an agent starts from a snapshot of its own content.\<close>

definition agent_initial_snapshot :: "env \<Rightarrow> agent_instance_id \<Rightarrow> string \<Rightarrow> string \<Rightarrow> snapshot_id sys" where
  "agent_initial_snapshot E a file content =
     match_err (query (get_partition staged_partition_id)) (\<lambda>p. ret (p_current p))
       (let node = file_node_new E file content;
            delta = delta_new E node (line_diff_new []) (Agent a);
            x = snapshot_new_initial E (file_node_new E file content) (d_id delta)
        in sbind (storage (store_file_node E node content)) (\<lambda>_.
           sbind (storage (store_delta E delta)) (\<lambda>_.
           sbind (storage (store_snapshot E x content)) (\<lambda>_. ret (s_id x)))))"

definition agent_edit :: "env \<Rightarrow> agent_edit_request \<Rightarrow> edit_response handler" where
  "agent_edit E req =
     (let a = AgentInstanceId (aerq_agent_id req) in
      sbind (content_required (aerq_content req)) (\<lambda>content.
      sbind (api E (on_core (agent_initial_snapshot E a (aerq_file req) content))) (\<lambda>initial.
      sbind (api E (on_core (ensure_agent_partition E a initial))) (\<lambda>_.
      sbind (api E (on_core (apply_agent_edit E a (aerq_file req) content))) (\<lambda>i.
      ret \<lparr>ers_snapshot_id = snapshot_id_to_hex i, ers_staged_snapshot_id = None\<rparr>)))))"

section \<open>Submissions and approvals\<close>

text \<open>The closure of \<open>map_err\<close> looks at the storage when the move has failed.\<close>

definition submit_error :: "env \<Rightarrow> agent_instance_id \<Rightarrow> lt_error \<Rightarrow> db \<Rightarrow> api_error" where
  "submit_error E a e s = (case get_partition (agent_partition_id E a) s of
     Err _ \<Rightarrow> api_invalid_params (''agent '' @ quoted (agent_name a)
       @ '' has not made any edits yet. Call agent_edit first.'')
   | _ \<Rightarrow> map_error E e)"

definition move_or_explain :: "env \<Rightarrow> agent_instance_id \<Rightarrow> snapshot_id handler" where
  "move_or_explain E a = (\<lambda>v. case on_core (move_agent_to_approval E a) v of
     (r, v') \<Rightarrow> (result_map_err (\<lambda>e. submit_error E a e (sv_db v')) r, v'))"

definition agent_submit :: "env \<Rightarrow> agent_submit_request \<Rightarrow> submit_response handler" where
  "agent_submit E req =
     (let a = AgentInstanceId (asrq_agent_id req) in
      sbind (match_err (on_core (storage (query (get_partition staged_partition_id)))) ret
        (fail (api_invalid_params ''no staged partition found. Make edits first.''))) (\<lambda>staged.
      sbind (api E (on_core (ensure_approval_agent_partition E a (p_current staged)))) (\<lambda>_.
      sbind (move_or_explain E a) (\<lambda>i.
      ret \<lparr>sbrs_snapshot_id = snapshot_id_to_hex i\<rparr>))))"

definition approve_agent :: "env \<Rightarrow> approve_agent_request \<Rightarrow> approve_agent_response handler" where
  "approve_agent E req =
     (let name = (case aarq_integrated_name req of None \<Rightarrow> aarq_agent_id req | Some n \<Rightarrow> n) in
      sbind (api E (on_core (merge_agent_to_feature E (AgentInstanceId (aarq_agent_id req)) name))) (\<lambda>m.
      ret \<lparr>aars_agent_id = aarq_agent_id req,
           aars_integrated_snapshot_id = snapshot_id_to_hex (res_snapshot m)\<rparr>))"

definition reject_agent :: "env \<Rightarrow> reject_agent_request \<Rightarrow> reject_agent_response handler" where
  "reject_agent E req =
     sbind (api E (on_core (reject_approval E (AgentInstanceId (rarq_agent_id req))))) (\<lambda>i.
     ret \<lparr>rars_agent_id = rarq_agent_id req, rars_baseline_snapshot_id = snapshot_id_to_hex i\<rparr>)"

definition approval_to_info :: "partition \<Rightarrow> approval_info" where
  "approval_to_info p =
     \<lparr>ai_agent_id = (case p_type p of PApproval a \<Rightarrow> agent_name a | _ \<Rightarrow> []), ai_partition_name = p_name p,
      ai_current_snapshot = to_hex (p_current p), ai_history_len = length (p_history p)\<rparr>"

definition pending_approvals :: "env \<Rightarrow> list_pending_approvals_response handler" where
  "pending_approvals E =
     sbind (api E (on_core list_pending_approvals)) (\<lambda>ps.
     ret \<lparr>lpas_approvals = map approval_to_info ps, lpas_total = length ps\<rparr>)"

section \<open>Merges into staged\<close>

fun integrated_name :: "partition_type \<Rightarrow> string option" where
  "integrated_name (PIntegrated n) = Some n"
| "integrated_name _ = None"

text \<open>The names of all integrated partitions; an error counts as none.\<close>

definition integrated_names :: "string list service_prog" where
  "integrated_names =
     match_err (on_core (storage (query list_partitions)))
       (\<lambda>ps. ret (List.map_filter (integrated_name \<circ> p_type) ps)) (ret [])"

definition merge_to_unified :: "env \<Rightarrow> merge_to_unified_request \<Rightarrow> merge_to_unified_response handler" where
  "merge_to_unified E req =
     sbind (api E (case murq_integration_names req of Some ns \<Rightarrow> ret ns | None \<Rightarrow> integrated_names)) (\<lambda>names.
     if names = [] then fail (api_invalid_params ''no integrated partitions found to merge'')
     else
       sbind (api E (on_core (merge_features_to_staged E names))) (\<lambda>m.
       ret \<lparr>murs_unified_snapshot_id = snapshot_id_to_hex (res_snapshot m), murs_merged_count = length names\<rparr>))"

definition merge_all_to_staged :: "env \<Rightarrow> merge_to_staged_request \<Rightarrow> merge_to_staged_response handler" where
  "merge_all_to_staged E req =
     sbind (api E integrated_names) (\<lambda>names.
     sbind (if names = []
         then sbind (api E (on_core (storage (query (get_partition staged_partition_id)))))
           (\<lambda>p. ret (snapshot_id_to_hex (p_current p)))
         else sbind (api E (on_core (merge_features_to_staged E names)))
           (\<lambda>m. ret (snapshot_id_to_hex (res_snapshot m)))) (\<lambda>i.
     ret \<lparr>mtrs_staged_snapshot_id = i\<rparr>))"

definition approve :: "env \<Rightarrow> approve_request \<Rightarrow> approve_response handler" where
  "approve E req =
     sbind (approve_agent E \<lparr>aarq_agent_id = aprq_agent_id req, aarq_integrated_name = Some (aprq_agent_id req)\<rparr>)
       (\<lambda>ar.
     sbind (api E integrated_names) (\<lambda>names.
     sbind (if names = [] then ret (aars_integrated_snapshot_id ar)
         else sbind (api E (on_core (merge_features_to_staged E names)))
           (\<lambda>m. ret (snapshot_id_to_hex (res_snapshot m)))) (\<lambda>i.
     ret \<lparr>aprs_integrated_snapshot_id = aars_integrated_snapshot_id ar, aprs_staged_snapshot_id = i\<rparr>)))"

end
