(* ===== verification/Service_Checkpoints.thy ===== *)
theory Service_Checkpoints
  imports Service_Base
begin

text \<open>
  The handlers of \<^verbatim>\<open>src/api/service.rs\<close> that work on checkpoints, branches and backups, and the two
  that collect garbage. \<open>commit\<close>, \<open>log\<close>, the branch and the restore handlers use the kept repository under
  its lock; \<open>merge\<close>, \<open>gc\<close> and \<open>clean\<close> load one of their own.
\<close>

section \<open>Commits and branches\<close>

definition source_of_snapshot :: "snapshot \<Rightarrow> string" where
  "source_of_snapshot x = (if s_source x \<noteq> [] then s_source x else ''file://'' @ path_str (s_file x))"

text \<open>The source of the snapshot; every failure is ignored.\<close>

definition record_source :: "env \<Rightarrow> checkpoint_id \<Rightarrow> snapshot_id \<Rightarrow> unit handler" where
  "record_source E i x =
     match_err (api E (on_core (read_snapshot E x)))
       (\<lambda>y. sbind (match_err (api E (on_kept (set_snapshot_source i x (source_of_snapshot y)))) ret (ret ())) (\<lambda>_.
         match_err (api E (on_kept (sync_checkpoint E i))) ret (ret ())))
       (ret ())"

definition commit :: "env \<Rightarrow> commit_request \<Rightarrow> commit_response handler" where
  "commit E req =
     (let author = (case crq_author req of None \<Rightarrow> ''user'' | Some a \<Rightarrow> a) in
      sbind (api E (on_core (storage (query (get_partition staged_partition_id))))) (\<lambda>staged.
      write_locked (
        sbind (api E (on_kept (commit_single E (p_current staged) (crq_message req) author))) (\<lambda>i.
        sbind (record_source E i (p_current staged)) (\<lambda>_.
        ret \<lparr>cors_checkpoint_id = to_hex i, cors_message = crq_message req\<rparr>)))))"

definition log_checkpoints :: "env \<Rightarrow> log_request \<Rightarrow> log_response handler" where
  "log_checkpoints E req =
     (let n = (case lrq_count req of None \<Rightarrow> 20 | Some k \<Rightarrow> k) in
      read_locked (
        sbind (api E (on_kept (repo_log n))) (\<lambda>cps.
        ret \<lparr>lrs_checkpoints = map checkpoint_to_info cps, lrs_total = length cps\<rparr>)))"

definition branch_create :: "env \<Rightarrow> branch_create_request \<Rightarrow> branch_create_response handler" where
  "branch_create E req =
     write_locked (
       sbind (query (\<lambda>v. Ok (branch_exists (bcrq_name req) (sv_repo v)))) (\<lambda>exists.
       if exists then fail (api_invalid_params (''branch '' @ quoted (bcrq_name req) @ '' already exists''))
       else
         sbind (api E (on_kept (create_branch E (bcrq_name req)))) (\<lambda>_.
         sbind (api E (on_kept (query (get_branch_head (bcrq_name req))))) (\<lambda>head.
         ret \<lparr>bcrs_name = bcrq_name req, bcrs_head = to_hex head\<rparr>))))"

text \<open>\<open>assert_eq!\<close>, after the lock has been dropped\<close>

definition assert_equal :: "'a \<Rightarrow> 'a \<Rightarrow> unit handler" where
  "assert_equal x y = lift_result (if x = y then Ok () else Panic)"

definition branch_switch :: "env \<Rightarrow> branch_switch_request \<Rightarrow> branch_switch_response handler" where
  "branch_switch E req =
     sbind (match_err (on_core (storage (query (get_branch (bsrq_name req))))) (\<lambda>_. ret ())
       (fail (api_not_found (''branch '' @ quoted (bsrq_name req))))) (\<lambda>_.
     sbind (write_locked (
         sbind (api E (on_kept (repo_switch_branch E (bsrq_name req)))) (\<lambda>i.
         sbind (api E (on_core (switch_branch E (bsrq_name req)))) (\<lambda>j. ret (i, j))))) (\<lambda>(i, j).
     sbind (assert_equal i j) (\<lambda>_.
     ret \<lparr>bsrs_name = bsrq_name req, bsrs_checkpoint_id = to_hex i\<rparr>)))"

definition branch_to_info :: "string \<Rightarrow> branch \<Rightarrow> branch_info" where
  "branch_to_info current b =
     \<lparr>bi_name = br_name b, bi_head = to_hex (br_head b), bi_updated_at = show_int (br_updated_at b),
      bi_is_current = (br_name b = current)\<rparr>"

definition branch_list :: "env \<Rightarrow> branch_list_response handler" where
  "branch_list E =
     sbind (api E (on_core (storage (query list_branches)))) (\<lambda>bs.
     read_locked (
       sbind (api E (on_kept current_branch_name)) (\<lambda>current.
       ret \<lparr>blrs_branches = map (branch_to_info current) bs, blrs_current = Some current\<rparr>)))"

text \<open>The staged partition takes each snapshot of the source branch in turn.\<close>

definition merge_into_current :: "env \<Rightarrow> merge_request \<Rightarrow> (api_error + merge_response) repo_prog" where
  "merge_into_current E req =
     sbind current_branch_name (\<lambda>current.
     sbind (query (get_branch_head (mrq_branch req))) (\<lambda>source_head R.
     case fmlookup (r_checkpoints R) source_head of
       None \<Rightarrow> (Ok (Inl (api_not_found ''source checkpoint not found'')), R)
     | Some source \<Rightarrow>
         sbind (core_of_repo (for_each (\<lambda>i. storage (update_pointer E staged_partition_id i))
           (cp_snapshots source))) (\<lambda>_.
         sbind (merge_branches E (mrq_branch req) (cp_snapshots source)
           (case mrq_message req of None \<Rightarrow> ''merge'' | Some m \<Rightarrow> m) ''user'') (\<lambda>i.
         ret (Inr \<lparr>mrs_checkpoint_id = to_hex i, mrs_source_branch = mrq_branch req,
           mrs_target_branch = current\<rparr>))) R))"

definition merge_branch :: "env \<Rightarrow> merge_request \<Rightarrow> merge_response handler" where
  "merge_branch E req = (\<lambda>v. case on_loaded E (merge_into_current E req) v of
     (Ok (Inl e), v') \<Rightarrow> (Err e, v')
   | (Ok (Inr resp), v') \<Rightarrow> (Ok resp, v')
   | (Err e, v') \<Rightarrow> (Err (map_error E e), v')
   | (Panic, v') \<Rightarrow> (Panic, v'))"

section \<open>Backups\<close>

definition backup :: "env \<Rightarrow> api_lib \<Rightarrow> backup_request \<Rightarrow> backup_response handler" where
  "backup E L req =
     sbind (parse_id E ''snapshot ID'' (brq_snapshot_id req)) (\<lambda>i.
     sbind (api E (on_backups (\<lambda>core. create_backup E (al_codec L) core i (brq_label req)))) (\<lambda>b.
     ret \<lparr>brs_backup_id = to_hex b, brs_source_snapshot_id = brq_snapshot_id req, brs_label = brq_label req\<rparr>))"

definition backup_path :: "backup_snapshot \<Rightarrow> string" where
  "backup_path b = path_str (merge_file b)"

definition backup_restore :: "env \<Rightarrow> api_lib \<Rightarrow> backup_restore_request \<Rightarrow> backup_restore_response handler" where
  "backup_restore E L req =
     sbind (parse_id E ''backup ID'' (rrq_backup_id req)) (\<lambda>i.
     sbind (api E (query (\<lambda>v. get_backup E (al_codec L) i (sv_backups v)))) (\<lambda>b.
     sbind (api E (on_core (storage (store_file_node E (bs_file b) (bs_file_content b))))) (\<lambda>_.
     sbind (api E (on_core (for_each (\<lambda>d. storage (store_delta E d)) (bs_deltas b)))) (\<lambda>_.
     sbind (api E (\<lambda>v. on_core (merge_to_staged E (al_codec L) (sv_backups v) i) v)) (\<lambda>m.
     ret \<lparr>rrs_backup_id = rrq_backup_id req, rrs_file = backup_path b,
          rrs_deltas_restored = length (bs_deltas b), rrs_merged_snapshot_id = to_hex m\<rparr>)))))"

section \<open>Restoring checkpoints\<close>

definition effective_source :: "checkpoint \<Rightarrow> snapshot_id \<Rightarrow> string \<Rightarrow> string" where
  "effective_source cp i source = (if source \<noteq> [] then source else source_of cp i)"

definition restored_to_info :: "env \<Rightarrow> api_lib \<Rightarrow> checkpoint \<Rightarrow> restored \<Rightarrow> restored_snapshot_info" where
  "restored_to_info E L cp x = (case x of (i, content, source) \<Rightarrow>
     \<lparr>rsi_snapshot_id = to_hex i, rsi_source = effective_source cp i source,
      rsi_content_hex = al_hex L (to_bytes E content), rsi_content_type = content_type content\<rparr>)"

definition restore_to_response :: "env \<Rightarrow> api_lib \<Rightarrow> restore_response \<Rightarrow> checkpoint_restore_response" where
  "restore_to_response E L resp =
     \<lparr>crrs_checkpoint = checkpoint_to_info (rs_checkpoint resp),
      crrs_snapshots = map (restored_to_info E L (rs_checkpoint resp)) (rs_snapshots resp),
      crrs_ancestry = map to_hex (rs_ancestry resp)\<rparr>"

definition checkpoint_restore ::
    "env \<Rightarrow> api_lib \<Rightarrow> checkpoint_restore_request \<Rightarrow> checkpoint_restore_response handler" where
  "checkpoint_restore E L req =
     sbind (parse_id E ''checkpoint ID'' (crrq_checkpoint_id req)) (\<lambda>i.
     read_locked (
       sbind (api E (on_kept (query (restore E
         \<lparr>rq_checkpoint = Some i, rq_filter = crrq_source_filter req, rq_range = None\<rparr>)))) (\<lambda>resp.
       ret (restore_to_response E L resp))))"

definition checkpoint_restore_by_time ::
    "env \<Rightarrow> api_lib \<Rightarrow> checkpoint_restore_by_time_request \<Rightarrow> checkpoint_restore_response handler" where
  "checkpoint_restore_by_time E L req =
     read_locked (
       sbind (api E (on_kept (query (restore_by_time E (crtq_target_time req) (crtq_source_filter req))))) (\<lambda>resp.
       ret (restore_to_response E L resp)))"

definition checkpoint_diff :: "env \<Rightarrow> checkpoint_diff_request \<Rightarrow> checkpoint_diff_response handler" where
  "checkpoint_diff E req =
     sbind (parse_id E ''from_id'' (cdrq_from_id req)) (\<lambda>from_id.
     sbind (parse_id E ''to_id'' (cdrq_to_id req)) (\<lambda>to_id.
     read_locked (
       sbind (api E (on_kept (query (diff_checkpoints E from_id to_id)))) (\<lambda>d.
       ret \<lparr>cdrs_from_id = to_hex (cd_from d), cdrs_to_id = to_hex (cd_to d),
            cdrs_added = map to_hex (cd_added d), cdrs_removed = map to_hex (cd_removed d),
            cdrs_modified = map to_hex (cd_modified d), cdrs_total_changes = total_changes d\<rparr>))))"

definition checkpoint_rollback :: "env \<Rightarrow> checkpoint_rollback_request \<Rightarrow> checkpoint_rollback_response handler" where
  "checkpoint_rollback E req =
     sbind (parse_id E ''checkpoint ID'' (cbrq_checkpoint_id req)) (\<lambda>i.
     read_locked (
       sbind (api E (on_kept (query (rollback_to i)))) (\<lambda>ids.
       sbind (case ids of
           [] \<Rightarrow> ret ()
         | first # _ \<Rightarrow> api E (on_core (storage (update_pointer E staged_partition_id first)))) (\<lambda>_.
       ret \<lparr>cbrs_checkpoint_id = cbrq_checkpoint_id req, cbrs_snapshot_ids = map to_hex ids\<rparr>))))"

text \<open>With the working directory: a file system of its own, as in \<open>apply_restore\<close>.\<close>

definition on_service :: "'a handler \<Rightarrow> (service \<times> 'fs, 'a, api_error) prog" where
  "on_service m = (\<lambda>(v, fs). case m v of (r, v') \<Rightarrow> (r, (v', fs)))"

definition on_files :: "env \<Rightarrow> ('fs, 'a, lt_error) prog \<Rightarrow> (service \<times> 'fs, 'a, api_error) prog" where
  "on_files E m = (\<lambda>(v, fs). case map_err (map_error E) m fs of (r, fs') \<Rightarrow> (r, (v, fs')))"

definition stage_restored :: "env \<Rightarrow> restored list \<Rightarrow> unit handler" where
  "stage_restored E xs =
     for_each (\<lambda>(i, content, source).
       if starts_with source ''file://''
       then match_err (api E (on_core (storage (update_pointer E staged_partition_id i)))) ret (ret ())
       else ret ()) xs"

definition checkpoint_restore_and_apply ::
    "env \<Rightarrow> (string \<Rightarrow> ('fs, unit, lt_error) prog) \<Rightarrow> (string \<Rightarrow> bytes \<Rightarrow> ('fs, unit, lt_error) prog)
      \<Rightarrow> checkpoint_restore_apply_request
      \<Rightarrow> (service \<times> 'fs, checkpoint_restore_apply_response, api_error) prog" where
  "checkpoint_restore_and_apply E make_dirs write_file req =
     sbind (on_service (parse_id E ''checkpoint ID'' (carq_checkpoint_id req))) (\<lambda>i.
     sbind (on_service (read_locked (api E (on_kept (query (restore E
         \<lparr>rq_checkpoint = Some i, rq_filter = carq_source_filter req, rq_range = None\<rparr>)))))) (\<lambda>resp.
     sbind (if carq_skip_write req
         then ret \<lparr>ra_checkpoint = cp_id (rs_checkpoint resp), ra_files = []\<rparr>
         else on_files E (apply_restore E make_dirs write_file resp (carq_source_filter req))) (\<lambda>applied.
     sbind (on_service (if carq_update_staged req then stage_restored E (rs_snapshots resp) else ret ())) (\<lambda>_.
     ret \<lparr>cars_checkpoint_id = carq_checkpoint_id req, cars_files_written = ra_files applied,
          cars_staged_updated = carq_update_staged req\<rparr>))))"

section \<open>Cleaning up\<close>

definition gc :: "env \<Rightarrow> gc_request \<Rightarrow> gc_response handler" where
  "gc E req =
     api E (on_loaded E (
       sbind collect_garbage (\<lambda>stats.
       sbind (sync_all E) (\<lambda>_.
       ret \<lparr>gcs_removed_checkpoints = gc_removed_checkpoints stats, gcs_removed_snapshots = gc_removed_snapshots stats,
            gcs_freed_bytes = gc_freed_bytes stats,
            gcs_delta_chain_depth_triggered = gc_depth_triggered stats\<rparr>))))"

text \<open>The two statements of \<^verbatim>\<open>connection.rs\<close> that delete orphans compare an identifier, which is a BLOB,
  with the elements of a JSON column, which are arrays of numbers: \<open>json_each\<close> gives their text. Values
  of different storage classes are never equal.\<close>

datatype sql_value = SqlBlob bytes | SqlText string

definition json_elements :: "api_lib \<Rightarrow> content_id list list \<Rightarrow> (sql_value list, storage_error) result" where
  "json_elements L rows = (case al_json_each L of
     Some text \<Rightarrow> Ok (map (SqlText \<circ> text) (concat rows))
   | None \<Rightarrow> (if rows = [] then Ok [] else Err (Database (SqliteFailure ''malformed JSON''))))"

definition cleanup_orphan_snapshots :: "api_lib \<Rightarrow> nat db_prog" where
  "cleanup_orphan_snapshots L =
     sbind (query (\<lambda>s. json_elements L (map cr_snapshots (t_checkpoints s)))) (\<lambda>used s.
     let keep = filter (\<lambda>r. SqlBlob (sr_id r) \<in> set used) (t_snapshots s)
     in (Ok (length (t_snapshots s) - length keep), s\<lparr>t_snapshots := keep\<rparr>))"

definition cleanup_orphan_deltas :: "api_lib \<Rightarrow> nat db_prog" where
  "cleanup_orphan_deltas L =
     sbind (query (\<lambda>s. json_elements L (map sr_deltas (t_snapshots s)))) (\<lambda>used s.
     let keep = filter (\<lambda>r. SqlBlob (dr_id r) \<in> set used) (t_deltas s)
     in (Ok (length (t_deltas s) - length keep), s\<lparr>t_deltas := keep\<rparr>))"

definition ignored :: "(db, 'a, 'e) prog \<Rightarrow> (db, unit, 'e) prog" where
  "ignored m = match_err m (\<lambda>_. ret ()) (ret ())"

definition or_zero :: "env \<Rightarrow> nat db_prog \<Rightarrow> nat handler" where
  "or_zero E m = match_err (api E (on_core (storage m))) ret (ret 0)"

definition clear_everything :: "unit db_prog" where
  "clear_everything =
     sbind (match_err (query list_partitions)
       (\<lambda>ps. for_each (\<lambda>p. ignored (delete_partition (p_id p))) ps) (ret ())) (\<lambda>_.
     sbind (ignored clear_all_checkpoints) (\<lambda>_.
     sbind (ignored clear_all_branches) (\<lambda>_.
     sbind (ignored clear_all_layers) (\<lambda>_.
     sbind (ignored clear_all_snapshots) (\<lambda>_.
     ignored clear_all_deltas)))))"

text \<open>The connection of the service has no open savepoint.\<close>

definition on_connection :: "'a conn_prog \<Rightarrow> (db, 'a, storage_error) prog" where
  "on_connection m = (\<lambda>s. case m \<lparr>c_db = s, c_savepoints = []\<rparr> of (r, c) \<Rightarrow> (r, c_db c))"

definition clean_all :: "unit db_prog" where
  "clean_all = ignored (on_connection (with_atomic (on_db clear_everything)))"

definition clean_branch :: "env \<Rightarrow> string \<Rightarrow> (nat \<times> nat) repo_prog" where
  "clean_branch E name = (\<lambda>R.
     match_err (remove_branch name)
       (\<lambda>_. sbind collect_garbage (\<lambda>stats.
          sbind (sync_all E) (\<lambda>_.
          query (\<lambda>R'. Ok (length (r_branches R) - length (r_branches R'), gc_removed_checkpoints stats)))))
       (ret (0, 0)) R)"

definition clean_layer :: "string \<Rightarrow> nat db_prog" where
  "clean_layer name = (case layer_from_name name of
     None \<Rightarrow> ret 0
   | Some lt \<Rightarrow>
       sbind (match_err (query (get_layer lt))
         (\<lambda>l. for_each (\<lambda>pid. ignored (delete_partition pid)) (l_partitions l)) (ret ())) (\<lambda>_.
       sbind (ignored (delete_layer lt)) (\<lambda>_. ret 1)))"

definition clean_message :: "nat \<Rightarrow> nat \<Rightarrow> nat \<Rightarrow> nat \<Rightarrow> nat \<Rightarrow> string" where
  "clean_message nb nc ns nd nl =
     (if nb = 0 \<and> nc = 0 \<and> ns = 0 \<and> nd = 0 \<and> nl = 0 then ''Nothing to clean.''
      else ''Cleaned: '' @ show_nat nb @ '' branch(es), '' @ show_nat nc @ '' checkpoint(s), '' @ show_nat ns
        @ '' snapshot(s), '' @ show_nat nd @ '' delta(s), '' @ show_nat nl @ '' layer(s)'')"

definition clean :: "env \<Rightarrow> api_lib \<Rightarrow> clean_request \<Rightarrow> clean_response handler" where
  "clean E L req =
     (if clrq_all req then
        sbind (api E (on_core (storage clean_all))) (\<lambda>_.
        ret \<lparr>clrs_removed_branches = 0, clrs_removed_checkpoints = 0, clrs_removed_snapshots = 0,
             clrs_removed_deltas = 0, clrs_removed_layers = 0,
             clrs_message = ''All layertwine storage cleared. Run `init` to reinitialize.''\<rparr>)
      else
        sbind (case clrq_branch req of
            None \<Rightarrow> ret (0, 0)
          | Some name \<Rightarrow> api E (on_loaded E (clean_branch E name))) (\<lambda>(nb, nc).
        sbind (case clrq_layer req of
            None \<Rightarrow> ret 0
          | Some name \<Rightarrow> api E (on_core (storage (clean_layer name)))) (\<lambda>nl.
        sbind (or_zero E (cleanup_orphan_snapshots L)) (\<lambda>ns.
        sbind (or_zero E (cleanup_orphan_deltas L)) (\<lambda>nd.
        ret \<lparr>clrs_removed_branches = nb, clrs_removed_checkpoints = nc, clrs_removed_snapshots = ns,
             clrs_removed_deltas = nd, clrs_removed_layers = nl,
             clrs_message = clean_message nb nc ns nd nl\<rparr>)))))"

end
