(* ===== verification/Service_Git.thy ===== *)
theory Service_Git
  imports Service_Layers Service_Checkpoints
begin

text \<open>
  The handlers of \<^verbatim>\<open>src/api/service.rs\<close> that exchange checkpoints with git: \<open>init\<close> from a git repository,
  \<open>git_commit\<close> and \<open>pull\<close>. Each loads a repository of checkpoints of its own and ends with \<open>sync_all\<close>.
\<close>

definition init_imported :: "env \<Rightarrow> 'g git_lib \<Rightarrow> string \<Rightarrow> string \<Rightarrow> init_request
    \<Rightarrow> (db \<times> 'g, init_response, api_error) prog" where
  "init_imported E G own git_repo req =
     map_err (map_error E) (with_loaded E (
       sbind (init_from_git E G git_repo (case irq_git_ref req of None \<Rightarrow> ''HEAD'' | Some r \<Rightarrow> r)) (\<lambda>_.
       sbind (on_repo (sync_all E)) (\<lambda>_.
       ret \<lparr>irs_db_path = init_path own req, irs_manual_partition_id = [], irs_staged_partition_id = [],
            irs_branch = ''main''\<rparr>))))"

text \<open>\<open>init\<close>, on the database at the path of the request\<close>

definition init :: "env \<Rightarrow> api_lib \<Rightarrow> 'g git_lib \<Rightarrow> string \<Rightarrow> init_request
    \<Rightarrow> (db \<times> 'g, init_response, api_error) prog" where
  "init E L G own req = (case irq_git_repo req of
     Some git_repo \<Rightarrow> init_imported E G own git_repo req
   | None \<Rightarrow> (\<lambda>(s, g). case init_empty E L own req s of (r, s') \<Rightarrow> (r, (s', g))))"

definition git_commit :: "env \<Rightarrow> 'g git_lib \<Rightarrow> git_commit_request
    \<Rightarrow> (service \<times> 'g, git_commit_response, api_error) prog" where
  "git_commit E G req =
     (let message = (case gcrq_message req of None \<Rightarrow> ''sync from layertwine'' | Some m \<Rightarrow> m)
      in with_git (map_err (map_error E) (with_loaded E (
           sbind (on_repo current_branch_name) (\<lambda>branch_name.
           sbind (push_to_git E G (gcrq_git_repo req) branch_name message) (\<lambda>hash.
           sbind (on_repo (sync_all E)) (\<lambda>_.
           ret \<lparr>gcrs_git_commit_hash = hash\<rparr>)))))))"

definition pull :: "env \<Rightarrow> 'g git_lib \<Rightarrow> pull_request \<Rightarrow> (service \<times> 'g, pull_response, api_error) prog" where
  "pull E G req =
     (let remote = (case purq_remote req of None \<Rightarrow> ''origin'' | Some r \<Rightarrow> r);
          git_ref = (case purq_git_ref req of None \<Rightarrow> ''HEAD'' | Some r \<Rightarrow> r)
      in sbind (beside (map_err (map_error E) (fetch_from_remote G (purq_git_repo req) remote))) (\<lambda>_.
         with_git (map_err (map_error E) (with_loaded E (
           sbind (init_from_git E G (purq_git_repo req) git_ref) (\<lambda>_.
           sbind (on_repo (sync_all E)) (\<lambda>_.
           ret \<lparr>purs_remote = remote, purs_git_ref = git_ref\<rparr>)))))))"

end
