(* ===== verification/Service_Invariant.thy ===== *)
theory Service_Invariant
  imports Service_Git
begin

text \<open>
  The service as a state machine: one step for each request, the states it can reach from the databases it
  can be opened on, over restarts, and the invariant that holds in all of them.
\<close>

section \<open>Programs that keep a property of the state\<close>

text \<open>\<open>keeps P m\<close> speaks of every outcome; \<open>safe P m\<close> also excludes a panic.\<close>

abbreviation keeps :: "('s \<Rightarrow> bool) \<Rightarrow> ('s, 'a, 'e) prog \<Rightarrow> bool" where
  "keeps P \<equiv> stays (\<lambda>s s'. P s \<longrightarrow> P s')"

definition safe :: "('s \<Rightarrow> bool) \<Rightarrow> ('s, 'a, 'e) prog \<Rightarrow> bool" where
  "safe P m \<longleftrightarrow> keeps P m \<and> (\<forall>s. P s \<longrightarrow> fst (m s) \<noteq> Panic)"

interpretation kept: state_preorder "\<lambda>s s'. P s \<longrightarrow> P s'" for P
  by unfold_locales auto

lemma keepsD: "keeps P m \<Longrightarrow> P s \<Longrightarrow> P (snd (m s))"
  by (simp add: stays_def)

lemma keepsI: "(\<And>s. P s \<Longrightarrow> P (snd (m s))) \<Longrightarrow> keeps P m"
  by (simp add: stays_def)

lemma safeI: "(\<And>s. P s \<Longrightarrow> P (snd (m s)) \<and> fst (m s) \<noteq> Panic) \<Longrightarrow> safe P m"
  by (simp add: safe_def stays_def)

lemma safeD: "safe P m \<Longrightarrow> P s \<Longrightarrow> P (snd (m s)) \<and> fst (m s) \<noteq> Panic"
  by (simp add: safe_def stays_def)

lemma safe_keeps: "safe P m \<Longrightarrow> keeps P m"
  by (simp add: safe_def)

lemma safe_ret: "safe P (ret x)"
  by (simp add: safe_def kept.stays_ret) (simp add: ret_def)

lemma safe_fail: "safe P (fail e)"
  by (simp add: safe_def kept.stays_fail) (simp add: fail_def)

lemma safe_query: "(\<And>s. P s \<Longrightarrow> f s \<noteq> Panic) \<Longrightarrow> safe P (query f)"
  by (simp add: safe_def kept.stays_query) (simp add: query_def)

lemma safe_map_err: "safe P m \<Longrightarrow> safe P (map_err g m)"
  by (simp add: safe_def kept.stays_map_err) (simp add: map_err_def split: prod.split)

lemma safe_sbind:
  assumes "safe P m" and "\<And>x. safe P (f x)"
  shows "safe P (sbind m f)"
proof (rule safeI)
  fix s assume "P s"
  with safeD [OF assms(1)] obtain r s' where m: "m s = (r, s')" "P s'" "r \<noteq> Panic" by (metis prod.collapse)
  with safeD [OF assms(2)] show "P (snd (sbind m f s)) \<and> fst (sbind m f s) \<noteq> Panic"
    by (cases r) (auto simp: sbind_def)
qed

lemma safe_match_err:
  assumes "safe P m" and "\<And>x. safe P (f x)" and "safe P g"
  shows "safe P (match_err m f g)"
proof (rule safeI)
  fix s assume "P s"
  with safeD [OF assms(1)] obtain r s' where m: "m s = (r, s')" "P s'" "r \<noteq> Panic" by (metis prod.collapse)
  with safeD [OF assms(2)] safeD [OF assms(3)] show "P (snd (match_err m f g s)) \<and> fst (match_err m f g s) \<noteq> Panic"
    by (cases r) (auto simp: match_err_def)
qed

lemma safe_if: "safe P m \<Longrightarrow> safe P n \<Longrightarrow> safe P (if b then m else n)"
  by simp

lemma safe_cases:
  "(\<And>x. safe P (f x)) \<Longrightarrow> safe P g \<Longrightarrow> safe P (case m of Some x \<Rightarrow> f x | None \<Rightarrow> g)"
  "(\<And>x y. safe P (h x y)) \<Longrightarrow> safe P (case p of (x, y) \<Rightarrow> h x y)"
  by (cases m; simp) (cases p; simp)

lemma safe_for_each: "(\<And>x. safe P (f x)) \<Longrightarrow> safe P (for_each f xs)"
  by (induction xs) (auto intro: safe_ret safe_sbind)

lemmas safe_rules = safe_ret safe_fail safe_map_err safe_sbind safe_match_err safe_if safe_cases safe_for_each

lemma keeps_list: "keeps P m \<Longrightarrow> (\<And>x xs. keeps P (f x xs)) \<Longrightarrow> keeps P (case ys of [] \<Rightarrow> m | x # xs \<Rightarrow> f x xs)"
  by (cases ys) simp_all

lemmas keeps_rules = kept.stays_intros stays_cases keeps_list

section \<open>The database\<close>

abbreviation keeps_db :: "(db, 'a, 'e) prog \<Rightarrow> bool" where
  "keeps_db \<equiv> keeps partitions_ok"

lemma keeps_db_layer: "stays (layer_step P) m \<Longrightarrow> keeps_db m"
  by (rule keepsI) (rule stays_partitions_ok)

text \<open>Operations on the other tables\<close>

lemma keeps_db_tables:
  "(\<And>s. t_partitions (snd (m s)) = t_partitions s \<and> t_history (snd (m s)) = t_history s) \<Longrightarrow> keeps_db m"
  by (rule keepsI) (metis partitions_ok_cong)

lemma keeps_db_other:
  "keeps_db (store_checkpoint E cp)" "keeps_db (store_branch b)" "keeps_db (update_branch_head E n i)"
  "keeps_db (store_metadata E k v)" "keeps_db (delete_checkpoint i)" "keeps_db (delete_dag_node i)"
  "keeps_db (delete_branch n)" "keeps_db (store_dag_edge p c g)" "keeps_db (delete_layer lt)"
  "keeps_db clear_all_checkpoints" "keeps_db clear_all_branches" "keeps_db clear_all_layers"
  "keeps_db clear_all_snapshots" "keeps_db clear_all_deltas"
  "keeps_db (cleanup_orphan_snapshots L)" "keeps_db (cleanup_orphan_deltas L)"
  by (rule keeps_db_tables;
      simp add: store_checkpoint_def store_branch_def update_branch_head_def store_metadata_def delete_checkpoint_def
        delete_dag_node_def delete_branch_def store_dag_edge_def delete_layer_def clear_all_checkpoints_def
        clear_all_branches_def clear_all_layers_def clear_all_snapshots_def clear_all_deltas_def
        cleanup_orphan_snapshots_def cleanup_orphan_deltas_def sbind_def lift_result_def update_def query_def Let_def
        store_dag_edge_row_def store_generation_row_def
      split: result.split)+

lemma keeps_db_delete_partition: "keeps_db (delete_partition pid)"
  using delete_ok by (rule keepsI)

lemmas keeps_db_stores =
  keeps_db_layer [OF stays_store_file_node] keeps_db_layer [OF stays_store_delta]
  keeps_db_layer [OF stays_store_snapshot] keeps_db_layer [OF stays_update_pointer]
  keeps_db_layer [OF stays_branch(3)]
  stays_reads [THEN keeps_db_layer] keeps_db_other keeps_db_delete_partition

lemma safe_db:
  "keeps_db m \<Longrightarrow> (\<And>s. fst (m s) \<noteq> Panic) \<Longrightarrow> safe partitions_ok m"
  by (simp add: safe_def)

lemma keeps_db_parent_edges: "keeps_db (store_parent_edges cp G)"
  unfolding store_parent_edges_def by (intro keeps_rules keeps_db_stores)

lemma keeps_db_persist: "keeps_db (persist_db E cp G n)"
  unfolding persist_db_def by (intro keeps_rules keeps_db_stores keeps_db_parent_edges)

lemma safe_db_stores:
  "safe partitions_ok (store_checkpoint E cp)" "safe partitions_ok (store_branch b)"
  "safe partitions_ok (store_metadata E k v)" "safe partitions_ok (update_pointer E pid x)"
proof -
  have "sources_column E cp \<noteq> Panic" by (simp add: sources_column_def split: sum.split)
  then show "safe partitions_ok (store_checkpoint E cp)"
    by (intro safe_db keeps_db_stores) (simp add: store_checkpoint_def sbind_def lift_result_def update_def split: result.split)
  show "safe partitions_ok (store_branch b)" "safe partitions_ok (store_metadata E k v)"
    by (intro safe_db keeps_db_stores; simp add: store_branch_def store_metadata_def update_def)+
  show "safe partitions_ok (update_pointer E pid x)"
    by (rule safeI) (simp add: update_pointer_run pushed_ok)
qed

section \<open>The repository\<close>

text \<open>The part of the invariant of the repository that does not depend on fresh identifiers, and a
  consistent database attached to it.\<close>

definition frame_ok :: "repo \<Rightarrow> bool" where
  "frame_ok R \<longleftrightarrow> parents_known (r_checkpoints R) \<and> branches_ok (r_branches R) (r_current R) (r_checkpoints R)"

definition storage_fine :: "repo \<Rightarrow> bool" where
  "storage_fine R \<longleftrightarrow> (\<forall>s. r_storage R = Some s \<longrightarrow> partitions_ok s)"

definition kept_ok :: "repo \<Rightarrow> bool" where
  "kept_ok R \<longleftrightarrow> frame_ok R \<and> storage_fine R"

lemma repo_ok_frame: "repo_ok R \<Longrightarrow> frame_ok R"
  by (simp add: repo_ok_def frame_ok_def)

lemma frame_ok_storage [simp]: "frame_ok (R\<lparr>r_storage := st\<rparr>) = frame_ok R"
  by (simp add: frame_ok_def)

lemma on_storage_keeps: "keeps_db m \<Longrightarrow> keeps storage_fine (on_storage m)"
  by (rule keepsI) (auto simp: on_storage_def storage_fine_def stays_def split: option.split prod.splits)

lemma on_storage_keeps_kept: "keeps_db m \<Longrightarrow> keeps kept_ok (on_storage m)"
  by (rule keepsI) (auto simp: on_storage_def storage_fine_def kept_ok_def stays_def split: option.split prod.splits)

lemma on_storage_safe: "safe partitions_ok m \<Longrightarrow> safe kept_ok (on_storage m)"
proof (rule safeI)
  fix R assume m: "safe partitions_ok m" and R: "kept_ok R"
  show "kept_ok (snd (on_storage m R)) \<and> fst (on_storage m R) \<noteq> Panic"
  proof (cases "r_storage R")
    case (Some s)
    with R safeD [OF m, of s] show ?thesis
      by (cases "m s") (simp add: on_storage_def kept_ok_def storage_fine_def)
  qed (use R in \<open>simp add: on_storage_def\<close>)
qed

lemma update_keeps: "(\<And>R. r_storage (f R) = r_storage R) \<Longrightarrow> keeps storage_fine (update f)"
  by (rule keepsI) (simp add: update_def storage_fine_def)

lemma core_of_repo_keeps: "keeps_db m \<Longrightarrow> keeps storage_fine (core_of_repo m)"
  by (rule keepsI) (auto simp: core_of_repo_def storage_fine_def stays_def split: option.split prod.splits)

lemma keeps_current:
  "keeps P current_branch" "keeps P current_branch_head" "keeps P current_branch_name"
  unfolding current_branch_head_def current_branch_name_def current_branch_def by (intro keeps_rules)+

subsection \<open>What loaded repositories do\<close>

lemma loaded_record: "keeps storage_fine (record_checkpoint E cp)"
proof -
  have "keeps storage_fine (persist_checkpoint E cp)"
    unfolding persist_checkpoint_def
    by (intro kept.stays_sbind keeps_current)
      (use on_storage_keeps [OF keeps_db_persist] in \<open>simp add: stays_def\<close>)
  then show ?thesis
    unfolding record_checkpoint_def set_current_head_def
    by (intro keeps_rules update_keeps keeps_current) simp_all
qed

lemma loaded_commits:
  "keeps storage_fine (repo_commit E snaps message author)"
  "keeps storage_fine (merge_branches E source snaps message author)"
  unfolding repo_commit_def merge_branches_def by (intro keeps_rules loaded_record keeps_current)+

lemma keeps_ignored: "keeps P m \<Longrightarrow> keeps P (ignored m)" "keeps P n \<Longrightarrow> keeps P (ignore_errors n)"
  unfolding ignored_def ignore_errors_def by (auto intro!: kept.stays_match_err kept.stays_ret)

lemma keeps_sync_dirty: "keeps_db (sync_dirty E R i)"
  unfolding sync_dirty_def by (intro keeps_rules keeps_db_stores keeps_db_parent_edges)

lemma loaded_sync: "keeps storage_fine (sync_all E)"
proof -
  have "keeps storage_fine (sync_storage E R)" for R
    unfolding sync_storage_def
    by (intro keeps_rules update_keeps on_storage_keeps keeps_current keeps_sync_dirty keeps_ignored keeps_db_stores) simp_all
  then show ?thesis by (simp add: stays_def sync_all_def)
qed

lemma loaded_remove_branch: "keeps storage_fine (remove_branch n)"
  unfolding remove_branch_def
  by (intro keeps_rules update_keeps on_storage_keeps keeps_db_stores) simp_all

lemma loaded_remove_checkpoint: "keeps storage_fine (remove_checkpoint i)"
proof -
  have "keeps storage_fine (sbind (update f) (\<lambda>_. on_storage (sbind (delete_checkpoint i) (\<lambda>_. delete_dag_node i))))"
    if "\<And>R. r_storage (f R) = r_storage R" for f
    using that by (intro keeps_rules update_keeps on_storage_keeps keeps_db_stores)
  then show ?thesis by (auto simp: remove_checkpoint_def stays_def split: option.split)
qed

lemma fold_sweep_fine: "storage_fine R \<Longrightarrow> storage_fine (snd (fold (sweep_node keep) is (st, R)))"
proof (induction "is" arbitrary: st R)
  case (Cons i "is")
  have "storage_fine (snd (sweep_node keep i (st, R)))"
    using Cons.prems keepsD [OF loaded_remove_checkpoint] by (simp add: sweep_node_def)
  then show ?case using Cons.IH by (cases "sweep_node keep i (st, R)") simp
qed simp

lemma loaded_collect: "keeps storage_fine collect_garbage"
proof (rule keepsI)
  fix R assume R: "storage_fine R"
  show "storage_fine (snd (collect_garbage R))"
    using R fold_sweep_fine [OF R, of "mark_reachable R (collect_protected_checkpoints R)" "all_nodes (r_dag R)"]
    by (simp add: collect_garbage_def Let_def split: option.split prod.split)
      (metis snd_conv)
qed

lemma loaded_clean_branch: "keeps storage_fine (clean_branch E n)"
proof -
  have "keeps storage_fine (match_err (remove_branch n)
       (\<lambda>_. sbind collect_garbage (\<lambda>stats. sbind (sync_all E) (\<lambda>_. query (f stats)))) (ret (0, 0)))" for f :: "_ \<Rightarrow> _ \<Rightarrow> (nat \<times> nat, lt_error) result"
    by (intro keeps_rules loaded_remove_branch loaded_collect loaded_sync)
  then show ?thesis by (simp add: clean_branch_def stays_def)
qed

lemma keeps_load: "keeps_db (repo_load E)"
  unfolding repo_load_def load_or_init_def
  by (intro keeps_rules keeps_db_stores)

lemma load_storage: "repo_load E s = (Ok R, s') \<Longrightarrow> r_storage R = Some s'"
  unfolding repo_load_def by (auto elim!: sbind_OkE simp: query_def split: prod.splits)

subsection \<open>What the kept repository does\<close>

lemma kept_query_current: "safe kept_ok current_branch"
  unfolding current_branch_def
  by (rule safe_query) (simp add: kept_ok_def frame_ok_def branches_ok_def)

lemma safe_current: "safe kept_ok current_branch" "safe kept_ok current_branch_head" "safe kept_ok current_branch_name"
  unfolding current_branch_head_def current_branch_name_def
  by (intro safe_rules kept_query_current)+

lemma current_head:
  assumes "frame_ok R"
  shows "current_branch_head R = (Ok (br_head (r_branches R ! r_current R)), R)"
    and "br_head (r_branches R ! r_current R) |\<in>| fmdom (r_checkpoints R)"
    and "r_current R < length (r_branches R)"
  using assms by (auto simp: current_branch_head_def sbind_def current_branch_run ret_def frame_ok_def branches_ok_def)

lemma kept_ok_recorded:
  assumes "kept_ok R" and "set (cp_parents cp) \<subseteq> fset (fmdom (r_checkpoints R))"
  shows "kept_ok (recorded E cp R)"
  using assms keepsD [OF keeps_db_persist]
  by (auto simp: kept_ok_def frame_ok_def recorded_def Let_def storage_fine_def
      intro!: parents_known_add branches_ok_set_head)

lemma safe_repo_commit: "safe kept_ok (repo_commit E snaps message author)"
proof (rule safeI)
  fix R assume R: "kept_ok R"
  then have "frame_ok R" by (simp add: kept_ok_def)
  note head = current_head [OF this]
  let ?h = "br_head (r_branches R ! r_current R)"
  let ?cp = "checkpoint_new E snaps [?h] (metadata_new author message)"
  have "record_checkpoint E ?cp R = (Ok (cp_id ?cp), recorded E ?cp R)"
    by (rule record_checkpoint_run [OF head(3)]) simp
  moreover have "kept_ok (recorded E ?cp R)"
    by (rule kept_ok_recorded [OF R]) (use head(2) in simp)
  moreover obtain cur where "repo_get_checkpoint ?h R = Ok cur"
    using head(2) by (auto simp: repo_get_checkpoint_def)
  ultimately show "kept_ok (snd (repo_commit E snaps message author R)) \<and> fst (repo_commit E snaps message author R) \<noteq> Panic"
    using R by (simp add: repo_commit_def fail_def sbind_def query_def head(1))
qed

lemma frame_ok_source:
  assumes "kept_ok R" and "fmlookup (r_checkpoints R) i = Some cp"
  shows "kept_ok (R\<lparr>r_checkpoints := fmupd i (cp\<lparr>cp_sources := m\<rparr>) (r_checkpoints R), r_dirty := d\<rparr>)"
proof -
  have dom: "fmdom (fmupd i (cp\<lparr>cp_sources := m\<rparr>) (r_checkpoints R)) = fmdom (r_checkpoints R)"
    using assms(2) by (auto intro: fmdomI)
  then have "parents_known (fmupd i (cp\<lparr>cp_sources := m\<rparr>) (r_checkpoints R))"
    using assms unfolding kept_ok_def frame_ok_def parents_known_def by (auto simp: dom)
  moreover have "branches_ok (r_branches R) (r_current R) (fmupd i (cp\<lparr>cp_sources := m\<rparr>) (r_checkpoints R))"
    using assms(1) unfolding kept_ok_def frame_ok_def branches_ok_def dom by simp
  ultimately show ?thesis using assms(1) by (simp add: kept_ok_def frame_ok_def storage_fine_def)
qed

lemma safe_source: "safe kept_ok (set_snapshot_source i x source)"
  by (rule safeI) (auto simp: set_snapshot_source_def frame_ok_source split: option.split)

lemma safe_sync_checkpoint: "safe kept_ok (sync_checkpoint E i)"
proof (rule safeI)
  fix R assume "kept_ok R"
  with safeD [OF on_storage_safe [OF safe_db_stores(1)]]
  show "kept_ok (snd (sync_checkpoint E i R)) \<and> fst (sync_checkpoint E i R) \<noteq> Panic"
    by (simp add: sync_checkpoint_def split: option.split)
qed

lemma frame_ok_add_branch:
  assumes "kept_ok R" and "\<not> branch_exists (br_name b) R" and "br_head b |\<in>| fmdom (r_checkpoints R)"
  shows "kept_ok (snd (add_branch b R)) \<and> fst (add_branch b R) \<noteq> Panic"
proof -
  obtain st where st: "snd (on_storage (store_branch b) R) = R\<lparr>r_storage := st\<rparr>"
    using on_storage_only [of "store_branch b" R] by blast
  from safeD [OF on_storage_safe [OF safe_db_stores(2)] assms(1), of b] st
  have ok: "kept_ok (R\<lparr>r_storage := st\<rparr>)" "fst (on_storage (store_branch b) R) \<noteq> Panic" by simp_all
  have "kept_ok ((R\<lparr>r_storage := st\<rparr>)\<lparr>r_branches := r_branches R @ [b]\<rparr>)"
    using assms ok(1)
    by (auto simp: kept_ok_def frame_ok_def storage_fine_def branches_ok_def branch_exists_def list_ex_iff)
  with ok st show ?thesis
    by (cases "on_storage (store_branch b) R") (auto simp: add_branch_def sbind_def update_def split: result.split)
qed

lemma safe_create_branch: "safe kept_ok (create_branch E n)"
proof (rule safeI)
  fix R assume R: "kept_ok R"
  then have "frame_ok R" by (simp add: kept_ok_def)
  note head = current_head [OF this]
  show "kept_ok (snd (create_branch E n R)) \<and> fst (create_branch E n R) \<noteq> Panic"
    using R frame_ok_add_branch [OF R, of "branch_new E n (br_head (r_branches R ! r_current R))"] head(2)
    by (simp add: create_branch_def fail_def sbind_def head(1) branch_new_def)
qed

lemma find_branch_cases: "find_branch n R \<noteq> Panic" "get_branch_head n R \<noteq> Panic"
  by (simp_all add: find_branch_def get_branch_head_def and_then_neq_Panic)

lemma safe_switch: "safe kept_ok (repo_switch_branch E n)"
proof (rule safeI)
  fix R assume R: "kept_ok R"
  show "kept_ok (snd (repo_switch_branch E n R)) \<and> fst (repo_switch_branch E n R) \<noteq> Panic"
  proof (cases "position (\<lambda>b. br_name b = n) (r_branches R)")
    case None
    with R show ?thesis by (simp add: repo_switch_branch_def sbind_def query_def find_branch_def)
  next
    case (Some idx)
    let ?R = "R\<lparr>r_current := idx\<rparr>"
    have "kept_ok ?R"
      using position_SomeD [OF Some] R by (simp add: kept_ok_def frame_ok_def storage_fine_def branches_ok_def)
    from safeD [OF on_storage_safe [OF safe_db_stores(3)] this, of E "''current_branch''" n] Some show ?thesis
      by (cases "on_storage (store_metadata E ''current_branch'' n) ?R")
        (auto simp: repo_switch_branch_def sbind_def query_def find_branch_def update_def split: result.split)
  qed
qed

lemmas kept_safe = safe_current safe_repo_commit safe_source safe_sync_checkpoint safe_create_branch safe_switch

section \<open>The service\<close>

definition service_ok :: "service \<Rightarrow> bool" where
  "service_ok v \<longleftrightarrow> partitions_ok (sv_db v) \<and> frame_ok (sv_repo v) \<and> \<not> sv_poisoned v"

lemma on_core_keeps:
  assumes "keeps_db m"
  shows "keeps service_ok (on_core m)"
proof (rule keepsI)
  fix v assume "service_ok v"
  with keepsD [OF assms, of "sv_db v"] show "service_ok (snd (on_core m v))"
    by (cases "m (sv_db v)") (simp add: on_core_def service_ok_def)
qed

lemma on_core_safe:
  assumes "safe partitions_ok m"
  shows "safe service_ok (on_core m)"
proof (rule safeI)
  fix v assume "service_ok v"
  with safeD [OF assms, of "sv_db v"] show "service_ok (snd (on_core m v)) \<and> fst (on_core m v) \<noteq> Panic"
    by (cases "m (sv_db v)") (simp add: on_core_def service_ok_def)
qed

lemma on_backups_keeps: "keeps service_ok (on_backups m)"
  by (rule keepsI) (simp add: on_backups_def service_ok_def split: prod.split)

lemma kept_with_db: "service_ok v \<Longrightarrow> kept_ok ((sv_repo v)\<lparr>r_storage := Some (sv_db v)\<rparr>)"
  by (simp add: service_ok_def kept_ok_def storage_fine_def)

lemma service_ok_kept:
  "service_ok v \<Longrightarrow> kept_ok R \<Longrightarrow> service_ok (v\<lparr>sv_repo := R, sv_db := storage_of (sv_db v) R\<rparr>)"
  by (auto simp: service_ok_def kept_ok_def storage_fine_def storage_of_def split: option.split)

lemma on_kept_keeps:
  assumes "keeps kept_ok m"
  shows "keeps service_ok (on_kept m)"
proof (rule keepsI)
  fix v assume v: "service_ok v"
  from keepsD [OF assms kept_with_db [OF v]] service_ok_kept [OF v] show "service_ok (snd (on_kept m v))"
    by (cases "m ((sv_repo v)\<lparr>r_storage := Some (sv_db v)\<rparr>)") (simp add: on_kept_def)
qed

lemma on_kept_safe:
  assumes "safe kept_ok m"
  shows "safe service_ok (on_kept m)"
proof (rule safeI)
  fix v assume v: "service_ok v"
  from safeD [OF assms kept_with_db [OF v]] service_ok_kept [OF v]
  show "service_ok (snd (on_kept m v)) \<and> fst (on_kept m v) \<noteq> Panic"
    by (cases "m ((sv_repo v)\<lparr>r_storage := Some (sv_db v)\<rparr>)") (simp add: on_kept_def)
qed

lemma storage_of_fine: "partitions_ok s \<Longrightarrow> storage_fine R \<Longrightarrow> partitions_ok (storage_of s R)"
  by (auto simp: storage_of_def storage_fine_def split: option.split)

lemma load_fine:
  assumes "repo_load E s = (Ok R, s')" and "partitions_ok s"
  shows "partitions_ok s' \<and> storage_fine R"
  using assms keepsD [OF keeps_load, of s E] load_storage by (force simp: storage_fine_def)

lemma on_loaded_keeps:
  assumes "keeps storage_fine m"
  shows "keeps service_ok (on_loaded E m)"
proof (rule keepsI)
  fix v assume v: "service_ok v"
  then have s: "partitions_ok (sv_db v)" by (simp add: service_ok_def)
  obtain r s' where load: "repo_load E (sv_db v) = (r, s')" by (cases "repo_load E (sv_db v)")
  then have s': "partitions_ok s'" using keepsD [OF keeps_load s, of E] by simp
  show "service_ok (snd (on_loaded E m v))"
  proof (cases r)
    case (Ok R)
    with load s load_fine have "storage_fine R" by blast
    with keepsD [OF assms] storage_of_fine [OF s'] have "partitions_ok (storage_of s' (snd (m R)))" by blast
    with v show ?thesis by (cases "m R") (simp add: on_loaded_def load Ok service_ok_def)
  qed (use v s' in \<open>simp_all add: on_loaded_def load service_ok_def\<close>)
qed

text \<open>A handler that cannot panic while it holds the lock does not poison it.\<close>

lemma write_locked_keeps:
  assumes "safe service_ok m"
  shows "keeps service_ok (write_locked m)"
proof (rule keepsI)
  fix v assume v: "service_ok v"
  with safeD [OF assms v] show "service_ok (snd (write_locked m v))"
    by (cases "m v"; cases "fst (m v)") (auto simp: write_locked_def service_ok_def)
qed

lemma read_locked_keeps: "keeps service_ok m \<Longrightarrow> keeps service_ok (read_locked m)"
  by (rule keepsI) (auto simp: read_locked_def stays_def)

lemmas part_rules = on_core_keeps on_backups_keeps on_kept_keeps on_loaded_keeps read_locked_keeps
lemmas part_safe = on_core_safe on_kept_safe

text \<open>Programs of the layers\<close>

lemmas layer_keeps = stays_ensure_partitions stays_apply_manual_edit stays_apply_agent_edit
  stays_merge_manual_to_staged stays_move_agent_to_approval stays_reject_approval stays_merge_agent_to_feature
  stays_merge_features_to_staged

lemmas db_keeps = layer_keeps [THEN keeps_db_layer] keeps_db_stores

lemma keeps_list_pending: "keeps P list_pending_approvals"
  unfolding list_pending_approvals_def list_approval_partitions_def by (intro keeps_rules)

lemma keeps_reconstruct: "keeps service_ok (reconstruct_text_from_id E i)"
  unfolding reconstruct_text_from_id_def by (intro keeps_rules part_rules db_keeps)

lemma keeps_parse: "keeps P (parse_id E w s)"
  unfolding parse_id_def by (intro keeps_rules)

section \<open>Every handler keeps the invariant\<close>

lemma keeps_names: "keeps service_ok integrated_names"
  unfolding integrated_names_def by (intro keeps_rules part_rules)

lemma keeps_agent_initial: "keeps_db (agent_initial_snapshot E a f c)"
  unfolding agent_initial_snapshot_def Let_def by (intro keeps_rules db_keeps)

lemma keeps_submit: "keeps service_ok (move_or_explain E a)"
  by (rule keepsI)
    (use keepsD [OF on_core_keeps [OF keeps_db_layer [OF stays_move_agent_to_approval]], of _ E a] in
      \<open>force simp: move_or_explain_def split: prod.split\<close>)

lemma keeps_approve_agent: "keeps service_ok (approve_agent E q)"
  unfolding approve_agent_def Let_def by (intro keeps_rules part_rules db_keeps)

lemma layer_handlers:
  "keeps service_ok (status E)" "keeps service_ok (edit E q1)" "keeps service_ok (agent_edit E q2)"
  "keeps service_ok (agent_submit E q3)" "keeps service_ok (reject_agent E q4)"
  "keeps service_ok (pending_approvals E)" "keeps service_ok (merge_to_unified E q5)"
  "keeps service_ok (merge_all_to_staged E q6)" "keeps service_ok (approve E q7)"
  unfolding status_def edit_def agent_edit_def agent_submit_def reject_agent_def pending_approvals_def
    merge_to_unified_def merge_all_to_staged_def approve_def content_required_def Let_def
  by (intro keeps_rules part_rules db_keeps keeps_list_pending keeps_names keeps_agent_initial keeps_submit
      keeps_approve_agent)+

text \<open>The three handlers that take the lock for writing\<close>

lemma queries_return:
  "get_snapshot E i s \<noteq> Panic" "get_checkpoint E i s \<noteq> Panic" "get_partition pid s \<noteq> Panic"
  "get_branch n s \<noteq> Panic"
  by (simp_all add: get_snapshot_def get_checkpoint_def get_partition_def get_branch_def query_row_def
      and_then_neq_Panic)

lemma safe_create_partition: "partition_wf p \<Longrightarrow> safe partitions_ok (create_partition E p)"
  using stays_partitions_ok [OF stays_create] by (intro safeI) (auto simp: create_run)

lemma safe_layer_switch: "safe partitions_ok (switch_branch E n)"
proof -
  have list: "safe partitions_ok (case xs of [] \<Rightarrow> m | x # xs \<Rightarrow> f x xs)"
    if "safe partitions_ok m" and "\<And>x xs. safe partitions_ok (f x xs)" for xs :: "snapshot_id list" and m :: "checkpoint_id sys" and f
    using that by (cases xs) simp_all
  show ?thesis
    unfolding switch_branch_def
    by (intro safe_rules safe_query list safe_db_stores safe_create_partition queries_return partition_wf_new)
qed

lemma safe_service_query: "(\<And>v. f v \<noteq> Panic) \<Longrightarrow> safe service_ok (query f)"
  by (rule safe_query)

lemma commit_body:
  "safe service_ok (sbind (api E (on_kept (commit_single E x message author))) (\<lambda>i.
     sbind (record_source E i x) (\<lambda>_. ret (f i))))"
  unfolding commit_single_def record_source_def read_snapshot_def
  by (intro safe_rules part_safe safe_query kept_safe queries_return)

lemma locked_handlers:
  "keeps service_ok (commit E q1)" "keeps service_ok (branch_create E q2)" "keeps service_ok (branch_switch E q3)"
proof -
  show "keeps service_ok (commit E q1)"
    unfolding commit_def Let_def
    by (intro kept.stays_intros part_rules write_locked_keeps commit_body)
  show "keeps service_ok (branch_create E q2)"
    unfolding branch_create_def
    by (intro write_locked_keeps safe_rules part_safe safe_query kept_safe find_branch_cases) simp
  show "keeps service_ok (branch_switch E q3)"
    unfolding branch_switch_def assert_equal_def
    by (intro keeps_rules part_rules write_locked_keeps safe_rules part_safe kept_safe safe_layer_switch)
qed

text \<open>The others\<close>

lemma loaded_merge: "keeps storage_fine (merge_into_current E q)"
proof -
  have "keeps storage_fine (sbind (core_of_repo (for_each (\<lambda>i. storage (update_pointer E staged_partition_id i)) xs))
     (\<lambda>_. sbind (merge_branches E n ys m a) f))" if "\<And>x. keeps storage_fine (f x)" for xs n ys m a and f :: "_ \<Rightarrow> (api_error + merge_response) repo_prog"
    using that by (intro keeps_rules core_of_repo_keeps db_keeps loaded_commits)
  note inner = keepsD [OF this]
  show ?thesis
    unfolding merge_into_current_def
    by (intro kept.stays_sbind keeps_current kept.stays_query keepsI)
      (auto split: option.split intro!: inner kept.stays_ret)
qed

lemma keeps_merge_branch: "keeps service_ok (merge_branch E q)"
proof (rule keepsI)
  fix v assume "service_ok v"
  from keepsD [OF on_loaded_keeps [OF loaded_merge] this, of E E q] show "service_ok (snd (merge_branch E q v))"
    by (cases "on_loaded E (merge_into_current E q) v")
      (auto simp: merge_branch_def split: result.split sum.split)
qed

lemma keeps_show_diff: "keeps service_ok (show_diff E L t p x y)"
proof -
  have "keeps service_ok (cached_diff L x y)"
    by (rule keepsI) (auto simp: cached_diff_def service_ok_def split: prod.split)
  then show ?thesis unfolding show_diff_def by (intro keeps_rules)
qed

lemma keeps_texts: "keeps service_ok (baseline_text E cp)" "keeps service_ok (last_checkpoint_text E)"
proof -
  show "keeps service_ok (baseline_text E cp)" for cp
    unfolding baseline_text_def by (intro keeps_rules keeps_reconstruct)
  then show "keeps service_ok (last_checkpoint_text E)"
    unfolding last_checkpoint_text_def by (intro keeps_rules part_rules)
qed

lemma keeps_show: "keeps service_ok (show_target E L q)"
  unfolding show_target_def show_staged_def show_checkpoint_def show_partition_def
  by (intro keeps_rules part_rules db_keeps keeps_reconstruct keeps_texts keeps_show_diff keeps_parse)

lemma keeps_backup: "keeps service_ok (backup E L q)" "keeps service_ok (backup_restore E L q')"
proof -
  have "keeps_db (merge_to_staged E bc b i)" for bc b i
    unfolding merge_to_staged_def write_backup_merge_def Let_def
    by (intro keeps_rules db_keeps)
  from keepsD [OF on_core_keeps [OF this]]
  have "keeps service_ok (\<lambda>v. on_core (merge_to_staged E (al_codec L) (sv_backups v) i) v)" for i
    by (intro keepsI)
  then show "keeps service_ok (backup_restore E L q')"
    unfolding backup_restore_def by (intro keeps_rules part_rules db_keeps keeps_parse)
  show "keeps service_ok (backup E L q)"
    unfolding backup_def by (intro keeps_rules part_rules keeps_parse)
qed

lemma read_handlers:
  "keeps service_ok (log_checkpoints E q1)" "keeps service_ok (branch_list E)"
  "keeps service_ok (checkpoint_restore E L q2)" "keeps service_ok (checkpoint_restore_by_time E L q3)"
  "keeps service_ok (checkpoint_diff E q4)" "keeps service_ok (checkpoint_rollback E q5)"
  unfolding log_checkpoints_def branch_list_def checkpoint_restore_def checkpoint_restore_by_time_def
    checkpoint_diff_def checkpoint_rollback_def repo_log_def Let_def
  by (intro keeps_rules part_rules db_keeps keeps_parse keeps_current)+

lemma keeps_clear: "keeps_db clear_everything"
  unfolding clear_everything_def by (intro keeps_rules keeps_ignored keeps_db_stores)

lemma keeps_clean_all: "keeps_db clean_all"
proof -
  have "partitions_ok (snd (on_connection (with_atomic (on_db clear_everything)) s))" if "partitions_ok s" for s
    using keepsD [OF keeps_clear that] that
    by (cases "clear_everything s"; cases "fst (clear_everything s)")
      (auto simp: on_connection_def with_atomic_def on_db_def open_savepoint_def sbind_def release_savepoint_def
        rollback_to_savepoint_def ret_def fail_def)
  then show ?thesis unfolding clean_all_def by (intro keeps_ignored keepsI)
qed

lemma keeps_clean_layer: "keeps_db (clean_layer n)"
  unfolding clean_layer_def by (intro keeps_rules keeps_ignored keeps_db_stores)

lemma keeps_cleaning: "keeps service_ok (gc E q)" "keeps service_ok (clean E L q')"
  unfolding gc_def clean_def or_zero_def
  by (intro keeps_rules part_rules keeps_clean_all keeps_clean_layer keeps_db_stores loaded_collect loaded_sync
      loaded_clean_branch)+

section \<open>With a git repository or a file system beside the service\<close>

abbreviation keeps_beside :: "('s \<Rightarrow> bool) \<Rightarrow> ('s \<times> 'g, 'a, 'e) prog \<Rightarrow> bool" where
  "keeps_beside P \<equiv> keeps (\<lambda>x. P (fst x))"

lemma besideI: "(\<And>s g. P s \<Longrightarrow> P (fst (snd (m (s, g))))) \<Longrightarrow> keeps_beside P m"
  by (simp add: stays_def)

text \<open>A program on the first component\<close>

lemma first_keeps: "keeps P m \<Longrightarrow> keeps_beside P (\<lambda>(s, g). case m s of (r, s') \<Rightarrow> (r, (s', g)))"
  by (rule besideI) (simp add: case_prod_beta stays_def)

lemma on_repo_keeps: "keeps P m \<Longrightarrow> keeps_beside P (on_repo m)"
  unfolding on_repo_def by (rule first_keeps)

lemma on_git_keeps: "keeps_beside P (on_git w m)"
  by (rule besideI) (simp add: on_git_def case_prod_beta)

lemma anchor_keeps: "keeps storage_fine (set_git_anchor i h)"
  unfolding set_git_anchor_def by (rule update_keeps) (simp split: option.split)

lemma keeps_import_blob: "keeps_db (import_blob E p c)"
  unfolding import_blob_def Let_def by (intro keeps_rules db_keeps)

lemma keeps_walk: "keeps_db (walk_tree E pre es xs)"
  by (induction E pre es xs rule: walk_tree.induct) (auto intro!: keeps_rules keeps_import_blob)

lemmas bridge_rules = keeps_rules on_repo_keeps on_git_keeps anchor_keeps core_of_repo_keeps

lemma keeps_import: "keeps_beside storage_fine (init_from_git E G p r)"
  unfolding init_from_git_def Let_def by (intro bridge_rules keeps_walk loaded_commits)

lemma keeps_snapshot_text: "keeps_db (snapshot_text E i)"
  unfolding snapshot_text_def by (intro keeps_rules db_keeps)

lemma keeps_git_commit_object: "keeps_beside P (create_git_commit G cp u n m t)"
  unfolding create_git_commit_def by (intro bridge_rules)

text \<open>An export reads texts from the storage and sets an anchor in the end.\<close>

lemma keeps_push:
  assumes "\<And>i. keeps P (core_of_repo (snapshot_text E i))" and "\<And>i h. keeps P (set_git_anchor i h)"
  shows "keeps_beside P (push_to_git E G p n m)"
proof -
  have build: "keeps_beside P (build_tree_and_commit E G cp u n m)" for cp u n m
    unfolding build_tree_and_commit_def
    by (intro keeps_rules on_repo_keeps on_git_keeps keeps_git_commit_object assms)
  have "keeps_beside P (push_to_git_current_branch E G cfg cp n m)" for cfg cp
    unfolding push_to_git_current_branch_def stage_snapshot_def
    by (intro keeps_rules on_repo_keeps on_git_keeps keeps_git_commit_object build assms)
  with build have "keeps_beside P (case x of Isolated \<Rightarrow> push_to_git_isolated E G cp n m
      | CurrentBranch \<Rightarrow> push_to_git_current_branch E G cfg cp n m)" for x cp cfg
    by (cases x) (simp_all add: push_to_git_isolated_def)
  then show ?thesis
    unfolding push_to_git_def push_to_git_with_config_def by (intro keeps_rules on_repo_keeps on_git_keeps)
qed

lemma loaded_push: "keeps_beside storage_fine (push_to_git E G p n m)"
  by (intro keeps_push core_of_repo_keeps keeps_snapshot_text anchor_keeps)

lemma with_loaded_keeps:
  assumes "keeps_beside storage_fine m"
  shows "keeps_beside partitions_ok (with_loaded E m)"
proof (rule keepsI)
  fix x :: "db \<times> 'a" assume s: "partitions_ok (fst x)"
  obtain s g where x: "x = (s, g)" by (cases x)
  obtain r s' where load: "repo_load E s = (r, s')" by (cases "repo_load E s")
  then have s': "partitions_ok s'" using keepsD [OF keeps_load, of s E] s x by simp
  show "partitions_ok (fst (snd (with_loaded E m x)))"
  proof (cases r)
    case (Ok R)
    with load s x load_fine have "storage_fine R" by fastforce
    with keepsD [OF assms, of "(R, g)"] have "storage_fine (fst (snd (m (R, g))))" by simp
    then show ?thesis
      using storage_of_fine [OF s'] by (cases "m (R, g)") (auto simp: with_loaded_def x load Ok)
  qed (use s' in \<open>simp_all add: with_loaded_def x load\<close>)
qed

lemma with_git_keeps: "keeps_beside partitions_ok m \<Longrightarrow> keeps_beside service_ok (with_git m)"
  by (rule keepsI) (auto simp: with_git_def service_ok_def stays_def split: prod.split, metis fst_conv snd_conv)

lemma beside_keeps: "keeps_beside P (beside m)"
  by (rule besideI) (simp add: beside_def case_prod_beta)

lemma keeps_init: "keeps_beside partitions_ok (init E L G own q)"
proof -
  have imported: "keeps_beside partitions_ok (init_imported E G own p q)" for p
    unfolding init_imported_def by (intro bridge_rules with_loaded_keeps keeps_import loaded_sync)
  have "keeps_db (init_empty E L own q)"
    unfolding init_empty_def init_partitions_def init_objects_def Let_def
    by (intro keeps_rules db_keeps keeps_load)
  note first = first_keeps [OF this]
  show ?thesis
  proof (cases "irq_git_repo q")
    case None
    show ?thesis by (simp only: init_def None option.case first)
  qed (simp add: init_def imported)
qed

lemma git_handlers: "keeps_beside service_ok (git_commit E G q1)" "keeps_beside service_ok (pull E G q2)"
  unfolding git_commit_def pull_def Let_def
  by (intro keeps_rules with_git_keeps with_loaded_keeps beside_keeps on_repo_keeps keeps_current loaded_push
      keeps_import loaded_sync)+

lemma on_service_keeps: "keeps service_ok m \<Longrightarrow> keeps_beside service_ok (on_service m)"
  unfolding on_service_def by (rule first_keeps)

lemma on_files_keeps: "keeps_beside P (on_files E m)"
  by (rule besideI) (simp add: on_files_def case_prod_beta)

lemma keeps_restore_and_apply: "keeps_beside service_ok (checkpoint_restore_and_apply E mk wr q)"
proof -
  have "keeps service_ok (stage_restored E xs)" for xs
    unfolding stage_restored_def by (intro keeps_rules part_rules db_keeps)
  then show ?thesis
    unfolding checkpoint_restore_and_apply_def
    by (intro keeps_rules on_service_keeps on_files_keeps part_rules keeps_parse)
qed

section \<open>The state machine\<close>

datatype service_request =
    Status
  | Edit edit_request
  | AgentEditRq agent_edit_request
  | AgentSubmit agent_submit_request
  | ApproveAgent approve_agent_request
  | RejectAgent reject_agent_request
  | PendingApprovals
  | MergeToUnified merge_to_unified_request
  | MergeToStaged merge_to_staged_request
  | Approve approve_request
  | Commit commit_request
  | Log log_request
  | BranchCreate branch_create_request
  | BranchSwitch branch_switch_request
  | BranchList
  | Merge merge_request
  | Show show_request
  | BackupRq backup_request
  | BackupRestore backup_restore_request
  | CheckpointRestore checkpoint_restore_request
  | CheckpointRestoreByTime checkpoint_restore_by_time_request
  | CheckpointDiff checkpoint_diff_request
  | CheckpointRollback checkpoint_rollback_request
  | Gc gc_request
  | Clean clean_request

fun handle :: "env \<Rightarrow> api_lib \<Rightarrow> service_request \<Rightarrow> service \<Rightarrow> service" where
  "handle E L Status v = snd (status E v)"
| "handle E L (Edit q) v = snd (edit E q v)"
| "handle E L (AgentEditRq q) v = snd (agent_edit E q v)"
| "handle E L (AgentSubmit q) v = snd (agent_submit E q v)"
| "handle E L (ApproveAgent q) v = snd (approve_agent E q v)"
| "handle E L (RejectAgent q) v = snd (reject_agent E q v)"
| "handle E L PendingApprovals v = snd (pending_approvals E v)"
| "handle E L (MergeToUnified q) v = snd (merge_to_unified E q v)"
| "handle E L (MergeToStaged q) v = snd (merge_all_to_staged E q v)"
| "handle E L (Approve q) v = snd (approve E q v)"
| "handle E L (Commit q) v = snd (commit E q v)"
| "handle E L (Log q) v = snd (log_checkpoints E q v)"
| "handle E L (BranchCreate q) v = snd (branch_create E q v)"
| "handle E L (BranchSwitch q) v = snd (branch_switch E q v)"
| "handle E L BranchList v = snd (branch_list E v)"
| "handle E L (Merge q) v = snd (merge_branch E q v)"
| "handle E L (Show q) v = snd (show_target E L q v)"
| "handle E L (BackupRq q) v = snd (backup E L q v)"
| "handle E L (BackupRestore q) v = snd (backup_restore E L q v)"
| "handle E L (CheckpointRestore q) v = snd (checkpoint_restore E L q v)"
| "handle E L (CheckpointRestoreByTime q) v = snd (checkpoint_restore_by_time E L q v)"
| "handle E L (CheckpointDiff q) v = snd (checkpoint_diff E q v)"
| "handle E L (CheckpointRollback q) v = snd (checkpoint_rollback E q v)"
| "handle E L (Gc q) v = snd (gc E q v)"
| "handle E L (Clean q) v = snd (clean E L q v)"

lemma handle_ok: "service_ok v \<Longrightarrow> service_ok (handle E L q v)"
  by (cases q)
    (simp_all add: layer_handlers [THEN keepsD] keeps_approve_agent [THEN keepsD] locked_handlers [THEN keepsD]
      keeps_merge_branch [THEN keepsD] keeps_show [THEN keepsD] keeps_backup [THEN keepsD] read_handlers [THEN keepsD]
      keeps_cleaning [THEN keepsD])

text \<open>The state of the process: the service, the git repositories and the files around it. A step is a
  request, whatever its answer, or a change from outside to git or to the files.\<close>

type_synonym ('g, 'fs) process = "service \<times> 'g \<times> 'fs"

inductive service_step :: "env \<Rightarrow> api_lib \<Rightarrow> 'g git_lib \<Rightarrow> (string \<Rightarrow> ('fs, unit, lt_error) prog)
    \<Rightarrow> (string \<Rightarrow> bytes \<Rightarrow> ('fs, unit, lt_error) prog) \<Rightarrow> ('g, 'fs) process \<Rightarrow> ('g, 'fs) process \<Rightarrow> bool"
  for E L G mk wr where
  request: "service_step E L G mk wr (v, g, fs) (handle E L q v, g, fs)"
| initialise: "with_git (init E L G own iq) (v, g) = (r1, (v', g')) \<Longrightarrow>
    service_step E L G mk wr (v, g, fs) (v', g', fs)"
| export: "git_commit E G gq (v, g) = (r2, (v', g')) \<Longrightarrow> service_step E L G mk wr (v, g, fs) (v', g', fs)"
| fetch: "pull E G pq (v, g) = (r3, (v', g')) \<Longrightarrow> service_step E L G mk wr (v, g, fs) (v', g', fs)"
| restore_files: "checkpoint_restore_and_apply E mk wr aq (v, fs) = (r4, (v', fs')) \<Longrightarrow>
    service_step E L G mk wr (v, g, fs) (v', g, fs')"
| outside: "service_step E L G mk wr (v, g, fs) (v, g', fs')"

text \<open>The databases that a service may be opened on: a new one, or one of an earlier process. The partition
  tables are consistent, rows have different keys, parents and heads of branches are stored, and there is a
  branch when there is a checkpoint.\<close>

definition stored_ids :: "db \<Rightarrow> checkpoint_id set" where
  "stored_ids s = (\<lambda>row. ContentId (cr_id row)) ` set (t_checkpoints s)"

definition stored_sound :: "db \<Rightarrow> bool" where
  "stored_sound s \<longleftrightarrow> partitions_ok s
     \<and> distinct (map cr_id (t_checkpoints s)) \<and> distinct (map br_name (t_branches s))
     \<and> (\<forall>row \<in> set (t_checkpoints s). set (cr_parents row) \<subseteq> stored_ids s)
     \<and> (\<forall>b \<in> set (t_branches s). br_head b \<in> stored_ids s)
     \<and> (t_checkpoints s \<noteq> [] \<longrightarrow> t_branches s \<noteq> [])"

text \<open>The states of a process: it opens a service, answers requests, each at its own time and with its own
  random identifier, and can be restarted on what it has stored.\<close>

inductive reachable :: "env \<Rightarrow> api_lib \<Rightarrow> 'g git_lib \<Rightarrow> (string \<Rightarrow> ('fs, unit, lt_error) prog)
    \<Rightarrow> (string \<Rightarrow> bytes \<Rightarrow> ('fs, unit, lt_error) prog) \<Rightarrow> ('g, 'fs) process \<Rightarrow> bool"
  for E L G mk wr where
  opened: "stored_sound s0 \<Longrightarrow> open_service (at_moment E now u) path backups s0 = (Ok v, s) \<Longrightarrow>
    reachable E L G mk wr (v, g, fs)"
| step: "reachable E L G mk wr x \<Longrightarrow> service_step (at_moment E now u) L G mk wr x y \<Longrightarrow>
    reachable E L G mk wr y"
| restarted: "reachable E L G mk wr (v, g, fs) \<Longrightarrow> stored_sound (sv_db v) \<Longrightarrow>
    open_service (at_moment E now u) path backups (sv_db v) = (Ok v', s) \<Longrightarrow> reachable E L G mk wr (v', g, fs)"

inductive_cases service_stepE: "service_step E L G mk wr x y"

lemma service_step_ok:
  assumes "service_step E L G mk wr x y" and "service_ok (fst x)"
  shows "service_ok (fst y)"
  using assms
proof (cases rule: service_step.cases)
  case (initialise own iq v g r1 v' g' fs)
  with keepsD [OF with_git_keeps [OF keeps_init], of "(v, g)" E L G own iq] assms(2) show ?thesis by simp
next
  case (export gq v g r2 v' g' fs)
  with keepsD [OF git_handlers(1), of "(v, g)" E G gq] assms(2) show ?thesis by simp
next
  case (fetch pq v g r3 v' g' fs)
  with keepsD [OF git_handlers(2), of "(v, g)" E G pq] assms(2) show ?thesis by simp
next
  case (restore_files aq v fs r4 v' fs' g)
  with keepsD [OF keeps_restore_and_apply, of "(v, fs)" E mk wr aq] assms(2) show ?thesis by simp
qed (simp_all add: handle_ok)

lemma loaded_checkpoints:
  assumes "list_checkpoints E s = Ok cps" and "distinct (map cr_id (t_checkpoints s))"
  shows "fmlookup (collect_checkpoints cps) i = Some cp
    \<longleftrightarrow> (\<exists>row \<in> set (t_checkpoints s). ContentId (cr_id row) = i \<and> cp = row_to_checkpoint E row)"
proof -
  have cps: "cps = map (row_to_checkpoint E) (order_by_desc cr_created_at (t_checkpoints s))"
    using assms(1) by (simp add: list_checkpoints_def)
  have "mset (map cr_id (order_by_desc cr_created_at (t_checkpoints s))) = mset (map cr_id (t_checkpoints s))"
    by (simp add: order_by_desc_def)
  then have "distinct (map cr_id (order_by_desc cr_created_at (t_checkpoints s)))"
    using assms(2) mset_eq_imp_distinct_iff by blast
  then have "distinct (map ContentId (map cr_id (order_by_desc cr_created_at (t_checkpoints s))))"
    by (subst distinct_map) (auto simp: inj_on_def)
  then have "distinct (map cp_id cps)" by (simp add: cps o_def)
  then show ?thesis by (auto simp: collect_lookup cps order_by_desc_def)
qed

lemma load_parts:
  assumes "repo_load E s = (Ok R, s')"
  obtains s1 where "load_or_init E s = (Ok (r_checkpoints R, r_branches R), s1)"
    and "r_branches R \<noteq> [] \<longrightarrow> r_current R < length (r_branches R)"
  using assms unfolding repo_load_def
  by (auto elim!: sbind_OkE simp: query_def split: prod.splits option.splits dest!: position_SomeD)

lemma loaded_frame:
  assumes "stored_sound s" and "repo_load E s = (Ok R, s')"
  shows "frame_ok R"
proof -
  obtain s1 where init: "load_or_init E s = (Ok (r_checkpoints R, r_branches R), s1)"
    and current: "r_branches R \<noteq> [] \<longrightarrow> r_current R < length (r_branches R)"
    by (rule load_parts [OF assms(2)])
  obtain cps where cps: "list_checkpoints E s = Ok cps" by (simp add: list_checkpoints_def)
  have bs: "list_branches s = Ok (sort_key br_name (t_branches s))" by (simp add: list_branches_def)
  note run = sbind_map_err_query [where h = "list_checkpoints E", OF cps]
    sbind_map_err_query [where h = list_branches, OF bs]
  show ?thesis
  proof (cases "t_checkpoints s = []")
    case True
    then have "cps = []" "t_branches s = []"
      using assms(1) cps by (auto simp: stored_sound_def stored_ids_def list_checkpoints_def order_by_desc_def)
    then have "r_checkpoints R = fmupd (cp_id (checkpoint_new E [] [] (metadata_new ''system'' ''root checkpoint'')))
        (checkpoint_new E [] [] (metadata_new ''system'' ''root checkpoint'')) fmempty"
      "r_branches R = [branch_new E ''main'' (cp_id (checkpoint_new E [] [] (metadata_new ''system'' ''root checkpoint'')))]"
      using init
      by (auto simp: load_or_init_def run collect_checkpoints_def create_root_checkpoint_def Let_def ret_def
          elim!: sbind_OkE)
    with current show ?thesis by (simp add: frame_ok_def parents_known_def branches_ok_def branch_new_def)
  next
    case False
    let ?cps = "collect_checkpoints cps"
    have keys: "distinct (map cr_id (t_checkpoints s))" using assms(1) by (simp add: stored_sound_def)
    note look = loaded_checkpoints [OF cps keys]
    have dom: "fset (fmdom ?cps) = stored_ids s"
      unfolding stored_ids_def by (auto simp: look fmlookup_dom_iff image_iff) metis
    obtain row where "row \<in> set (t_checkpoints s)" using False by (cases "t_checkpoints s") auto
    then have "fmlookup ?cps (ContentId (cr_id row)) \<noteq> None" using look by blast
    then have "?cps \<noteq> fmempty" by auto
    then have parts: "r_checkpoints R = ?cps" "r_branches R = sort_key br_name (t_branches s)"
      using init by (auto simp: load_or_init_def run ret_def)
    have "set (cr_parents row) \<subseteq> stored_ids s" if "row \<in> set (t_checkpoints s)" for row
      using assms(1) that unfolding stored_sound_def by blast
    then have "parents_known ?cps"
      unfolding parents_known_def dom by (auto simp: look row_to_checkpoint_def) blast
    moreover have "branches_ok (sort_key br_name (t_branches s)) (r_current R) ?cps"
    proof -
      have "mset (map br_name (sort_key br_name (t_branches s))) = mset (map br_name (t_branches s))" by simp
      then have "distinct (map br_name (sort_key br_name (t_branches s)))"
        using assms(1) mset_eq_imp_distinct_iff unfolding stored_sound_def by blast
      moreover have "br_head b |\<in>| fmdom ?cps" if "b \<in> set (t_branches s)" for b
        using assms(1) that dom unfolding stored_sound_def by blast
      moreover have "t_branches s \<noteq> []" using assms(1) False by (simp add: stored_sound_def)
      then have "r_current R < length (t_branches s)" using current parts(2) by (metis length_sort length_0_conv)
      ultimately show ?thesis by (simp add: branches_ok_def)
    qed
    ultimately show ?thesis by (simp add: frame_ok_def parts)
  qed
qed

lemma opened_ok:
  assumes "stored_sound s0" and "open_service E path backups s0 = (Ok v, s)"
  shows "service_ok v"
proof -
  obtain R s' where R: "repo_load E s0 = (Ok R, s')" and v: "sv_db v = s'" "sv_repo v = R" "\<not> sv_poisoned v"
    using assms(2) by (auto simp: open_service_def elim!: map_err_OkE sbind_OkE)
  have "partitions_ok s0" using assms(1) by (simp add: stored_sound_def)
  with keepsD [OF keeps_load, of s0 E] R have "partitions_ok s'" by simp
  with loaded_frame [OF assms(1) R] v show ?thesis by (simp add: service_ok_def)
qed

lemma reachable_ok: "reachable E L G mk wr x \<Longrightarrow> service_ok (fst x)"
proof (induction rule: reachable.induct)
  case (opened s0 now u path backups v s g fs)
  then show ?case using opened_ok by simp
next
  case (step x now u y)
  then show ?case using service_step_ok by blast
next
  case (restarted v g fs now u path backups v' s)
  then show ?case using opened_ok by simp
qed

text \<open>A service that is opened on a database with checkpoints and without a branch has no current branch.\<close>

lemma opened_without_branch:
  assumes "t_checkpoints s0 \<noteq> []" and "t_branches s0 = []" and "open_service E path backups s0 = (Ok v0, s1)"
  shows "r_branches (sv_repo v0) = [] \<and> \<not> sv_poisoned v0"
proof -
  obtain R s' where R: "repo_load E s0 = (Ok R, s')" and v: "sv_repo v0 = R" "\<not> sv_poisoned v0"
    using assms(3) by (auto simp: open_service_def elim!: map_err_OkE sbind_OkE)
  obtain s2 where init: "load_or_init E s0 = (Ok (r_checkpoints R, r_branches R), s2)" by (rule load_parts [OF R])
  obtain cps where cps: "list_checkpoints E s0 = Ok cps" by (simp add: list_checkpoints_def)
  have "mset (order_by_desc cr_created_at (t_checkpoints s0)) = mset (t_checkpoints s0)"
    by (simp add: order_by_desc_def)
  then have "order_by_desc cr_created_at (t_checkpoints s0) \<noteq> []" using assms(1) by (metis mset_zero_iff)
  then have "cps \<noteq> []" using cps by (auto simp: list_checkpoints_def)
  have "fmdom (fold (\<lambda>cp. fmupd (cp_id cp) cp) cps m) \<noteq> {||}" if "cps \<noteq> [] \<or> fmdom m \<noteq> {||}" for m
    using that by (induction cps arbitrary: m) auto
  from this [of fmempty] \<open>cps \<noteq> []\<close> have "fmdom (collect_checkpoints cps) \<noteq> {||}" by (simp add: collect_checkpoints_def)
  then have "collect_checkpoints cps \<noteq> fmempty" by auto
  moreover have "list_branches s0 = Ok []" by (simp add: list_branches_def assms(2))
  ultimately have "load_or_init E s0 = (Ok (collect_checkpoints cps, []), s0)"
    by (simp add: load_or_init_def sbind_map_err_query [where h = "list_checkpoints E", OF cps]
        sbind_map_err_query [where h = list_branches] ret_def)
  with init v show ?thesis by simp
qed

lemma branch_create_without_branch:
  assumes "r_branches (sv_repo v) = []" and "\<not> sv_poisoned v"
  shows "fst (branch_create E q v) = Panic"
  using assms
  by (simp add: branch_create_def write_locked_def sbind_def query_def branch_exists_def map_err_def on_kept_def
      create_branch_def current_branch_head_def current_branch_def)

lemma write_locked_safe: "safe service_ok m \<Longrightarrow> safe service_ok (write_locked m)"
  by (rule safeI, frule (1) safeD, rule conjI)
    (rule keepsD [OF write_locked_keeps], assumption+, auto simp: write_locked_def split: result.split prod.split)

lemma locked_handlers_safe: "safe service_ok (commit E q1)" "safe service_ok (branch_create E q2)"
proof -
  show "safe service_ok (commit E q1)"
    unfolding commit_def Let_def
    by (intro safe_sbind safe_map_err part_safe safe_query queries_return write_locked_safe commit_body)
  show "safe service_ok (branch_create E q2)"
    unfolding branch_create_def
    by (intro write_locked_safe safe_rules part_safe safe_query kept_safe find_branch_cases) simp
qed

text \<open>C3: the invariant of the service. A service is opened on a new database or on a sound one of an earlier
  process (consistent partition tables, different keys, stored parents and heads, a branch when there is a
  checkpoint), and restarted on its own database as long as that is sound; every request has its own time and
  random identifier. Whatever requests it has answered, successfully or not, and whatever happened outside:
  the partition tables are consistent, the kept repository has branches of different names with known heads
  and one of them is current, the parents of its checkpoints are known, and the lock is not poisoned. So
  neither a commit nor the creation of a branch ever panics. The condition on the branches is needed: a
  service that is opened on a database with checkpoints and no branch (which a clean of the only branch and
  a later commit leave behind) panics when a branch is created.\<close>

theorem service_invariant:
  assumes "reachable E L G mk wr (v, g, fs)"
  shows "partitions_ok (sv_db v) \<and> frame_ok (sv_repo v) \<and> \<not> sv_poisoned v
     \<and> (\<exists>b cp. current_branch (sv_repo v) = (Ok b, sv_repo v) \<and> repo_get_checkpoint (br_head b) (sv_repo v) = Ok cp)
     \<and> fst (commit (at_moment E now u) q v) \<noteq> Panic \<and> fst (branch_create (at_moment E now u) q' v) \<noteq> Panic
     \<and> (t_checkpoints s0 \<noteq> [] \<and> t_branches s0 = [] \<and> open_service E path backups s0 = (Ok v0, s1) \<longrightarrow>
          fst (branch_create E q' v0) = Panic)"
proof -
  from reachable_ok [OF assms] have v: "service_ok v" by simp
  then have "frame_ok (sv_repo v)" by (simp add: service_ok_def)
  from current_head(2,3) [OF this] have "\<exists>b cp. current_branch (sv_repo v) = (Ok b, sv_repo v)
      \<and> repo_get_checkpoint (br_head b) (sv_repo v) = Ok cp"
    by (auto simp: current_branch_run repo_get_checkpoint_def)
  moreover have "fst (branch_create E q' v0) = Panic"
    if "t_checkpoints s0 \<noteq> []" "t_branches s0 = []" "open_service E path backups s0 = (Ok v0, s1)"
    using opened_without_branch [OF that] branch_create_without_branch by blast
  ultimately show ?thesis
    using v safeD [OF locked_handlers_safe(1) v] safeD [OF locked_handlers_safe(2) v]
    by (simp add: service_ok_def)
qed

section \<open>Samples\<close>

definition sample_api :: api_lib where
  "sample_api =
     \<lparr>al_show_uuid = (\<lambda>u. ''uuid''), al_hex = id,
      al_diff = \<lparr>dl_hash = (\<lambda>x y n. 0), dl_unified = (\<lambda>x y n. x @ y), dl_hunks = (\<lambda>x y n. []), dl_keys = (\<lambda>m. [])\<rparr>,
      al_codec = sample_codec, al_json_each = Some id_bytes\<rparr>"

text \<open>A git repository with one commit of one file and with a working tree, which counts its new commits.\<close>

definition sample_git :: "nat git_lib" where
  "sample_git =
     \<lparr>gl_open = (\<lambda>p. ret ()), gl_revparse = (\<lambda>r. ret ''c''),
      gl_peel_to_commit = (\<lambda>i. ret \<lparr>gc_hash = ''c'', gc_author = Some ''ann'', gc_text = Some ''first ''\<rparr>),
      gl_tree_of = (\<lambda>i. ret [GitBlob (Some ''f'') (Some (text_of [''a'']))]),
      gl_statuses_current = ret [], gl_workdir = (\<lambda>g. Some ''w''), gl_open_index = ret (),
      gl_create_dirs = (\<lambda>w p. ret ()), gl_write_file = (\<lambda>w p c. ret ()), gl_add_path = (\<lambda>p. ret ()),
      gl_index_write = ret (), gl_index_write_tree = ret ''t'', gl_treebuilder = ret (), gl_blob = (\<lambda>c. ret ''b''),
      gl_builder_insert = (\<lambda>p i. ret ()), gl_builder_write = ret ''t'', gl_find_tree = (\<lambda>i. ret ()),
      gl_signature = (\<lambda>n m. ret ()), gl_ref_commit = (\<lambda>r g. None), gl_head_commit = (\<lambda>g. Some ''c''),
      gl_commit = (\<lambda>r a m t ps g. (Ok ''d'', Suc g)), gl_find_commit = (\<lambda>i. ret ()), gl_branch = (\<lambda>n i. ret ()),
      gl_parse_oid = Some, gl_ahead_behind = (\<lambda>x y g. Some (0, 0)), gl_find_remote = (\<lambda>r. ret ()),
      gl_fetch = (\<lambda>r fs. ret ())\<rparr>"

definition new_request :: init_request where
  "new_request = \<lparr>irq_db_path = None, irq_git_repo = None, irq_git_ref = None\<rparr>"

definition edit_a :: edit_request where
  "edit_a = \<lparr>erq_file = ''f'', erq_content = Some (text_of [''a''])\<rparr>"

definition commit_m :: commit_request where
  "commit_m = \<lparr>crq_message = ''m'', crq_author = None\<rparr>"

text \<open>The writes of files that the sample has do nothing.\<close>

abbreviation sample_reach :: "service \<Rightarrow> bool" where
  "sample_reach v \<equiv> reachable sample_env sample_api sample_git
     (\<lambda>p. ret () :: (unit, unit, lt_error) prog) (\<lambda>p c. ret ()) (v, 0, ())"

text \<open>A database with one checkpoint and the branch main\<close>

definition old_db :: db where
  "old_db = empty_db\<lparr>
     t_checkpoints := [\<lparr>cr_id = ''c'', cr_parents = [], cr_snapshots = [], cr_author = ''ann'', cr_message = ''old'',
       cr_git_anchor = None, cr_created_at = 1, cr_sources = None\<rparr>],
     t_branches := [\<lparr>br_name = ''main'', br_head = ContentId ''c'', br_created_at = 1, br_updated_at = 2\<rparr>]\<rparr>"

lemma old_db_sound: "stored_sound old_db"
  by (simp add: stored_sound_def stored_ids_def old_db_def empty_db_def partitions_ok_def history_rows_def)

lemma empty_db_sound: "stored_sound empty_db"
  by (simp add: stored_sound_def empty_db_def partitions_ok_def history_rows_def)

abbreviation sample_at :: "int \<Rightarrow> env" where
  "sample_at t \<equiv> at_moment sample_env (\<lambda>x. t) 7"

lemma old_opened: "\<exists>v. open_service (sample_at t) ''p'' empty_backup_db old_db = (Ok v, old_db) \<and> sv_db v = old_db"
proof -
  obtain cps where cps: "list_checkpoints (sample_at t) old_db = Ok cps" "collect_checkpoints cps \<noteq> fmempty"
    by (simp add: list_checkpoints_def old_db_def empty_db_def order_by_desc_def collect_checkpoints_def)
  obtain bs where bs: "list_branches old_db = Ok bs" by (simp add: list_branches_def)
  have init: "load_or_init (sample_at t) old_db = (Ok (collect_checkpoints cps, bs), old_db)"
    by (simp add: load_or_init_def sbind_map_err_query [where h = "list_checkpoints (sample_at t)", OF cps(1)] cps(2)
        sbind_map_err_query [where h = list_branches, OF bs] ret_def)
  obtain G where G: "load_graph (collect_checkpoints cps) bs old_db = Ok G" using load_graph_Ok by blast
  have n: "load_metadata ''current_branch'' old_db = Ok None"
    by (simp add: load_metadata_def old_db_def empty_db_def select_row_def)
  have "\<exists>R. repo_load (sample_at t) old_db = (Ok R, old_db)"
    by (simp add: repo_load_def sbind_apply_Ok [where m = "load_or_init (sample_at t)", OF init]
        sbind_map_err_query [where h = "load_graph (collect_checkpoints cps) bs", OF G]
        sbind_map_err_query [where h = "load_metadata ''current_branch''", OF n])
  then show ?thesis by (auto simp: open_service_def map_err_def sbind_def)
qed

lemma sample_opened: "\<exists>v s. open_service (sample_at 0) ''p'' empty_backup_db empty_db = (Ok v, s) \<and> sample_reach v"
proof -
  obtain R s' where "repo_load (sample_at 0) empty_db = (Ok R, s')" by (rule load_initial)
  then obtain v s where v: "open_service (sample_at 0) ''p'' empty_backup_db empty_db = (Ok v, s)"
    by (simp add: open_service_def map_err_def sbind_def)
  show ?thesis by (intro exI conjI) (rule v, rule reachable.opened [OF empty_db_sound v])
qed

text \<open>A service is opened on that database, restarted, and answers two requests at different times.\<close>

theorem service_invariant_witness:
  "\<exists>v v'. open_service (sample_at 0) ''p'' empty_backup_db old_db = (Ok v, old_db)
     \<and> open_service (sample_at 3) ''p'' empty_backup_db (sv_db v) = (Ok v', old_db)
     \<and> \<not> sv_poisoned (handle (sample_at 9) sample_api (Commit commit_m) (handle (sample_at 5) sample_api (Edit edit_a) v'))"
proof -
  obtain v where v: "open_service (sample_at 0) ''p'' empty_backup_db old_db = (Ok v, old_db)" "sv_db v = old_db"
    using old_opened by blast
  obtain v' where v': "open_service (sample_at 3) ''p'' empty_backup_db (sv_db v) = (Ok v', old_db)"
    using old_opened v(2) by metis
  have "sample_reach v" by (rule reachable.opened [OF old_db_sound v(1)])
  from reachable.restarted [OF this _ v'] have "sample_reach v'" using old_db_sound v(2) by simp
  then have "sample_reach (handle (sample_at 9) sample_api (Commit commit_m) (handle (sample_at 5) sample_api (Edit edit_a) v'))"
    by (intro reachable.step [OF _ service_step.request])
  from service_invariant [OF this] v(1) v' show ?thesis by blast
qed

end
