(* ===== verification/Service_Theorems.thy ===== *)
theory Service_Theorems
  imports Service_Invariant
begin

text \<open>
  What the requests do together: a commit on top of the staged partition, the effect of a merge that the
  kept repository does not see, the clean-up of orphans, the anchors of exported checkpoints and the
  draining of the approvals.
\<close>

section \<open>Evaluating a handler\<close>

lemma on_kept_run:
  "m ((sv_repo v)\<lparr>r_storage := Some (sv_db v)\<rparr>) = (r, R) \<Longrightarrow> r_storage R = Some s \<Longrightarrow>
   on_kept m v = (r, v\<lparr>sv_repo := R, sv_db := s\<rparr>)"
  by (simp add: on_kept_def storage_of_def)

lemma on_core_run: "m (sv_db v) = (r, s) \<Longrightarrow> on_core m v = (r, v\<lparr>sv_db := s\<rparr>)"
  by (simp add: on_core_def)

lemma write_locked_run: "\<not> sv_poisoned v \<Longrightarrow> m v = (Ok x, v') \<Longrightarrow> write_locked m v = (Ok x, v')"
  by (simp add: write_locked_def)

lemma core_query [simp]:
  "on_core (storage (query f)) v = (result_map_err Storage (f (sv_db v)), v)"
  by (simp add: on_core_def map_err_def query_def)

lemma core_read [simp]: "on_core (read_snapshot E x) v = (result_map_err Storage (get_snapshot E x (sv_db v)), v)"
  by (simp add: read_snapshot_def)

section \<open>A merge is lost by the next commit\<close>

lemma on_loaded_repo [simp]: "sv_repo (snd (on_loaded E m v)) = sv_repo v"
  by (simp add: on_loaded_def split: prod.split result.split)

lemma merge_branch_repo: "merge_branch E q v = (r, v') \<Longrightarrow> sv_repo v' = sv_repo v"
  using on_loaded_repo [of E "merge_into_current E q" v]
  by (cases "on_loaded E (merge_into_current E q) v") (auto simp: merge_branch_def split: result.splits sum.splits)

text \<open>A commit of the kept repository, when it succeeds\<close>

lemma repo_commit_Ok:
  assumes "frame_ok R" and "repo_commit E snaps message author R = (Ok i, R')"
  obtains cp where "cp = checkpoint_new E snaps [br_head (r_branches R ! r_current R)] (metadata_new author message)"
    and "i = cp_id cp" and "R' = recorded E cp R"
proof -
  note head = current_head [OF assms(1)]
  let ?cp = "checkpoint_new E snaps [br_head (r_branches R ! r_current R)] (metadata_new author message)"
  have "record_checkpoint E ?cp R = (Ok (cp_id ?cp), recorded E ?cp R)"
    by (rule record_checkpoint_run [OF head(3)]) simp
  then show thesis
    using assms(2) that [of ?cp]
    by (auto simp: repo_commit_def sbind_def fail_def query_def head(1) split: if_splits result.splits)
qed

lemma store_known:
  assumes "list_ex (\<lambda>r. cr_id r = id_bytes (cp_id cp)) (t_checkpoints s)"
  shows "snd (store_checkpoint E cp s) = s"
  using assms by (simp add: store_checkpoint_def sbind_def lift_result_def update_def insert_or_ignore_def
      checkpoint_to_row_def split: result.split)

lemma persist_stores:
  assumes "cp_sources cp = fmempty"
  shows "list_ex (\<lambda>r. cr_id r = id_bytes (cp_id cp)) (t_checkpoints (snd (persist_db E cp G n s)))"
proof -
  obtain es gs where "snd (persist_db E cp G n s) =
    s\<lparr>t_checkpoints := insert_or_ignore cr_id (checkpoint_to_row cp None) (t_checkpoints s),
      t_dag_edges := es, t_dag_generations := gs,
      t_branches := update_rows (\<lambda>b. br_name b = n) (\<lambda>b. row_head E b (cp_id cp)) (t_branches s)\<rparr>"
    by (rule persist_db_tables [OF assms])
  then show ?thesis by (auto simp: insert_or_ignore_def checkpoint_to_row_def list_ex_iff)
qed

text \<open>The source that a commit records afterwards changes the kept checkpoint and never the database.\<close>

lemma record_source_run:
  assumes "fmlookup (r_checkpoints (sv_repo v)) i = Some cp" and "cp_id cp = i"
    and "list_ex (\<lambda>r. cr_id r = id_bytes i) (t_checkpoints (sv_db v))"
  obtains st m d where "record_source E i x v = (Ok (), v\<lparr>sv_repo := (sv_repo v)
     \<lparr>r_storage := st, r_checkpoints := fmupd i (cp\<lparr>cp_sources := m\<rparr>) (r_checkpoints (sv_repo v)), r_dirty := d\<rparr>\<rparr>)"
proof (cases "get_snapshot E x (sv_db v)")
  case (Ok y)
  let ?R = "(sv_repo v)\<lparr>r_storage := Some (sv_db v)\<rparr>"
  let ?cp = "cp\<lparr>cp_sources := fmupd x (source_of_snapshot y) (cp_sources cp)\<rparr>"
  define R1 where "R1 = ?R\<lparr>r_checkpoints := fmupd i ?cp (r_checkpoints (sv_repo v)), r_dirty := set_insert i (r_dirty (sv_repo v))\<rparr>"
  have R1: "r_storage R1 = Some (sv_db v)" "R1\<lparr>r_storage := Some (sv_db v)\<rparr> = R1" "fmlookup (r_checkpoints R1) i = Some ?cp"
    by (simp_all add: R1_def)
  have "set_snapshot_source i x (source_of_snapshot y) ?R = (Ok (), R1)"
    using assms(1) by (simp add: set_snapshot_source_def R1_def)
  then have 1: "on_kept (set_snapshot_source i x (source_of_snapshot y)) v = (Ok (), v\<lparr>sv_repo := R1\<rparr>)"
    by (simp add: on_kept_run R1(1))
  have "snd (store_checkpoint E ?cp (sv_db v)) = sv_db v"
    by (rule store_known) (simp add: assms(2,3))
  then have "sync_checkpoint E i R1 = (result_map_err Storage (fst (store_checkpoint E ?cp (sv_db v))), R1)"
    using R1 by (cases "store_checkpoint E ?cp (sv_db v)") (simp add: sync_checkpoint_def on_storage_def)
  then have 2: "on_kept (sync_checkpoint E i) (v\<lparr>sv_repo := R1\<rparr>)
      = (result_map_err Storage (fst (store_checkpoint E ?cp (sv_db v))), v\<lparr>sv_repo := R1\<rparr>)"
    by (simp add: on_kept_run R1)
  have "fst (store_checkpoint E ?cp (sv_db v)) \<noteq> Panic"
    by (auto simp: store_checkpoint_def sbind_def lift_result_def update_def sources_column_def split: result.split sum.split)
  then have "record_source E i x v = (Ok (), v\<lparr>sv_repo := R1\<rparr>)"
    by (cases "fst (store_checkpoint E ?cp (sv_db v))")
      (simp_all add: record_source_def Ok match_err_def map_err_apply ret_def sbind_def 1 2)
  then show thesis unfolding R1_def by (rule that)
next
  case (Err e)
  have "fmupd i (cp\<lparr>cp_sources := cp_sources cp\<rparr>) (r_checkpoints (sv_repo v)) = r_checkpoints (sv_repo v)"
    using assms(1) by (intro fmap_ext) auto
  then show thesis
    using that [where st = "r_storage (sv_repo v)" and m = "cp_sources cp" and d = "r_dirty (sv_repo v)"] Err
    by (simp add: record_source_def match_err_def map_err_apply ret_def)
qed (simp add: queries_return)

text \<open>What a successful commit has done.\<close>

lemma commit_Ok:
  assumes "commit E q v = (Ok resp, v')" and "frame_ok (sv_repo v)"
  obtains p cp st m d where "get_partition staged_partition_id (sv_db v) = Ok p"
    and "cp = checkpoint_new E [p_current p] [br_head (r_branches (sv_repo v) ! r_current (sv_repo v))]
      (metadata_new (case crq_author q of None \<Rightarrow> ''user'' | Some a \<Rightarrow> a) (crq_message q))"
    and "resp = \<lparr>cors_checkpoint_id = to_hex (cp_id cp), cors_message = crq_message q\<rparr>"
    and "sv_repo v' = (recorded E cp ((sv_repo v)\<lparr>r_storage := Some (sv_db v)\<rparr>))\<lparr>r_storage := st,
      r_checkpoints := fmupd (cp_id cp) (cp\<lparr>cp_sources := m\<rparr>) (r_checkpoints (sv_repo v)), r_dirty := d\<rparr>"
    and "sv_db v' = snd (persist_db E cp (add_to_dag cp (r_dag (sv_repo v)))
      (br_name (r_branches (sv_repo v) ! r_current (sv_repo v))) (sv_db v))"
proof -
  let ?R = "(sv_repo v)\<lparr>r_storage := Some (sv_db v)\<rparr>"
  obtain p where p: "get_partition staged_partition_id (sv_db v) = Ok p"
    using assms(1) by (cases "get_partition staged_partition_id (sv_db v)")
      (auto simp: commit_def Let_def sbind_def map_err_apply)
  have open_lock: "\<not> sv_poisoned v"
    using assms(1) by (auto simp: commit_def Let_def sbind_def map_err_apply p write_locked_def)
  obtain i R where R: "commit_single E (p_current p) (crq_message q) (case crq_author q of None \<Rightarrow> ''user'' | Some a \<Rightarrow> a) ?R
      = (Ok i, R)"
    using assms(1) open_lock
    by (cases "commit_single E (p_current p) (crq_message q) (case crq_author q of None \<Rightarrow> ''user'' | Some a \<Rightarrow> a) ?R";
        cases "fst (commit_single E (p_current p) (crq_message q) (case crq_author q of None \<Rightarrow> ''user'' | Some a \<Rightarrow> a) ?R)")
      (auto simp: commit_def Let_def sbind_def map_err_apply p write_locked_def on_kept_def)
  from repo_commit_Ok [of ?R E "[p_current p]", OF _ R [unfolded commit_single_def]] assms(2) obtain cp where
    cp: "cp = checkpoint_new E [p_current p] [br_head (r_branches (sv_repo v) ! r_current (sv_repo v))]
      (metadata_new (case crq_author q of None \<Rightarrow> ''user'' | Some a \<Rightarrow> a) (crq_message q))"
    and i: "i = cp_id cp" and rec: "R = recorded E cp ?R" by auto
  let ?s = "snd (persist_db E cp (add_to_dag cp (r_dag (sv_repo v)))
      (br_name (r_branches (sv_repo v) ! r_current (sv_repo v))) (sv_db v))"
  let ?v = "v\<lparr>sv_repo := R, sv_db := ?s\<rparr>"
  have st: "r_storage R = Some ?s" by (simp add: rec recorded_def Let_def)
  have kept: "on_kept (commit_single E (p_current p) (crq_message q) (case crq_author q of None \<Rightarrow> ''user'' | Some a \<Rightarrow> a)) v
      = (Ok (cp_id cp), ?v)"
    using on_kept_run [where m = "commit_single E (p_current p) (crq_message q) (case crq_author q of None \<Rightarrow> ''user'' | Some a \<Rightarrow> a)",
        OF R st] i by simp
  have "fmlookup (r_checkpoints (sv_repo ?v)) (cp_id cp) = Some cp"
    by (simp add: rec recorded_def Let_def)
  moreover have "list_ex (\<lambda>r. cr_id r = id_bytes (cp_id cp)) (t_checkpoints (sv_db ?v))"
    using persist_stores [of cp] by (simp add: cp)
  ultimately obtain st m d where src: "record_source E (cp_id cp) (p_current p) ?v = (Ok (), ?v\<lparr>sv_repo := (sv_repo ?v)
     \<lparr>r_storage := st, r_checkpoints := fmupd (cp_id cp) (cp\<lparr>cp_sources := m\<rparr>) (r_checkpoints (sv_repo ?v)), r_dirty := d\<rparr>\<rparr>)"
    by (rule record_source_run [OF _ refl])
  have "fmupd (cp_id cp) (cp\<lparr>cp_sources := m\<rparr>) (r_checkpoints R)
      = fmupd (cp_id cp) (cp\<lparr>cp_sources := m\<rparr>) (r_checkpoints (sv_repo v))"
    by (simp add: rec recorded_def Let_def fmap_ext)
  with src that [OF p cp, where st = st and m = m and d = d] assms(1) open_lock show thesis
    by (auto simp: commit_def Let_def sbind_def map_err_apply p write_locked_def kept ret_def rec)
qed

text \<open>C29: a merge that the next commit loses. \<open>merge\<close> works on a repository that it loads and drops: the
  repository that the service keeps does not see the merge checkpoint. The next \<open>commit\<close> puts its
  checkpoint on the head that the kept repository still has, as its only parent, and moves the branch
  in the database from the merge checkpoint to the new one. The merge is no longer in the history of
  the branch.\<close>

theorem merge_lost_by_commit:
  assumes "service_ok v" and "merge_branch E q v = (Ok merged, v1)"
    and "commit E q' v1 = (Ok committed, v2)"
    and "b = r_branches (sv_repo v) ! r_current (sv_repo v)"
  shows "sv_repo v1 = sv_repo v
     \<and> (\<exists>cp :: checkpoint. cors_checkpoint_id committed = to_hex (cp_id cp)
         \<and> map_option cp_parents (fmlookup (r_checkpoints (sv_repo v2)) (cp_id cp)) = Some [br_head b]
         \<and> (\<forall>b' \<in> set (t_branches (sv_db v2)). br_name b' = br_name b \<longrightarrow> br_head b' = cp_id cp))"
proof -
  have same: "sv_repo v1 = sv_repo v" by (rule merge_branch_repo [OF assms(2)])
  then have frame: "frame_ok (sv_repo v1)" and b: "b = r_branches (sv_repo v1) ! r_current (sv_repo v1)"
    using assms(1,4) by (simp_all add: service_ok_def)
  obtain p cp st m d where p: "get_partition staged_partition_id (sv_db v1) = Ok p"
    and cp: "cp = checkpoint_new E [p_current p] [br_head b]
      (metadata_new (case crq_author q' of None \<Rightarrow> ''user'' | Some a \<Rightarrow> a) (crq_message q'))"
    and resp: "committed = \<lparr>cors_checkpoint_id = to_hex (cp_id cp), cors_message = crq_message q'\<rparr>"
    and repo: "sv_repo v2 = (recorded E cp ((sv_repo v1)\<lparr>r_storage := Some (sv_db v1)\<rparr>))\<lparr>r_storage := st,
      r_checkpoints := fmupd (cp_id cp) (cp\<lparr>cp_sources := m\<rparr>) (r_checkpoints (sv_repo v1)), r_dirty := d\<rparr>"
    and db: "sv_db v2 = snd (persist_db E cp (add_to_dag cp (r_dag (sv_repo v1))) (br_name b) (sv_db v1))"
    by (rule commit_Ok [OF assms(3) frame, folded b])
  have src: "cp_sources cp = fmempty" by (simp add: cp)
  obtain es gs where s: "sv_db v2 = (sv_db v1)\<lparr>t_checkpoints := insert_or_ignore cr_id (checkpoint_to_row cp None) (t_checkpoints (sv_db v1)),
      t_dag_edges := es, t_dag_generations := gs,
      t_branches := update_rows (\<lambda>b'. br_name b' = br_name b) (\<lambda>b'. row_head E b' (cp_id cp)) (t_branches (sv_db v1))\<rparr>"
    unfolding db by (rule persist_db_tables [OF src])
  have "t_branches (sv_db v2) = update_rows (\<lambda>b'. br_name b' = br_name b) (\<lambda>b'. row_head E b' (cp_id cp)) (t_branches (sv_db v1))"
    by (simp add: s)
  then have "\<forall>b' \<in> set (t_branches (sv_db v2)). br_name b' = br_name b \<longrightarrow> br_head b' = cp_id cp"
    by (auto simp: set_update_rows)
  moreover have "map_option cp_parents (fmlookup (r_checkpoints (sv_repo v2)) (cp_id cp)) = Some [br_head b]"
    by (simp add: repo) (simp add: cp)
  moreover have "cors_checkpoint_id committed = to_hex (cp_id cp)" by (simp add: resp)
  ultimately show ?thesis using same by blast
qed

text \<open>C8: a commit request. When the staged partition differs from what the head of the current branch
  has, it succeeds; the checkpoint it answers is stored in the database with the staged snapshot and the
  old head as its parent, the log request then shows it before the old log, the partitions are as they
  were, and the invariant of the service holds.\<close>

theorem commit_request_recorded:
  assumes "service_ok v" and "get_partition staged_partition_id (sv_db v) = Ok p"
    and "current_branch_head (sv_repo v) = (Ok head, sv_repo v)"
    and "repo_get_checkpoint head (sv_repo v) = Ok cur" and "cp_snapshots cur \<noteq> [p_current p]"
    and "cp = checkpoint_new E [p_current p] [head]
      (metadata_new (case crq_author q of None \<Rightarrow> ''user'' | Some a \<Rightarrow> a) (crq_message q))"
    and "cp_id cp |\<notin>| fmdom (r_checkpoints (sv_repo v))"
    and "\<not> list_ex (\<lambda>r. cr_id r = id_bytes (cp_id cp)) (t_checkpoints (sv_db v))"
  shows "\<exists>v'. commit E q v = (Ok \<lparr>cors_checkpoint_id = to_hex (cp_id cp), cors_message = crq_message q\<rparr>, v')
     \<and> service_ok v' \<and> get_checkpoint E (cp_id cp) (sv_db v') = Ok cp
     \<and> fst (log_checkpoints E \<lparr>lrq_count = Some (Suc n)\<rparr> v') = Ok
         \<lparr>lrs_checkpoints = map checkpoint_to_info (cp # log_from head n (sv_repo v)),
          lrs_total = Suc (length (log_from head n (sv_repo v)))\<rparr>
     \<and> list_partitions (sv_db v') = list_partitions (sv_db v)"
proof -
  let ?R = "(sv_repo v)\<lparr>r_storage := Some (sv_db v)\<rparr>" and ?author = "case crq_author q of None \<Rightarrow> ''user'' | Some a \<Rightarrow> a"
  have frame: "frame_ok (sv_repo v)" and unlocked: "\<not> sv_poisoned v" using assms(1) by (simp_all add: service_ok_def)
  note known = current_head [OF frame]
  have head: "head = br_head (r_branches (sv_repo v) ! r_current (sv_repo v))" using known(1) assms(3) by simp
  have src: "cp_sources cp = fmempty" by (simp add: assms(6))
  have rec: "record_checkpoint E cp ?R = (Ok (cp_id cp), recorded E cp ?R)"
    by (rule record_checkpoint_run) (use known(3) src in simp_all)
  have "current_branch_head ?R = (Ok head, ?R)"
    using current_head(1) [of ?R] frame head by simp
  moreover have "repo_get_checkpoint head ?R = Ok cur" using assms(4) by (simp add: repo_get_checkpoint_def)
  ultimately have "commit_single E (p_current p) (crq_message q) ?author ?R = (Ok (cp_id cp), recorded E cp ?R)"
    using assms(5) rec by (simp add: commit_single_def repo_commit_def sbind_def query_def flip: assms(6))
  then have kept: "on_kept (commit_single E (p_current p) (crq_message q) ?author) v
      = (Ok (cp_id cp), v\<lparr>sv_repo := recorded E cp ?R, sv_db := storage_of (sv_db v) (recorded E cp ?R)\<rparr>)"
    by (simp add: on_kept_def)
  let ?v = "v\<lparr>sv_repo := recorded E cp ?R, sv_db := storage_of (sv_db v) (recorded E cp ?R)\<rparr>"
  have "fmlookup (r_checkpoints (sv_repo ?v)) (cp_id cp) = Some cp" by (simp add: recorded_def Let_def)
  moreover have "list_ex (\<lambda>r. cr_id r = id_bytes (cp_id cp)) (t_checkpoints (sv_db ?v))"
    using persist_stores [OF src] by (simp add: storage_of_def recorded_def Let_def)
  ultimately obtain v' where src_run: "record_source E (cp_id cp) (p_current p) ?v = (Ok (), v')"
    using record_source_run [OF _ refl] by blast
  let ?resp = "\<lparr>cors_checkpoint_id = to_hex (cp_id cp), cors_message = crq_message q\<rparr>"
  have run: "commit E q v = (Ok ?resp, v')"
    using unlocked by (simp add: commit_def Let_def sbind_def map_err_apply assms(2) write_locked_def kept src_run ret_def)
  from commit_Ok [OF run frame] assms(2,6) head obtain st m d where
    repo: "sv_repo v' = (recorded E cp ?R)\<lparr>r_storage := st,
      r_checkpoints := fmupd (cp_id cp) (cp\<lparr>cp_sources := m\<rparr>) (r_checkpoints (sv_repo v)), r_dirty := d\<rparr>"
    and db: "sv_db v' = snd (persist_db E cp (add_to_dag cp (r_dag (sv_repo v)))
      (br_name (r_branches (sv_repo v) ! r_current (sv_repo v))) (sv_db v))"
    by (metis result.inject(1))
  obtain es gs where s: "sv_db v' = (sv_db v)\<lparr>t_checkpoints := insert_or_ignore cr_id (checkpoint_to_row cp None) (t_checkpoints (sv_db v)),
      t_dag_edges := es, t_dag_generations := gs,
      t_branches := update_rows (\<lambda>b'. br_name b' = br_name (r_branches (sv_repo v) ! r_current (sv_repo v)))
        (\<lambda>b'. row_head E b' (cp_id cp)) (t_branches (sv_db v))\<rparr>"
    unfolding db by (rule persist_db_tables [OF src])
  have "select_row cr_id (id_bytes (cp_id cp)) (t_checkpoints (sv_db v')) = Some (checkpoint_to_row cp None)"
    using assms(8) select_row_None [of cr_id "id_bytes (cp_id cp)" "t_checkpoints (sv_db v)"]
    by (simp add: s insert_or_ignore_def select_row_append checkpoint_to_row_def)
  then have get: "get_checkpoint E (cp_id cp) (sv_db v') = Ok cp"
    by (simp add: get_checkpoint_def query_row_def checkpoint_row_roundtrip [OF src])
  have ok: "service_ok v'"
    using keepsD [OF locked_handlers(1) assms(1), of E q] run by simp
  then have frame': "frame_ok (sv_repo v')" and unlocked': "\<not> sv_poisoned v'" by (simp_all add: service_ok_def)
  let ?R' = "(sv_repo v')\<lparr>r_storage := Some (sv_db v')\<rparr>"
  have "br_head (r_branches ?R' ! r_current ?R') = cp_id cp"
    using known(3) by (simp add: repo recorded_def Let_def)
  then have "current_branch_head ?R' = (Ok (cp_id cp), ?R')"
    using current_head(1) [of ?R'] frame' by simp
  moreover have "log_from (cp_id cp) (Suc n) ?R' = cp\<lparr>cp_sources := m\<rparr> # log_from head n (sv_repo v)"
    using log_recorded [of "sv_repo v" head "cp\<lparr>cp_sources := m\<rparr>" ?R' n] frame known(2) assms(7) head
    by (simp add: frame_ok_def repo assms(6))
  ultimately have "on_kept (repo_log (Suc n)) v' = (Ok (cp\<lparr>cp_sources := m\<rparr> # log_from head n (sv_repo v)), v'\<lparr>sv_repo := ?R', sv_db := sv_db v'\<rparr>)"
    by (simp add: on_kept_def repo_log_def sbind_def query_def storage_of_def)
  then have "fst (log_checkpoints E \<lparr>lrq_count = Some (Suc n)\<rparr> v') = Ok
         \<lparr>lrs_checkpoints = map checkpoint_to_info (cp # log_from head n (sv_repo v)),
          lrs_total = Suc (length (log_from head n (sv_repo v)))\<rparr>"
    using unlocked' by (simp add: log_checkpoints_def read_locked_def sbind_def map_err_apply ret_def checkpoint_to_info_def)
  moreover have "list_partitions (sv_db v') = list_partitions (sv_db v)"
    by (simp add: s list_partitions_def row_to_partition_def load_history_def history_rows_def cong: map_cong)
  ultimately show ?thesis using run ok get by blast
qed

section \<open>A switch of branch that panics\<close>

text \<open>C30: the assertion of \<open>branch_switch\<close> fails when the database has another head than the kept
  repository, as after a merge into the branch: the request panics after it has made the branch current
  and moved the staged partition to the head of the database. The lock is free by then, so later
  requests are answered.\<close>

theorem branch_switch_panics:
  assumes "service_ok v" and "find_branch (bsrq_name q) (sv_repo v) = Ok idx"
    and "get_branch (bsrq_name q) (sv_db v) = Ok b" and "br_head b \<noteq> br_head (r_branches (sv_repo v) ! idx)"
    and "get_checkpoint E (br_head b) (sv_db v) = Ok cp" and "cp_snapshots cp = x # xs"
    and "get_partition staged_partition_id (sv_db v) = Ok p"
  shows "\<exists>v' p'. branch_switch E q v = (Panic, v') \<and> service_ok v' \<and> r_current (sv_repo v') = idx
     \<and> get_partition staged_partition_id (sv_db v') = Ok p' \<and> p_current p' = x"
proof -
  let ?s = "snd (store_metadata E ''current_branch'' (bsrq_name q) (sv_db v))"
  let ?R0 = "(sv_repo v)\<lparr>r_storage := Some (sv_db v)\<rparr>"
  define R where "R = ?R0\<lparr>r_current := idx, r_storage := Some ?s\<rparr>"
  let ?v = "v\<lparr>sv_repo := R, sv_db := ?s\<rparr>"
  have "on_storage (store_metadata E ''current_branch'' (bsrq_name q)) (?R0\<lparr>r_current := idx\<rparr>) = (Ok (), R)"
    by (simp add: on_storage_def store_metadata_def update_def R_def)
  moreover have "find_branch (bsrq_name q) ?R0 = Ok idx" using assms(2) by (simp add: find_branch_def)
  ultimately have "repo_switch_branch E (bsrq_name q) ?R0 = (Ok (br_head (r_branches R ! idx)), R)"
    by (simp add: repo_switch_branch_def sbind_def query_def update_def)
  moreover have R: "r_storage R = Some ?s" "r_branches R = r_branches (sv_repo v)" "r_current R = idx" by (simp_all add: R_def)
  ultimately have kept: "on_kept (repo_switch_branch E (bsrq_name q)) v = (Ok (br_head (r_branches (sv_repo v) ! idx)), ?v)"
    by (simp add: on_kept_def storage_of_def)
  have ok: "partitions_ok ?s"
    using keepsD [OF keeps_db_other(4)] assms(1) by (simp add: service_ok_def)
  have same: "get_partition staged_partition_id ?s = Ok p" "get_branch (bsrq_name q) ?s = Ok b"
    "get_checkpoint E (br_head b) ?s = Ok cp"
    using assms(3,5,7) by (simp_all add: store_metadata_def update_def get_partition_def get_branch_def
        get_checkpoint_def row_to_partition_def load_history_def history_rows_def)
  note push = push_get [OF ok same(1), of E x]
  have "switch_branch E (bsrq_name q) ?s = (Ok (br_head b), pushed E staged_partition_id x ?s)"
    using push(1) by (simp add: switch_branch_def sbind_def map_err_apply query_def match_err_def same assms(6) ret_def)
  then have core: "on_core (switch_branch E (bsrq_name q)) ?v
      = (Ok (br_head b), ?v\<lparr>sv_db := pushed E staged_partition_id x ?s\<rparr>)"
    by (simp add: on_core_def)
  have "\<not> sv_poisoned v" using assms(1) by (simp add: service_ok_def)
  with assms(3,4) have run: "branch_switch E q v = (Panic, ?v\<lparr>sv_db := pushed E staged_partition_id x ?s\<rparr>)"
    by (simp add: branch_switch_def sbind_def match_err_def write_locked_def map_err_apply kept core ret_def
        assert_equal_def lift_result_def)
  from keepsD [OF locked_handlers(3) assms(1), of E q] have "service_ok (snd (branch_switch E q v))" .
  moreover have "p_current (advance p x) = x" by (simp add: advance_def)
  ultimately show ?thesis using run push(2) R(3)
    by (intro exI [of _ "?v\<lparr>sv_db := pushed E staged_partition_id x ?s\<rparr>"] exI [of _ "advance p x"]) simp
qed

section \<open>Cleaning up\<close>

text \<open>C31: the clean-up of orphans deletes everything. A request to clean neither a branch nor a layer
  only runs the two clean-ups of orphans. The identifiers of the rows are BLOBs and those in the JSON
  columns are texts, so no row is ever in use: all snapshots and deltas are deleted, while the
  partitions and checkpoints that name them stay. Afterwards no snapshot can be read and every edit
  fails.\<close>

theorem clean_deletes_every_snapshot:
  assumes "al_json_each L = Some text" and "q = \<lparr>clrq_branch = None, clrq_layer = None, clrq_all = False\<rparr>"
  shows "\<exists>resp v'. clean E L q v = (Ok resp, v')
     \<and> clrs_removed_snapshots resp = length (t_snapshots (sv_db v))
     \<and> clrs_removed_deltas resp = length (t_deltas (sv_db v))
     \<and> sv_db v' = (sv_db v)\<lparr>t_snapshots := [], t_deltas := []\<rparr>
     \<and> fst (read_snapshot E i (sv_db v')) = Err (Storage (Database QueryReturnedNoRows))
     \<and> fst (edit E q' v') \<noteq> Ok r"
proof -
  let ?s1 = "(sv_db v)\<lparr>t_snapshots := []\<rparr>" and ?s2 = "(sv_db v)\<lparr>t_snapshots := [], t_deltas := []\<rparr>"
  have blob: "SqlBlob b \<notin> (\<lambda>x. SqlText (text x)) ` A" for b A by auto
  have 1: "cleanup_orphan_snapshots L (sv_db v) = (Ok (length (t_snapshots (sv_db v))), ?s1)"
    by (simp add: cleanup_orphan_snapshots_def sbind_def query_def json_elements_def assms(1) blob Let_def)
  have 2: "cleanup_orphan_deltas L ?s1 = (Ok (length (t_deltas (sv_db v))), ?s2)"
    by (simp add: cleanup_orphan_deltas_def sbind_def query_def json_elements_def assms(1) Let_def)
  have none: "get_snapshot E j ?s2 = Err (Database QueryReturnedNoRows)" for j
    by (simp add: get_snapshot_def select_row_def query_row_def)
  have clean: "clean E L q v = (Ok \<lparr>clrs_removed_branches = 0, clrs_removed_checkpoints = 0,
      clrs_removed_snapshots = length (t_snapshots (sv_db v)), clrs_removed_deltas = length (t_deltas (sv_db v)),
      clrs_removed_layers = 0,
      clrs_message = clean_message 0 0 (length (t_snapshots (sv_db v))) (length (t_deltas (sv_db v))) 0\<rparr>, v\<lparr>sv_db := ?s2\<rparr>)"
    by (simp add: clean_def assms(2) or_zero_def sbind_def match_err_def map_err_apply on_core_def 1 2 ret_def)
  have "fst (apply_manual_edit E path new ?s2) \<noteq> Ok j" for path new j
    by (auto simp: apply_manual_edit_def find_partition_def read_snapshot_def sbind_def match_err_def query_def
        map_err_def none ret_def fail_def split: result.splits)
  then have "fst (edit E q' (v\<lparr>sv_db := ?s2\<rparr>)) \<noteq> Ok r"
    by (auto simp: edit_def content_required_def sbind_def lift_result_def map_err_apply on_core_def
        split: result.splits prod.splits) (metis fst_conv)
  with clean show ?thesis by (simp add: read_snapshot_def map_err_def query_def none)
qed

section \<open>Anchors of exported checkpoints\<close>

text \<open>A loaded repository with nothing to synchronise, over a given table of checkpoints.\<close>

definition in_step_with :: "checkpoint_row list \<Rightarrow> repo \<Rightarrow> bool" where
  "in_step_with rows R \<longleftrightarrow> r_dirty R = [] \<and> r_deleted_checkpoints R = []
     \<and> (\<exists>s. r_storage R = Some s \<and> t_checkpoints s = rows)"

abbreviation same_checkpoints :: "(db, 'a, 'e) prog \<Rightarrow> bool" where
  "same_checkpoints \<equiv> stays (\<lambda>s s'. t_checkpoints s' = t_checkpoints s)"

interpretation same_rows: state_preorder "\<lambda>s s'. t_checkpoints s' = t_checkpoints s"
  by unfold_locales auto

lemma in_step_core: "same_checkpoints m \<Longrightarrow> keeps (in_step_with rows) (core_of_repo m)"
  by (rule keepsI) (auto simp: in_step_with_def core_of_repo_def stays_def split: option.split prod.split, metis snd_conv)

lemma in_step_storage: "same_checkpoints m \<Longrightarrow> keeps (in_step_with rows) (on_storage m)"
  by (rule keepsI) (auto simp: in_step_with_def on_storage_def stays_def split: option.split prod.split, metis snd_conv)

lemma in_step_anchor: "keeps (in_step_with rows) (set_git_anchor i h)"
  by (rule keepsI) (auto simp: set_git_anchor_def update_def in_step_with_def split: option.split)

lemma same_rows_text: "same_checkpoints (snapshot_text E i)"
  unfolding snapshot_text_def read_snapshot_def reconstruct_text_def read_deltas_def
  by (intro same_rows.stays_intros)

lemma same_rows_stores: "same_checkpoints (delete_branch n)" "same_checkpoints (store_branch b)"
  "same_checkpoints (store_metadata E k x)"
  by (simp_all add: stays_def delete_branch_def store_branch_def store_metadata_def update_def)

lemma in_step_sync: "keeps (in_step_with rows) (sync_all E)"
proof (rule keepsI)
  fix R assume R: "in_step_with rows R"
  have field: "keeps (in_step_with rows) (update (\<lambda>r. r\<lparr>r_dirty := []\<rparr>))"
    "keeps (in_step_with rows) (update (\<lambda>r. r\<lparr>r_deleted_checkpoints := []\<rparr>))"
    "keeps (in_step_with rows) (update (\<lambda>r. r\<lparr>r_deleted_branches := []\<rparr>))"
    by (simp_all add: stays_def update_def in_step_with_def)
  have empty: "r_dirty R = []" "r_deleted_checkpoints R = []" using R by (simp_all add: in_step_with_def)
  have "keeps (in_step_with rows) (sync_storage E R)"
    unfolding sync_storage_def ignore_errors_def empty for_each.simps
    by (intro keeps_rules field in_step_storage keeps_current same_rows.stays_intros same_rows_stores)
  with R show "in_step_with rows (snd (sync_all E R))" by (simp add: sync_all_def stays_def)
qed

abbreviation listed :: "env \<Rightarrow> db \<Rightarrow> checkpoint list" where
  "listed E s \<equiv> map (row_to_checkpoint E) (order_by_desc cr_created_at (t_checkpoints s))"

lemma load_or_init_known:
  assumes "t_checkpoints s \<noteq> []"
  shows "load_or_init E s = (Ok (collect_checkpoints (listed E s), sort_key br_name (t_branches s)), s)"
proof -
  have dom: "cp_id (last cps) |\<in>| fmdom (collect_checkpoints cps)" if "cps \<noteq> []" for cps
    using that by (cases cps rule: rev_cases) (simp_all add: collect_checkpoints_def)
  have "set (listed E s) \<noteq> {}" using assms by (simp add: order_by_desc_def)
  then have "listed E s \<noteq> []" by (metis set_empty)
  from dom [OF this] have "collect_checkpoints (listed E s) \<noteq> fmempty" by (metis fempty_iff fmdom_empty)
  then show ?thesis
    by (simp add: load_or_init_def list_checkpoints_def list_branches_def sbind_def map_err_def query_def ret_def)
qed

lemma load_in_step:
  assumes "repo_load E s = (Ok R, s')" and "t_checkpoints s \<noteq> []"
  shows "in_step_with (t_checkpoints s) R \<and> r_checkpoints R = collect_checkpoints (listed E s)"
  using assms(1) unfolding repo_load_def sbind_apply_Ok [where m = "load_or_init E", OF load_or_init_known [OF assms(2)]]
  by (auto elim!: sbind_OkE simp: in_step_with_def)

lemma load_same_db:
  assumes "t_checkpoints s \<noteq> []"
  shows "snd (repo_load E s) = s"
  unfolding repo_load_def sbind_apply_Ok [where m = "load_or_init E", OF load_or_init_known [OF assms]]
  by (auto simp: sbind_def map_err_def query_def split: prod.split result.split)

text \<open>C32: the anchor of an export is never stored. Exporting a checkpoint to git binds it to the new
  commit in a repository that is dropped afterwards, and the synchronisation before that writes only
  checkpoints known to have changed, which it is not. Whatever the export answers, the table of
  checkpoints and the kept repository are as before, and opening a repository from the database
  gives the checkpoints with the anchors they had.\<close>

theorem git_anchor_never_persisted:
  assumes "t_checkpoints (sv_db v) \<noteq> []" and "git_commit E G q (v, g) = (r, (v', g'))"
  shows "t_checkpoints (sv_db v') = t_checkpoints (sv_db v) \<and> sv_repo v' = sv_repo v
     \<and> (repo_load E (sv_db v) = (Ok R, s) \<and> repo_load E (sv_db v') = (Ok R', s')
         \<longrightarrow> r_checkpoints R' = r_checkpoints R)"
proof -
  let ?rows = "t_checkpoints (sv_db v)"
  let ?m = "sbind (on_repo current_branch_name) (\<lambda>branch_name.
       sbind (push_to_git E G (gcrq_git_repo q) branch_name
         (case gcrq_message q of None \<Rightarrow> ''sync from layertwine'' | Some m \<Rightarrow> m)) (\<lambda>hash.
       sbind (on_repo (sync_all E)) (\<lambda>_. ret \<lparr>gcrs_git_commit_hash = hash\<rparr>)))"
  have keep: "keeps_beside (in_step_with ?rows) ?m"
    by (intro keeps_rules on_repo_keeps keeps_current keeps_push in_step_core same_rows_text in_step_anchor in_step_sync)
  have "t_checkpoints (fst (snd (with_loaded E ?m (sv_db v, g)))) = ?rows"
  proof (cases "repo_load E (sv_db v)")
    case (Pair r s1)
    show ?thesis
    proof (cases r)
      case (Ok R)
      with Pair load_in_step assms(1) have "in_step_with ?rows R" by blast
      with keepsD [OF keep, of "(R, g)"] show ?thesis
        by (cases "?m (R, g)") (auto simp: with_loaded_def Pair Ok in_step_with_def storage_of_def)
    qed (use load_same_db [OF assms(1), of E] Pair in \<open>simp_all add: with_loaded_def\<close>)
  qed
  then have "t_checkpoints (sv_db v') = ?rows \<and> sv_repo v' = sv_repo v"
    using assms(2) by (auto simp: git_commit_def Let_def with_git_def map_err_apply split: prod.splits)
  then show ?thesis using load_in_step [of E "sv_db v" R s] load_in_step [of E "sv_db v'" R' s'] assms(1) by simp
qed

section \<open>Draining the approvals\<close>

text \<open>The partition of an approval is under the identifier made from the name of its agent.\<close>

definition approvals_named :: "env \<Rightarrow> db \<Rightarrow> bool" where
  "approvals_named E s \<longleftrightarrow>
     (\<forall>r \<in> set (t_partitions s). \<forall>a. pr_data r = PApproval a \<longrightarrow> pr_id r = approval_agent_partition_id E a)"

text \<open>The agents whose approvals are pending\<close>

definition pending_agents :: "db \<Rightarrow> agent_instance_id set" where
  "pending_agents s = {a. \<exists>r \<in> set (t_partitions s). pr_data r = PApproval a \<and> 1 < length (load_history (pr_id r) s)}"

definition approval_agent :: "partition \<Rightarrow> agent_instance_id" where
  "approval_agent p = (case p_type p of PApproval a \<Rightarrow> a | _ \<Rightarrow> AgentInstanceId [])"

lemma pending_run:
  "list_pending_approvals s
   = (Ok (filter (\<lambda>p. 1 < length (p_history p)) (filter is_approval (map (row_to_partition s) (sort_key pr_name (t_partitions s))))), s)"
  by (simp add: list_pending_approvals_def list_approval_partitions_def list_partitions_def sbind_def map_err_def
      query_def ret_def)

lemma pending_agents_iff:
  assumes "list_pending_approvals s = (Ok ps, s)"
  shows "approval_agent ` set ps = pending_agents s" and "\<forall>p \<in> set ps. is_approval p"
proof -
  have row: "p_type (row_to_partition s r) = pr_data r" "p_history (row_to_partition s r) = load_history (pr_id r) s" for r
    by (simp_all add: row_to_partition_def)
  have ps: "set ps = row_to_partition s ` {r \<in> set (t_partitions s). is_approval (row_to_partition s r)
      \<and> 1 < length (load_history (pr_id r) s)}"
    using assms by (auto simp: pending_run row)
  then show "\<forall>p \<in> set ps. is_approval p" by auto
  show "approval_agent ` set ps = pending_agents s"
  proof (rule set_eqI)
    fix a
    have "a \<in> approval_agent ` set ps \<longleftrightarrow> (\<exists>r \<in> set (t_partitions s). a = approval_agent (row_to_partition s r)
        \<and> is_approval (row_to_partition s r) \<and> 1 < length (load_history (pr_id r) s))"
      unfolding ps image_image image_iff by blast
    also have "\<dots> \<longleftrightarrow> a \<in> pending_agents s"
    proof -
      have "a = approval_agent (row_to_partition s r) \<and> is_approval (row_to_partition s r) \<and> P
          \<longleftrightarrow> pr_data r = PApproval a \<and> P" for r P
        by (cases "pr_data r") (auto simp: approval_agent_def is_approval_def row)
      then show ?thesis unfolding pending_agents_def by simp
    qed
    finally show "a \<in> approval_agent ` set ps \<longleftrightarrow> a \<in> pending_agents s" .
  qed
qed

lemma reject_run:
  assumes "partitions_ok s" and "has_partition_row (approval_agent_partition_id E a) s"
  obtains base where "reject_approval E a s
    = (Ok base, snd (reset_partition_to_baseline E (approval_agent_partition_id E a) s))"
proof -
  let ?pid = "approval_agent_partition_id E a"
  from assms(2) obtain r where r: "select_row pr_id ?pid (t_partitions s) = Some r"
    using select_row_None [of pr_id ?pid "t_partitions s"] by (auto simp: has_partition_row_def)
  then have p: "get_partition ?pid s = Ok (row_to_partition s r)"
    by (simp add: get_partition_def query_row_def)
  have view: "pointer_view ?pid s = Some (load_history ?pid s)" using assms(2) by (simp add: pointer_view_def)
  then have "load_history ?pid s \<noteq> []" by (rule pointers.view_nonempty [OF assms(1)])
  moreover have "pr_id r = ?pid" using select_row_SomeD [OF r] by simp
  ultimately obtain h where h: "list_first (p_history (row_to_partition s r)) = Some h"
    by (cases "load_history ?pid s") (simp_all add: row_to_partition_def)
  have "fst (reset_partition_to_baseline E ?pid s) = Ok ()" using pointers.reset_view [OF assms(1) view] by simp
  then show thesis
    using that [of h] h by (simp add: reject_approval_def sbind_def find_partition_Ok [OF p] lift_result_def map_err_apply ret_def)
qed

lemma reset_rows:
  assumes "partitions_ok s"
  shows "\<exists>f. (\<forall>r. pr_id (f r) = pr_id r \<and> pr_data (f r) = pr_data r)
     \<and> t_partitions (snd (reset_partition_to_baseline E pid s)) = map f (t_partitions s)"
  unfolding reset_run [OF assms]
  by (cases "history_rows pid s")
    (auto simp: t_partitions_reset update_rows_def intro: exI [of _ id] exI [of _ "\<lambda>r. if pr_id r = pid then r\<lparr>pr_current := x, pr_updated_at := y\<rparr> else r" for x y])

lemma reject_pending:
  assumes "partitions_ok s" and "approvals_named E s" and "has_partition_row (approval_agent_partition_id E a) s"
    and "reject_approval E a s = (r, s')"
  shows "partitions_ok s'" and "approvals_named E s'" and "pending_agents s' \<subseteq> pending_agents s - {a}"
    and "has_partition_row q s' = has_partition_row q s"
proof -
  let ?pid = "approval_agent_partition_id E a"
  have s': "s' = snd (reset_partition_to_baseline E ?pid s)" using reject_run [OF assms(1,3)] assms(4) by auto
  show ok: "partitions_ok s'" unfolding s' by (rule pointers.reset_good [OF assms(1)])
  from reset_rows [OF assms(1)] obtain f where f: "\<And>r. pr_id (f r) = pr_id r" "\<And>r. pr_data (f r) = pr_data r"
    "t_partitions s' = map f (t_partitions s)" unfolding s' by blast
  show rows: "has_partition_row q s' = has_partition_row q s" for q
    by (simp add: has_partition_row_def f list_ex_iff)
  show "approvals_named E s'" using assms(2) by (simp add: approvals_named_def f)
  have history: "load_history q s' = (if q = ?pid then take 1 (load_history q s) else load_history q s)"
    if "has_partition_row q s" for q
    using pointers.reset_view [OF assms(1), of ?pid "load_history ?pid s" E] pointers.reset_other [OF assms(1), of q ?pid E]
      that rows [of q] by (auto simp: pointer_view_def s' split: if_splits)
  show "pending_agents s' \<subseteq> pending_agents s - {a}"
  proof
    fix b assume "b \<in> pending_agents s'"
    then obtain r where r: "r \<in> set (t_partitions s)" "pr_data r = PApproval b" "1 < length (load_history (pr_id r) s')"
      by (auto simp: pending_agents_def f)
    have "has_partition_row (pr_id r) s" using r(1) by (auto simp: has_partition_row_def list_ex_iff)
    from history [OF this] r(3) have "pr_id r \<noteq> ?pid" and "1 < length (load_history (pr_id r) s)" by (auto split: if_splits)
    with r assms(2) show "b \<in> pending_agents s - {a}" by (auto simp: pending_agents_def approvals_named_def)
  qed
qed

definition reject_each :: "env \<Rightarrow> approval_info list \<Rightarrow> unit handler" where
  "reject_each E infos = for_each (\<lambda>i. sbind (reject_agent E \<lparr>rarq_agent_id = ai_agent_id i\<rparr>) (\<lambda>_. ret ())) infos"

lemma reject_each_run:
  assumes "service_ok v" and "approvals_named E (sv_db v)"
    and "\<forall>i \<in> set infos. has_partition_row (approval_agent_partition_id E (AgentInstanceId (ai_agent_id i))) (sv_db v)"
  shows "\<exists>v'. reject_each E infos v = (Ok (), v') \<and> service_ok v'
     \<and> pending_agents (sv_db v') \<subseteq> pending_agents (sv_db v) - (\<lambda>i. AgentInstanceId (ai_agent_id i)) ` set infos"
  using assms
proof (induction infos arbitrary: v)
  case Nil
  then show ?case by (simp add: reject_each_def ret_def)
next
  case (Cons i infos)
  let ?a = "AgentInstanceId (ai_agent_id i)"
  have ok: "partitions_ok (sv_db v)" using Cons.prems(1) by (simp add: service_ok_def)
  have row: "has_partition_row (approval_agent_partition_id E ?a) (sv_db v)" using Cons.prems(3) by simp
  from reject_run [OF ok row] obtain base s' where run: "reject_approval E ?a (sv_db v) = (Ok base, s')" by metis
  note after = reject_pending [OF ok Cons.prems(2) row run]
  let ?v = "v\<lparr>sv_db := s'\<rparr>"
  have "service_ok ?v" using Cons.prems(1) after(1) by (simp add: service_ok_def)
  moreover have "approvals_named E (sv_db ?v)" using after(2) by simp
  moreover have "\<forall>i \<in> set infos. has_partition_row (approval_agent_partition_id E (AgentInstanceId (ai_agent_id i))) (sv_db ?v)"
    using Cons.prems(3) after(4) by simp
  ultimately obtain v' where v': "reject_each E infos ?v = (Ok (), v')" "service_ok v'"
    "pending_agents (sv_db v') \<subseteq> pending_agents (sv_db ?v) - (\<lambda>i. AgentInstanceId (ai_agent_id i)) ` set infos"
    using Cons.IH [of ?v] by blast
  have "reject_each E (i # infos) v = (Ok (), v')"
    using v'(1) by (simp add: reject_each_def reject_agent_def sbind_def map_err_apply on_core_def run ret_def)
  moreover have "pending_agents (sv_db v') \<subseteq> pending_agents (sv_db v) - (\<lambda>i. AgentInstanceId (ai_agent_id i)) ` set (i # infos)"
    using v'(3) after(3) by auto
  ultimately show ?case using v'(2) by blast
qed

text \<open>C20: the queue of approvals can always be drained. In a consistent service, rejecting the agent of each
  listed approval succeeds for all of them, and then no approval is pending.\<close>

theorem approvals_can_be_drained:
  assumes "service_ok v" and "approvals_named E (sv_db v)"
    and "pending_approvals E v = (Ok resp, v1)"
  shows "\<exists>v'. reject_each E (lpas_approvals resp) v1 = (Ok (), v') \<and> service_ok v'
     \<and> fst (pending_approvals E v') = Ok \<lparr>lpas_approvals = [], lpas_total = 0\<rparr>"
proof -
  obtain ps where ps: "list_pending_approvals (sv_db v) = (Ok ps, sv_db v)" by (simp add: pending_run)
  then have resp: "lpas_approvals resp = map approval_to_info ps" and v1: "v1 = v"
    using assms(3) by (simp_all add: pending_approvals_def sbind_def map_err_apply on_core_def ret_def) auto
  note agents = pending_agents_iff [OF ps]
  have name: "AgentInstanceId (ai_agent_id (approval_to_info p)) = approval_agent p" if "p \<in> set ps" for p
    using agents(2) that by (auto simp: approval_to_info_def approval_agent_def is_approval_def split: partition_type.splits)
  have row: "has_partition_row (approval_agent_partition_id E (approval_agent p)) (sv_db v)" if "p \<in> set ps" for p
  proof -
    from that agents(1) have "approval_agent p \<in> pending_agents (sv_db v)" by blast
    with assms(2) show ?thesis by (auto simp: pending_agents_def approvals_named_def has_partition_row_def list_ex_iff)
  qed
  have "\<forall>i \<in> set (lpas_approvals resp). has_partition_row (approval_agent_partition_id E (AgentInstanceId (ai_agent_id i))) (sv_db v)"
    using resp name row by auto
  from reject_each_run [OF assms(1,2) this] obtain v' where
    v': "reject_each E (lpas_approvals resp) v = (Ok (), v')" "service_ok v'"
    "pending_agents (sv_db v') \<subseteq> pending_agents (sv_db v) - (\<lambda>i. AgentInstanceId (ai_agent_id i)) ` set (lpas_approvals resp)"
    by blast
  have "(\<lambda>i. AgentInstanceId (ai_agent_id i)) ` set (lpas_approvals resp) = approval_agent ` set ps"
    using resp name by (simp add: image_image)
  with v'(3) agents(1) have none: "pending_agents (sv_db v') = {}" by auto
  obtain ps' where ps': "list_pending_approvals (sv_db v') = (Ok ps', sv_db v')" by (simp add: pending_run)
  from pending_agents_iff(1) [OF this] none have "ps' = []" by simp
  with ps' have "fst (pending_approvals E v') = Ok \<lparr>lpas_approvals = [], lpas_total = 0\<rparr>"
    by (simp add: pending_approvals_def sbind_def map_err_apply on_core_def ret_def)
  with v'(1,2) v1 show ?thesis by blast
qed

section \<open>Samples\<close>

definition sample_row :: "bytes \<Rightarrow> content_id list \<Rightarrow> content_id list \<Rightarrow> checkpoint_row" where
  "sample_row i ps xs = \<lparr>cr_id = i, cr_parents = ps, cr_snapshots = xs, cr_author = [], cr_message = [],
     cr_git_anchor = None, cr_created_at = 0, cr_sources = None\<rparr>"

definition sample_checkpoint :: "bytes \<Rightarrow> content_id list \<Rightarrow> content_id list \<Rightarrow> checkpoint" where
  "sample_checkpoint i ps xs = row_to_checkpoint sample_env (sample_row i ps xs)"

definition sample_branch :: "string \<Rightarrow> bytes \<Rightarrow> branch" where
  "sample_branch n i = \<lparr>br_name = n, br_head = ContentId i, br_created_at = 0, br_updated_at = 0\<rparr>"

definition sample_partition :: "uuid \<Rightarrow> string \<Rightarrow> bytes \<Rightarrow> partition_type \<Rightarrow> partition_row" where
  "sample_partition pid n x t = \<lparr>pr_id = pid, pr_name = n, pr_current = x, pr_data = t,
     pr_created_at = 0, pr_updated_at = 0\<rparr>"

definition sample_history :: "uuid \<Rightarrow> bytes \<Rightarrow> int \<Rightarrow> history_row" where
  "sample_history pid x n = \<lparr>hr_partition = pid, hr_snapshot = x, hr_seq = n, hr_created_at = 0\<rparr>"

text \<open>Two branches, \<open>dev\<close> one checkpoint ahead of \<open>main\<close>, which is current, and the approval of the agent
  \<open>a\<close> with one change.\<close>

definition sample_approval :: uuid where
  "sample_approval = approval_agent_partition_id sample_env (AgentInstanceId ''a'')"

definition two_branches_db :: db where
  "two_branches_db = empty_db\<lparr>
     t_partitions := [sample_partition staged_partition_id ''staged'' ''t'' PStaged,
       sample_partition sample_approval ''approval/a'' ''y'' (PApproval (AgentInstanceId ''a''))],
     t_history := [sample_history staged_partition_id ''t'' 0, sample_history sample_approval ''x'' 0,
       sample_history sample_approval ''y'' 1],
     t_checkpoints := [sample_row ''c'' [] [ContentId ''s''], sample_row ''d'' [ContentId ''c''] [ContentId ''t'']],
     t_branches := [sample_branch ''main'' ''c'', sample_branch ''dev'' ''d''],
     t_dag_store := [\<lparr>mr_key = ''current_branch'', mr_value = ''main'', mr_updated_at = 0\<rparr>]\<rparr>"

definition two_branches_repo :: repo where
  "two_branches_repo =
     \<lparr>r_branches = [sample_branch ''dev'' ''d'', sample_branch ''main'' ''c''], r_current = 1,
      r_dag = build_dag [sample_checkpoint ''c'' [] [ContentId ''s''], sample_checkpoint ''d'' [ContentId ''c''] [ContentId ''t'']],
      r_checkpoints = fmupd (ContentId ''d'') (sample_checkpoint ''d'' [ContentId ''c''] [ContentId ''t''])
        (fmupd (ContentId ''c'') (sample_checkpoint ''c'' [] [ContentId ''s'']) fmempty),
      r_snapshots = fmempty, r_storage = None,
      r_time_index = ti_from_checkpoints [sample_checkpoint ''c'' [] [ContentId ''s''],
        sample_checkpoint ''d'' [ContentId ''c''] [ContentId ''t'']],
      r_deleted_checkpoints = [], r_deleted_branches = [], r_dirty = []\<rparr>"

definition two_branches :: service where
  "two_branches = \<lparr>sv_db = two_branches_db, sv_repo = two_branches_repo, sv_backups = empty_backup_db,
     sv_poisoned = False, sv_db_path = ''p'', sv_diff_cache = fmempty\<rparr>"

lemma two_branches_db_ok: "partitions_ok two_branches_db"
proof -
  have "sample_approval \<noteq> staged_partition_id" by code_simp
  then show ?thesis
    by (auto simp: partitions_ok_def two_branches_db_def empty_db_def sample_partition_def sample_history_def
        history_rows_def row_ok_def has_partition_row_def)
qed

lemma two_branches_ok: "service_ok two_branches"
proof -
  have "frame_ok two_branches_repo"
    by (auto simp: frame_ok_def two_branches_repo_def parents_known_def branches_ok_def sample_branch_def
        sample_checkpoint_def sample_row_def row_to_checkpoint_def split: if_splits)
  with two_branches_db_ok show ?thesis by (simp add: service_ok_def two_branches_def)
qed

definition merge_dev :: merge_request where
  "merge_dev = \<lparr>mrq_branch = ''dev'', mrq_message = None\<rparr>"

theorem merge_lost_by_commit_witness:
  "\<exists>merged v1 committed v2. merge_branch sample_env merge_dev two_branches = (Ok merged, v1)
     \<and> commit sample_env commit_m v1 = (Ok committed, v2)
     \<and> (\<exists>cp :: checkpoint. cors_checkpoint_id committed = to_hex (cp_id cp)
         \<and> map_option cp_parents (fmlookup (r_checkpoints (sv_repo v2)) (cp_id cp)) = Some [ContentId ''c''])"
proof -
  have "case fst (merge_branch sample_env merge_dev two_branches) of Ok r \<Rightarrow> True | _ \<Rightarrow> False" by code_simp
  then obtain merged v1 where 1: "merge_branch sample_env merge_dev two_branches = (Ok merged, v1)"
    by (cases "merge_branch sample_env merge_dev two_branches") (auto split: result.splits)
  have "case fst (commit sample_env commit_m (snd (merge_branch sample_env merge_dev two_branches))) of Ok r \<Rightarrow> True | _ \<Rightarrow> False"
    by code_simp
  then obtain committed v2 where 2: "commit sample_env commit_m v1 = (Ok committed, v2)"
    using 1 by (cases "commit sample_env commit_m v1") (auto split: result.splits)
  have 3: "br_head (r_branches (sv_repo two_branches) ! r_current (sv_repo two_branches)) = ContentId ''c''" by code_simp
  from merge_lost_by_commit [OF two_branches_ok 1 2 refl] 1 2 show ?thesis unfolding 3 by blast
qed

theorem branch_switch_panics_witness:
  "\<exists>v'. branch_switch sample_env \<lparr>bsrq_name = ''main''\<rparr>
     (two_branches\<lparr>sv_db := two_branches_db\<lparr>t_branches := [sample_branch ''main'' ''d'', sample_branch ''dev'' ''d'']\<rparr>\<rparr>) = (Panic, v')"
proof -
  let ?db = "two_branches_db\<lparr>t_branches := [sample_branch ''main'' ''d'', sample_branch ''dev'' ''d'']\<rparr>"
  let ?v = "two_branches\<lparr>sv_db := ?db\<rparr>" and ?q = "\<lparr>bsrq_name = ''main''\<rparr>"
  have 1: "service_ok ?v" using two_branches_ok by (simp add: service_ok_def two_branches_def)
  have 2: "find_branch (bsrq_name ?q) (sv_repo ?v) = Ok 1" by code_simp
  have 3: "get_branch (bsrq_name ?q) (sv_db ?v) = Ok (sample_branch ''main'' ''d'')" by code_simp
  have 4: "br_head (sample_branch ''main'' ''d'') \<noteq> br_head (r_branches (sv_repo ?v) ! 1)" by code_simp
  have 5: "get_checkpoint sample_env (br_head (sample_branch ''main'' ''d'')) (sv_db ?v)
    = Ok (sample_checkpoint ''d'' [ContentId ''c''] [ContentId ''t''])" by code_simp
  have 6: "cp_snapshots (sample_checkpoint ''d'' [ContentId ''c''] [ContentId ''t'']) = ContentId ''t'' # []" by code_simp
  have 7: "get_partition staged_partition_id (sv_db ?v)
    = Ok (initial_partition staged_partition_id ''staged'' PStaged (ContentId ''t''))" by code_simp
  from branch_switch_panics [OF 1 2 3 4 5 6 7] show ?thesis by blast
qed

theorem commit_request_recorded_witness:
  "\<exists>v'. fst (log_checkpoints sample_env \<lparr>lrq_count = Some 2\<rparr> v') = Ok
      \<lparr>lrs_checkpoints = map checkpoint_to_info [checkpoint_new sample_env [ContentId ''t''] [ContentId ''c'']
           (metadata_new ''user'' ''m''), sample_checkpoint ''c'' [] [ContentId ''s'']], lrs_total = 2\<rparr>
     \<and> v' = snd (commit sample_env commit_m two_branches)"
proof -
  let ?cp = "checkpoint_new sample_env [ContentId ''t''] [ContentId ''c''] (metadata_new ''user'' ''m'')"
  have 1: "get_partition staged_partition_id (sv_db two_branches)
    = Ok (initial_partition staged_partition_id ''staged'' PStaged (ContentId ''t''))" by code_simp
  have 2: "current_branch_head (sv_repo two_branches) = (Ok (ContentId ''c''), sv_repo two_branches)"
    by (simp add: current_branch_head_def sbind_def current_branch_run ret_def two_branches_def two_branches_repo_def sample_branch_def)
  have 3: "repo_get_checkpoint (ContentId ''c'') (sv_repo two_branches) = Ok (sample_checkpoint ''c'' [] [ContentId ''s''])"
    by code_simp
  have 4: "cp_snapshots (sample_checkpoint ''c'' [] [ContentId ''s''])
    \<noteq> [p_current (initial_partition staged_partition_id ''staged'' PStaged (ContentId ''t''))]" by code_simp
  have 5: "?cp = checkpoint_new sample_env [p_current (initial_partition staged_partition_id ''staged'' PStaged (ContentId ''t''))]
      [ContentId ''c''] (metadata_new (case crq_author commit_m of None \<Rightarrow> ''user'' | Some a \<Rightarrow> a) (crq_message commit_m))"
    by (simp add: commit_m_def initial_partition_def)
  have "cp_id ?cp \<noteq> ContentId ''c''" "cp_id ?cp \<noteq> ContentId ''d''" by code_simp+
  then have 6: "cp_id ?cp |\<notin>| fmdom (r_checkpoints (sv_repo two_branches))"
    by (simp add: two_branches_def two_branches_repo_def)
  have 7: "\<not> list_ex (\<lambda>r. cr_id r = id_bytes (cp_id ?cp)) (t_checkpoints (sv_db two_branches))" by code_simp
  have 8: "log_from (ContentId ''c'') 1 (sv_repo two_branches) = [sample_checkpoint ''c'' [] [ContentId ''s'']]"
    by (simp add: log_from_def explore.simps(2) pushed_nodes_def succs_parent_graph two_branches_def two_branches_repo_def
        map_filter_simps sample_checkpoint_def sample_row_def row_to_checkpoint_def)
  from commit_request_recorded [OF two_branches_ok 1 2 3 4 5 6 7, of 1] 8 show ?thesis
    by (auto simp: numeral_2_eq_2)
qed

theorem clean_deletes_every_snapshot_witness:
  "\<exists>resp v'. clean sample_env sample_api \<lparr>clrq_branch = None, clrq_layer = None, clrq_all = False\<rparr>
       (two_branches\<lparr>sv_db := edited_db\<rparr>) = (Ok resp, v')
     \<and> clrs_removed_snapshots resp = 2 \<and> t_snapshots (sv_db v') = []"
proof -
  have 1: "al_json_each sample_api = Some id_bytes" by (simp add: sample_api_def)
  have 2: "length (t_snapshots edited_db) = 2" by code_simp
  show ?thesis
    using clean_deletes_every_snapshot [OF 1 refl, of sample_env "two_branches\<lparr>sv_db := edited_db\<rparr>"] 2 by fastforce
qed

text \<open>One checkpoint of the first snapshot, ready to be exported\<close>

definition exportable :: service where
  "exportable = two_branches\<lparr>sv_db := layer_db\<lparr>
     t_checkpoints := [sample_row ''c'' [] [s_id init_snapshot]], t_branches := [sample_branch ''main'' ''c''],
     t_dag_store := [\<lparr>mr_key = ''current_branch'', mr_value = ''main'', mr_updated_at = 0\<rparr>]\<rparr>\<rparr>"

definition export_request :: git_commit_request where
  "export_request = \<lparr>gcrq_git_repo = ''r'', gcrq_message = None\<rparr>"

theorem git_anchor_never_persisted_witness:
  "\<exists>v' g'. git_commit sample_env sample_git export_request (exportable, 0) = (Ok \<lparr>gcrs_git_commit_hash = ''d''\<rparr>, (v', g'))
     \<and> map cr_git_anchor (t_checkpoints (sv_db v')) = [None]"
proof -
  have "(case fst (git_commit sample_env sample_git export_request (exportable, 0)) of
      Ok r \<Rightarrow> gcrs_git_commit_hash r = ''d'' | _ \<Rightarrow> False)" by code_simp
  then obtain v' g' where run: "git_commit sample_env sample_git export_request (exportable, 0)
      = (Ok \<lparr>gcrs_git_commit_hash = ''d''\<rparr>, (v', g'))"
    by (cases "git_commit sample_env sample_git export_request (exportable, 0)") (auto split: result.splits)
  have rows: "t_checkpoints (sv_db exportable) = [sample_row ''c'' [] [s_id init_snapshot]]"
    by (simp add: exportable_def)
  then have "t_checkpoints (sv_db exportable) \<noteq> []" by simp
  from git_anchor_never_persisted [OF this run] rows run show ?thesis by (simp add: sample_row_def)
qed

theorem approvals_can_be_drained_witness:
  "\<exists>resp v'. fst (pending_approvals sample_env two_branches) = Ok resp \<and> lpas_total resp = 1
     \<and> reject_each sample_env (lpas_approvals resp) two_branches = (Ok (), v')
     \<and> fst (pending_approvals sample_env v') = Ok \<lparr>lpas_approvals = [], lpas_total = 0\<rparr>"
proof -
  have named: "approvals_named sample_env (sv_db two_branches)"
    by (simp add: approvals_named_def two_branches_def two_branches_db_def sample_partition_def sample_approval_def)
  obtain resp where resp: "pending_approvals sample_env two_branches = (Ok resp, two_branches)"
    by (simp add: pending_approvals_def sbind_def map_err_apply on_core_def pending_run ret_def)
  have "(case fst (pending_approvals sample_env two_branches) of Ok r \<Rightarrow> lpas_total r | _ \<Rightarrow> 0) = 1" by code_simp
  with resp have "lpas_total resp = 1" by simp
  with approvals_can_be_drained [OF two_branches_ok named resp] resp show ?thesis by auto
qed

end
