(* ===== verification/Config.thy ===== *)
theory Config
  imports Api_Types "HOL-Library.AList"
begin

text \<open>
  \<^verbatim>\<open>src/config.rs\<close>: the configuration, resolved from defaults and up to three TOML files of rising
  priority, and what uses it: \<open>run_maintenance_with\<close> of \<^verbatim>\<open>src/storage/sqlite/connection.rs\<close> and \<open>compact\<close> of
  \<^verbatim>\<open>src/api/service.rs\<close>. The crate \<open>toml\<close> is the record \<open>toml_lib\<close>: parser, printers, and how a value is read
  as a scalar. Arithmetic on \<open>f64\<close> is the record \<open>float_lib\<close>, over any type of floats. A table is the list
  of its entries; \<open>toml_wf\<close> says that keys are distinct everywhere, as in the crate's map.
\<close>

section \<open>TOML values and their merge\<close>

datatype 'f toml =
    TString string
  | TInteger int
  | TFloat 'f
  | TBoolean bool
  | TDatetime string
  | TArray "'f toml list"
  | TTable "(string \<times> 'f toml) list"

fun merge_values :: "'f toml \<Rightarrow> 'f toml \<Rightarrow> 'f toml"
  and merge_entries :: "(string \<times> 'f toml) list \<Rightarrow> (string \<times> 'f toml) list \<Rightarrow> (string \<times> 'f toml) list" where
  "merge_values (TTable base) (TTable overlay) = TTable (merge_entries base overlay)"
| "merge_values base overlay = overlay"
| "merge_entries base [] = base"
| "merge_entries base ((key, val) # overlay) =
     merge_entries (case map_of base key of
         Some old \<Rightarrow> AList.update key (merge_values old val) base
       | None \<Rightarrow> AList.update key val base) overlay"

fun toml_wf :: "'f toml \<Rightarrow> bool" where
  "toml_wf (TTable t) \<longleftrightarrow> distinct (map fst t) \<and> (\<forall>e \<in> set t. toml_wf (snd e))"
| "toml_wf (TArray vs) \<longleftrightarrow> (\<forall>v \<in> set vs. toml_wf v)"
| "toml_wf v \<longleftrightarrow> True"

text \<open>The value at a path of keys, and whether a value that is not a table is in the way.\<close>

fun toml_at :: "string list \<Rightarrow> 'f toml \<Rightarrow> 'f toml option" where
  "toml_at [] v = Some v"
| "toml_at (k # ks) (TTable t) = Option.bind (map_of t k) (toml_at ks)"
| "toml_at (k # ks) v = None"

fun toml_blocked :: "string list \<Rightarrow> 'f toml \<Rightarrow> bool" where
  "toml_blocked [] v \<longleftrightarrow> False"
| "toml_blocked (k # ks) (TTable t) \<longleftrightarrow> (case map_of t k of None \<Rightarrow> False | Some v \<Rightarrow> toml_blocked ks v)"
| "toml_blocked (k # ks) v \<longleftrightarrow> True"

lemma merge_entries_lookup:
  assumes "distinct (map fst overlay)"
  shows "map_of (merge_entries base overlay) k =
     (case map_of overlay k of
        None \<Rightarrow> map_of base k
      | Some v \<Rightarrow> Some (case map_of base k of None \<Rightarrow> v | Some old \<Rightarrow> merge_values old v))"
  using assms
proof (induction overlay arbitrary: base)
  case (Cons e overlay)
  obtain key val where e: "e = (key, val)" by (cases e)
  from Cons.prems have fresh: "map_of overlay key = None" by (simp add: e map_of_eq_None_iff)
  from Cons.prems Cons.IH show ?case
    by (auto simp: e fresh update_conv' split: option.split)
qed simp

lemma toml_wf_entry: "toml_wf (TTable t) \<Longrightarrow> map_of t k = Some v \<Longrightarrow> toml_wf v"
  by (auto dest: map_of_SomeD)

text \<open>What the merge leaves at a path: the overlay's value, merged into the old one, where the overlay has
  one; nothing where the overlay has a scalar in the way; else the old value.\<close>

lemma toml_at_merge:
  assumes "toml_wf overlay"
  shows "toml_at p (merge_values base overlay) =
     (case toml_at p overlay of
        Some v \<Rightarrow> Some (case toml_at p base of Some old \<Rightarrow> merge_values old v | None \<Rightarrow> v)
      | None \<Rightarrow> if toml_blocked p overlay then None else toml_at p base)"
  using assms
proof (induction p arbitrary: base overlay)
  case (Cons k ks)
  show ?case
  proof (cases overlay)
    case (TTable t)
    with Cons.prems have d: "distinct (map fst t)" by simp
    have wf: "toml_wf v" if "map_of t k = Some v" for v
      using toml_wf_entry [OF _ that] Cons.prems TTable by simp
    show ?thesis
    proof (cases base)
      case (TTable b)
      show ?thesis
      proof (cases "map_of t k")
        case None
        then show ?thesis by (simp add: \<open>overlay = TTable t\<close> TTable merge_entries_lookup [OF d])
      next
        case (Some v)
        with Cons.IH [OF wf [OF Some]] show ?thesis
          by (cases "map_of b k")
            (auto simp: \<open>overlay = TTable t\<close> TTable merge_entries_lookup [OF d] split: option.split)
      qed
    qed (simp_all add: TTable split: option.split)
  qed (cases base; simp)+
qed simp

section \<open>The configuration\<close>

datatype auto_vacuum_mode = VacuumIncremental | VacuumFull | VacuumNone

fun as_pragma :: "auto_vacuum_mode \<Rightarrow> string" where
  "as_pragma VacuumIncremental = ''INCREMENTAL''"
| "as_pragma VacuumFull = ''FULL''"
| "as_pragma VacuumNone = ''NONE''"

record 'f maintenance_config =
  mc_auto_vacuum_mode :: auto_vacuum_mode
  mc_freelist_threshold :: 'f
  mc_max_vacuum_pages :: int
  mc_vacuum_full :: bool
  mc_journal_size_limit :: int
  mc_wal_autocheckpoint :: int

record 'f layertwine_config =
  lc_db_path :: string
  lc_maintenance :: "'f maintenance_config"

record 'f float_lib =
  fl_tenth :: 'f
  fl_hundred :: 'f
  fl_of_int :: "int \<Rightarrow> 'f"
  fl_div :: "'f \<Rightarrow> 'f \<Rightarrow> 'f"
  fl_mul :: "'f \<Rightarrow> 'f \<Rightarrow> 'f"
  fl_gt :: "'f \<Rightarrow> 'f \<Rightarrow> bool"
  fl_show :: "nat \<Rightarrow> 'f \<Rightarrow> string"

text \<open>The readers give the text of the error or the value; \<open>tl_variant\<close> reads the name of a variant.\<close>

record 'f toml_lib =
  tl_parse :: "string \<Rightarrow> string + 'f toml"
  tl_print :: "'f toml \<Rightarrow> string + string"
  tl_print_pretty :: "'f toml \<Rightarrow> string + string"
  tl_table :: "'f toml \<Rightarrow> string + (string \<times> 'f toml) list"
  tl_string :: "'f toml \<Rightarrow> string + string"
  tl_f64 :: "'f toml \<Rightarrow> string + 'f"
  tl_i64 :: "'f toml \<Rightarrow> string + int"
  tl_i32 :: "'f toml \<Rightarrow> string + int"
  tl_bool :: "'f toml \<Rightarrow> string + bool"
  tl_variant :: "string list \<Rightarrow> 'f toml \<Rightarrow> string + string"

definition default_db_path :: string where
  "default_db_path = ''.layertwine/layertwine.db''"

definition default_freelist_threshold :: "'f float_lib \<Rightarrow> 'f" where
  "default_freelist_threshold F = fl_tenth F"

definition default_max_vacuum_pages :: int where "default_max_vacuum_pages = 1000"

definition default_journal_size_limit :: int where "default_journal_size_limit = 67108864"

definition default_wal_autocheckpoint :: int where "default_wal_autocheckpoint = 1000"

definition maintenance_default :: "'f float_lib \<Rightarrow> 'f maintenance_config" where
  "maintenance_default F =
     \<lparr>mc_auto_vacuum_mode = VacuumIncremental, mc_freelist_threshold = fl_tenth F, mc_max_vacuum_pages = 1000,
      mc_vacuum_full = False, mc_journal_size_limit = 67108864, mc_wal_autocheckpoint = 1000\<rparr>"

definition config_default :: "'f float_lib \<Rightarrow> 'f layertwine_config" where
  "config_default F = \<lparr>lc_db_path = default_db_path, lc_maintenance = maintenance_default F\<rparr>"

section \<open>Reading and writing it\<close>

text \<open>What the attributes \<open>serde(default)\<close> say: a field that is missing has its default, other keys are
  ignored. Which of several wrong fields is reported does not matter here; it is the first of the structure.\<close>

definition from_sum :: "'e + 'a \<Rightarrow> ('a, 'e) result" where
  "from_sum x = (case x of Inl e \<Rightarrow> Err e | Inr v \<Rightarrow> Ok v)"

definition config_field :: "string \<Rightarrow> 'a \<Rightarrow> ('f toml \<Rightarrow> string + 'a) \<Rightarrow> (string \<times> 'f toml) list \<Rightarrow> ('a, string) result" where
  "config_field key dflt reader t = (case map_of t key of None \<Rightarrow> Ok dflt | Some v \<Rightarrow> from_sum (reader v))"

definition read_auto_vacuum_mode :: "'f toml_lib \<Rightarrow> 'f toml \<Rightarrow> string + auto_vacuum_mode" where
  "read_auto_vacuum_mode T v = (case tl_variant T [''incremental'', ''full'', ''none''] v of
     Inl e \<Rightarrow> Inl e
   | Inr name \<Rightarrow> Inr (if name = ''incremental'' then VacuumIncremental
       else if name = ''full'' then VacuumFull else VacuumNone))"

definition read_maintenance :: "'f float_lib \<Rightarrow> 'f toml_lib \<Rightarrow> 'f toml \<Rightarrow> ('f maintenance_config, string) result" where
  "read_maintenance F T v =
     and_then (from_sum (tl_table T v)) (\<lambda>t.
     and_then (config_field ''auto_vacuum_mode'' VacuumIncremental (read_auto_vacuum_mode T) t) (\<lambda>mode.
     and_then (config_field ''freelist_threshold'' (default_freelist_threshold F) (tl_f64 T) t) (\<lambda>threshold.
     and_then (config_field ''max_vacuum_pages'' default_max_vacuum_pages (tl_i64 T) t) (\<lambda>pages.
     and_then (config_field ''vacuum_full'' False (tl_bool T) t) (\<lambda>full.
     and_then (config_field ''journal_size_limit'' default_journal_size_limit (tl_i64 T) t) (\<lambda>limit.
     and_then (config_field ''wal_autocheckpoint'' default_wal_autocheckpoint (tl_i32 T) t) (\<lambda>auto.
     Ok \<lparr>mc_auto_vacuum_mode = mode, mc_freelist_threshold = threshold, mc_max_vacuum_pages = pages,
         mc_vacuum_full = full, mc_journal_size_limit = limit, mc_wal_autocheckpoint = auto\<rparr>)))))))"

definition read_config :: "'f float_lib \<Rightarrow> 'f toml_lib \<Rightarrow> 'f toml \<Rightarrow> ('f layertwine_config, string) result" where
  "read_config F T v =
     and_then (from_sum (tl_table T v)) (\<lambda>t.
     and_then (config_field ''db_path'' default_db_path (tl_string T) t) (\<lambda>path.
     and_then (case map_of t ''maintenance'' of None \<Rightarrow> Ok (maintenance_default F) | Some m \<Rightarrow> read_maintenance F T m) (\<lambda>m.
     Ok \<lparr>lc_db_path = path, lc_maintenance = m\<rparr>)))"

fun mode_name :: "auto_vacuum_mode \<Rightarrow> string" where
  "mode_name VacuumIncremental = ''incremental''"
| "mode_name VacuumFull = ''full''"
| "mode_name VacuumNone = ''none''"

definition config_to_toml :: "'f layertwine_config \<Rightarrow> 'f toml" where
  "config_to_toml c =
     (let m = lc_maintenance c
      in TTable [(''db_path'', TString (lc_db_path c)),
           (''maintenance'', TTable
             [(''auto_vacuum_mode'', TString (mode_name (mc_auto_vacuum_mode m))),
              (''freelist_threshold'', TFloat (mc_freelist_threshold m)),
              (''max_vacuum_pages'', TInteger (mc_max_vacuum_pages m)),
              (''vacuum_full'', TBoolean (mc_vacuum_full m)),
              (''journal_size_limit'', TInteger (mc_journal_size_limit m)),
              (''wal_autocheckpoint'', TInteger (mc_wal_autocheckpoint m))])])"

section \<open>Files and their order\<close>

text \<open>The surroundings: the home directory, the directory of the executable, and for each path nothing where
  no file exists, or what reading the file gives.\<close>

record surroundings =
  su_home :: "string option"
  su_exe_dir :: "string option"
  su_file :: "string \<Rightarrow> (string + string) option"

definition path_join :: "string \<Rightarrow> string \<Rightarrow> string" where
  "path_join dir name =
     (if dir = [] \<or> starts_with name ''/'' then name
      else if ends_with dir ''/'' then dir @ name
      else dir @ ''/'' @ name)"

definition config_paths :: "surroundings \<Rightarrow> string \<Rightarrow> string list" where
  "config_paths C db_dir =
     (case su_home C of None \<Rightarrow> [] | Some h \<Rightarrow> [path_join (path_join h ''.config'') ''layertwine.toml''])
     @ (case su_exe_dir C of None \<Rightarrow> [] | Some d \<Rightarrow> [path_join d ''layertwine.toml''])
     @ [path_join db_dir ''layertwine.toml'']"

definition config_from_file :: "'f float_lib \<Rightarrow> 'f toml_lib \<Rightarrow> surroundings \<Rightarrow> string
    \<Rightarrow> ('f layertwine_config option, lt_error) result" where
  "config_from_file F T C path = (case su_file C path of
     None \<Rightarrow> Ok None
   | Some content \<Rightarrow>
       and_then (result_map_err (\<lambda>e. General (''failed to read config: '' @ e)) (from_sum content)) (\<lambda>s.
       and_then (result_map_err (\<lambda>e. General (''config parse error: '' @ e))
           (and_then (from_sum (tl_parse T s)) (read_config F T))) (\<lambda>c.
       Ok (Some c))))"

definition read_overlay :: "'f toml_lib \<Rightarrow> surroundings \<Rightarrow> string \<Rightarrow> ('f toml option, lt_error) result" where
  "read_overlay T C path = (case su_file C path of
     None \<Rightarrow> Ok None
   | Some content \<Rightarrow>
       and_then (result_map_err (\<lambda>e. General (''read '' @ path @ '': '' @ e)) (from_sum content)) (\<lambda>s.
       and_then (result_map_err (\<lambda>e. General (''parse '' @ path @ '': '' @ e)) (from_sum (tl_parse T s))) (\<lambda>v.
       Ok (Some v))))"

fun merge_files :: "'f toml_lib \<Rightarrow> surroundings \<Rightarrow> string list \<Rightarrow> 'f toml \<Rightarrow> ('f toml, lt_error) result" where
  "merge_files T C [] base = Ok base"
| "merge_files T C (path # paths) base =
     and_then (read_overlay T C path) (\<lambda>x.
       merge_files T C paths (case x of None \<Rightarrow> base | Some overlay \<Rightarrow> merge_values base overlay))"

definition load_with_priority :: "'f float_lib \<Rightarrow> 'f toml_lib \<Rightarrow> surroundings \<Rightarrow> string
    \<Rightarrow> ('f layertwine_config, lt_error) result" where
  "load_with_priority F T C db_dir =
     and_then (result_map_err (\<lambda>e. General (''serialize defaults: '' @ e))
         (from_sum (tl_print T (config_to_toml (config_default F))))) (\<lambda>defaults.
     and_then (result_map_err (\<lambda>e. General (''parse defaults: '' @ e)) (from_sum (tl_parse T defaults))) (\<lambda>base.
     and_then (merge_files T C (config_paths C db_dir) base) (\<lambda>merged.
     and_then (result_map_err (\<lambda>e. General (''serialize merged config: '' @ e))
         (from_sum (tl_print_pretty T merged))) (\<lambda>out.
     result_map_err (\<lambda>e. General (''deserialize merged config: '' @ e))
       (and_then (from_sum (tl_parse T out)) (read_config F T))))))"

text \<open>\<open>ApiService::open\<close>: any error gives the defaults.\<close>

definition effective_config :: "'f float_lib \<Rightarrow> 'f toml_lib \<Rightarrow> surroundings \<Rightarrow> string \<Rightarrow> 'f layertwine_config" where
  "effective_config F T C db_dir = (case load_with_priority F T C db_dir of
     Ok c \<Rightarrow> c | _ \<Rightarrow> config_default F)"

section \<open>Maintenance\<close>

text \<open>The pragmas of SQLite on the database file, which is of any type: they change no row.\<close>

record 'p pragma_lib =
  pg_wal_checkpoint :: "('p, unit, storage_error) prog"
  pg_page_count :: "('p, int, storage_error) prog"
  pg_freelist_count :: "('p, int, storage_error) prog"
  pg_vacuum :: "('p, unit, storage_error) prog"
  pg_incremental_vacuum :: "int \<Rightarrow> ('p, unit, storage_error) prog"

record 'f compact_options =
  co_freelist_threshold :: 'f
  co_max_vacuum_pages :: int
  co_vacuum_full :: bool

definition compact_options_from :: "'f maintenance_config \<Rightarrow> 'f compact_options" where
  "compact_options_from cfg =
     \<lparr>co_freelist_threshold = mc_freelist_threshold cfg, co_max_vacuum_pages = mc_max_vacuum_pages cfg,
      co_vacuum_full = mc_vacuum_full cfg\<rparr>"

definition compact_options_default :: "'f float_lib \<Rightarrow> 'f compact_options" where
  "compact_options_default F =
     \<lparr>co_freelist_threshold = fl_tenth F, co_max_vacuum_pages = 1000, co_vacuum_full = False\<rparr>"

record compact_report =
  crp_wal_checkpointed :: bool
  crp_freelist_before :: int
  crp_total_pages :: int
  crp_freelist_after :: int
  crp_vacuum_performed :: bool
  crp_message :: string

definition freelist_ratio :: "'f float_lib \<Rightarrow> int \<Rightarrow> int \<Rightarrow> 'f" where
  "freelist_ratio F freelist pages = fl_div F (fl_of_int F freelist) (fl_of_int F pages)"

text \<open>The decision: what is run, and whether anything was, with the message.\<close>

definition vacuum_step :: "'f float_lib \<Rightarrow> 'p pragma_lib \<Rightarrow> 'f compact_options \<Rightarrow> int \<Rightarrow> int
    \<Rightarrow> ('p, bool \<times> string, storage_error) prog" where
  "vacuum_step F P opts page_count freelist_before =
     (if page_count = 0 then ret (False, ''database is empty, nothing to compact'')
      else if co_vacuum_full opts then
        sbind (pg_vacuum P) (\<lambda>_. ret (True, ''full VACUUM completed''))
      else if fl_gt F (freelist_ratio F freelist_before page_count) (co_freelist_threshold opts) then
        (let pages = min freelist_before (co_max_vacuum_pages opts)
         in sbind (pg_incremental_vacuum P pages) (\<lambda>_.
            ret (True, ''incremental_vacuum: reclaimed up to '' @ show_int pages @ '' pages (freelist was ''
              @ show_int freelist_before @ ''/'' @ show_int page_count @ '')'')))
      else ret (False, ''freelist ratio ''
        @ fl_show F 2 (fl_mul F (freelist_ratio F freelist_before page_count) (fl_hundred F))
        @ ''% below threshold '' @ fl_show F 0 (fl_mul F (co_freelist_threshold opts) (fl_hundred F))
        @ ''%, skipped vacuum''))"

definition run_maintenance_with :: "'f float_lib \<Rightarrow> 'p pragma_lib \<Rightarrow> 'f compact_options
    \<Rightarrow> ('p, compact_report, storage_error) prog" where
  "run_maintenance_with F P opts =
     sbind (pg_wal_checkpoint P) (\<lambda>_.
     sbind (pg_page_count P) (\<lambda>page_count.
     sbind (pg_freelist_count P) (\<lambda>freelist_before.
     sbind (vacuum_step F P opts page_count freelist_before) (\<lambda>(performed, message).
     sbind (pg_freelist_count P) (\<lambda>freelist_after.
     ret \<lparr>crp_wal_checkpointed = True, crp_freelist_before = freelist_before, crp_total_pages = page_count,
          crp_freelist_after = freelist_after, crp_vacuum_performed = performed, crp_message = message\<rparr>)))))"

definition run_maintenance :: "'f float_lib \<Rightarrow> 'p pragma_lib \<Rightarrow> ('p, compact_report, storage_error) prog" where
  "run_maintenance F P = run_maintenance_with F P (compact_options_default F)"

definition compact :: "env \<Rightarrow> 'f float_lib \<Rightarrow> 'p pragma_lib \<Rightarrow> 'f maintenance_config \<Rightarrow> compact_request
    \<Rightarrow> ('p, compact_response, api_error) prog" where
  "compact E F P cfg req =
     (let opts = compact_options_from cfg;
          opts = (case cmrq_vacuum_full req of Some b \<Rightarrow> opts\<lparr>co_vacuum_full := b\<rparr> | None \<Rightarrow> opts)
      in sbind (map_err (map_error E) (storage (run_maintenance_with F P opts))) (\<lambda>report.
         ret \<lparr>cmrs_wal_checkpointed = crp_wal_checkpointed report, cmrs_freelist_before = crp_freelist_before report,
              cmrs_total_pages = crp_total_pages report, cmrs_freelist_after = crp_freelist_after report,
              cmrs_vacuum_performed = crp_vacuum_performed report, cmrs_message = crp_message report\<rparr>))"

section \<open>Every setting comes from the last file that has it\<close>

definition overlays :: "'f toml_lib \<Rightarrow> surroundings \<Rightarrow> string list \<Rightarrow> 'f toml list" where
  "overlays T C paths = List.map_filter (\<lambda>path. case read_overlay T C path of Ok x \<Rightarrow> x | _ \<Rightarrow> None) paths"

definition last_set :: "string list \<Rightarrow> 'f toml list \<Rightarrow> 'f toml option" where
  "last_set p vs = list_last (List.map_filter (toml_at p) vs)"

fun is_table :: "'f toml \<Rightarrow> bool" where
  "is_table (TTable t) \<longleftrightarrow> True"
| "is_table v \<longleftrightarrow> False"

text \<open>No scalar in the way to the path, and no table at its end.\<close>

definition settable :: "string list \<Rightarrow> 'f toml \<Rightarrow> bool" where
  "settable p v \<longleftrightarrow> \<not> toml_blocked p v \<and> (case toml_at p v of None \<Rightarrow> True | Some x \<Rightarrow> \<not> is_table x)"

definition config_keys :: "string list list" where
  "config_keys = [''db_path''] # map (\<lambda>k. [''maintenance'', k])
     [''auto_vacuum_mode'', ''freelist_threshold'', ''max_vacuum_pages'', ''vacuum_full'', ''journal_size_limit'',
      ''wal_autocheckpoint'']"

text \<open>What the crate promises: a parsed value has distinct keys, a table is read as its entries, and what is
  printed parses to a value with the same scalars.\<close>

definition prints_back :: "'f toml_lib \<Rightarrow> ('f toml \<Rightarrow> string + string) \<Rightarrow> bool" where
  "prints_back T pr \<longleftrightarrow> (\<forall>v s w p x. toml_wf v \<longrightarrow> pr v = Inr s \<longrightarrow> tl_parse T s = Inr w \<longrightarrow>
     toml_at p v = Some x \<longrightarrow> \<not> is_table x \<longrightarrow> toml_at p w = Some x)"

definition toml_contract :: "'f toml_lib \<Rightarrow> bool" where
  "toml_contract T \<longleftrightarrow> (\<forall>s v. tl_parse T s = Inr v \<longrightarrow> toml_wf v) \<and> (\<forall>t. tl_table T (TTable t) = Inr t)
     \<and> prints_back T (tl_print T) \<and> prints_back T (tl_print_pretty T)"

lemma from_sum_Ok [simp]: "from_sum x = Ok v \<longleftrightarrow> x = Inr v"
  by (cases x) (auto simp: from_sum_def)

lemma merge_files_foldl:
  "merge_files T C paths base = Ok v \<Longrightarrow> v = foldl merge_values base (overlays T C paths)"
proof (induction paths arbitrary: base)
  case (Cons path paths)
  from Cons.prems obtain x where "read_overlay T C path = Ok x"
      and "merge_files T C paths (case x of None \<Rightarrow> base | Some overlay \<Rightarrow> merge_values base overlay) = Ok v"
    by (auto simp: and_then_eq_Ok)
  with Cons.IH show ?case by (cases x) (auto simp: overlays_def List.map_filter_simps)
qed (simp add: overlays_def List.map_filter_simps)

lemma overlays_wf: "toml_contract T \<Longrightarrow> v \<in> set (overlays T C paths) \<Longrightarrow> toml_wf v"
proof (induction paths)
  case (Cons path paths)
  then show ?case
    by (auto simp: overlays_def List.map_filter_simps toml_contract_def read_overlay_def and_then_eq_Ok
        split: option.splits result.splits)
qed (simp add: overlays_def List.map_filter_simps)

lemma wf_update:
  assumes "toml_wf (TTable b)" and "toml_wf v"
  shows "toml_wf (TTable (AList.update k v b))"
proof -
  have "toml_wf x" if "(j, x) \<in> set (AList.update k v b)" for j x
  proof -
    have d: "distinct (map fst (AList.update k v b))" using assms(1) by (simp add: distinct_update)
    from that map_of_is_SomeI [OF d] have "map_of (AList.update k v b) j = Some x" by simp
    with assms show ?thesis by (auto simp: update_conv' split: if_splits dest: map_of_SomeD)
  qed
  with assms(1) show ?thesis by (auto simp: distinct_update)
qed

lemma wf_tail: "toml_wf (TTable ((key, val) # t)) \<Longrightarrow> toml_wf val \<and> toml_wf (TTable t)"
  by simp

lemma merge_wf:
  "toml_wf (base :: 'f toml) \<Longrightarrow> toml_wf overlay \<Longrightarrow> toml_wf (merge_values base overlay)"
  "toml_wf (TTable b) \<Longrightarrow> toml_wf (TTable ov :: 'f toml) \<Longrightarrow> toml_wf (TTable (merge_entries b ov))"
proof (induction base overlay and b ov rule: merge_values_merge_entries.induct)
  fix b :: "(string \<times> 'f toml) list" and key val ov
  assume *: "\<And>old. map_of b key = Some old \<Longrightarrow> toml_wf old \<Longrightarrow> toml_wf val \<Longrightarrow> toml_wf (merge_values old val)"
    and step: "toml_wf (TTable (case map_of b key of Some old \<Rightarrow> AList.update key (merge_values old val) b
          | None \<Rightarrow> AList.update key val b)) \<Longrightarrow> toml_wf (TTable ov)
        \<Longrightarrow> toml_wf (TTable (merge_entries (case map_of b key of Some old \<Rightarrow> AList.update key (merge_values old val) b
          | None \<Rightarrow> AList.update key val b) ov))"
    and b: "toml_wf (TTable b)" and cons: "toml_wf (TTable ((key, val) # ov))"
  from wf_tail [OF cons] have val: "toml_wf val" and ov: "toml_wf (TTable ov)" by simp_all
  have "toml_wf (TTable (case map_of b key of Some old \<Rightarrow> AList.update key (merge_values old val) b
      | None \<Rightarrow> AList.update key val b))"
  proof (cases "map_of b key")
    case (Some old)
    with * [OF Some toml_wf_entry [OF b Some] val] wf_update [OF b] show ?thesis by (simp only: option.case)
  qed (simp only: option.case wf_update [OF b val])
  from step [OF this ov] show "toml_wf (TTable (merge_entries b ((key, val) # ov)))" by simp
qed simp_all

lemma foldl_merge_wf: "toml_wf base \<Longrightarrow> (\<And>v. v \<in> set vs \<Longrightarrow> toml_wf v) \<Longrightarrow> toml_wf (foldl merge_values base vs)"
  by (induction vs arbitrary: base) (simp_all add: merge_wf(1))

lemma map_filter_snoc:
  "List.map_filter f (xs @ [x]) = List.map_filter f xs @ (case f x of None \<Rightarrow> [] | Some y \<Rightarrow> [y])"
  by (induction xs) (simp_all add: List.map_filter_simps split: option.split)

lemma last_set_append: "last_set p (vs @ [v]) = (case toml_at p v of None \<Rightarrow> last_set p vs | Some x \<Rightarrow> Some x)"
  by (simp add: last_set_def map_filter_snoc list_last_def split: option.split)

lemma last_set_in: "last_set p vs = Some x \<Longrightarrow> \<exists>v \<in> set vs. toml_at p v = Some x"
proof (induction vs rule: rev_induct)
  case (snoc v vs)
  then show ?case by (auto simp: last_set_append split: option.splits)
qed (simp add: last_set_def List.map_filter_simps)

lemma merge_scalar: "\<not> is_table v \<Longrightarrow> merge_values base v = v"
  by (cases base; cases v) simp_all

text \<open>Merging a list of overlays leaves at a path the value of the last one that has it.\<close>

lemma toml_at_foldl:
  assumes "\<And>v. v \<in> set vs \<Longrightarrow> toml_wf v \<and> settable p v"
  shows "toml_at p (foldl merge_values base vs) = last_set p (base # vs)"
  using assms
proof (induction vs rule: rev_induct)
  case Nil
  then show ?case by (simp add: last_set_def List.map_filter_simps list_last_def split: option.split)
next
  case (snoc v vs)
  from snoc.prems have v: "toml_wf v" "settable p v" by simp_all
  have "toml_at p (foldl merge_values base vs) = last_set p (base # vs)" using snoc by simp
  with v last_set_append [of p "base # vs" v] merge_scalar show ?case
    by (auto simp: toml_at_merge settable_def split: option.splits)
qed

lemma toml_at_nested:
  assumes "toml_at [k, j] w = Some x"
  obtains t m where "w = TTable t" "map_of t k = Some (TTable m)" "map_of m j = Some x"
proof -
  from assms obtain t v where "w = TTable t" "map_of t k = Some v" "toml_at [j] v = Some x"
    by (cases w) (auto simp: bind_eq_Some_conv)
  with that show thesis by (cases v) (auto simp: bind_eq_Some_conv)
qed

lemma config_key_default:
  "p \<in> set config_keys \<Longrightarrow> settable p (config_to_toml c) \<and> (\<exists>x. toml_at p (config_to_toml c) = Some x)"
  by (auto simp: config_keys_def config_to_toml_def settable_def Let_def)

text \<open>What is merged last, seen through the two passages through text.\<close>

lemma merged_setting:
  assumes T: "toml_contract T" and p: "p \<in> set config_keys"
    and settable: "\<And>v. v \<in> set (overlays T C paths) \<Longrightarrow> settable p v"
    and base: "tl_print T (config_to_toml c) = Inr s" "tl_parse T s = Inr base"
    and merged: "merge_files T C paths base = Ok v" "tl_print_pretty T v = Inr s'" "tl_parse T s' = Inr w"
  shows "\<exists>x. last_set p (config_to_toml c # overlays T C paths) = Some x \<and> toml_at p w = Some x"
proof -
  let ?d = "config_to_toml c" and ?vs = "overlays T C paths"
  have wf: "toml_wf base" "\<And>v. v \<in> set ?vs \<Longrightarrow> toml_wf v"
    using T base(2) overlays_wf [OF T] by (auto simp: toml_contract_def)
  have d: "settable p ?d" "\<exists>x. toml_at p ?d = Some x" using config_key_default [OF p] by auto
  have "toml_wf ?d" by (simp add: config_to_toml_def Let_def)
  with T d base have same: "toml_at p base = toml_at p ?d"
    by (auto simp: toml_contract_def prints_back_def settable_def)
  have v: "v = foldl merge_values base ?vs" by (rule merge_files_foldl [OF merged(1)])
  then have "toml_at p v = last_set p (base # ?vs)" using toml_at_foldl [of ?vs p base] wf(2) settable by blast
  also have "\<dots> = last_set p (?d # ?vs)" by (simp add: last_set_def List.map_filter_simps same)
  finally have at: "toml_at p v = last_set p (?d # ?vs)" .
  have "last_set p (?d # ?vs) \<noteq> None" using d(2) by (auto simp: last_set_def List.map_filter_simps list_last_def)
  then obtain x where x: "last_set p (?d # ?vs) = Some x" by blast
  with last_set_in [OF x] obtain u where "u \<in> set (?d # ?vs)" and u: "toml_at p u = Some x" by blast
  with d(1) settable [of u] have "settable p u" by auto
  with u have "\<not> is_table x" by (simp add: settable_def)
  moreover have "toml_wf v" using foldl_merge_wf [of base ?vs] wf v by blast
  ultimately show ?thesis using T at x merged(2,3) by (auto simp: toml_contract_def prints_back_def)
qed

lemma config_field_Ok: "config_field k d rd t = Ok v \<Longrightarrow> map_of t k = Some x \<Longrightarrow> rd x = Inr v"
  by (simp add: config_field_def)

lemma maintenance_fields:
  assumes "read_maintenance F T (TTable m) = Ok M" and "tl_table T (TTable m) = Inr m"
  shows "config_field ''auto_vacuum_mode'' VacuumIncremental (read_auto_vacuum_mode T) m
         = Ok (mc_auto_vacuum_mode M)"
    and "config_field ''freelist_threshold'' (default_freelist_threshold F) (tl_f64 T) m
         = Ok (mc_freelist_threshold M)"
    and "config_field ''max_vacuum_pages'' default_max_vacuum_pages (tl_i64 T) m
         = Ok (mc_max_vacuum_pages M)"
    and "config_field ''vacuum_full'' False (tl_bool T) m = Ok (mc_vacuum_full M)"
    and "config_field ''journal_size_limit'' default_journal_size_limit (tl_i64 T) m
         = Ok (mc_journal_size_limit M)"
    and "config_field ''wal_autocheckpoint'' default_wal_autocheckpoint (tl_i32 T) m
         = Ok (mc_wal_autocheckpoint M)"
  using assms by (cases M; auto simp: read_maintenance_def and_then_eq_Ok)+

text \<open>What a reader gives on the setting that was made last.\<close>

abbreviation setting :: "('f toml \<Rightarrow> string + 'a) \<Rightarrow> string list \<Rightarrow> 'f toml list \<Rightarrow> (string + 'a) option" where
  "setting reader p vs \<equiv> map_option reader (last_set p vs)"

text \<open>C21: the priority of the configuration files. When loading succeeds, each of the seven settings is read
  from the last file, in the order home directory, directory of the executable, directory of the database,
  that makes it, and is the default where none does. No file may put a scalar where another has the table,
  or a table where a scalar belongs.\<close>

theorem config_priority:
  assumes "toml_contract T" and "load_with_priority F T C dir = Ok c"
    and "\<And>v p. v \<in> set (overlays T C (config_paths C dir)) \<Longrightarrow> p \<in> set config_keys \<Longrightarrow> settable p v"
    and "vs = config_to_toml (config_default F) # overlays T C (config_paths C dir)"
  shows "setting (tl_string T) [''db_path''] vs = Some (Inr (lc_db_path c))
     \<and> setting (read_auto_vacuum_mode T) [''maintenance'', ''auto_vacuum_mode''] vs
       = Some (Inr (mc_auto_vacuum_mode (lc_maintenance c)))
     \<and> setting (tl_f64 T) [''maintenance'', ''freelist_threshold''] vs
       = Some (Inr (mc_freelist_threshold (lc_maintenance c)))
     \<and> setting (tl_i64 T) [''maintenance'', ''max_vacuum_pages''] vs
       = Some (Inr (mc_max_vacuum_pages (lc_maintenance c)))
     \<and> setting (tl_bool T) [''maintenance'', ''vacuum_full''] vs = Some (Inr (mc_vacuum_full (lc_maintenance c)))
     \<and> setting (tl_i64 T) [''maintenance'', ''journal_size_limit''] vs
       = Some (Inr (mc_journal_size_limit (lc_maintenance c)))
     \<and> setting (tl_i32 T) [''maintenance'', ''wal_autocheckpoint''] vs
       = Some (Inr (mc_wal_autocheckpoint (lc_maintenance c)))"
proof -
  from assms(2) obtain s base v s' w where run: "tl_print T (config_to_toml (config_default F)) = Inr s"
      "tl_parse T s = Inr base" "merge_files T C (config_paths C dir) base = Ok v" "tl_print_pretty T v = Inr s'"
      "tl_parse T s' = Inr w" and read: "read_config F T w = Ok c"
    by (auto simp: load_with_priority_def and_then_eq_Ok)
  have at: "\<exists>x. last_set p vs = Some x \<and> toml_at p w = Some x" if "p \<in> set config_keys" for p
    using merged_setting [OF assms(1) that _ run] assms(3) that by (simp add: assms(4))
  have tab: "tl_table T (TTable t) = Inr t" for t using assms(1) by (simp add: toml_contract_def)
  from at [of "[''maintenance'', ''vacuum_full'']"] obtain t m where w: "w = TTable t"
      "map_of t ''maintenance'' = Some (TTable m)"
    by (auto simp: config_keys_def elim!: toml_at_nested)
  with read tab have m: "read_maintenance F T (TTable m) = Ok (lc_maintenance c)"
      and path: "config_field ''db_path'' default_db_path (tl_string T) t = Ok (lc_db_path c)"
    by (auto simp: read_config_def and_then_eq_Ok)
  have key: "\<exists>x. last_set [''maintenance'', k] vs = Some x \<and> map_of m k = Some x"
    if "[''maintenance'', k] \<in> set config_keys" for k
    using at [OF that] w by (auto simp: bind_eq_Some_conv)
  from at [of "[''db_path'']"] w path have db: "setting (tl_string T) [''db_path''] vs = Some (Inr (lc_db_path c))"
    by (auto simp: config_keys_def bind_eq_Some_conv dest: config_field_Ok)
  note fields = maintenance_fields [OF m tab]
  have made: "setting rd [''maintenance'', k] vs = Some (Inr y)"
    if "config_field k d rd m = Ok y" "[''maintenance'', k] \<in> set config_keys" for k d rd and y :: 'x
    using key [OF that(2)] config_field_Ok [OF that(1)] by auto
  from db made [OF fields(1)] made [OF fields(2)] made [OF fields(3)] made [OF fields(4)] made [OF fields(5)]
    made [OF fields(6)] show ?thesis by (simp add: config_keys_def)
qed

text \<open>Two files: the one in the home directory sets two values, the one of the database another value for one
  of them. The parser knows the four texts of this run.\<close>

definition sample_floats :: "nat float_lib" where
  "sample_floats =
     \<lparr>fl_tenth = 1, fl_hundred = 1000, fl_of_int = nat, fl_div = (div), fl_mul = (*), fl_gt = (>),
      fl_show = (\<lambda>n f. show_nat f)\<rparr>"

definition home_toml :: "nat toml" where
  "home_toml = TTable [(''maintenance'', TTable [(''vacuum_full'', TBoolean True), (''max_vacuum_pages'', TInteger 5)])]"

definition dir_toml :: "nat toml" where
  "dir_toml = TTable [(''maintenance'', TTable [(''max_vacuum_pages'', TInteger 7)])]"

definition default_toml :: "nat toml" where
  "default_toml = config_to_toml (config_default sample_floats)"

definition merged_toml :: "nat toml" where
  "merged_toml = merge_values (merge_values default_toml home_toml) dir_toml"

definition sample_toml :: "nat toml_lib" where
  "sample_toml =
     \<lparr>tl_parse = (\<lambda>s. if s = ''d'' then Inr default_toml else if s = ''m'' then Inr merged_toml
        else if s = ''h'' then Inr home_toml else if s = ''l'' then Inr dir_toml else Inl ''unknown''),
      tl_print = (\<lambda>v. if v = default_toml then Inr ''d'' else Inl ''unknown''),
      tl_print_pretty = (\<lambda>v. if v = merged_toml then Inr ''m'' else Inl ''unknown''),
      tl_table = (\<lambda>v. case v of TTable t \<Rightarrow> Inr t | _ \<Rightarrow> Inl ''not a table''),
      tl_string = (\<lambda>v. case v of TString s \<Rightarrow> Inr s | _ \<Rightarrow> Inl ''not a string''),
      tl_f64 = (\<lambda>v. case v of TFloat f \<Rightarrow> Inr f | _ \<Rightarrow> Inl ''not a float''),
      tl_i64 = (\<lambda>v. case v of TInteger i \<Rightarrow> Inr i | _ \<Rightarrow> Inl ''not an integer''),
      tl_i32 = (\<lambda>v. case v of TInteger i \<Rightarrow> Inr i | _ \<Rightarrow> Inl ''not an integer''),
      tl_bool = (\<lambda>v. case v of TBoolean b \<Rightarrow> Inr b | _ \<Rightarrow> Inl ''not a boolean''),
      tl_variant = (\<lambda>names v. case v of
          TString s \<Rightarrow> if s \<in> set names then Inr s else Inl ''unknown variant''
        | _ \<Rightarrow> Inl ''not a variant'')\<rparr>"

definition sample_places :: surroundings where
  "sample_places =
     \<lparr>su_home = Some ''/h'', su_exe_dir = None,
      su_file = (\<lambda>p. if p = ''/h/.config/layertwine.toml'' then Some (Inr ''h'')
        else if p = ''d/layertwine.toml'' then Some (Inr ''l'') else None)\<rparr>"

lemma sample_toml_ok: "toml_contract sample_toml"
  by (auto simp: toml_contract_def prints_back_def sample_toml_def default_toml_def merged_toml_def home_toml_def
      dir_toml_def config_to_toml_def config_default_def maintenance_default_def sample_floats_def Let_def
      split: if_splits)

lemma sample_overlays:
  "overlays sample_toml sample_places (config_paths sample_places ''d'') = [home_toml, dir_toml]"
  by (simp add: overlays_def config_paths_def sample_places_def path_join_def starts_with_def ends_with_def
      read_overlay_def from_sum_def sample_toml_def List.map_filter_simps suffix_to_prefix)

theorem config_priority_witness:
  "\<exists>c. load_with_priority sample_floats sample_toml sample_places ''d'' = Ok c
     \<and> mc_max_vacuum_pages (lc_maintenance c) = 7 \<and> mc_vacuum_full (lc_maintenance c)
     \<and> mc_wal_autocheckpoint (lc_maintenance c) = 1000"
proof -
  have "case load_with_priority sample_floats sample_toml sample_places ''d'' of Ok c \<Rightarrow> True | _ \<Rightarrow> False"
    by code_simp
  then obtain c where c: "load_with_priority sample_floats sample_toml sample_places ''d'' = Ok c"
    by (auto split: result.splits)
  have "settable p v" if "v \<in> set [home_toml, dir_toml]" "p \<in> set config_keys" for p v
    using that by (auto simp: home_toml_def dir_toml_def config_keys_def settable_def)
  with config_priority [OF sample_toml_ok c] sample_overlays c show ?thesis
    by (auto simp: last_set_def List.map_filter_simps home_toml_def dir_toml_def config_to_toml_def
        config_default_def maintenance_default_def sample_toml_def list_last_def)
qed

end
