(* ===== verification/Transport_Base.thy ===== *)
theory Transport_Base
  imports Service_Invariant Config
begin

text \<open>
  What the transports share: the process around a service, and each request of \<^verbatim>\<open>src/api/service.rs\<close> as
  a program on it. A process has the service, the git repositories, the pages of the database file (for
  the maintenance) and the databases at other paths, which \<open>init\<close> can be asked to set up. Two paths name
  the same database only when they are equal.
\<close>

record ('g, 'p) host =
  ho_service :: service
  ho_git :: 'g
  ho_pages :: 'p
  ho_disk :: "string \<Rightarrow> db"

text \<open>What a process is given: the crates, the maintenance settings read when the service was opened, what
  opening a database at a path says, and the text of the error of a task that panicked.\<close>

record ('g, 'p, 'f) host_lib =
  hl_env :: env
  hl_api :: api_lib
  hl_git :: "'g git_lib"
  hl_floats :: "'f float_lib"
  hl_pragmas :: "'p pragma_lib"
  hl_config :: "'f maintenance_config"
  hl_open :: "string \<Rightarrow> (unit, lt_error) result"
  hl_join :: string

text \<open>What a process is given for one request: the times and the random identifier are those of the request.\<close>

definition host_at :: "('g, 'p, 'f) host_lib \<Rightarrow> (clock_read \<Rightarrow> int) \<Rightarrow> uuid \<Rightarrow> ('g, 'p, 'f) host_lib" where
  "host_at H now u = H\<lparr>hl_env := at_moment (hl_env H) now u\<rparr>"

lemma host_at_parts [simp]:
  "hl_env (host_at H now u) = at_moment (hl_env H) now u" "hl_api (host_at H now u) = hl_api H"
  "hl_git (host_at H now u) = hl_git H" "hl_join (host_at H now u) = hl_join H"
  by (simp_all add: host_at_def)

type_synonym ('g, 'p, 'a) host_prog = "(('g, 'p) host, 'a, api_error) prog"

definition on_host :: "'a handler \<Rightarrow> ('g, 'p, 'a) host_prog" where
  "on_host m = (\<lambda>h. case m (ho_service h) of (r, v) \<Rightarrow> (r, h\<lparr>ho_service := v\<rparr>))"

definition on_host_git :: "(service \<times> 'g, 'a, api_error) prog \<Rightarrow> ('g, 'p, 'a) host_prog" where
  "on_host_git m = (\<lambda>h. case m (ho_service h, ho_git h) of
     (r, (v, g)) \<Rightarrow> (r, h\<lparr>ho_service := v, ho_git := g\<rparr>))"

definition on_pages :: "('p, 'a, api_error) prog \<Rightarrow> ('g, 'p, 'a) host_prog" where
  "on_pages m = (\<lambda>h. case m (ho_pages h) of (r, p) \<Rightarrow> (r, h\<lparr>ho_pages := p\<rparr>))"

definition on_other_db :: "string \<Rightarrow> (db \<times> 'g, 'a, api_error) prog \<Rightarrow> ('g, 'p, 'a) host_prog" where
  "on_other_db path m = (\<lambda>h. case m (ho_disk h path, ho_git h) of
     (r, (s, g)) \<Rightarrow> (r, h\<lparr>ho_disk := (ho_disk h)(path := s), ho_git := g\<rparr>))"

text \<open>\<open>init\<close> opens the database at the path of the request, which may be that of the service.\<close>

definition host_init :: "('g, 'p, 'f) host_lib \<Rightarrow> init_request \<Rightarrow> ('g, 'p, init_response) host_prog" where
  "host_init H req = (\<lambda>h.
     let own = sv_db_path (ho_service h);
         path = init_path own req;
         m = init (hl_env H) (hl_api H) (hl_git H) own req
     in sbind (map_err (map_error (hl_env H)) (lift_result (hl_open H path))) (\<lambda>_.
          if path = own then on_host_git (with_git m) else on_other_db path m) h)"

section \<open>A request moves the service by at most one step\<close>

text \<open>\<open>steps E L G m\<close>: whatever \<open>m\<close> answers, the service and the git repositories have made one step of
  \<open>service_step\<close>, for any files around them.\<close>

definition steps :: "env \<Rightarrow> api_lib \<Rightarrow> 'g git_lib \<Rightarrow> (('g, 'p) host, 'a, 'e) prog \<Rightarrow> bool" where
  "steps E L G m \<longleftrightarrow> stays (\<lambda>h h'. \<forall>mk wr (fs :: unit).
     service_step E L G mk wr (ho_service h, ho_git h, fs) (ho_service h', ho_git h', fs)) m"

lemma stepsI:
  "(\<And>h mk wr fs. service_step E L G mk wr (ho_service h, ho_git h, fs :: unit)
     (ho_service (snd (m h)), ho_git (snd (m h)), fs)) \<Longrightarrow> steps E L G m"
  by (simp add: steps_def stays_def)

lemma stepsD:
  "steps E L G m \<Longrightarrow> service_step E L G mk wr (ho_service h, ho_git h, fs :: unit)
     (ho_service (snd (m h)), ho_git (snd (m h)), fs)"
  by (simp add: steps_def stays_def)

lemma steps_handler:
  assumes "\<And>v. snd (m v) = handle E L q v"
  shows "steps E L G (on_host m :: ('g, 'p, 'a) host_prog)"
proof (rule stepsI)
  fix h :: "('g, 'p) host" and mk wr and fs :: unit
  have "snd (on_host m h) = h\<lparr>ho_service := handle E L q (ho_service h)\<rparr>"
    by (simp add: on_host_def assms [symmetric] split: prod.split)
  with service_step.request [of E L G mk wr "ho_service h" "ho_git h" fs q]
  show "service_step E L G mk wr (ho_service h, ho_git h, fs)
      (ho_service (snd (on_host m h)), ho_git (snd (on_host m h)), fs)"
    by simp
qed

lemmas steps_requests = handle.simps [symmetric, THEN steps_handler]

lemma steps_export: "steps E L G (on_host_git (git_commit E G q))"
  by (rule stepsI)
    (auto simp: on_host_git_def split: prod.split intro: service_step.export)

lemma steps_fetch: "steps E L G (on_host_git (pull E G q))"
  by (rule stepsI)
    (auto simp: on_host_git_def split: prod.split intro: service_step.fetch)

lemma steps_pages: "steps E L G (on_pages m)"
  by (rule stepsI) (simp add: on_pages_def service_step.outside split: prod.split)

lemma steps_other_db: "steps E L G (on_other_db path m)"
  by (rule stepsI) (simp add: on_other_db_def service_step.outside split: prod.split)

lemma steps_init:
  fixes H :: "('g, 'p, 'f) host_lib"
  assumes "hl_env H = E" and "hl_api H = L" and "hl_git H = G"
  shows "steps E L G (host_init H q)"
proof (rule stepsI)
  fix h :: "('g, 'p) host" and mk wr and fs :: unit
  have own: "service_step E L G mk wr (ho_service h, ho_git h, fs)
      (ho_service (snd (on_host_git (with_git (init E L G p q)) h)), ho_git (snd (on_host_git (with_git (init E L G p q)) h)), fs)"
    for p by (auto simp: on_host_git_def split: prod.split intro: service_step.initialise)
  show "service_step E L G mk wr (ho_service h, ho_git h, fs)
      (ho_service (snd (host_init H q h)), ho_git (snd (host_init H q h)), fs)"
    using own stepsD [OF steps_other_db] service_step.outside
    by (auto simp: host_init_def assms sbind_def map_err_def lift_result_def Let_def split: result.split)
qed

section \<open>Which errors a program can give\<close>

definition errors_in :: "('e \<Rightarrow> bool) \<Rightarrow> ('s, 'a, 'e) prog \<Rightarrow> bool" where
  "errors_in Q m \<longleftrightarrow> (\<forall>s e. fst (m s) = Err e \<longrightarrow> Q e)"

named_theorems error_rules \<open>which errors the program combinators can give\<close>

lemma errorsI: "(\<And>s e s'. m s = (Err e, s') \<Longrightarrow> Q e) \<Longrightarrow> errors_in Q m"
  unfolding errors_in_def by (metis prod.collapse)

lemma errorsD: "errors_in Q m \<Longrightarrow> m s = (Err e, s') \<Longrightarrow> Q e"
  unfolding errors_in_def by (metis fst_conv)

lemma errors_in_ret [error_rules]: "errors_in Q (ret x)"
  by (simp add: errors_in_def ret_def)

lemma errors_in_fail: "Q e \<Longrightarrow> errors_in Q (fail e)"
  by (simp add: errors_in_def fail_def)

lemma errors_in_sbind [error_rules]:
  assumes "errors_in Q m" and "\<And>x. errors_in Q (f x)"
  shows "errors_in Q (sbind m f)"
  by (rule errorsI) (auto simp: sbind_def split: prod.splits result.splits dest: errorsD [OF assms(1)] errorsD [OF assms(2)])

lemma errors_in_match_err [error_rules]:
  assumes "\<And>x. errors_in Q (f x)" and "errors_in Q g"
  shows "errors_in Q (match_err m f g)"
  by (rule errorsI)
    (auto simp: match_err_def split: prod.splits result.splits dest: errorsD [OF assms(1)] errorsD [OF assms(2)])

lemma errors_in_if [error_rules]: "errors_in Q m \<Longrightarrow> errors_in Q n \<Longrightarrow> errors_in Q (if b then m else n)"
  by simp

lemma errors_in_option [error_rules]:
  "(\<And>x. errors_in Q (f x)) \<Longrightarrow> errors_in Q g \<Longrightarrow> errors_in Q (case m of Some x \<Rightarrow> f x | None \<Rightarrow> g)"
  by (cases m) simp_all

lemma errors_in_pair [error_rules]: "(\<And>x y. errors_in Q (h x y)) \<Longrightarrow> errors_in Q (case p of (x, y) \<Rightarrow> h x y)"
  by (cases p) simp

lemma errors_in_list [error_rules]:
  "errors_in Q m \<Longrightarrow> (\<And>y ys. errors_in Q (k y ys)) \<Longrightarrow> errors_in Q (case xs of [] \<Rightarrow> m | y # ys \<Rightarrow> k y ys)"
  by (cases xs) simp_all

lemma errors_in_for_each [error_rules]: "(\<And>x. errors_in Q (f x)) \<Longrightarrow> errors_in Q (for_each f xs)"
  by (induction xs) (simp_all add: error_rules)

end
