(* ===== verification/Cli_Output.thy ===== *)
theory Cli_Output
  imports Api_Types Core_Model Core_Snapshot Backup_Store
begin

text \<open>
  \<^verbatim>\<open>src/cli/output.rs\<close>: what the command line prints. A slice \<open>&s[..n]\<close> panics when the string is shorter
  or when \<open>n\<close> is inside a UTF-8 sequence; widths of \<open>format!\<close> count characters. Printing a structure as
  JSON, dates and the \<open>Debug\<close> form of a type are code of other crates: the record \<open>print_lib\<close>.
\<close>

datatype output_format = Plain | Json

record print_lib =
  pl_status_json :: "status_response \<Rightarrow> string"
  pl_log_json :: "log_response \<Rightarrow> string"
  pl_branches_json :: "branch_list_response \<Rightarrow> string"
  pl_show_json :: "show_response \<Rightarrow> string"
  pl_json :: "json \<Rightarrow> string"
  pl_rfc3339 :: "int \<Rightarrow> string option"
  pl_uuid :: "uuid \<Rightarrow> string"
  pl_debug_source :: "source_type \<Rightarrow> string"
  pl_debug_diff :: "line_diff \<Rightarrow> string"
  pl_debug_partition_type :: "partition_type \<Rightarrow> string"

section \<open>Slices and widths\<close>

definition char_boundary :: "nat \<Rightarrow> string \<Rightarrow> bool" where
  "char_boundary n s \<longleftrightarrow> n \<le> length s \<and> (n < length s \<longrightarrow> \<not> is_continuation (s ! n))"

definition slice_to :: "nat \<Rightarrow> string \<Rightarrow> (string, 'e) result" where
  "slice_to n s = (if char_boundary n s then Ok (take n s) else Panic)"

definition char_count :: "string \<Rightarrow> nat" where
  "char_count s = length (filter (\<lambda>c. \<not> is_continuation c) s)"

definition pad_right :: "nat \<Rightarrow> string \<Rightarrow> string" where
  "pad_right w s = s @ replicate (w - char_count s) (CHR '' '')"

definition dashes :: "nat \<Rightarrow> string" where
  "dashes n = replicate n (CHR ''-'')"

abbreviation print_lines :: "string list \<Rightarrow> string" where
  "print_lines \<equiv> join_with [newline]"

section \<open>Answers of the service\<close>

definition status_line :: "partition_info \<Rightarrow> (string, 'e) result" where
  "status_line p =
     and_then (if length (pi_current_snapshot p) > 12 then slice_to 12 (pi_current_snapshot p)
       else Ok (pi_current_snapshot p)) (\<lambda>short_hash.
     Ok (pad_right 16 (pi_layer p) @ '' '' @ pad_right 24 (pi_name p) @ '' '' @ pad_right 20 short_hash @ '' ''
       @ show_nat (pi_history_len p) @ '' snapshots''))"

definition format_status_response :: "print_lib \<Rightarrow> status_response \<Rightarrow> output_format \<Rightarrow> (string, 'e) result" where
  "format_status_response L resp fmt = (case fmt of
     Plain \<Rightarrow>
       (if sts_partitions resp = [] then
          Ok (''No partitions found. Run '' @ quoted ''layertwine init'' @ '' to initialize.'')
        else and_then (collect_results status_line (sts_partitions resp)) (\<lambda>entries.
          Ok (print_lines ([dashes 72,
              pad_right 16 ''Layer'' @ '' '' @ pad_right 24 ''Partition'' @ '' '' @ pad_right 20 ''Current Snapshot''
                @ '' History'',
              dashes 72] @ entries @ [dashes 72]))))
   | Json \<Rightarrow> Ok (pl_status_json L resp))"

definition log_line :: "checkpoint_info \<Rightarrow> (string, 'e) result" where
  "log_line cp =
     and_then (slice_to 12 (cpi_id cp)) (\<lambda>short_id.
     and_then (if length (cpi_message cp) > 27
       then and_then (slice_to 27 (cpi_message cp)) (\<lambda>s. Ok (s @ ''...''))
       else Ok (cpi_message cp)) (\<lambda>short_msg.
     let git_tag = (if cpi_git_anchor cp \<noteq> None then '' [git]'' else [])
     in Ok (pad_right 20 (short_id @ git_tag) @ '' '' @ pad_right 16 (cpi_author cp) @ '' ''
          @ pad_right 12 (show_nat (length (cpi_parents cp))) @ '' ''
          @ pad_right 12 (show_nat (length (cpi_snapshots cp))) @ '' '' @ pad_right 30 short_msg)))"

definition format_log_response :: "print_lib \<Rightarrow> log_response \<Rightarrow> output_format \<Rightarrow> (string, 'e) result" where
  "format_log_response L resp fmt = (case fmt of
     Plain \<Rightarrow>
       (if lrs_checkpoints resp = [] then Ok ''No checkpoints found.''
        else and_then (collect_results log_line (rev (lrs_checkpoints resp))) (\<lambda>entries.
          Ok (print_lines ([dashes 100,
              pad_right 20 ''Checkpoint ID'' @ '' '' @ pad_right 16 ''Author'' @ '' '' @ pad_right 12 ''Parents'' @ '' ''
                @ pad_right 12 ''Snapshots'' @ '' '' @ pad_right 30 ''Message'',
              dashes 100] @ entries
            @ [dashes 100, ''Total: '' @ show_nat (length (lrs_checkpoints resp)) @ '' checkpoint(s)'']))))
   | Json \<Rightarrow> Ok (pl_log_json L resp))"

definition branch_line :: "branch_info \<Rightarrow> (string, 'e) result" where
  "branch_line b =
     (let marker = (if bi_is_current b then ''* '' else ''  '')
      in and_then (slice_to 12 (bi_head b)) (\<lambda>short_head.
         Ok (marker @ pad_right 22 (bi_name b) @ '' '' @ pad_right 20 short_head @ '' '' @ bi_updated_at b)))"

definition format_branches_response ::
  "print_lib \<Rightarrow> branch_list_response \<Rightarrow> output_format \<Rightarrow> (string, 'e) result" where
  "format_branches_response L resp fmt = (case fmt of
     Plain \<Rightarrow>
       (if blrs_branches resp = [] then Ok ''No branches found.''
        else and_then (collect_results branch_line (blrs_branches resp)) (\<lambda>entries.
          Ok (print_lines ([dashes 60,
              pad_right 24 ''Branch'' @ '' '' @ pad_right 20 ''Head'' @ '' Updated'',
              dashes 60] @ entries @ [dashes 60]))))
   | Json \<Rightarrow> Ok (pl_branches_json L resp))"

definition format_show_response :: "print_lib \<Rightarrow> show_response \<Rightarrow> output_format \<Rightarrow> string" where
  "format_show_response L resp fmt = (case fmt of
     Plain \<Rightarrow> print_lines (concat (map (\<lambda>d.
       [''--- a/'' @ fd_file_path d, ''+++ b/'' @ fd_file_path d, fd_unified_diff d]) (srs_diffs resp)))
   | Json \<Rightarrow> pl_show_json L resp)"

section \<open>Objects\<close>

fun op_lines :: "diff_op \<Rightarrow> string list" where
  "op_lines (Equal n) = replicate (unat n) ''  ''"
| "op_lines (Delete p n) = replicate (unat n) ''- ''"
| "op_lines (Insert p ls) = map (\<lambda>l. ''+'' @ l) ls"
| "op_lines (Replace p n q ls) = replicate (unat n) ''- '' @ map (\<lambda>l. ''+'' @ l) ls"

definition show_u32 :: "32 word \<Rightarrow> string" where
  "show_u32 w = show_nat (unat w)"

definition format_line_diff :: "line_diff \<Rightarrow> string" where
  "format_line_diff d = print_lines (concat (map (\<lambda>h.
     (''@@ -'' @ show_u32 (h_old_start h) @ '','' @ show_u32 (h_old_len h) @ '' +'' @ show_u32 (h_new_start h)
       @ '','' @ show_u32 (h_new_len h) @ '' @@'') # concat (map op_lines (h_ops h))) (ld_hunks d)))"

definition format_diff :: "print_lib \<Rightarrow> delta \<Rightarrow> output_format \<Rightarrow> string" where
  "format_diff L d fmt =
     (let path = path_str (d_file d); summary = delta_summary d
      in case fmt of
        Plain \<Rightarrow> print_lines
          [''diff --git a/'' @ path @ '' b/'' @ path,
           ''--- a/'' @ path @ [newline] @ ''+++ b/'' @ path,
           ''@@ ... @@ ('' @ show_nat (sum_inserts summary) @ '' inserts, '' @ show_nat (sum_deletes summary)
             @ '' deletes, '' @ show_nat (sum_replaces summary) @ '' replaces)'',
           format_line_diff (d_diff d)]
      | Json \<Rightarrow> pl_json L (JObject
          [(''file'', JString path), (''source'', JString (pl_debug_source L (d_source d))),
           (''timestamp'', JNumber (show_int (d_timestamp d))),
           (''summary'', JObject
             [(''inserts'', JNumber (show_nat (sum_inserts summary))),
              (''deletes'', JNumber (show_nat (sum_deletes summary))),
              (''replaces'', JNumber (show_nat (sum_replaces summary))),
              (''hunks'', JNumber (show_nat (sum_total_hunks summary)))]),
           (''diff'', JString (pl_debug_diff L (d_diff d)))]))"

definition last_path :: "delta list \<Rightarrow> file_node \<Rightarrow> string" where
  "last_path ds file = (case list_last ds of Some d \<Rightarrow> path_str (d_file d) | None \<Rightarrow> path_str file)"

definition date_or_unknown :: "print_lib \<Rightarrow> int \<Rightarrow> string" where
  "date_or_unknown L t = (case pl_rfc3339 L t of Some s \<Rightarrow> s | None \<Rightarrow> ''unknown'')"

definition format_snapshot :: "print_lib \<Rightarrow> snapshot \<Rightarrow> delta list \<Rightarrow> output_format \<Rightarrow> string" where
  "format_snapshot L x ds fmt = (case fmt of
     Plain \<Rightarrow> print_lines
       ([''Snapshot: '' @ to_hex (s_id x), ''  File:     '' @ last_path ds (s_file x),
         ''  Type:     '' @ s_partition_type x, ''  Deltas:   '' @ show_nat (length (s_deltas x)),
         ''  Parents:  '' @ show_nat (length (s_parents x)), ''  Created:  '' @ date_or_unknown L (s_created_at x)]
        @ (if s_parents x = [] then []
           else ''  Parent IDs:'' # map (\<lambda>(i, p). ''    ['' @ show_nat i @ ''] '' @ to_hex p)
             (enumerate 0 (s_parents x))))
   | Json \<Rightarrow> pl_json L (JObject
       [(''id'', JString (to_hex (s_id x))), (''file'', JString (last_path ds (s_file x))),
        (''partition_type'', JString (s_partition_type x)),
        (''delta_count'', JNumber (show_nat (length (s_deltas x)))),
        (''parent_count'', JNumber (show_nat (length (s_parents x)))),
        (''parents'', JArray (map (JString \<circ> to_hex) (s_parents x))),
        (''created_at'', JNumber (show_int (s_created_at x)))]))"

definition format_partition :: "print_lib \<Rightarrow> partition \<Rightarrow> output_format \<Rightarrow> (string, 'e) result" where
  "format_partition L p fmt = (case fmt of
     Plain \<Rightarrow> and_then (slice_to 12 (to_hex (p_current p))) (\<lambda>short.
       Ok (print_lines
         [''Partition: '' @ p_name p, ''  ID:      '' @ pl_uuid L (p_id p),
          ''  Type:    '' @ pl_debug_partition_type L (p_type p), ''  Current: '' @ short,
          ''  History: '' @ show_nat (length (p_history p)) @ '' snapshots'']))
   | Json \<Rightarrow> Ok (pl_json L (JObject
       [(''id'', JString (pl_uuid L (p_id p))), (''name'', JString (p_name p)),
        (''partition_type'', JString (pl_debug_partition_type L (p_type p))),
        (''current_snapshot'', JString (to_hex (p_current p))),
        (''history_len'', JNumber (show_nat (length (p_history p))))])))"

fun json_option :: "string option \<Rightarrow> json" where
  "json_option None = JNull"
| "json_option (Some s) = JString s"

definition format_backup_snapshot :: "print_lib \<Rightarrow> backup_snapshot \<Rightarrow> output_format \<Rightarrow> string" where
  "format_backup_snapshot L b fmt = (case fmt of
     Plain \<Rightarrow> print_lines
       ([''Backup: '' @ to_hex (bs_id b), ''  Source:  '' @ to_hex (bs_source_snapshot b),
         ''  File:    '' @ last_path (bs_deltas b) (bs_file b), ''  Deltas:  '' @ show_nat (length (bs_deltas b))]
        @ (case bs_label b of None \<Rightarrow> [] | Some l \<Rightarrow> [''  Label:   '' @ l])
        @ [''  Time:    '' @ date_or_unknown L (bs_backed_at b)])
   | Json \<Rightarrow> pl_json L (JObject
       [(''id'', JString (to_hex (bs_id b))), (''source_snapshot'', JString (to_hex (bs_source_snapshot b))),
        (''file'', JString (last_path (bs_deltas b) (bs_file b))),
        (''deltas_count'', JNumber (show_nat (length (bs_deltas b)))), (''label'', json_option (bs_label b)),
        (''backed_at'', JNumber (show_int (bs_backed_at b))), (''agent_id'', json_option (bs_agent_id b)),
        (''source_type'', json_option (bs_source_type b))]))"

end
