(* ===== verification/Transport_Cli.thy ===== *)
theory Transport_Cli
  imports Transport_Base Cli_Output
begin

text \<open>
  \<^verbatim>\<open>src/cli.rs\<close> and \<^verbatim>\<open>src/cli/commands.rs\<close>: one run of the command line. A command opens a service of its own
  on the database at the given path, makes one request and prints the answer; the result is an exit code.
  Parsing the arguments (clap, with the defaults of its attributes) gives the record \<open>cli\<close>. The world of
  a run has the databases at all paths, the backups beside them, git, the pages, the text on the standard
  input (nothing when it is not UTF-8) and what has been printed.
\<close>

section \<open>Commands\<close>

datatype agent_command = AgentEdit string "string option" | AgentSubmitCmd

datatype branch_command = BranchCreateCmd string | BranchSwitchCmd string | BranchListCmd

datatype checkpoint_command =
    RestoreCmd string "string list option"
  | RestoreByTimeCmd int "string list option"
  | DiffCmd string string
  | RollbackCmd string

datatype approval_command =
    ApprovalListCmd
  | ApproveCmd string "string option"
  | RejectCmd string
  | MergeToUnifiedCmd "string list option"
  | MergeToStagedCmd

datatype command =
    InitCmd "string option"
  | StatusCmd
  | EditCmd string "string option"
  | AgentCmd string agent_command
  | CommitCmd string string
  | LogCmd nat
  | ShowCmd string "string option"
  | BranchCmd branch_command
  | MergeCmd string string
  | BackupCmd string "string option"
  | BackupRestoreCmd string
  | GcCmd
  | CompactCmd bool
  | GitCommitCmd string
  | CleanCmd "string option" "string option" bool
  | PullCmd string string
  | CheckpointCmd checkpoint_command
  | ApprovalCmd approval_command

record cli =
  cli_db_path :: string
  cli_git_repo :: "string option"
  cli_json :: bool
  cli_command :: command

section \<open>A run\<close>

record ('g, 'p) world =
  w_disk :: "string \<Rightarrow> db"
  w_backups :: "string \<Rightarrow> backup_db"
  w_git :: 'g
  w_pages :: 'p
  w_stdin :: "string option"
  w_out :: string
  w_err :: string

text \<open>How a command ends early: with an exit code, or with an error of its request.\<close>

datatype cli_end = ExitWith int | RequestFailed api_error

type_synonym ('g, 'p, 'a) cli_prog = "(('g, 'p) world, 'a, cli_end) prog"

definition println :: "string \<Rightarrow> ('g, 'p, unit) cli_prog" where
  "println s = update (\<lambda>w. w\<lparr>w_out := w_out w @ s @ [newline]\<rparr>)"

definition eprint :: "string \<Rightarrow> ('g, 'p, unit) cli_prog" where
  "eprint s = update (\<lambda>w. w\<lparr>w_err := w_err w @ s\<rparr>)"

definition print_progress :: "string \<Rightarrow> ('g, 'p, unit) cli_prog" where
  "print_progress message = eprint (''  '' @ message @ '' ... '')"

definition print_done :: "('g, 'p, unit) cli_prog" where
  "print_done = eprint (''done'' @ [newline])"

text \<open>The directory of a path, beside whose database the backups are.\<close>

definition path_parent :: "string \<Rightarrow> string" where
  "path_parent p =
     (if CHR ''/'' \<in> set p then rev (tl (dropWhile (\<lambda>c. c \<noteq> CHR ''/'') (rev p))) else [])"

definition or_else :: "('s, 'a, 'e) prog \<Rightarrow> ('e \<Rightarrow> ('s, 'a, 'f) prog) \<Rightarrow> ('s, 'a, 'f) prog" where
  "or_else m g = (\<lambda>s. case m s of
     (Ok x, s') \<Rightarrow> (Ok x, s')
   | (Err e, s') \<Rightarrow> g e s'
   | (Panic, s') \<Rightarrow> (Panic, s'))"

definition report :: "string \<Rightarrow> ('g, 'p, unit) cli_prog" where
  "report s = eprint (''error: '' @ s @ [newline])"

text \<open>\<open>ApiService::open\<close> on the path of the arguments\<close>

definition opened_service :: "('g, 'p, 'f) host_lib \<Rightarrow> cli \<Rightarrow> (('g, 'p) world, service, api_error) prog" where
  "opened_service H c =
     (let path = cli_db_path c
      in sbind (map_err (map_error (hl_env H)) (lift_result (hl_open H path))) (\<lambda>_ w.
         case open_service (hl_env H) path (w_backups w (path_parent path)) (w_disk w path) of
           (r, s) \<Rightarrow> (r, w\<lparr>w_disk := (w_disk w)(path := s)\<rparr>)))"

definition cli_open_service :: "('g, 'p, 'f) host_lib \<Rightarrow> cli \<Rightarrow> ('g, 'p, service) cli_prog" where
  "cli_open_service H c = or_else (opened_service H c) (\<lambda>e.
     sbind (report (api_error_display e)) (\<lambda>_. fail (ExitWith EXIT_GENERAL_ERROR)))"

text \<open>One request to the service of the run. What it leaves is on the disk, whatever its answer.\<close>

definition request :: "cli \<Rightarrow> service \<Rightarrow> ('g, 'p, 'a) host_prog \<Rightarrow> ('g, 'p, 'a) cli_prog" where
  "request c v m = (\<lambda>w.
     let path = cli_db_path c
     in case m \<lparr>ho_service = v, ho_git = w_git w, ho_pages = w_pages w, ho_disk = w_disk w\<rparr> of
          (r, h) \<Rightarrow> (result_map_err RequestFailed r,
            w\<lparr>w_disk := (ho_disk h)(path := sv_db (ho_service h)),
              w_backups := (w_backups w)(path_parent path := sv_backups (ho_service h)),
              w_git := ho_git h, w_pages := ho_pages h\<rparr>))"

definition sliced :: "string \<Rightarrow> ('g, 'p, string) cli_prog" where
  "sliced s = lift_result (slice_to 12 s)"

definition content_or_stdin :: "string option \<Rightarrow> ('g, 'p, string option) cli_prog" where
  "content_or_stdin content = (case content of
     Some s \<Rightarrow> ret (Some s)
   | None \<Rightarrow> query (\<lambda>w. Ok (case w_stdin w of Some buf \<Rightarrow> (if buf \<noteq> [] then Some buf else None) | None \<Rightarrow> None)))"

definition format_of :: "cli \<Rightarrow> output_format" where
  "format_of c = (if cli_json c then Json else Plain)"

section \<open>Setting up, edits and commits\<close>

definition cli_init :: "('g, 'p, 'f) host_lib \<Rightarrow> cli \<Rightarrow> string option \<Rightarrow> ('g, 'p, unit) cli_prog" where
  "cli_init H c git_ref =
     sbind (cli_open_service H c) (\<lambda>v.
     sbind (request c v (host_init H
       \<lparr>irq_db_path = Some (cli_db_path c), irq_git_repo = cli_git_repo c, irq_git_ref = git_ref\<rparr>)) (\<lambda>_. ret ()))"

definition cli_status :: "('g, 'p, 'f) host_lib \<Rightarrow> print_lib \<Rightarrow> cli \<Rightarrow> ('g, 'p, unit) cli_prog" where
  "cli_status H PL c =
     sbind (cli_open_service H c) (\<lambda>v.
     sbind (or_else (request c v (on_host (status (hl_env H)))) (\<lambda>e.
         sbind (case e of RequestFailed x \<Rightarrow> eprint (''error reading status: '' @ api_error_display x @ [newline])
             | ExitWith _ \<Rightarrow> ret ()) (\<lambda>_. fail e))) (\<lambda>r.
     sbind (lift_result (format_status_response PL r (format_of c))) println))"

definition cli_edit :: "('g, 'p, 'f) host_lib \<Rightarrow> cli \<Rightarrow> string \<Rightarrow> string option \<Rightarrow> ('g, 'p, unit) cli_prog" where
  "cli_edit H c file content =
     sbind (cli_open_service H c) (\<lambda>v.
     sbind (content_or_stdin content) (\<lambda>text.
     sbind (request c v (on_host (edit (hl_env H) \<lparr>erq_file = file, erq_content = text\<rparr>))) (\<lambda>r.
     sbind (sliced (ers_snapshot_id r)) (\<lambda>short.
     sbind (println (''Edited '' @ quoted file @ '' -> new snapshot '' @ short)) (\<lambda>_.
     case ers_staged_snapshot_id r of
       None \<Rightarrow> ret ()
     | Some staged \<Rightarrow> sbind (sliced staged) (\<lambda>short. println (''Merged to staged -> snapshot '' @ short)))))))"

definition cli_agent_edit ::
  "('g, 'p, 'f) host_lib \<Rightarrow> cli \<Rightarrow> string \<Rightarrow> string \<Rightarrow> string option \<Rightarrow> ('g, 'p, unit) cli_prog" where
  "cli_agent_edit H c agent_id file content =
     sbind (cli_open_service H c) (\<lambda>v.
     sbind (content_or_stdin content) (\<lambda>text.
     sbind (request c v (on_host (agent_edit (hl_env H)
         \<lparr>aerq_agent_id = agent_id, aerq_file = file, aerq_content = text\<rparr>))) (\<lambda>r.
     sbind (sliced (ers_snapshot_id r)) (\<lambda>short.
     println (''Agent '' @ quoted agent_id @ '' edited '' @ quoted file @ '' -> snapshot '' @ short)))))"

definition cli_agent_submit :: "('g, 'p, 'f) host_lib \<Rightarrow> cli \<Rightarrow> string \<Rightarrow> ('g, 'p, unit) cli_prog" where
  "cli_agent_submit H c agent_id =
     sbind (cli_open_service H c) (\<lambda>v.
     sbind (request c v (on_host (agent_submit (hl_env H) \<lparr>asrq_agent_id = agent_id\<rparr>))) (\<lambda>r.
     sbind (sliced (sbrs_snapshot_id r)) (\<lambda>short.
     println (''Agent '' @ quoted agent_id @ '' submitted for approval -> snapshot '' @ short))))"

definition cli_commit :: "('g, 'p, 'f) host_lib \<Rightarrow> cli \<Rightarrow> string \<Rightarrow> string \<Rightarrow> ('g, 'p, unit) cli_prog" where
  "cli_commit H c message author =
     sbind (cli_open_service H c) (\<lambda>v.
     sbind (request c v (on_host (commit (hl_env H) \<lparr>crq_message = message, crq_author = Some author\<rparr>))) (\<lambda>r.
     sbind (sliced (cors_checkpoint_id r)) (\<lambda>short.
     println (''Committed checkpoint '' @ short @ '': '' @ cors_message r))))"

definition cli_log :: "('g, 'p, 'f) host_lib \<Rightarrow> print_lib \<Rightarrow> cli \<Rightarrow> nat \<Rightarrow> ('g, 'p, unit) cli_prog" where
  "cli_log H PL c n =
     sbind (cli_open_service H c) (\<lambda>v.
     sbind (request c v (on_host (log_checkpoints (hl_env H) \<lparr>lrq_count = Some n\<rparr>))) (\<lambda>r.
     sbind (lift_result (format_log_response PL r (format_of c))) println))"

section \<open>Branches\<close>

fun cli_branch :: "('g, 'p, 'f) host_lib \<Rightarrow> print_lib \<Rightarrow> cli \<Rightarrow> branch_command \<Rightarrow> ('g, 'p, unit) cli_prog" where
  "cli_branch H PL c BranchListCmd =
     sbind (cli_open_service H c) (\<lambda>v.
     sbind (request c v (on_host (branch_list (hl_env H)))) (\<lambda>r.
     sbind (lift_result (format_branches_response PL r (format_of c))) println))"
| "cli_branch H PL c (BranchCreateCmd name) =
     sbind (cli_open_service H c) (\<lambda>v.
     sbind (request c v (on_host (branch_create (hl_env H) \<lparr>bcrq_name = name\<rparr>))) (\<lambda>r.
     sbind (sliced (bcrs_head r)) (\<lambda>short.
     println (''Created branch '' @ quoted (bcrs_name r) @ '' at '' @ short))))"
| "cli_branch H PL c (BranchSwitchCmd name) =
     sbind (cli_open_service H c) (\<lambda>v.
     sbind (request c v (on_host (branch_switch (hl_env H) \<lparr>bsrq_name = name\<rparr>))) (\<lambda>r.
     sbind (sliced (bsrs_checkpoint_id r)) (\<lambda>short.
     println (''Switched to branch '' @ quoted (bsrs_name r) @ '' at checkpoint '' @ short))))"

definition cli_merge :: "('g, 'p, 'f) host_lib \<Rightarrow> cli \<Rightarrow> string \<Rightarrow> string \<Rightarrow> ('g, 'p, unit) cli_prog" where
  "cli_merge H c branch message =
     sbind (cli_open_service H c) (\<lambda>v.
     sbind (request c v (on_host (merge_branch (hl_env H) \<lparr>mrq_branch = branch, mrq_message = Some message\<rparr>))) (\<lambda>r.
     sbind (sliced (mrs_checkpoint_id r)) (\<lambda>short.
     println (''Merged '' @ quoted (mrs_source_branch r) @ '' into '' @ quoted (mrs_target_branch r)
       @ '' -> checkpoint '' @ short))))"

section \<open>Backups and maintenance\<close>

definition cli_backup :: "('g, 'p, 'f) host_lib \<Rightarrow> cli \<Rightarrow> string \<Rightarrow> string option \<Rightarrow> ('g, 'p, unit) cli_prog" where
  "cli_backup H c snapshot_id label =
     sbind (cli_open_service H c) (\<lambda>v.
     sbind (request c v (on_host (backup (hl_env H) (hl_api H)
         \<lparr>brq_snapshot_id = snapshot_id, brq_label = label\<rparr>))) (\<lambda>r.
     sbind (sliced (brs_backup_id r)) (\<lambda>b.
     sbind (sliced (brs_source_snapshot_id r)) (\<lambda>s.
     println (''Backup '' @ b @ '' created for snapshot '' @ s
       @ (case brs_label r of Some lbl \<Rightarrow> '' (label: '' @ lbl @ '')'' | None \<Rightarrow> []))))))"

definition cli_restore :: "('g, 'p, 'f) host_lib \<Rightarrow> cli \<Rightarrow> string \<Rightarrow> ('g, 'p, unit) cli_prog" where
  "cli_restore H c backup_id =
     sbind (cli_open_service H c) (\<lambda>v.
     sbind (request c v (on_host (backup_restore (hl_env H) (hl_api H) \<lparr>rrq_backup_id = backup_id\<rparr>))) (\<lambda>r.
     sbind (sliced (rrs_backup_id r)) (\<lambda>b.
     println (''Restored backup '' @ b @ '' -> file: '' @ rrs_file r))))"

definition cli_compact :: "('g, 'p, 'f) host_lib \<Rightarrow> cli \<Rightarrow> bool \<Rightarrow> ('g, 'p, unit) cli_prog" where
  "cli_compact H c vacuum_full =
     sbind (cli_open_service H c) (\<lambda>v.
     sbind (print_progress ''Compacting database'') (\<lambda>_.
     sbind (request c v (on_pages (compact (hl_env H) (hl_floats H) (hl_pragmas H) (hl_config H)
         \<lparr>cmrq_vacuum_full = (if vacuum_full then Some True else None)\<rparr>))) (\<lambda>r.
     sbind print_done (\<lambda>_.
     sbind (println (cmrs_message r)) (\<lambda>_.
     if cmrs_vacuum_performed r
     then println (''  Free pages: '' @ show_int (cmrs_freelist_before r) @ '' -> ''
       @ show_int (cmrs_freelist_after r) @ '' (total: '' @ show_int (cmrs_total_pages r) @ '')'')
     else ret ())))))"

definition cli_gc :: "('g, 'p, 'f) host_lib \<Rightarrow> cli \<Rightarrow> ('g, 'p, unit) cli_prog" where
  "cli_gc H c =
     sbind (cli_open_service H c) (\<lambda>v.
     sbind (print_progress ''Running garbage collection'') (\<lambda>_.
     sbind (request c v (on_host (gc (hl_env H) ()))) (\<lambda>r.
     sbind print_done (\<lambda>_.
     sbind (println (''GC complete: '' @ show_nat (gcs_removed_checkpoints r) @ '' checkpoints removed, ''
       @ show_nat (gcs_removed_snapshots r) @ '' snapshots freed, '' @ show_nat (gcs_freed_bytes r) @ '' bytes'')) (\<lambda>_.
     if gcs_delta_chain_depth_triggered r then println ''  Note: delta chain depth exceeded threshold''
     else ret ())))))"

definition cli_git_commit :: "('g, 'p, 'f) host_lib \<Rightarrow> cli \<Rightarrow> string \<Rightarrow> ('g, 'p, unit) cli_prog" where
  "cli_git_commit H c message = (case cli_git_repo c of
     None \<Rightarrow> sbind (report ''--git-repo path is required for git-commit'') (\<lambda>_. fail (ExitWith EXIT_USAGE_ERROR))
   | Some git_repo \<Rightarrow>
       sbind (cli_open_service H c) (\<lambda>v.
       sbind (print_progress ''Committing to local Git branch'') (\<lambda>_.
       sbind (request c v (on_host_git (git_commit (hl_env H) (hl_git H)
           \<lparr>gcrq_git_repo = git_repo, gcrq_message = Some message\<rparr>))) (\<lambda>r.
       sbind print_done (\<lambda>_.
       sbind (println (''Committed to local Git branch (commit: '' @ gcrs_git_commit_hash r @ '')'')) (\<lambda>_.
       println ''  Run `git push` manually to push to remote.''))))))"

definition cli_clean ::
  "('g, 'p, 'f) host_lib \<Rightarrow> cli \<Rightarrow> string option \<Rightarrow> string option \<Rightarrow> bool \<Rightarrow> ('g, 'p, unit) cli_prog" where
  "cli_clean H c branch layer everything =
     (if \<not> everything \<and> branch = None \<and> layer = None then
        sbind (report ''specify --branch, --layer, or --all for clean'') (\<lambda>_. fail (ExitWith EXIT_USAGE_ERROR))
      else
        sbind (cli_open_service H c) (\<lambda>v.
        sbind (print_progress ''Cleaning layertwine storage'') (\<lambda>_.
        sbind (request c v (on_host (clean (hl_env H) (hl_api H)
            \<lparr>clrq_branch = branch, clrq_layer = layer, clrq_all = everything\<rparr>))) (\<lambda>r.
        sbind print_done (\<lambda>_.
        println (clrs_message r))))))"

definition cli_show ::
  "('g, 'p, 'f) host_lib \<Rightarrow> print_lib \<Rightarrow> cli \<Rightarrow> string \<Rightarrow> string option \<Rightarrow> ('g, 'p, unit) cli_prog" where
  "cli_show H PL c show_what target_id =
     sbind (cli_open_service H c) (\<lambda>v.
     sbind (request c v (on_host (show_target (hl_env H) (hl_api H)
         \<lparr>srq_show_what = show_what, srq_target_id = target_id\<rparr>))) (\<lambda>r.
     println (format_show_response PL r (format_of c))))"

definition cli_pull :: "('g, 'p, 'f) host_lib \<Rightarrow> cli \<Rightarrow> string \<Rightarrow> string \<Rightarrow> ('g, 'p, unit) cli_prog" where
  "cli_pull H c remote git_ref = (case cli_git_repo c of
     None \<Rightarrow> sbind (report ''--git-repo path is required for pull'') (\<lambda>_. fail (ExitWith EXIT_USAGE_ERROR))
   | Some git_repo \<Rightarrow>
       sbind (cli_open_service H c) (\<lambda>v.
       sbind (print_progress ''Pulling from Git remote'') (\<lambda>_.
       sbind (request c v (on_host_git (pull (hl_env H) (hl_git H)
           \<lparr>purq_remote = Some remote, purq_git_repo = git_repo, purq_git_ref = Some git_ref\<rparr>))) (\<lambda>r.
       sbind print_done (\<lambda>_.
       println (''Pulled from remote '' @ quoted (purs_remote r) @ '' ref '' @ quoted (purs_git_ref r)))))))"

section \<open>Checkpoints\<close>

definition listed_ids :: "string \<Rightarrow> string \<Rightarrow> string list \<Rightarrow> ('g, 'p, unit) cli_prog" where
  "listed_ids title sign ids =
     (if ids = [] then ret ()
      else sbind (println (''  '' @ title @ '' ('' @ show_nat (length ids) @ ''):'')) (\<lambda>_.
        for_each (\<lambda>i. sbind (sliced i) (\<lambda>short. println (''    '' @ sign @ '' '' @ short))) ids))"

fun cli_checkpoint :: "('g, 'p, 'f) host_lib \<Rightarrow> cli \<Rightarrow> checkpoint_command \<Rightarrow> ('g, 'p, unit) cli_prog" where
  "cli_checkpoint H c (RestoreCmd checkpoint_id source_filter) =
     sbind (cli_open_service H c) (\<lambda>v.
     sbind (request c v (on_host (checkpoint_restore (hl_env H) (hl_api H)
         \<lparr>crrq_checkpoint_id = checkpoint_id, crrq_source_filter = source_filter\<rparr>))) (\<lambda>r.
     sbind (sliced (cpi_id (crrs_checkpoint r))) (\<lambda>short.
     sbind (println (''Restored checkpoint '' @ short @ (case cpi_git_anchor (crrs_checkpoint r) of
         Some g \<Rightarrow> '' (git: '' @ g @ '')'' | None \<Rightarrow> []))) (\<lambda>_.
     sbind (println (''  Message: '' @ cpi_message (crrs_checkpoint r))) (\<lambda>_.
     sbind (println (''  Snapshots: '' @ show_nat (length (crrs_snapshots r)))) (\<lambda>_.
     for_each (\<lambda>snap. sbind (sliced (rsi_snapshot_id snap)) (\<lambda>short.
         println (''    '' @ short @ '' ['' @ rsi_content_type snap @ ''] (source: '' @ rsi_source snap @ '')'')))
       (crrs_snapshots r)))))))"
| "cli_checkpoint H c (RestoreByTimeCmd target_time source_filter) =
     sbind (cli_open_service H c) (\<lambda>v.
     sbind (request c v (on_host (checkpoint_restore_by_time (hl_env H) (hl_api H)
         \<lparr>crtq_target_time = target_time, crtq_source_filter = source_filter\<rparr>))) (\<lambda>r.
     sbind (sliced (cpi_id (crrs_checkpoint r))) (\<lambda>short.
     sbind (println (''Restored checkpoint '' @ short @ '' (nearest to '' @ show_int target_time @ '')'')) (\<lambda>_.
     sbind (println (''  Message: '' @ cpi_message (crrs_checkpoint r))) (\<lambda>_.
     println (''  Snapshots: '' @ show_nat (length (crrs_snapshots r))))))))"
| "cli_checkpoint H c (DiffCmd from_id to_id) =
     sbind (cli_open_service H c) (\<lambda>v.
     sbind (request c v (on_host (checkpoint_diff (hl_env H) \<lparr>cdrq_from_id = from_id, cdrq_to_id = to_id\<rparr>))) (\<lambda>r.
     sbind (sliced (cdrs_from_id r)) (\<lambda>f.
     sbind (sliced (cdrs_to_id r)) (\<lambda>t.
     sbind (println (''Diff '' @ f @ '' -> '' @ t @ '' ('' @ show_nat (cdrs_total_changes r) @ '' changes)'')) (\<lambda>_.
     sbind (listed_ids ''Added'' ''+'' (cdrs_added r)) (\<lambda>_.
     sbind (listed_ids ''Modified'' ''~'' (cdrs_modified r)) (\<lambda>_.
     listed_ids ''Removed'' ''-'' (cdrs_removed r))))))))"
| "cli_checkpoint H c (RollbackCmd checkpoint_id) =
     sbind (cli_open_service H c) (\<lambda>v.
     sbind (request c v (on_host (checkpoint_rollback (hl_env H) \<lparr>cbrq_checkpoint_id = checkpoint_id\<rparr>))) (\<lambda>r.
     sbind (sliced (cbrs_checkpoint_id r)) (\<lambda>short.
     sbind (println (''Rolled back staged to checkpoint '' @ short)) (\<lambda>_.
     sbind (case cbrs_snapshot_ids r of [] \<Rightarrow> ret ''(none)'' | s # _ \<Rightarrow> sliced s) (\<lambda>first.
     println (''  Staged snapshots reset to: '' @ first))))))"

section \<open>Approvals\<close>

definition approval_line :: "approval_info \<Rightarrow> ('g, 'p, unit) cli_prog" where
  "approval_line a =
     sbind (sliced (ai_current_snapshot a)) (\<lambda>short.
     println (pad_right 24 (ai_agent_id a) @ '' '' @ pad_right 32 (ai_partition_name a) @ '' ''
       @ pad_right 20 short @ '' '' @ show_nat (ai_history_len a) @ '' snapshots''))"

fun cli_approval :: "('g, 'p, 'f) host_lib \<Rightarrow> cli \<Rightarrow> approval_command \<Rightarrow> ('g, 'p, unit) cli_prog" where
  "cli_approval H c ApprovalListCmd =
     sbind (cli_open_service H c) (\<lambda>v.
     sbind (request c v (on_host (pending_approvals (hl_env H)))) (\<lambda>r.
     if lpas_approvals r = [] then println ''No pending approvals.''
     else
       sbind (println (''Pending approvals ('' @ show_nat (lpas_total r) @ ''):'')) (\<lambda>_.
       sbind (println (dashes 72)) (\<lambda>_.
       sbind (println (pad_right 24 ''Agent ID'' @ '' '' @ pad_right 32 ''Partition'' @ '' ''
         @ pad_right 20 ''Current Snapshot'' @ '' History'')) (\<lambda>_.
       sbind (println (dashes 72)) (\<lambda>_.
       for_each approval_line (lpas_approvals r)))))))"
| "cli_approval H c (ApproveCmd agent_id name) =
     sbind (cli_open_service H c) (\<lambda>v.
     sbind (request c v (on_host (approve_agent (hl_env H)
         \<lparr>aarq_agent_id = agent_id, aarq_integrated_name = name\<rparr>))) (\<lambda>r.
     sbind (sliced (aars_integrated_snapshot_id r)) (\<lambda>short.
     println (''Approved agent '' @ quoted (aars_agent_id r) @ '' -> integrated snapshot '' @ short))))"
| "cli_approval H c (RejectCmd agent_id) =
     sbind (cli_open_service H c) (\<lambda>v.
     sbind (request c v (on_host (reject_agent (hl_env H) \<lparr>rarq_agent_id = agent_id\<rparr>))) (\<lambda>r.
     sbind (sliced (rars_baseline_snapshot_id r)) (\<lambda>short.
     println (''Rejected agent '' @ quoted (rars_agent_id r) @ '' -> rolled back to '' @ short))))"
| "cli_approval H c (MergeToUnifiedCmd names) =
     sbind (cli_open_service H c) (\<lambda>v.
     sbind (request c v (on_host (merge_to_unified (hl_env H) \<lparr>murq_integration_names = names\<rparr>))) (\<lambda>r.
     sbind (sliced (murs_unified_snapshot_id r)) (\<lambda>short.
     println (''Merged '' @ show_nat (murs_merged_count r) @ '' integration(s) to unified -> snapshot '' @ short))))"
| "cli_approval H c MergeToStagedCmd =
     sbind (cli_open_service H c) (\<lambda>v.
     sbind (request c v (on_host (merge_all_to_staged (hl_env H) ()))) (\<lambda>r.
     sbind (sliced (mtrs_staged_snapshot_id r)) (\<lambda>short.
     println (''Merged unified to staged -> snapshot '' @ short))))"

section \<open>The whole run\<close>

fun run_command :: "('g, 'p, 'f) host_lib \<Rightarrow> print_lib \<Rightarrow> cli \<Rightarrow> command \<Rightarrow> ('g, 'p, unit) cli_prog" where
  "run_command H PL c (InitCmd git_ref) = cli_init H c git_ref"
| "run_command H PL c StatusCmd = cli_status H PL c"
| "run_command H PL c (EditCmd file content) = cli_edit H c file content"
| "run_command H PL c (AgentCmd agent_id (AgentEdit file content)) = cli_agent_edit H c agent_id file content"
| "run_command H PL c (AgentCmd agent_id AgentSubmitCmd) = cli_agent_submit H c agent_id"
| "run_command H PL c (CommitCmd message author) = cli_commit H c message author"
| "run_command H PL c (LogCmd n) = cli_log H PL c n"
| "run_command H PL c (ShowCmd show_what target_id) = cli_show H PL c show_what target_id"
| "run_command H PL c (BranchCmd action) = cli_branch H PL c action"
| "run_command H PL c (MergeCmd branch message) = cli_merge H c branch message"
| "run_command H PL c (BackupCmd snapshot_id label) = cli_backup H c snapshot_id label"
| "run_command H PL c (BackupRestoreCmd backup_id) = cli_restore H c backup_id"
| "run_command H PL c GcCmd = cli_gc H c"
| "run_command H PL c (CompactCmd vacuum_full) = cli_compact H c vacuum_full"
| "run_command H PL c (GitCommitCmd message) = cli_git_commit H c message"
| "run_command H PL c (CleanCmd branch layer everything) = cli_clean H c branch layer everything"
| "run_command H PL c (PullCmd remote git_ref) = cli_pull H c remote git_ref"
| "run_command H PL c (CheckpointCmd action) = cli_checkpoint H c action"
| "run_command H PL c (ApprovalCmd action) = cli_approval H c action"

definition run_with_cli :: "('g, 'p, 'f) host_lib \<Rightarrow> print_lib \<Rightarrow> cli \<Rightarrow> (('g, 'p) world, int, unit) prog" where
  "run_with_cli H PL c = or_else (sbind (run_command H PL c (cli_command c)) (\<lambda>_. ret EXIT_SUCCESS)) (\<lambda>e.
     case e of
       ExitWith code \<Rightarrow> ret code
     | RequestFailed x \<Rightarrow> map_err (\<lambda>_. ()) (sbind (report (api_error_display x)) (\<lambda>_. ret EXIT_GENERAL_ERROR)))"

end
