(* ===== verification/Transport_Rpc.thy ===== *)
theory Transport_Rpc
  imports Transport_Base
begin

text \<open>
  \<^verbatim>\<open>src/api/rpc.rs\<close>: the gRPC server, one definition for each of its methods. The messages are those of
  \<^verbatim>\<open>src/api/rpc/proto/layertwine.proto\<close>: where a message has the fields of a structure of \<^verbatim>\<open>types.rs\<close> it is that
  record; where a \<open>usize\<close> or an optional list differs it is a record of its own, with 32-bit counts and
  repeated strings. A method runs its request in a task: a panic is an error of the task.
\<close>

section \<open>Statuses\<close>

datatype tonic_code = CodeNotFound | CodeInvalidArgument | CodeAlreadyExists | CodePermissionDenied | CodeInternal

record tonic_status =
  st_code :: tonic_code
  st_message :: string

definition to_status :: "api_error \<Rightarrow> tonic_status" where
  "to_status e =
     (if ae_code e = ''NOT_FOUND'' then \<lparr>st_code = CodeNotFound, st_message = ae_message e\<rparr>
      else if ae_code e = ''INVALID_PARAMS'' then \<lparr>st_code = CodeInvalidArgument, st_message = ae_message e\<rparr>
      else if ae_code e = ''ALREADY_EXISTS'' then \<lparr>st_code = CodeAlreadyExists, st_message = ae_message e\<rparr>
      else if ae_code e = ''PERMISSION_DENIED'' then \<lparr>st_code = CodePermissionDenied, st_message = ae_message e\<rparr>
      else \<lparr>st_code = CodeInternal, st_message = ''['' @ ae_code e @ ''] '' @ ae_message e\<rparr>)"

type_synonym ('g, 'p, 'a) rpc = "(('g, 'p) host, 'a, tonic_status) prog"

text \<open>\<open>spawn_blocking\<close>, \<open>await\<close> and the two \<open>map_err\<close> of every method, then its answer.\<close>

definition answered :: "('g, 'p, 'f) host_lib \<Rightarrow> ('g, 'p, 'a) host_prog \<Rightarrow> ('a \<Rightarrow> 'b) \<Rightarrow> ('g, 'p, 'b) rpc" where
  "answered H m answer = (\<lambda>h. case m h of
     (Ok r, h') \<Rightarrow> (Ok (answer r), h')
   | (Err e, h') \<Rightarrow> (Err (to_status e), h')
   | (Panic, h') \<Rightarrow> (Err \<lparr>st_code = CodeInternal, st_message = ''join error: '' @ hl_join H\<rparr>, h'))"

definition as_u32 :: "nat \<Rightarrow> 32 word" where
  "as_u32 n = of_nat n"

section \<open>Messages that differ from the structures of the service\<close>

record p_partition_info =
  ppi_layer :: string
  ppi_name :: string
  ppi_current_snapshot :: string
  ppi_history_len :: "32 word"

record p_status_response =
  psts_partitions :: "p_partition_info list"

record p_log_request =
  plrq_count :: "32 word option"

record p_log_response =
  plrs_checkpoints :: "checkpoint_info list"
  plrs_total :: "32 word"

record p_restore_response =
  prrs_backup_id :: string
  prrs_file :: string
  prrs_deltas_restored :: "32 word"
  prrs_merged_snapshot_id :: string

record p_gc_response =
  pgcs_removed_checkpoints :: "32 word"
  pgcs_removed_snapshots :: "32 word"
  pgcs_freed_bytes :: nat
  pgcs_delta_chain_depth_triggered :: bool

record p_clean_response =
  pcls_removed_branches :: "32 word"
  pcls_removed_checkpoints :: "32 word"
  pcls_removed_snapshots :: "32 word"
  pcls_removed_deltas :: "32 word"
  pcls_removed_layers :: "32 word"
  pcls_message :: string

record p_file_diff =
  pfd_file_path :: string
  pfd_unified_diff :: string
  pfd_inserts :: "32 word"
  pfd_deletes :: "32 word"

record p_show_response =
  psrs_target :: string
  psrs_diffs :: "p_file_diff list"

record p_checkpoint_restore_request =
  pcrq_checkpoint_id :: string
  pcrq_source_filter :: "string list"

record p_checkpoint_restore_by_time_request =
  pctq_target_time :: int
  pctq_source_filter :: "string list"

record p_checkpoint_restore_response =
  pcrs_checkpoint :: "checkpoint_info option"
  pcrs_snapshots :: "restored_snapshot_info list"
  pcrs_ancestry :: "string list"

record p_checkpoint_diff_response =
  pcds_from_id :: string
  pcds_to_id :: string
  pcds_added :: "string list"
  pcds_removed :: "string list"
  pcds_modified :: "string list"
  pcds_total_changes :: "32 word"

record p_approval_info =
  pai_agent_id :: string
  pai_partition_name :: string
  pai_current_snapshot :: string
  pai_history_len :: "32 word"

record p_list_pending_approvals_response =
  plps_approvals :: "p_approval_info list"
  plps_total :: "32 word"

record p_merge_to_unified_request =
  pmuq_integration_names :: "string list"

record p_merge_to_unified_response =
  pmus_unified_snapshot_id :: string
  pmus_merged_count :: "32 word"

definition none_if_empty :: "string list \<Rightarrow> string list option" where
  "none_if_empty xs = (if xs = [] then None else Some xs)"

definition info_message :: "checkpoint_info \<Rightarrow> checkpoint_info" where
  "info_message cp =
     \<lparr>cpi_id = cpi_id cp, cpi_author = cpi_author cp, cpi_message = cpi_message cp, cpi_parents = cpi_parents cp,
      cpi_snapshots = cpi_snapshots cp, cpi_created_at = cpi_created_at cp, cpi_git_anchor = cpi_git_anchor cp\<rparr>"

definition restore_message :: "checkpoint_restore_response \<Rightarrow> p_checkpoint_restore_response" where
  "restore_message r =
     \<lparr>pcrs_checkpoint = Some (info_message (crrs_checkpoint r)),
      pcrs_snapshots = map (\<lambda>s.
        \<lparr>rsi_snapshot_id = rsi_snapshot_id s, rsi_source = rsi_source s, rsi_content_hex = rsi_content_hex s,
         rsi_content_type = rsi_content_type s\<rparr>) (crrs_snapshots r),
      pcrs_ancestry = crrs_ancestry r\<rparr>"

section \<open>Methods\<close>

definition rpc_init :: "('g, 'p, 'f) host_lib \<Rightarrow> init_request \<Rightarrow> ('g, 'p, init_response) rpc" where
  "rpc_init H req = answered H
     (host_init H \<lparr>irq_db_path = irq_db_path req, irq_git_repo = irq_git_repo req, irq_git_ref = irq_git_ref req\<rparr>)
     (\<lambda>r. \<lparr>irs_db_path = irs_db_path r, irs_manual_partition_id = irs_manual_partition_id r,
           irs_staged_partition_id = irs_staged_partition_id r, irs_branch = irs_branch r\<rparr>)"

definition rpc_status :: "('g, 'p, 'f) host_lib \<Rightarrow> ('g, 'p, p_status_response) rpc" where
  "rpc_status H = answered H (on_host (status (hl_env H)))
     (\<lambda>r. \<lparr>psts_partitions = map (\<lambda>p.
        \<lparr>ppi_layer = pi_layer p, ppi_name = pi_name p, ppi_current_snapshot = pi_current_snapshot p,
         ppi_history_len = as_u32 (pi_history_len p)\<rparr>) (sts_partitions r)\<rparr>)"

definition rpc_edit :: "('g, 'p, 'f) host_lib \<Rightarrow> edit_request \<Rightarrow> ('g, 'p, edit_response) rpc" where
  "rpc_edit H req = answered H
     (on_host (edit (hl_env H) \<lparr>erq_file = erq_file req, erq_content = erq_content req\<rparr>))
     (\<lambda>r. \<lparr>ers_snapshot_id = ers_snapshot_id r, ers_staged_snapshot_id = ers_staged_snapshot_id r\<rparr>)"

definition rpc_agent_edit :: "('g, 'p, 'f) host_lib \<Rightarrow> agent_edit_request \<Rightarrow> ('g, 'p, edit_response) rpc" where
  "rpc_agent_edit H req = answered H
     (on_host (agent_edit (hl_env H)
       \<lparr>aerq_agent_id = aerq_agent_id req, aerq_file = aerq_file req, aerq_content = aerq_content req\<rparr>))
     (\<lambda>r. \<lparr>ers_snapshot_id = ers_snapshot_id r, ers_staged_snapshot_id = ers_staged_snapshot_id r\<rparr>)"

definition rpc_agent_submit :: "('g, 'p, 'f) host_lib \<Rightarrow> agent_submit_request \<Rightarrow> ('g, 'p, submit_response) rpc" where
  "rpc_agent_submit H req = answered H
     (on_host (agent_submit (hl_env H) \<lparr>asrq_agent_id = asrq_agent_id req\<rparr>))
     (\<lambda>r. \<lparr>sbrs_snapshot_id = sbrs_snapshot_id r\<rparr>)"

definition rpc_approve :: "('g, 'p, 'f) host_lib \<Rightarrow> approve_request \<Rightarrow> ('g, 'p, approve_response) rpc" where
  "rpc_approve H req = answered H
     (on_host (approve (hl_env H) \<lparr>aprq_agent_id = aprq_agent_id req\<rparr>))
     (\<lambda>r. \<lparr>aprs_integrated_snapshot_id = aprs_integrated_snapshot_id r,
           aprs_staged_snapshot_id = aprs_staged_snapshot_id r\<rparr>)"

definition rpc_commit :: "('g, 'p, 'f) host_lib \<Rightarrow> commit_request \<Rightarrow> ('g, 'p, commit_response) rpc" where
  "rpc_commit H req = answered H
     (on_host (commit (hl_env H) \<lparr>crq_message = crq_message req, crq_author = crq_author req\<rparr>))
     (\<lambda>r. \<lparr>cors_checkpoint_id = cors_checkpoint_id r, cors_message = cors_message r\<rparr>)"

definition rpc_log :: "('g, 'p, 'f) host_lib \<Rightarrow> p_log_request \<Rightarrow> ('g, 'p, p_log_response) rpc" where
  "rpc_log H req = answered H
     (on_host (log_checkpoints (hl_env H) \<lparr>lrq_count = map_option unat (plrq_count req)\<rparr>))
     (\<lambda>r. \<lparr>plrs_checkpoints = map info_message (lrs_checkpoints r), plrs_total = as_u32 (lrs_total r)\<rparr>)"

definition rpc_branch_create ::
  "('g, 'p, 'f) host_lib \<Rightarrow> branch_create_request \<Rightarrow> ('g, 'p, branch_create_response) rpc" where
  "rpc_branch_create H req = answered H
     (on_host (branch_create (hl_env H) \<lparr>bcrq_name = bcrq_name req\<rparr>))
     (\<lambda>r. \<lparr>bcrs_name = bcrs_name r, bcrs_head = bcrs_head r\<rparr>)"

definition rpc_branch_switch ::
  "('g, 'p, 'f) host_lib \<Rightarrow> branch_switch_request \<Rightarrow> ('g, 'p, branch_switch_response) rpc" where
  "rpc_branch_switch H req = answered H
     (on_host (branch_switch (hl_env H) \<lparr>bsrq_name = bsrq_name req\<rparr>))
     (\<lambda>r. \<lparr>bsrs_name = bsrs_name r, bsrs_checkpoint_id = bsrs_checkpoint_id r\<rparr>)"

definition rpc_branch_list :: "('g, 'p, 'f) host_lib \<Rightarrow> ('g, 'p, branch_list_response) rpc" where
  "rpc_branch_list H = answered H (on_host (branch_list (hl_env H)))
     (\<lambda>r. \<lparr>blrs_branches = map (\<lambda>b.
        \<lparr>bi_name = bi_name b, bi_head = bi_head b, bi_updated_at = bi_updated_at b, bi_is_current = bi_is_current b\<rparr>)
          (blrs_branches r),
       blrs_current = blrs_current r\<rparr>)"

definition rpc_merge :: "('g, 'p, 'f) host_lib \<Rightarrow> merge_request \<Rightarrow> ('g, 'p, merge_response) rpc" where
  "rpc_merge H req = answered H
     (on_host (merge_branch (hl_env H) \<lparr>mrq_branch = mrq_branch req, mrq_message = mrq_message req\<rparr>))
     (\<lambda>r. \<lparr>mrs_checkpoint_id = mrs_checkpoint_id r, mrs_source_branch = mrs_source_branch r,
           mrs_target_branch = mrs_target_branch r\<rparr>)"

definition rpc_backup :: "('g, 'p, 'f) host_lib \<Rightarrow> backup_request \<Rightarrow> ('g, 'p, backup_response) rpc" where
  "rpc_backup H req = answered H
     (on_host (backup (hl_env H) (hl_api H) \<lparr>brq_snapshot_id = brq_snapshot_id req, brq_label = brq_label req\<rparr>))
     (\<lambda>r. \<lparr>brs_backup_id = brs_backup_id r, brs_source_snapshot_id = brs_source_snapshot_id r,
           brs_label = brs_label r\<rparr>)"

definition rpc_restore :: "('g, 'p, 'f) host_lib \<Rightarrow> backup_restore_request \<Rightarrow> ('g, 'p, p_restore_response) rpc" where
  "rpc_restore H req = answered H
     (on_host (backup_restore (hl_env H) (hl_api H) \<lparr>rrq_backup_id = rrq_backup_id req\<rparr>))
     (\<lambda>r. \<lparr>prrs_backup_id = rrs_backup_id r, prrs_file = rrs_file r,
           prrs_deltas_restored = as_u32 (rrs_deltas_restored r),
           prrs_merged_snapshot_id = rrs_merged_snapshot_id r\<rparr>)"

definition rpc_gc :: "('g, 'p, 'f) host_lib \<Rightarrow> ('g, 'p, p_gc_response) rpc" where
  "rpc_gc H = answered H (on_host (gc (hl_env H) ()))
     (\<lambda>r. \<lparr>pgcs_removed_checkpoints = as_u32 (gcs_removed_checkpoints r),
           pgcs_removed_snapshots = as_u32 (gcs_removed_snapshots r),
           pgcs_freed_bytes = gcs_freed_bytes r,
           pgcs_delta_chain_depth_triggered = gcs_delta_chain_depth_triggered r\<rparr>)"

definition rpc_git_commit :: "('g, 'p, 'f) host_lib \<Rightarrow> git_commit_request \<Rightarrow> ('g, 'p, git_commit_response) rpc" where
  "rpc_git_commit H req = answered H
     (on_host_git (git_commit (hl_env H) (hl_git H)
       \<lparr>gcrq_git_repo = gcrq_git_repo req, gcrq_message = gcrq_message req\<rparr>))
     (\<lambda>r. \<lparr>gcrs_git_commit_hash = gcrs_git_commit_hash r\<rparr>)"

definition rpc_clean :: "('g, 'p, 'f) host_lib \<Rightarrow> clean_request \<Rightarrow> ('g, 'p, p_clean_response) rpc" where
  "rpc_clean H req = answered H
     (on_host (clean (hl_env H) (hl_api H)
       \<lparr>clrq_branch = clrq_branch req, clrq_layer = clrq_layer req, clrq_all = clrq_all req\<rparr>))
     (\<lambda>r. \<lparr>pcls_removed_branches = as_u32 (clrs_removed_branches r),
           pcls_removed_checkpoints = as_u32 (clrs_removed_checkpoints r),
           pcls_removed_snapshots = as_u32 (clrs_removed_snapshots r),
           pcls_removed_deltas = as_u32 (clrs_removed_deltas r),
           pcls_removed_layers = as_u32 (clrs_removed_layers r),
           pcls_message = clrs_message r\<rparr>)"

definition rpc_pull :: "('g, 'p, 'f) host_lib \<Rightarrow> pull_request \<Rightarrow> ('g, 'p, pull_response) rpc" where
  "rpc_pull H req = answered H
     (on_host_git (pull (hl_env H) (hl_git H)
       \<lparr>purq_remote = purq_remote req, purq_git_repo = purq_git_repo req, purq_git_ref = purq_git_ref req\<rparr>))
     (\<lambda>r. \<lparr>purs_remote = purs_remote r, purs_git_ref = purs_git_ref r\<rparr>)"

definition rpc_compact :: "('g, 'p, 'f) host_lib \<Rightarrow> compact_request \<Rightarrow> ('g, 'p, compact_response) rpc" where
  "rpc_compact H req = answered H
     (on_pages (compact (hl_env H) (hl_floats H) (hl_pragmas H) (hl_config H)
       \<lparr>cmrq_vacuum_full = cmrq_vacuum_full req\<rparr>))
     (\<lambda>r. \<lparr>cmrs_wal_checkpointed = cmrs_wal_checkpointed r, cmrs_freelist_before = cmrs_freelist_before r,
           cmrs_total_pages = cmrs_total_pages r, cmrs_freelist_after = cmrs_freelist_after r,
           cmrs_vacuum_performed = cmrs_vacuum_performed r, cmrs_message = cmrs_message r\<rparr>)"

definition rpc_show :: "('g, 'p, 'f) host_lib \<Rightarrow> show_request \<Rightarrow> ('g, 'p, p_show_response) rpc" where
  "rpc_show H req = answered H
     (on_host (show_target (hl_env H) (hl_api H)
       \<lparr>srq_show_what = srq_show_what req, srq_target_id = srq_target_id req\<rparr>))
     (\<lambda>r. \<lparr>psrs_target = srs_target r, psrs_diffs = map (\<lambda>d.
        \<lparr>pfd_file_path = fd_file_path d, pfd_unified_diff = fd_unified_diff d, pfd_inserts = as_u32 (fd_inserts d),
         pfd_deletes = as_u32 (fd_deletes d)\<rparr>) (srs_diffs r)\<rparr>)"

definition rpc_checkpoint_restore ::
  "('g, 'p, 'f) host_lib \<Rightarrow> p_checkpoint_restore_request \<Rightarrow> ('g, 'p, p_checkpoint_restore_response) rpc" where
  "rpc_checkpoint_restore H req = answered H
     (on_host (checkpoint_restore (hl_env H) (hl_api H)
       \<lparr>crrq_checkpoint_id = pcrq_checkpoint_id req, crrq_source_filter = none_if_empty (pcrq_source_filter req)\<rparr>))
     restore_message"

definition rpc_checkpoint_restore_by_time ::
  "('g, 'p, 'f) host_lib \<Rightarrow> p_checkpoint_restore_by_time_request \<Rightarrow> ('g, 'p, p_checkpoint_restore_response) rpc" where
  "rpc_checkpoint_restore_by_time H req = answered H
     (on_host (checkpoint_restore_by_time (hl_env H) (hl_api H)
       \<lparr>crtq_target_time = pctq_target_time req, crtq_source_filter = none_if_empty (pctq_source_filter req)\<rparr>))
     restore_message"

definition rpc_checkpoint_diff ::
  "('g, 'p, 'f) host_lib \<Rightarrow> checkpoint_diff_request \<Rightarrow> ('g, 'p, p_checkpoint_diff_response) rpc" where
  "rpc_checkpoint_diff H req = answered H
     (on_host (checkpoint_diff (hl_env H) \<lparr>cdrq_from_id = cdrq_from_id req, cdrq_to_id = cdrq_to_id req\<rparr>))
     (\<lambda>r. \<lparr>pcds_from_id = cdrs_from_id r, pcds_to_id = cdrs_to_id r, pcds_added = cdrs_added r,
           pcds_removed = cdrs_removed r, pcds_modified = cdrs_modified r,
           pcds_total_changes = as_u32 (cdrs_total_changes r)\<rparr>)"

definition rpc_checkpoint_rollback ::
  "('g, 'p, 'f) host_lib \<Rightarrow> checkpoint_rollback_request \<Rightarrow> ('g, 'p, checkpoint_rollback_response) rpc" where
  "rpc_checkpoint_rollback H req = answered H
     (on_host (checkpoint_rollback (hl_env H) \<lparr>cbrq_checkpoint_id = cbrq_checkpoint_id req\<rparr>))
     (\<lambda>r. \<lparr>cbrs_checkpoint_id = cbrs_checkpoint_id r, cbrs_snapshot_ids = cbrs_snapshot_ids r\<rparr>)"

definition rpc_list_pending_approvals ::
  "('g, 'p, 'f) host_lib \<Rightarrow> ('g, 'p, p_list_pending_approvals_response) rpc" where
  "rpc_list_pending_approvals H = answered H (on_host (pending_approvals (hl_env H)))
     (\<lambda>r. \<lparr>plps_approvals = map (\<lambda>a.
        \<lparr>pai_agent_id = ai_agent_id a, pai_partition_name = ai_partition_name a,
         pai_current_snapshot = ai_current_snapshot a, pai_history_len = as_u32 (ai_history_len a)\<rparr>)
          (lpas_approvals r),
       plps_total = as_u32 (lpas_total r)\<rparr>)"

definition rpc_approve_agent :: "('g, 'p, 'f) host_lib \<Rightarrow> approve_agent_request \<Rightarrow> ('g, 'p, approve_agent_response) rpc" where
  "rpc_approve_agent H req = answered H
     (on_host (approve_agent (hl_env H)
       \<lparr>aarq_agent_id = aarq_agent_id req, aarq_integrated_name = aarq_integrated_name req\<rparr>))
     (\<lambda>r. \<lparr>aars_agent_id = aars_agent_id r, aars_integrated_snapshot_id = aars_integrated_snapshot_id r\<rparr>)"

definition rpc_reject_agent :: "('g, 'p, 'f) host_lib \<Rightarrow> reject_agent_request \<Rightarrow> ('g, 'p, reject_agent_response) rpc" where
  "rpc_reject_agent H req = answered H
     (on_host (reject_agent (hl_env H) \<lparr>rarq_agent_id = rarq_agent_id req\<rparr>))
     (\<lambda>r. \<lparr>rars_agent_id = rars_agent_id r, rars_baseline_snapshot_id = rars_baseline_snapshot_id r\<rparr>)"

definition rpc_merge_to_unified ::
  "('g, 'p, 'f) host_lib \<Rightarrow> p_merge_to_unified_request \<Rightarrow> ('g, 'p, p_merge_to_unified_response) rpc" where
  "rpc_merge_to_unified H req = answered H
     (on_host (merge_to_unified (hl_env H)
       \<lparr>murq_integration_names = none_if_empty (pmuq_integration_names req)\<rparr>))
     (\<lambda>r. \<lparr>pmus_unified_snapshot_id = murs_unified_snapshot_id r, pmus_merged_count = as_u32 (murs_merged_count r)\<rparr>)"

definition rpc_merge_to_staged :: "('g, 'p, 'f) host_lib \<Rightarrow> unit \<Rightarrow> ('g, 'p, merge_to_staged_response) rpc" where
  "rpc_merge_to_staged H req = answered H
     (on_host (merge_all_to_staged (hl_env H) ()))
     (\<lambda>r. \<lparr>mtrs_staged_snapshot_id = mtrs_staged_snapshot_id r\<rparr>)"

end
