(* ===== verification/Transport_Http.thy ===== *)
theory Transport_Http
  imports Transport_Base
begin

text \<open>
  \<^verbatim>\<open>src/api/http.rs\<close>: the REST server. A handler answers with a status code and an envelope around the
  response or the error; a panic in a handler ends the task that serves the connection, which is the
  \<open>Panic\<close> of the model. What the extractors of axum decode from a request (the JSON body, the query, the
  parts of the path) is the argument of the handler.
\<close>

section \<open>Answers\<close>

record 'a api_envelope =
  en_success :: bool
  en_data :: "'a option"
  en_error :: "api_error option"

type_synonym 'a http_answer = "nat \<times> 'a api_envelope"

type_synonym ('g, 'p, 'a) http = "(('g, 'p) host, 'a http_answer, unit) prog"

definition ok_response :: "'a \<Rightarrow> 'a http_answer" where
  "ok_response data = (200, \<lparr>en_success = True, en_data = Some data, en_error = None\<rparr>)"

definition err_response :: "api_error \<Rightarrow> 'a http_answer" where
  "err_response e =
     (if ae_code e = ''NOT_FOUND'' then 404
      else if ae_code e = ''INVALID_PARAMS'' then 400
      else if ae_code e = ''ALREADY_EXISTS'' then 409
      else 500,
      \<lparr>en_success = False, en_data = None, en_error = Some e\<rparr>)"

definition responds :: "('g, 'p, 'a) host_prog \<Rightarrow> ('g, 'p, 'a) http" where
  "responds m = (\<lambda>h. case m h of
     (Ok r, h') \<Rightarrow> (Ok (ok_response r), h')
   | (Err e, h') \<Rightarrow> (Ok (err_response e), h')
   | (Panic, h') \<Rightarrow> (Panic, h'))"

section \<open>Handlers\<close>

record log_query =
  lq_count :: "nat option"

record show_query =
  sq_show_what :: string
  sq_target_id :: "string option"

definition handle_init ::
  "('g, 'p, 'f) host_lib \<Rightarrow> init_request \<Rightarrow> ('g, 'p, init_response) http" where
  "handle_init H req = responds (host_init H req)"

definition handle_status ::
  "('g, 'p, 'f) host_lib \<Rightarrow> ('g, 'p, status_response) http" where
  "handle_status H = responds (on_host (status (hl_env H)))"

definition handle_edit ::
  "('g, 'p, 'f) host_lib \<Rightarrow> edit_request \<Rightarrow> ('g, 'p, edit_response) http" where
  "handle_edit H req = responds (on_host (edit (hl_env H) req))"

definition handle_agent_edit ::
  "('g, 'p, 'f) host_lib \<Rightarrow> string \<Rightarrow> edit_request \<Rightarrow> ('g, 'p, edit_response) http" where
  "handle_agent_edit H i req = responds (on_host (agent_edit (hl_env H)
     \<lparr>aerq_agent_id = i, aerq_file = erq_file req, aerq_content = erq_content req\<rparr>))"

definition handle_agent_submit ::
  "('g, 'p, 'f) host_lib \<Rightarrow> string \<Rightarrow> ('g, 'p, submit_response) http" where
  "handle_agent_submit H i = responds (on_host (agent_submit (hl_env H) \<lparr>asrq_agent_id = i\<rparr>))"

definition handle_approve ::
  "('g, 'p, 'f) host_lib \<Rightarrow> string \<Rightarrow> ('g, 'p, approve_response) http" where
  "handle_approve H agent_id = responds (on_host (approve (hl_env H) \<lparr>aprq_agent_id = agent_id\<rparr>))"

definition handle_commit ::
  "('g, 'p, 'f) host_lib \<Rightarrow> commit_request \<Rightarrow> ('g, 'p, commit_response) http" where
  "handle_commit H req = responds (on_host (commit (hl_env H) req))"

definition handle_log ::
  "('g, 'p, 'f) host_lib \<Rightarrow> log_query \<Rightarrow> ('g, 'p, log_response) http" where
  "handle_log H q = responds (on_host (log_checkpoints (hl_env H) \<lparr>lrq_count = lq_count q\<rparr>))"

definition handle_branch_list ::
  "('g, 'p, 'f) host_lib \<Rightarrow> ('g, 'p, branch_list_response) http" where
  "handle_branch_list H = responds (on_host (branch_list (hl_env H)))"

definition handle_branch_create ::
  "('g, 'p, 'f) host_lib \<Rightarrow> branch_create_request \<Rightarrow> ('g, 'p, branch_create_response) http" where
  "handle_branch_create H req = responds (on_host (branch_create (hl_env H) req))"

definition handle_branch_switch ::
  "('g, 'p, 'f) host_lib \<Rightarrow> string \<Rightarrow> ('g, 'p, branch_switch_response) http" where
  "handle_branch_switch H name = responds (on_host (branch_switch (hl_env H) \<lparr>bsrq_name = name\<rparr>))"

definition handle_merge ::
  "('g, 'p, 'f) host_lib \<Rightarrow> merge_request \<Rightarrow> ('g, 'p, merge_response) http" where
  "handle_merge H req = responds (on_host (merge_branch (hl_env H) req))"

definition handle_backup ::
  "('g, 'p, 'f) host_lib \<Rightarrow> backup_request \<Rightarrow> ('g, 'p, backup_response) http" where
  "handle_backup H req = responds (on_host (backup (hl_env H) (hl_api H) req))"

definition handle_restore ::
  "('g, 'p, 'f) host_lib \<Rightarrow> backup_restore_request \<Rightarrow> ('g, 'p, backup_restore_response) http" where
  "handle_restore H req = responds (on_host (backup_restore (hl_env H) (hl_api H) req))"

definition handle_gc ::
  "('g, 'p, 'f) host_lib \<Rightarrow> ('g, 'p, gc_response) http" where
  "handle_gc H = responds (on_host (gc (hl_env H) ()))"

definition handle_git_commit ::
  "('g, 'p, 'f) host_lib \<Rightarrow> git_commit_request \<Rightarrow> ('g, 'p, git_commit_response) http" where
  "handle_git_commit H req = responds (on_host_git (git_commit (hl_env H) (hl_git H) req))"

definition handle_clean ::
  "('g, 'p, 'f) host_lib \<Rightarrow> clean_request \<Rightarrow> ('g, 'p, clean_response) http" where
  "handle_clean H req = responds (on_host (clean (hl_env H) (hl_api H) req))"

definition handle_pull ::
  "('g, 'p, 'f) host_lib \<Rightarrow> pull_request \<Rightarrow> ('g, 'p, pull_response) http" where
  "handle_pull H req = responds (on_host_git (pull (hl_env H) (hl_git H) req))"

definition handle_show ::
  "('g, 'p, 'f) host_lib \<Rightarrow> show_query \<Rightarrow> ('g, 'p, show_response) http" where
  "handle_show H q = responds (on_host (show_target (hl_env H) (hl_api H)
     \<lparr>srq_show_what = sq_show_what q, srq_target_id = sq_target_id q\<rparr>))"

definition handle_list_pending_approvals ::
  "('g, 'p, 'f) host_lib \<Rightarrow> ('g, 'p, list_pending_approvals_response) http" where
  "handle_list_pending_approvals H = responds (on_host (pending_approvals (hl_env H)))"

definition handle_approve_agent ::
  "('g, 'p, 'f) host_lib \<Rightarrow> approve_agent_request \<Rightarrow> ('g, 'p, approve_agent_response) http" where
  "handle_approve_agent H req = responds (on_host (approve_agent (hl_env H) req))"

definition handle_reject_agent ::
  "('g, 'p, 'f) host_lib \<Rightarrow> reject_agent_request \<Rightarrow> ('g, 'p, reject_agent_response) http" where
  "handle_reject_agent H req = responds (on_host (reject_agent (hl_env H) req))"

definition handle_merge_to_unified ::
  "('g, 'p, 'f) host_lib \<Rightarrow> merge_to_unified_request \<Rightarrow> ('g, 'p, merge_to_unified_response) http" where
  "handle_merge_to_unified H req = responds (on_host (merge_to_unified (hl_env H) req))"

definition handle_merge_to_staged ::
  "('g, 'p, 'f) host_lib \<Rightarrow> merge_to_staged_request \<Rightarrow> ('g, 'p, merge_to_staged_response) http" where
  "handle_merge_to_staged H req = responds (on_host (merge_all_to_staged (hl_env H) req))"

definition handle_compact ::
  "('g, 'p, 'f) host_lib \<Rightarrow> compact_request \<Rightarrow> ('g, 'p, compact_response) http" where
  "handle_compact H req = responds (on_pages (compact (hl_env H) (hl_floats H) (hl_pragmas H) (hl_config H) req))"

definition handle_checkpoint_restore ::
  "('g, 'p, 'f) host_lib \<Rightarrow> checkpoint_restore_request \<Rightarrow> ('g, 'p, checkpoint_restore_response) http" where
  "handle_checkpoint_restore H req = responds (on_host (checkpoint_restore (hl_env H) (hl_api H) req))"

definition handle_checkpoint_restore_by_time ::
  "('g, 'p, 'f) host_lib \<Rightarrow> checkpoint_restore_by_time_request \<Rightarrow> ('g, 'p, checkpoint_restore_response) http" where
  "handle_checkpoint_restore_by_time H req = responds (on_host (checkpoint_restore_by_time (hl_env H) (hl_api H) req))"

definition handle_checkpoint_diff ::
  "('g, 'p, 'f) host_lib \<Rightarrow> checkpoint_diff_request \<Rightarrow> ('g, 'p, checkpoint_diff_response) http" where
  "handle_checkpoint_diff H req = responds (on_host (checkpoint_diff (hl_env H) req))"

definition handle_checkpoint_rollback ::
  "('g, 'p, 'f) host_lib \<Rightarrow> checkpoint_rollback_request \<Rightarrow> ('g, 'p, checkpoint_rollback_response) http" where
  "handle_checkpoint_rollback H req = responds (on_host (checkpoint_rollback (hl_env H) req))"

section \<open>Routes\<close>

text \<open>The table of the router: a path, with a name in braces for a part that is passed on, and a method,
  and the handler they select. The names of the handlers stand for the definitions above.\<close>

datatype http_method = GET | POST

definition routes :: "(string \<times> http_method \<times> string) list" where
  "routes =
     [(''/api/v1/init'', POST, ''handle_init''),
      (''/api/v1/status'', GET, ''handle_status''),
      (''/api/v1/edit'', POST, ''handle_edit''),
      (''/api/v1/agent/{id}/edit'', POST, ''handle_agent_edit''),
      (''/api/v1/agent/{id}/submit'', POST, ''handle_agent_submit''),
      (''/api/v1/approve/{agent_id}'', POST, ''handle_approve''),
      (''/api/v1/approvals'', GET, ''handle_list_pending_approvals''),
      (''/api/v1/approve-agent'', POST, ''handle_approve_agent''),
      (''/api/v1/reject-agent'', POST, ''handle_reject_agent''),
      (''/api/v1/merge-to-unified'', POST, ''handle_merge_to_unified''),
      (''/api/v1/merge-to-staged'', POST, ''handle_merge_to_staged''),
      (''/api/v1/commit'', POST, ''handle_commit''),
      (''/api/v1/log'', GET, ''handle_log''),
      (''/api/v1/branches'', GET, ''handle_branch_list''),
      (''/api/v1/branches'', POST, ''handle_branch_create''),
      (''/api/v1/branches/{name}/switch'', POST, ''handle_branch_switch''),
      (''/api/v1/merge'', POST, ''handle_merge''),
      (''/api/v1/backup'', POST, ''handle_backup''),
      (''/api/v1/restore'', POST, ''handle_restore''),
      (''/api/v1/gc'', POST, ''handle_gc''),
      (''/api/v1/compact'', POST, ''handle_compact''),
      (''/api/v1/git-commit'', POST, ''handle_git_commit''),
      (''/api/v1/clean'', POST, ''handle_clean''),
      (''/api/v1/pull'', POST, ''handle_pull''),
      (''/api/v1/show'', GET, ''handle_show''),
      (''/api/v1/checkpoint/restore'', POST, ''handle_checkpoint_restore''),
      (''/api/v1/checkpoint/restore-by-time'', POST, ''handle_checkpoint_restore_by_time''),
      (''/api/v1/checkpoint/diff'', POST, ''handle_checkpoint_diff''),
      (''/api/v1/checkpoint/rollback'', POST, ''handle_checkpoint_rollback'')]"

end
