(* ===== verification/Transport_Theorems.thy ===== *)
theory Transport_Theorems
  imports Transport_Rpc Transport_Http
begin

text \<open>
  The two servers as state machines over the service: every method and every route refines a step of the
  service, and the codes they answer with.
\<close>

section \<open>Requests\<close>

datatype rpc_request =
    RpcInit init_request
  | RpcStatus
  | RpcEdit edit_request
  | RpcAgentEdit agent_edit_request
  | RpcAgentSubmit agent_submit_request
  | RpcApprove approve_request
  | RpcCommit commit_request
  | RpcLog p_log_request
  | RpcBranchCreate branch_create_request
  | RpcBranchSwitch branch_switch_request
  | RpcBranchList
  | RpcMerge merge_request
  | RpcBackup backup_request
  | RpcRestore backup_restore_request
  | RpcGc
  | RpcCompact compact_request
  | RpcGitCommit git_commit_request
  | RpcClean clean_request
  | RpcPull pull_request
  | RpcShow show_request
  | RpcCheckpointRestore p_checkpoint_restore_request
  | RpcCheckpointRestoreByTime p_checkpoint_restore_by_time_request
  | RpcCheckpointDiff checkpoint_diff_request
  | RpcCheckpointRollback checkpoint_rollback_request
  | RpcListPendingApprovals
  | RpcApproveAgent approve_agent_request
  | RpcRejectAgent reject_agent_request
  | RpcMergeToUnified p_merge_to_unified_request
  | RpcMergeToStaged

text \<open>The answer is forgotten; the status of a failure is kept.\<close>

definition void :: "('s, 'a, 'e) prog \<Rightarrow> ('s, unit, 'e) prog" where
  "void m = sbind m (\<lambda>_. ret ())"

fun rpc_serve :: "('g, 'p, 'f) host_lib \<Rightarrow> rpc_request \<Rightarrow> ('g, 'p, unit) rpc" where
  "rpc_serve H (RpcInit q) = void (rpc_init H q)"
| "rpc_serve H RpcStatus = void (rpc_status H)"
| "rpc_serve H (RpcEdit q) = void (rpc_edit H q)"
| "rpc_serve H (RpcAgentEdit q) = void (rpc_agent_edit H q)"
| "rpc_serve H (RpcAgentSubmit q) = void (rpc_agent_submit H q)"
| "rpc_serve H (RpcApprove q) = void (rpc_approve H q)"
| "rpc_serve H (RpcCommit q) = void (rpc_commit H q)"
| "rpc_serve H (RpcLog q) = void (rpc_log H q)"
| "rpc_serve H (RpcBranchCreate q) = void (rpc_branch_create H q)"
| "rpc_serve H (RpcBranchSwitch q) = void (rpc_branch_switch H q)"
| "rpc_serve H RpcBranchList = void (rpc_branch_list H)"
| "rpc_serve H (RpcMerge q) = void (rpc_merge H q)"
| "rpc_serve H (RpcBackup q) = void (rpc_backup H q)"
| "rpc_serve H (RpcRestore q) = void (rpc_restore H q)"
| "rpc_serve H RpcGc = void (rpc_gc H)"
| "rpc_serve H (RpcCompact q) = void (rpc_compact H q)"
| "rpc_serve H (RpcGitCommit q) = void (rpc_git_commit H q)"
| "rpc_serve H (RpcClean q) = void (rpc_clean H q)"
| "rpc_serve H (RpcPull q) = void (rpc_pull H q)"
| "rpc_serve H (RpcShow q) = void (rpc_show H q)"
| "rpc_serve H (RpcCheckpointRestore q) = void (rpc_checkpoint_restore H q)"
| "rpc_serve H (RpcCheckpointRestoreByTime q) = void (rpc_checkpoint_restore_by_time H q)"
| "rpc_serve H (RpcCheckpointDiff q) = void (rpc_checkpoint_diff H q)"
| "rpc_serve H (RpcCheckpointRollback q) = void (rpc_checkpoint_rollback H q)"
| "rpc_serve H RpcListPendingApprovals = void (rpc_list_pending_approvals H)"
| "rpc_serve H (RpcApproveAgent q) = void (rpc_approve_agent H q)"
| "rpc_serve H (RpcRejectAgent q) = void (rpc_reject_agent H q)"
| "rpc_serve H (RpcMergeToUnified q) = void (rpc_merge_to_unified H q)"
| "rpc_serve H RpcMergeToStaged = void (rpc_merge_to_staged H ())"

datatype http_request =
    HttpInit init_request
  | HttpStatus
  | HttpEdit edit_request
  | HttpAgentEdit string edit_request
  | HttpAgentSubmit string
  | HttpApprove string
  | HttpCommit commit_request
  | HttpLog log_query
  | HttpBranchList
  | HttpBranchCreate branch_create_request
  | HttpBranchSwitch string
  | HttpMerge merge_request
  | HttpBackup backup_request
  | HttpRestore backup_restore_request
  | HttpGc
  | HttpGitCommit git_commit_request
  | HttpClean clean_request
  | HttpPull pull_request
  | HttpShow show_query
  | HttpListPendingApprovals
  | HttpApproveAgent approve_agent_request
  | HttpRejectAgent reject_agent_request
  | HttpMergeToUnified merge_to_unified_request
  | HttpMergeToStaged merge_to_staged_request
  | HttpCompact compact_request
  | HttpCheckpointRestore checkpoint_restore_request
  | HttpCheckpointRestoreByTime checkpoint_restore_by_time_request
  | HttpCheckpointDiff checkpoint_diff_request
  | HttpCheckpointRollback checkpoint_rollback_request

text \<open>Of the answer the status code is kept.\<close>

definition code_of :: "('g, 'p, 'a) http \<Rightarrow> (('g, 'p) host, nat, unit) prog" where
  "code_of m = sbind m (\<lambda>a. ret (fst a))"

fun http_serve :: "('g, 'p, 'f) host_lib \<Rightarrow> http_request \<Rightarrow> (('g, 'p) host, nat, unit) prog" where
  "http_serve H (HttpInit q) = code_of (handle_init H q)"
| "http_serve H HttpStatus = code_of (handle_status H)"
| "http_serve H (HttpEdit q) = code_of (handle_edit H q)"
| "http_serve H (HttpAgentEdit i q) = code_of (handle_agent_edit H i q)"
| "http_serve H (HttpAgentSubmit i) = code_of (handle_agent_submit H i)"
| "http_serve H (HttpApprove i) = code_of (handle_approve H i)"
| "http_serve H (HttpCommit q) = code_of (handle_commit H q)"
| "http_serve H (HttpLog q) = code_of (handle_log H q)"
| "http_serve H HttpBranchList = code_of (handle_branch_list H)"
| "http_serve H (HttpBranchCreate q) = code_of (handle_branch_create H q)"
| "http_serve H (HttpBranchSwitch n) = code_of (handle_branch_switch H n)"
| "http_serve H (HttpMerge q) = code_of (handle_merge H q)"
| "http_serve H (HttpBackup q) = code_of (handle_backup H q)"
| "http_serve H (HttpRestore q) = code_of (handle_restore H q)"
| "http_serve H HttpGc = code_of (handle_gc H)"
| "http_serve H (HttpGitCommit q) = code_of (handle_git_commit H q)"
| "http_serve H (HttpClean q) = code_of (handle_clean H q)"
| "http_serve H (HttpPull q) = code_of (handle_pull H q)"
| "http_serve H (HttpShow q) = code_of (handle_show H q)"
| "http_serve H HttpListPendingApprovals = code_of (handle_list_pending_approvals H)"
| "http_serve H (HttpApproveAgent q) = code_of (handle_approve_agent H q)"
| "http_serve H (HttpRejectAgent q) = code_of (handle_reject_agent H q)"
| "http_serve H (HttpMergeToUnified q) = code_of (handle_merge_to_unified H q)"
| "http_serve H (HttpMergeToStaged q) = code_of (handle_merge_to_staged H q)"
| "http_serve H (HttpCompact q) = code_of (handle_compact H q)"
| "http_serve H (HttpCheckpointRestore q) = code_of (handle_checkpoint_restore H q)"
| "http_serve H (HttpCheckpointRestoreByTime q) = code_of (handle_checkpoint_restore_by_time H q)"
| "http_serve H (HttpCheckpointDiff q) = code_of (handle_checkpoint_diff H q)"
| "http_serve H (HttpCheckpointRollback q) = code_of (handle_checkpoint_rollback H q)"

lemmas rpc_defs =
  rpc_init_def rpc_status_def rpc_edit_def rpc_agent_edit_def rpc_agent_submit_def rpc_approve_def rpc_commit_def
  rpc_log_def rpc_branch_create_def rpc_branch_switch_def rpc_branch_list_def rpc_merge_def rpc_backup_def
  rpc_restore_def rpc_gc_def rpc_git_commit_def rpc_clean_def rpc_pull_def rpc_compact_def rpc_show_def
  rpc_checkpoint_restore_def rpc_checkpoint_restore_by_time_def rpc_checkpoint_diff_def
  rpc_checkpoint_rollback_def rpc_list_pending_approvals_def rpc_approve_agent_def rpc_reject_agent_def
  rpc_merge_to_unified_def rpc_merge_to_staged_def

lemmas http_defs =
  handle_init_def handle_status_def handle_edit_def handle_agent_edit_def handle_agent_submit_def
  handle_approve_def handle_commit_def handle_log_def handle_branch_create_def handle_branch_switch_def
  handle_branch_list_def handle_merge_def handle_backup_def handle_restore_def handle_gc_def
  handle_git_commit_def handle_clean_def handle_pull_def handle_compact_def handle_show_def
  handle_checkpoint_restore_def handle_checkpoint_restore_by_time_def handle_checkpoint_diff_def
  handle_checkpoint_rollback_def handle_list_pending_approvals_def handle_approve_agent_def
  handle_reject_agent_def handle_merge_to_unified_def handle_merge_to_staged_def

section \<open>Both servers refine the service\<close>

lemma snd_answered: "snd (answered H m f h) = snd (m h)"
  by (auto simp: answered_def split: prod.split result.split)

lemma snd_responds: "snd (responds m h) = snd (m h)"
  by (auto simp: responds_def split: prod.split result.split)

lemma snd_void: "snd (void m h) = snd (m h)"
  by (auto simp: void_def sbind_def ret_def split: prod.split result.split)

lemma snd_code_of: "snd (code_of m h) = snd (m h)"
  by (auto simp: code_of_def sbind_def ret_def split: prod.split result.split)

lemma steps_answer:
  "steps E L G m \<Longrightarrow> steps E L G (void (answered H m f))"
  "steps E L G m \<Longrightarrow> steps E L G (code_of (responds m))"
  by (simp_all add: steps_def stays_def snd_answered snd_responds snd_void snd_code_of)

lemma rpc_steps: "steps (hl_env H) (hl_api H) (hl_git H) (rpc_serve H q)"
  by (cases q; simp only: rpc_serve.simps rpc_defs;
    intro steps_answer steps_requests steps_export steps_fetch steps_pages steps_init refl)

lemma http_steps: "steps (hl_env H) (hl_api H) (hl_git H) (http_serve H q)"
  by (cases q; simp only: http_serve.simps http_defs;
    intro steps_answer steps_requests steps_export steps_fetch steps_pages steps_init refl)

text \<open>A process that serves both transports at once, from a service opened on a new database or on a sound one
  of an earlier process. Every request has its own time and random identifier, and the process can be
  restarted on the database it has, as long as that is sound.\<close>

inductive host_reachable :: "('g, 'p, 'f) host_lib \<Rightarrow> ('g, 'p) host \<Rightarrow> bool" for H where
  opened: "stored_sound s0 \<Longrightarrow> open_service (at_moment (hl_env H) now u) path backups s0 = (Ok v, s) \<Longrightarrow>
    host_reachable H \<lparr>ho_service = v, ho_git = g, ho_pages = p, ho_disk = d\<rparr>"
| rpc: "host_reachable H h \<Longrightarrow> host_reachable H (snd (rpc_serve (host_at H now u) q h))"
| http: "host_reachable H h \<Longrightarrow> host_reachable H (snd (http_serve (host_at H now u) q h))"
| outside: "host_reachable H h \<Longrightarrow> host_reachable H (h\<lparr>ho_git := g, ho_pages := p, ho_disk := d\<rparr>)"
| restarted: "host_reachable H h \<Longrightarrow> stored_sound (sv_db (ho_service h)) \<Longrightarrow>
    open_service (at_moment (hl_env H) now u) path backups (sv_db (ho_service h)) = (Ok v, s) \<Longrightarrow>
    host_reachable H (h\<lparr>ho_service := v\<rparr>)"

lemma host_reachable_service:
  fixes mk :: "string \<Rightarrow> (unit, unit, lt_error) prog"
  assumes "host_reachable H h"
  shows "reachable (hl_env H) (hl_api H) (hl_git H) mk wr (ho_service h, ho_git h, ())"
  using assms
proof induction
  case (opened s0 now u path backups v s g p d)
  from reachable.opened [OF opened] show ?case by simp
next
  case (rpc h now u q)
  from stepsD [OF rpc_steps [of "host_at H now u" q]]
  have "service_step (at_moment (hl_env H) now u) (hl_api H) (hl_git H) mk wr (ho_service h, ho_git h, ())
      (ho_service (snd (rpc_serve (host_at H now u) q h)), ho_git (snd (rpc_serve (host_at H now u) q h)), ())"
    by simp
  with rpc.IH show ?case by (rule reachable.step)
next
  case (http h now u q)
  from stepsD [OF http_steps [of "host_at H now u" q]]
  have "service_step (at_moment (hl_env H) now u) (hl_api H) (hl_git H) mk wr (ho_service h, ho_git h, ())
      (ho_service (snd (http_serve (host_at H now u) q h)), ho_git (snd (http_serve (host_at H now u) q h)), ())"
    by simp
  with http.IH show ?case by (rule reachable.step)
next
  case (outside h g p d)
  from reachable.step [OF outside.IH service_step.outside] show ?case by simp
next
  case (restarted h now u path backups v s)
  from reachable.restarted [OF restarted.IH restarted.hyps(2,3)] show ?case by simp
qed

lemma answered_returns: "fst (answered H m f h) \<noteq> Panic"
  by (auto simp: answered_def split: prod.split result.split)

lemma rpc_returns: "fst (rpc_serve H q h) \<noteq> Panic"
proof -
  have "fst (void m h) \<noteq> Panic" if "fst (m h) \<noteq> Panic" for m :: "('a, 'b, 'x) rpc"
    using that by (auto simp: void_def sbind_def ret_def split: prod.split result.split)
  note void = this [OF answered_returns]
  show ?thesis by (cases q; simp only: rpc_serve.simps rpc_defs; rule void)
qed

lemma responds_returns: "fst (on_host m h) \<noteq> Panic \<Longrightarrow> fst (responds (on_host m) h) \<noteq> Panic"
  by (auto simp: responds_def split: prod.split result.split)

lemma on_host_returns: "fst (m (ho_service h)) \<noteq> Panic \<Longrightarrow> fst (on_host m h) \<noteq> Panic"
  by (auto simp: on_host_def split: prod.split)

text \<open>C4: both servers refine the service. A process is opened on a new database or on a sound one, serves
  methods and routes in any order, each at its own time and with any answer, and can be restarted on its
  database while that is sound. Its service is then in a state that the requests of the service reach; so the
  invariant of the service holds in it, every method of the gRPC server returns, and no commit and no
  creation of a branch over HTTP breaks the connection.\<close>

theorem servers_refine_service:
  assumes "host_reachable H h"
  shows "reachable (hl_env H) (hl_api H) (hl_git H) (\<lambda>p. ret () :: (unit, unit, lt_error) prog) (\<lambda>p c. ret ())
       (ho_service h, ho_git h, ())
     \<and> service_ok (ho_service h) \<and> fst (rpc_serve (host_at H now u) q h) \<noteq> Panic
     \<and> fst (handle_commit (host_at H now u) cq h) \<noteq> Panic
     \<and> fst (handle_branch_create (host_at H now u) bq h) \<noteq> Panic"
proof -
  note reach = host_reachable_service [OF assms]
  from reachable_ok [OF reach] have ok: "service_ok (ho_service h)" by simp
  from safeD [OF locked_handlers_safe(1) ok] safeD [OF locked_handlers_safe(2) ok] reach ok rpc_returns show ?thesis
    by (simp add: handle_commit_def handle_branch_create_def responds_returns on_host_returns)
qed

definition sample_pragmas :: "int pragma_lib" where
  "sample_pragmas =
     \<lparr>pg_wal_checkpoint = ret (), pg_page_count = ret 10, pg_freelist_count = (\<lambda>p. (Ok p, p)),
      pg_vacuum = (\<lambda>p. (Ok (), 0)), pg_incremental_vacuum = (\<lambda>n p. (Ok (), p - n))\<rparr>"

definition sample_host_lib :: "(nat, int, nat) host_lib" where
  "sample_host_lib =
     \<lparr>hl_env = sample_env, hl_api = sample_api, hl_git = sample_git, hl_floats = sample_floats,
      hl_pragmas = sample_pragmas, hl_config = maintenance_default sample_floats, hl_open = (\<lambda>p. Ok ()),
      hl_join = ''task panicked''\<rparr>"

abbreviation sample_host_at :: "int \<Rightarrow> (nat, int, nat) host_lib" where
  "sample_host_at t \<equiv> host_at sample_host_lib (\<lambda>x. t) 7"

text \<open>A process is opened on a database of an earlier one and restarted; then a file is edited over gRPC, and
  committed over HTTP at a later time.\<close>

theorem servers_refine_service_witness:
  "\<exists>h :: (nat, int) host. sv_db (ho_service h) = old_db
     \<and> service_ok (ho_service (snd (handle_commit (sample_host_at 9) commit_m
         (snd (rpc_serve (sample_host_at 5) (RpcEdit edit_a) h)))))"
proof -
  have E: "hl_env sample_host_lib = sample_env" by (simp add: sample_host_lib_def)
  obtain v where v: "open_service (sample_at 0) ''p'' empty_backup_db old_db = (Ok v, old_db)" "sv_db v = old_db"
    using old_opened by blast
  obtain v' where v': "open_service (sample_at 3) ''p'' empty_backup_db old_db = (Ok v', old_db)" "sv_db v' = old_db"
    using old_opened by blast
  let ?h = "\<lparr>ho_service = v, ho_git = 0, ho_pages = 4, ho_disk = \<lambda>p. empty_db\<rparr> :: (nat, int) host"
  have first: "host_reachable sample_host_lib ?h"
    by (rule host_reachable.opened [where H = sample_host_lib, unfolded E, OF old_db_sound v(1)])
  have "stored_sound (sv_db (ho_service ?h))"
    "open_service (sample_at 3) ''p'' empty_backup_db (sv_db (ho_service ?h)) = (Ok v', old_db)"
    by (simp_all add: v(2) old_db_sound v'(1))
  then have again: "host_reachable sample_host_lib (?h\<lparr>ho_service := v'\<rparr>)"
    by (rule host_reachable.restarted [where H = sample_host_lib, unfolded E, OF first])
  note edited = host_reachable.rpc [OF again, of "\<lambda>x. 5" 7 "RpcEdit edit_a"]
  note committed = host_reachable.http [OF edited, of "\<lambda>x. 9" 7 "HttpCommit commit_m"]
  from servers_refine_service [OF committed] v'(2) show ?thesis
    by (intro exI [of _ "?h\<lparr>ho_service := v'\<rparr>"]) (simp add: snd_code_of)
qed

section \<open>The codes of the answers\<close>

text \<open>The codes that the servers know and that no handler of the service gives.\<close>

definition ordinary :: "api_error \<Rightarrow> bool" where
  "ordinary e \<longleftrightarrow> ae_code e \<noteq> ''ALREADY_EXISTS'' \<and> ae_code e \<noteq> ''PERMISSION_DENIED''"

abbreviation errors_ordinary :: "('s, 'a, api_error) prog \<Rightarrow> bool" where
  "errors_ordinary \<equiv> errors_in ordinary"

named_theorems ordinary_rules \<open>programs whose errors are ordinary\<close>

lemma map_error_ordinary: "ordinary (map_error E e)"
  by (cases e) (simp_all add: ordinary_def api_storage_def api_engine_def api_state_machine_def api_checkpoint_def
      api_git_sync_def api_gc_def api_not_found_def api_internal_def api_general_def)

lemma made_ordinary: "ordinary (api_not_found s)" "ordinary (api_invalid_params s)" "ordinary (api_internal s)"
    "ordinary lock_error"
  by (simp_all add: ordinary_def api_not_found_def api_invalid_params_def api_internal_def lock_error_def)

lemma ordinary_api [ordinary_rules]: "errors_ordinary (map_err (map_error E) m)"
  using map_error_ordinary by (auto simp: errors_in_def map_err_def elim!: result_map_err.elims)

lemma ordinary_fail [ordinary_rules]:
  "errors_ordinary (fail (api_not_found s))" "errors_ordinary (fail (api_invalid_params s))"
  by (simp_all add: errors_in_fail made_ordinary)

lemma ordinary_locked [ordinary_rules]:
  "errors_ordinary m \<Longrightarrow> errors_ordinary (write_locked m)" "errors_ordinary m \<Longrightarrow> errors_ordinary (read_locked m)"
proof -
  assume m: "errors_ordinary m"
  show "errors_ordinary (write_locked m)" "errors_ordinary (read_locked m)"
    by (rule errorsI, auto simp: write_locked_def read_locked_def made_ordinary(4) dest: errorsD [OF m]
        split: prod.splits result.splits if_splits)+
qed

lemma ordinary_query [ordinary_rules]: "errors_ordinary (query (\<lambda>v. Ok (f v)))"
  by (simp add: errors_in_def query_def)

lemma ordinary_parts [ordinary_rules]:
  "errors_ordinary (assert_equal x y)" "errors_ordinary (content_required c)" "errors_ordinary (parse_id E w i)"
  "errors_ordinary (move_or_explain E a)" "errors_ordinary (cached_diff L t u)"
proof -
  show "errors_ordinary (assert_equal x y)" "errors_ordinary (content_required c)" "errors_ordinary (cached_diff L t u)"
    by (auto simp: errors_in_def assert_equal_def content_required_def lift_result_def ok_or_def made_ordinary
        cached_diff_def split: option.splits prod.splits)
  show "errors_ordinary (parse_id E w i)"
    using map_error_ordinary made_ordinary(2)
    by (cases "from_hex i") (auto simp: errors_in_def parse_id_def lift_result_def ok_or_def split: option.splits)
  show "errors_ordinary (move_or_explain E a)"
    using map_error_ordinary made_ordinary(2)
    by (auto simp: errors_in_def move_or_explain_def submit_error_def split: prod.splits result.splits
        elim!: result_map_err.elims)
qed

lemma ordinary_layers [ordinary_rules]:
  "errors_ordinary (status E)" "errors_ordinary (edit E q1)" "errors_ordinary (agent_edit E q2)"
  "errors_ordinary (agent_submit E q3)" "errors_ordinary (approve_agent E q4)" "errors_ordinary (reject_agent E q5)"
  "errors_ordinary (pending_approvals E)" "errors_ordinary (merge_to_unified E q6)"
  "errors_ordinary (merge_all_to_staged E q7)" "errors_ordinary (approve E q8)"
  unfolding status_def edit_def agent_edit_def agent_submit_def approve_agent_def reject_agent_def
    pending_approvals_def merge_to_unified_def merge_all_to_staged_def approve_def Let_def
  by (intro ordinary_rules error_rules)+

lemma ordinary_merge_branch [ordinary_rules]: "errors_ordinary (merge_branch E q)"
proof (rule errorsI)
  fix v e v' assume run: "merge_branch E q v = (Err e, v')"
  have inner: "ordinary x" if "merge_into_current E q R = (Ok (Inl x), R')" for x R R'
    using that made_ordinary(1)
    by (auto simp: merge_into_current_def sbind_def ret_def query_def split: prod.splits result.splits option.splits)
  from run show "ordinary e"
    using inner map_error_ordinary
    by (auto simp: merge_branch_def on_loaded_def split: prod.splits result.splits sum.splits)
qed

lemma ordinary_checkpoints [ordinary_rules]:
  "errors_ordinary (commit E q1)" "errors_ordinary (log_checkpoints E q2)" "errors_ordinary (branch_create E q3)"
  "errors_ordinary (branch_switch E q4)" "errors_ordinary (branch_list E)" "errors_ordinary (backup E L q5)"
  "errors_ordinary (backup_restore E L q6)" "errors_ordinary (checkpoint_restore E L q7)"
  "errors_ordinary (checkpoint_restore_by_time E L q8)" "errors_ordinary (checkpoint_diff E q9)"
  "errors_ordinary (checkpoint_rollback E q10)" "errors_ordinary (gc E q11)" "errors_ordinary (clean E L q12)"
  unfolding commit_def record_source_def log_checkpoints_def branch_create_def branch_switch_def branch_list_def
    backup_def backup_restore_def checkpoint_restore_def checkpoint_restore_by_time_def checkpoint_diff_def
    checkpoint_rollback_def gc_def clean_def or_zero_def Let_def
  by (intro ordinary_rules error_rules)+

lemma ordinary_show [ordinary_rules]: "errors_ordinary (show_target E L q)"
proof -
  have "errors_ordinary (lift_result (ok_or x (api_internal s)))" for x :: "'a option" and s
    by (auto simp: errors_in_def lift_result_def ok_or_def made_ordinary split: option.splits)
  note rules = ordinary_rules error_rules this
  have diff: "errors_ordinary (show_diff E L t p x y)" for t p x y
    unfolding show_diff_def by (intro rules)
  have texts: "errors_ordinary (reconstruct_text_from_id E i)" "errors_ordinary (baseline_text E cp)"
      "errors_ordinary (last_checkpoint_text E)" for i cp
    unfolding reconstruct_text_from_id_def baseline_text_def last_checkpoint_text_def by (intro rules)+
  show ?thesis
    unfolding show_target_def show_staged_def show_checkpoint_def show_partition_def
    by (intro rules diff texts)
qed

text \<open>Through the parts of a process.\<close>

lemma ordinary_lifts [ordinary_rules]:
  "errors_ordinary m1 \<Longrightarrow> errors_ordinary (on_host m1)" "errors_ordinary m2 \<Longrightarrow> errors_ordinary (on_host_git m2)"
  "errors_ordinary m3 \<Longrightarrow> errors_ordinary (on_pages m3)" "errors_ordinary m4 \<Longrightarrow> errors_ordinary (on_other_db path m4)"
  "errors_ordinary m4 \<Longrightarrow> errors_ordinary (with_git m4)" "errors_ordinary m5 \<Longrightarrow> errors_ordinary (beside m5)"
  by (rule errorsI, auto simp: on_host_def on_host_git_def on_pages_def on_other_db_def with_git_def beside_def
      split: prod.splits dest: errorsD)+

lemma ordinary_git [ordinary_rules]:
  "errors_ordinary (git_commit E G q1)" "errors_ordinary (pull E G q2)" "errors_ordinary (init E L G own q3)"
proof -
  show "errors_ordinary (git_commit E G q1)" "errors_ordinary (pull E G q2)"
    unfolding git_commit_def pull_def Let_def by (intro ordinary_rules error_rules)+
  have "errors_ordinary (init_imported E G own p q3)" for p
    unfolding init_imported_def by (intro ordinary_rules error_rules)
  moreover have "errors_ordinary (init_empty E L own q3)"
    unfolding init_empty_def by (intro ordinary_rules error_rules)
  then have "errors_ordinary (\<lambda>(s, g). case init_empty E L own q3 s of (r, s') \<Rightarrow> (r, (s', g)))"
    by (intro errorsI) (auto split: prod.splits dest: errorsD)
  ultimately show "errors_ordinary (init E L G own q3)"
    by (cases "irq_git_repo q3") (simp_all only: init_def option.case)
qed

lemma ordinary_host_init [ordinary_rules]: "errors_ordinary (host_init H q)"
proof (rule errorsI)
  fix h e h' assume run: "host_init H q h = (Err e, h')"
  have "errors_ordinary (sbind (map_err (map_error (hl_env H)) (lift_result (hl_open H path))) (\<lambda>_.
      if path = own then on_host_git (with_git (init (hl_env H) (hl_api H) (hl_git H) own q))
      else on_other_db path (init (hl_env H) (hl_api H) (hl_git H) own q)))" for path own
    by (intro ordinary_rules error_rules)
  from errorsD [OF this run [unfolded host_init_def Let_def]] show "ordinary e" .
qed

lemma ordinary_compact [ordinary_rules]: "errors_ordinary (compact E F P cfg q)"
  unfolding compact_def Let_def by (intro ordinary_rules error_rules)

lemma status_ordinary: "ordinary e \<Longrightarrow> st_code (to_status e) \<in> {CodeNotFound, CodeInvalidArgument, CodeInternal}"
  by (simp add: to_status_def ordinary_def)

lemma answered_code:
  assumes "errors_ordinary m"
  shows "case fst (void (answered H m f) h) of Ok _ \<Rightarrow> True
     | Err s \<Rightarrow> st_code s \<in> {CodeNotFound, CodeInvalidArgument, CodeInternal} | Panic \<Rightarrow> False"
  using assms status_ordinary
  by (auto simp: void_def answered_def sbind_def ret_def split: prod.split result.split dest!: errorsD)

lemma responds_code:
  assumes "errors_ordinary m"
  shows "case fst (code_of (responds m) h) of Ok c \<Rightarrow> c \<in> {200, 400, 404, 500} | Err _ \<Rightarrow> False | Panic \<Rightarrow> True"
  using assms
  by (auto simp: code_of_def responds_def ok_response_def err_response_def ordinary_def sbind_def ret_def
      split: prod.split result.split dest!: errorsD)

text \<open>C22: the codes of the answers. Whatever the state of the process, a method of the gRPC server succeeds
  or fails with one of the codes NOT_FOUND, INVALID_ARGUMENT and INTERNAL, and never leaves its caller
  without an answer; a route of the REST server answers 200, 400, 404 or 500, or its task panics and its caller
  gets no answer (nothing catches the panic there; a switch of branch can do that). No request
  is ever answered as a conflict: a branch that exists is an invalid argument, and the arms for
  \<open>ALREADY_EXISTS\<close> and \<open>PERMISSION_DENIED\<close> of the servers are dead.\<close>

theorem answer_codes:
  "(case fst (rpc_serve H q h) of Ok _ \<Rightarrow> True
      | Err s \<Rightarrow> st_code s \<in> {CodeNotFound, CodeInvalidArgument, CodeInternal} | Panic \<Rightarrow> False)
   \<and> (case fst (http_serve H q' h) of Ok c \<Rightarrow> c \<in> {200, 400, 404, 500} | Err _ \<Rightarrow> False | Panic \<Rightarrow> True)"
proof
  show "case fst (rpc_serve H q h) of Ok _ \<Rightarrow> True
      | Err s \<Rightarrow> st_code s \<in> {CodeNotFound, CodeInvalidArgument, CodeInternal} | Panic \<Rightarrow> False"
    by (cases q; simp only: rpc_serve.simps rpc_defs; rule answered_code; intro ordinary_rules error_rules)
  show "case fst (http_serve H q' h) of Ok c \<Rightarrow> c \<in> {200, 400, 404, 500} | Err _ \<Rightarrow> False | Panic \<Rightarrow> True"
    by (cases q'; simp only: http_serve.simps http_defs; rule responds_code; intro ordinary_rules error_rules)
qed

end
