(* ===== verification/Cli_Theorems.thy ===== *)
theory Cli_Theorems
  imports Transport_Cli Transport_Theorems
begin

text \<open>
  The exit codes of the command line, and the runs that end in a panic while they print.
\<close>

section \<open>Exit codes\<close>

text \<open>The parsed arguments that a command refuses itself, before it opens the database. Those that clap refuses
  never reach a command.\<close>

definition usage_error :: "cli \<Rightarrow> bool" where
  "usage_error c = (case cli_command c of
     GitCommitCmd _ \<Rightarrow> cli_git_repo c = None
   | PullCmd _ _ \<Rightarrow> cli_git_repo c = None
   | CleanCmd branch layer everything \<Rightarrow> \<not> everything \<and> branch = None \<and> layer = None
   | _ \<Rightarrow> False)"

text \<open>The ends of a command that has opened the database, or tried to.\<close>

definition general_end :: "cli_end \<Rightarrow> bool" where
  "general_end e = (case e of ExitWith code \<Rightarrow> code = EXIT_GENERAL_ERROR | RequestFailed _ \<Rightarrow> True)"

named_theorems cli_rules \<open>commands that end without a usage error\<close>

lemma cli_print_ends [cli_rules]:
  "errors_in Q (println s)" "errors_in Q (eprint s)" "errors_in Q (print_progress s)" "errors_in Q print_done"
  "errors_in Q (report s)"
  by (simp_all add: errors_in_def println_def eprint_def print_progress_def print_done_def report_def update_def)

lemma cli_request_ends [cli_rules]: "errors_in general_end (request c v m)"
  by (auto simp: errors_in_def request_def Let_def general_end_def split: prod.split elim!: result_map_err.elims)

lemma errors_in_or_else: "(\<And>e. errors_in Q (g e)) \<Longrightarrow> errors_in Q (or_else m g)"
  by (rule errorsI) (auto simp: or_else_def split: prod.splits result.splits dest: errorsD)

lemma cli_open_ends [cli_rules]: "errors_in general_end (cli_open_service H c)"
  unfolding cli_open_service_def
  by (intro errors_in_or_else error_rules cli_rules errors_in_fail) (simp add: general_end_def)

lemma no_error_rules:
  "slice_to n s \<noteq> Err e" "Ok x \<noteq> Err e"
  "m \<noteq> Err e \<Longrightarrow> (\<And>y. f y \<noteq> Err e) \<Longrightarrow> and_then m f \<noteq> Err e"
  "k \<noteq> Err e \<Longrightarrow> l \<noteq> Err e \<Longrightarrow> (if b then k else l) \<noteq> Err e"
  by (auto simp: slice_to_def) (cases m; auto)

lemma collect_no_error: "(\<And>x. f x \<noteq> Err e) \<Longrightarrow> collect_results f xs \<noteq> Err e"
proof (induction xs)
  case (Cons x xs)
  then show ?case by (cases "f x"; cases "collect_results f xs") auto
qed simp

lemma format_no_error:
  "format_status_response PL r1 fmt \<noteq> Err e" "format_log_response PL r2 fmt \<noteq> Err e"
  "format_branches_response PL r3 fmt \<noteq> Err e"
  unfolding format_status_response_def format_log_response_def format_branches_response_def status_line_def
    log_line_def branch_line_def Let_def
  by (cases fmt; simp only: output_format.case; intro no_error_rules collect_no_error)+

lemma cli_result_ends [cli_rules]:
  "errors_in Q (sliced s)" "errors_in Q (content_or_stdin x)"
  "errors_in Q (lift_result (format_status_response PL r1 fmt))"
  "errors_in Q (lift_result (format_log_response PL r2 fmt))"
  "errors_in Q (lift_result (format_branches_response PL r3 fmt))"
  by (auto simp: errors_in_def sliced_def lift_result_def no_error_rules(1) format_no_error content_or_stdin_def
      ret_def query_def split: option.splits)

lemma approval_line_ends [cli_rules]: "errors_in Q (approval_line a)"
  unfolding approval_line_def by (intro error_rules cli_rules)

text \<open>An error that is passed on stays what it was.\<close>

lemma errors_in_passed_on:
  assumes "errors_in Q m" and "\<And>e. Q e \<Longrightarrow> errors_in Q (g e)"
  shows "errors_in Q (or_else m g)"
  by (rule errorsI)
    (auto simp: or_else_def split: prod.splits result.splits dest: errorsD [OF assms(1)] errorsD [OF assms(2)])

lemma run_command_ends: "\<not> usage_error c \<Longrightarrow> errors_in general_end (run_command H PL c (cli_command c))"
proof (cases "cli_command c")
  case (AgentCmd a x)
  then show ?thesis
    by (cases x; simp only: run_command.simps cli_agent_edit_def cli_agent_submit_def; intro error_rules cli_rules)
next
  case (BranchCmd x)
  then show ?thesis by (cases x; simp only: run_command.simps cli_branch.simps; intro error_rules cli_rules)
next
  case (CheckpointCmd x)
  then show ?thesis
    by (cases x; simp only: run_command.simps cli_checkpoint.simps listed_ids_def; intro error_rules cli_rules)
next
  case (ApprovalCmd x)
  then show ?thesis
    by (cases x; simp only: run_command.simps cli_approval.simps; intro error_rules cli_rules)
next
  case StatusCmd
  have "errors_in general_end (or_else (request c v (on_host (status (hl_env H)))) (\<lambda>e.
      sbind (case e of RequestFailed x \<Rightarrow> eprint (''error reading status: '' @ api_error_display x @ [newline])
        | ExitWith _ \<Rightarrow> ret ()) (\<lambda>_. fail e)))" for v
    by (rule errors_in_passed_on [OF cli_request_ends])
      (auto intro!: error_rules cli_rules errors_in_fail split: cli_end.split)
  then show ?thesis
    unfolding StatusCmd run_command.simps cli_status_def by (intro error_rules cli_rules)
next
  case (GitCommitCmd x)
  moreover assume "\<not> usage_error c"
  ultimately obtain repo where "cli_git_repo c = Some repo" by (auto simp: usage_error_def)
  then show ?thesis
    unfolding GitCommitCmd run_command.simps cli_git_commit_def by (simp only: option.case) (intro error_rules cli_rules)
next
  case (PullCmd x y)
  moreover assume "\<not> usage_error c"
  ultimately obtain repo where "cli_git_repo c = Some repo" by (auto simp: usage_error_def)
  then show ?thesis
    unfolding PullCmd run_command.simps cli_pull_def by (simp only: option.case) (intro error_rules cli_rules)
next
  case (CleanCmd x y z)
  moreover assume "\<not> usage_error c"
  ultimately have "\<not> (\<not> z \<and> x = None \<and> y = None)" by (auto simp: usage_error_def)
  then show ?thesis
    unfolding CleanCmd run_command.simps cli_clean_def by (simp only: if_False) (intro error_rules cli_rules)
qed (simp_all only: run_command.simps cli_init_def cli_edit_def cli_commit_def cli_log_def cli_show_def cli_merge_def
    cli_backup_def cli_restore_def cli_gc_def cli_compact_def; intro error_rules cli_rules)+

lemma nothing_printed: "\<exists>t. w = w\<lparr>w_err := w_err w @ t\<rparr>" for w :: "('g, 'p) world"
  by (rule exI [where x = "[]"]) simp

text \<open>The exit codes of \<open>run_with_cli\<close>. A command that misses an argument it needs ends with code 2, having printed a
  message and touched nothing. Every other run ends with 0, when its request succeeded and was printed, or
  with 1, or in a panic; no other code and no other end exists.\<close>

lemma run_with_cli_ends:
  "if usage_error c then \<exists>t. run_with_cli H PL c w = (Ok 2, w\<lparr>w_err := w_err w @ t\<rparr>)
   else (case run_command H PL c (cli_command c) w of
       (Ok _, w') \<Rightarrow> run_with_cli H PL c w = (Ok 0, w')
     | (Err e, w') \<Rightarrow> (\<exists>t. run_with_cli H PL c w = (Ok 1, w'\<lparr>w_err := w_err w' @ t\<rparr>))
     | (Panic, w') \<Rightarrow> run_with_cli H PL c w = (Panic, w'))"
proof (cases "usage_error c")
  case True
  then show ?thesis
    by (auto simp: usage_error_def run_with_cli_def or_else_def cli_git_commit_def cli_pull_def cli_clean_def
        sbind_def report_def eprint_def update_def fail_def ret_def EXIT_USAGE_ERROR_def split: command.splits)
next
  case False
  then have "\<not> usage_error c" .
  from errorsD [OF run_command_ends [OF this, of H PL], of w] False show ?thesis
    by (cases "run_command H PL c (cli_command c) w")
      (auto simp: run_with_cli_def or_else_def sbind_def report_def eprint_def update_def ret_def map_err_def
        general_end_def EXIT_SUCCESS_def EXIT_GENERAL_ERROR_def nothing_printed split: result.split cli_end.splits)
qed

section \<open>A message that cannot be listed\<close>

lemma hex_no_continuation: "x \<in> set (to_hex i) \<Longrightarrow> \<not> is_continuation x"
proof -
  have "(of_char b :: nat) div 16 < 16" for b using of_char_bound [of b] by linarith
  then show "x \<in> set (to_hex i) \<Longrightarrow> \<not> is_continuation x"
    by (auto simp: to_hex_def hex_encode_def hex_digit_ascii)
qed

lemma hex_boundary: "n \<le> length (to_hex i) \<Longrightarrow> char_boundary n (to_hex i)"
  using hex_no_continuation [OF nth_mem] by (auto simp: char_boundary_def)

lemma collect_panics:
  assumes "\<And>x e. f x \<noteq> Err e"
  shows "collect_results f xs = Panic \<longleftrightarrow> (\<exists>x \<in> set xs. f x = Panic)"
proof (induction xs)
  case (Cons x xs)
  have "collect_results f xs \<noteq> Err e" for e by (rule collect_no_error) (rule assms)
  with Cons assms [of x] show ?case by (cases "f x"; cases "collect_results f xs") auto
qed simp

text \<open>The message is longer than 27 bytes and byte 27 is inside a character.\<close>

definition split_message :: "string \<Rightarrow> bool" where
  "split_message m \<longleftrightarrow> 27 < length m \<and> is_continuation (m ! 27)"

definition unlistable :: "checkpoint_info \<Rightarrow> bool" where
  "unlistable x \<longleftrightarrow> split_message (cpi_message x) \<or> length (cpi_id x) < 12"

lemma log_line_panics:
  "char_boundary 12 (cpi_id x) \<longleftrightarrow> 12 \<le> length (cpi_id x) \<Longrightarrow> log_line x = Panic \<longleftrightarrow> unlistable x"
  by (cases "12 \<le> length (cpi_id x)")
    (auto simp: log_line_def slice_to_def unlistable_def split_message_def char_boundary_def Let_def)

lemma log_line_no_error: "log_line x \<noteq> Err e"
  unfolding log_line_def Let_def by (intro no_error_rules)

lemma format_log_panics:
  assumes "\<And>x. x \<in> set (lrs_checkpoints r) \<Longrightarrow> char_boundary 12 (cpi_id x) \<longleftrightarrow> 12 \<le> length (cpi_id x)"
  shows "(format_log_response PL r Plain :: (string, 'e) result) = Panic \<longleftrightarrow> (\<exists>x \<in> set (lrs_checkpoints r). unlistable x)"
proof -
  let ?line = "log_line :: checkpoint_info \<Rightarrow> (string, 'e) result"
  have "collect_results ?line (rev (lrs_checkpoints r)) = Panic
      \<longleftrightarrow> (\<exists>x \<in> set (lrs_checkpoints r). ?line x = Panic)"
    by (subst collect_panics [OF log_line_no_error]) simp
  also have "\<dots> \<longleftrightarrow> (\<exists>x \<in> set (lrs_checkpoints r). unlistable x)"
    using assms log_line_panics by blast
  finally show ?thesis
    by (cases "collect_results ?line (rev (lrs_checkpoints r))")
      (auto simp: format_log_response_def)
qed

lemma log_ids:
  assumes "log_checkpoints E q v = (Ok r, v')"
  shows "x \<in> set (lrs_checkpoints r) \<Longrightarrow> \<exists>i. cpi_id x = to_hex i"
  using assms
  by (auto simp: log_checkpoints_def Let_def read_locked_def sbind_def ret_def checkpoint_to_info_def
      split: if_splits prod.splits result.splits) (rule exI, rule refl)

text \<open>C24: a commit message can make the log unreadable. Once the request has succeeded, the command \<open>log\<close>
  panics exactly when it prints lines (without \<open>--json\<close>) and one of the listed checkpoints has a message of
  more than 27 bytes in which byte 27 is inside a character, or an identifier of fewer than 12 digits (one of
  32 bytes has 64). With \<open>--json\<close> the messages are not cut, and nothing panics.\<close>

theorem cli_log_panics:
  assumes "cli_command c = LogCmd n" and "opened_service H c w = (Ok v, w1)"
    and "log_checkpoints (hl_env H) \<lparr>lrq_count = Some n\<rparr> v = (Ok r, v')"
  shows "fst (run_with_cli H PL c w) = Panic \<longleftrightarrow> \<not> cli_json c
     \<and> (\<exists>x \<in> set (lrs_checkpoints r). split_message (cpi_message x) \<or> length (cpi_id x) < 12)"
    (is "?run \<longleftrightarrow> _ \<and> ?split")
proof -
  have "char_boundary 12 (cpi_id x) \<longleftrightarrow> 12 \<le> length (cpi_id x)" if "x \<in> set (lrs_checkpoints r)" for x
    using log_ids [OF assms(3) that] hex_boundary by (auto simp: char_boundary_def)
  note format = format_log_panics [where r = r and PL = PL, OF this]
  obtain w2 where "request c v (on_host (log_checkpoints (hl_env H) \<lparr>lrq_count = Some n\<rparr>)) w1 = (Ok r, w2)"
    using assms(3) by (auto simp: request_def on_host_def Let_def)
  then have run: "cli_log H PL c n w = sbind (lift_result (format_log_response PL r (format_of c))) println w2"
    by (simp add: cli_log_def cli_open_service_def or_else_def assms(2) sbind_def)
  have "fst (cli_log H PL c n w) = Panic \<longleftrightarrow> \<not> cli_json c \<and> ?split"
  proof (cases "cli_json c")
    case True
    then show ?thesis
      by (simp add: run format_of_def format_log_response_def sbind_def lift_result_def println_def update_def)
  next
    case False
    then have "format_of c = Plain" by (simp add: format_of_def)
    with False show ?thesis
      unfolding run using format
      by (auto simp: unlistable_def sbind_def lift_result_def println_def update_def split: result.split)
  qed
  moreover have "fst (run_with_cli H PL c w) = Panic \<longleftrightarrow> fst (cli_log H PL c n w) = Panic"
    using assms(1)
    by (cases "cli_log H PL c n w")
      (auto simp: run_with_cli_def or_else_def sbind_def ret_def map_err_def report_def eprint_def update_def
        split: result.split cli_end.split)
  ultimately show ?thesis by simp
qed

text \<open>A database whose only checkpoint has a message of 26 letters and an accented one.\<close>

definition torn_message :: string where
  "torn_message = replicate 26 (CHR ''a'') @ [CHR 0xC3, CHR 0xA9]"

definition torn_db :: db where
  "torn_db = empty_db\<lparr>
     t_checkpoints := [\<lparr>cr_id = replicate 32 (CHR ''c''), cr_parents = [], cr_snapshots = [], cr_author = [],
       cr_message = torn_message, cr_git_anchor = None, cr_created_at = 0, cr_sources = None\<rparr>],
     t_branches := [\<lparr>br_name = ''main'', br_head = ContentId (replicate 32 (CHR ''c'')), br_created_at = 0,
       br_updated_at = 0\<rparr>],
     t_dag_store := [\<lparr>mr_key = ''current_branch'', mr_value = ''main'', mr_updated_at = 0\<rparr>]\<rparr>"

definition sample_printer :: print_lib where
  "sample_printer =
     \<lparr>pl_status_json = (\<lambda>r. []), pl_log_json = (\<lambda>r. []), pl_branches_json = (\<lambda>r. []), pl_show_json = (\<lambda>r. []),
      pl_json = (\<lambda>j. []), pl_rfc3339 = (\<lambda>t. None), pl_uuid = (\<lambda>u. []), pl_debug_source = (\<lambda>x. []),
      pl_debug_diff = (\<lambda>d. []), pl_debug_partition_type = (\<lambda>t. [])\<rparr>"

definition torn_world :: "(nat, int) world" where
  "torn_world = \<lparr>w_disk = (\<lambda>p. torn_db), w_backups = (\<lambda>p. empty_backup_db), w_git = 0, w_pages = 0, w_stdin = None,
     w_out = [], w_err = []\<rparr>"

definition log_arguments :: cli where
  "log_arguments = \<lparr>cli_db_path = ''p'', cli_git_repo = None, cli_json = False, cli_command = LogCmd 20\<rparr>"

theorem cli_log_panics_witness:
  "fst (run_with_cli sample_host_lib sample_printer log_arguments torn_world) = Panic"
proof -
  let ?open = "opened_service sample_host_lib log_arguments torn_world"
  let ?log = "log_checkpoints (hl_env sample_host_lib) \<lparr>lrq_count = Some 20\<rparr>"
  have "case fst ?open of Ok v \<Rightarrow> (case fst (?log v) of
        Ok r \<Rightarrow> list_ex (\<lambda>x. split_message (cpi_message x)) (lrs_checkpoints r)
      | _ \<Rightarrow> False) | _ \<Rightarrow> False"
    by code_simp
  then obtain v w1 where 1: "?open = (Ok v, w1)" and log: "case fst (?log v) of
        Ok r \<Rightarrow> list_ex (\<lambda>x. split_message (cpi_message x)) (lrs_checkpoints r)
      | _ \<Rightarrow> False"
    by (cases ?open) (auto split: result.splits)
  from log obtain r v' where 2: "?log v = (Ok r, v')"
      and 3: "\<exists>x \<in> set (lrs_checkpoints r). split_message (cpi_message x)"
    by (cases "?log v") (auto simp: list_ex_iff split: result.splits)
  have c: "cli_command log_arguments = LogCmd 20" "\<not> cli_json log_arguments" by (simp_all add: log_arguments_def)
  from cli_log_panics [OF c(1) 1 2] c(2) 3 show ?thesis by blast
qed

end
