(* ===== verification/Runtime.thy ===== *)
theory Runtime
  imports Cli_Theorems
begin

text \<open>
  \<^verbatim>\<open>src/runtime.rs\<close> and \<^verbatim>\<open>src/main.rs\<close>: how a process chooses between the command line and the two servers, and
  with which status it ends. The features of the build are three booleans, the variables of the
  environment a function, the parser of socket addresses a parameter, and so is serving on an address.
\<close>

record features =
  ft_cli :: bool
  ft_http :: bool
  ft_grpc :: bool

datatype run_mode = ModeCli | ModeHttp | ModeGrpc

record common_config =
  cc_db_path :: string
  cc_git_repo :: "string option"

record 'a runtime_config =
  rc_common :: common_config
  rc_mode :: run_mode
  rc_bind_addr :: "'a option"

type_synonym variables = "string \<Rightarrow> string option"

definition parse_common_config :: "variables \<Rightarrow> common_config" where
  "parse_common_config var =
     \<lparr>cc_db_path = (case var ''LAYERTWINE_DB_PATH'' of Some p \<Rightarrow> p | None \<Rightarrow> ''.layertwine/layertwine.db''),
      cc_git_repo = var ''LAYERTWINE_GIT_REPO''\<rparr>"

text \<open>\<open>to_lowercase\<close>, compared with three names: no letter of them is the lower case of a character outside
  ASCII.\<close>

definition ascii_lower :: "string \<Rightarrow> string" where
  "ascii_lower s = map (\<lambda>c. if 65 \<le> (of_char c :: nat) \<and> (of_char c :: nat) \<le> 90 then char_of (of_char c + 32 :: nat) else c) s"

definition default_mode :: "features \<Rightarrow> (run_mode, lt_error) result" where
  "default_mode ft =
     (if ft_cli ft then Ok ModeCli
      else if ft_http ft then Ok ModeHttp
      else if ft_grpc ft then Ok ModeGrpc
      else Err (General ''No transport feature enabled. Enable at least one of: cli, http, grpc''))"

definition detect_run_mode :: "features \<Rightarrow> variables \<Rightarrow> (run_mode, lt_error) result" where
  "detect_run_mode ft var =
     (case (if ft_cli ft \<and> (ft_http ft \<or> ft_grpc ft) then var ''LAYERTWINE_MODE'' else None) of
        None \<Rightarrow> default_mode ft
      | Some mode \<Rightarrow>
          (if ascii_lower mode = ''cli'' then Ok ModeCli
           else if ascii_lower mode = ''http'' then Ok ModeHttp
           else if ascii_lower mode = ''grpc'' then
             (if ft_grpc ft then Ok ModeGrpc
              else Err (General (''gRPC mode requires '' @ quoted ''grpc'' @ '' feature'')))
           else Err (General (''unknown mode '' @ quoted mode @ '': expected '' @ quoted ''cli'' @ '', ''
             @ quoted ''http'' @ '', or '' @ quoted ''grpc''))))"

definition parse_bind_addr :: "(string \<Rightarrow> string + 'a) \<Rightarrow> variables \<Rightarrow> string \<Rightarrow> string \<Rightarrow> string \<Rightarrow> ('a, lt_error) result" where
  "parse_bind_addr parse var name dflt kind =
     (let addr_str = (case var name of Some s \<Rightarrow> s | None \<Rightarrow> dflt)
      in case parse addr_str of
           Inr addr \<Rightarrow> Ok addr
         | Inl e \<Rightarrow> Err (General (''invalid '' @ kind @ '' bind address '' @ quoted addr_str @ '': '' @ e)))"

definition parse_http_addr :: "(string \<Rightarrow> string + 'a) \<Rightarrow> variables \<Rightarrow> ('a, lt_error) result" where
  "parse_http_addr parse var = parse_bind_addr parse var ''LAYERTWINE_HTTP_ADDR'' ''127.0.0.1:8080'' ''HTTP''"

definition parse_grpc_addr :: "(string \<Rightarrow> string + 'a) \<Rightarrow> variables \<Rightarrow> ('a, lt_error) result" where
  "parse_grpc_addr parse var = parse_bind_addr parse var ''LAYERTWINE_GRPC_ADDR'' ''127.0.0.1:50051'' ''gRPC''"

definition feature_error :: "string \<Rightarrow> string \<Rightarrow> lt_error" where
  "feature_error mode name = General (mode @ '' mode requires '' @ quoted name @ '' feature'')"

definition runtime_parse :: "features \<Rightarrow> (string \<Rightarrow> string + 'a) \<Rightarrow> variables \<Rightarrow> ('a runtime_config, lt_error) result" where
  "runtime_parse ft parse var =
     and_then (detect_run_mode ft var) (\<lambda>mode.
     and_then (case mode of
         ModeHttp \<Rightarrow> (if ft_http ft then and_then (parse_http_addr parse var) (\<lambda>a. Ok (Some a))
           else Err (feature_error ''HTTP'' ''http''))
       | ModeGrpc \<Rightarrow> (if ft_grpc ft then and_then (parse_grpc_addr parse var) (\<lambda>a. Ok (Some a))
           else Err (feature_error ''gRPC'' ''grpc''))
       | ModeCli \<Rightarrow> Ok None) (\<lambda>addr.
     Ok \<lparr>rc_common = parse_common_config var, rc_mode = mode, rc_bind_addr = addr\<rparr>))"

section \<open>Running\<close>

text \<open>How a run stops: \<open>std::process::exit\<close>, or an error that \<open>main\<close> reports. clap exits by itself when it refuses
  the arguments or is asked for help: it is a function from the arguments to its exit code and what it
  prints, or to the parsed arguments.\<close>

datatype stop = Exited int | Failed lt_error

type_synonym clap = "string list \<Rightarrow> (int \<times> string \<times> string) + cli"

definition printed :: "string \<Rightarrow> string \<Rightarrow> ('g, 'p) world \<Rightarrow> ('g, 'p) world" where
  "printed out err w = w\<lparr>w_out := w_out w @ out, w_err := w_err w @ err\<rparr>"

text \<open>\<open>cli::run\<close>: it gives an exit code, or has exited with one.\<close>

definition cli_run :: "clap \<Rightarrow> ('g, 'p, 'f) host_lib \<Rightarrow> print_lib \<Rightarrow> string list \<Rightarrow> (('g, 'p) world, int, int) prog" where
  "cli_run clap H PL args = (case clap args of
     Inl (code, out, err) \<Rightarrow> sbind (update (printed out err)) (\<lambda>_. fail code)
   | Inr c \<Rightarrow> map_err (\<lambda>_. EXIT_GENERAL_ERROR) (run_with_cli H PL c))"

definition run_cli_sync :: "('w, int, int) prog \<Rightarrow> ('w, unit, stop) prog" where
  "run_cli_sync cli = sbind (map_err Exited cli) (\<lambda>code.
     if code = 0 then ret () else fail (Failed (General (''CLI exited with code '' @ show_int code))))"

definition run_sync :: "features \<Rightarrow> (string \<Rightarrow> string + 'a) \<Rightarrow> variables \<Rightarrow> ('w, int, int) prog \<Rightarrow> ('w, unit, stop) prog" where
  "run_sync ft parse var cli =
     sbind (map_err Failed (lift_result (runtime_parse ft parse var))) (\<lambda>cfg.
     if rc_mode cfg = ModeCli
     then (if ft_cli ft then run_cli_sync cli else fail (Failed (feature_error ''CLI'' ''cli'')))
     else fail (Failed (General ''Async runtime required for HTTP/gRPC mode. Use run_async() instead.'')))"

text \<open>\<open>serve\<close> opens the service and serves; \<open>expect\<close> on the address is a panic.\<close>

definition run_server :: "(run_mode \<Rightarrow> common_config \<Rightarrow> 'a \<Rightarrow> ('w, unit, lt_error) prog) \<Rightarrow> 'a runtime_config
    \<Rightarrow> ('w, unit, stop) prog" where
  "run_server serve cfg =
     sbind (lift_result (case rc_bind_addr cfg of Some a \<Rightarrow> Ok a | None \<Rightarrow> Panic)) (\<lambda>a.
     map_err Failed (serve (rc_mode cfg) (rc_common cfg) a))"

definition run_async :: "features \<Rightarrow> (string \<Rightarrow> string + 'a) \<Rightarrow> variables
    \<Rightarrow> (run_mode \<Rightarrow> common_config \<Rightarrow> 'a \<Rightarrow> ('w, unit, lt_error) prog) \<Rightarrow> ('w, int, int) prog \<Rightarrow> ('w, unit, stop) prog" where
  "run_async ft parse var serve cli =
     sbind (map_err Failed (lift_result (runtime_parse ft parse var))) (\<lambda>cfg.
     case rc_mode cfg of
       ModeCli \<Rightarrow> (if ft_cli ft then run_cli_sync cli else fail (Failed (feature_error ''CLI'' ''cli'')))
     | ModeHttp \<Rightarrow> (if ft_http ft then run_server serve cfg else fail (Failed (feature_error ''HTTP'' ''http'')))
     | ModeGrpc \<Rightarrow> (if ft_grpc ft then run_server serve cfg else fail (Failed (feature_error ''gRPC'' ''grpc''))))"

text \<open>\<open>main\<close>: the status with which the process ends.\<close>

definition process_status :: "env \<Rightarrow> features \<Rightarrow> (string \<Rightarrow> string + 'a) \<Rightarrow> variables
    \<Rightarrow> (run_mode \<Rightarrow> common_config \<Rightarrow> 'a \<Rightarrow> (('g, 'p) world, unit, lt_error) prog)
    \<Rightarrow> (('g, 'p) world, int, int) prog \<Rightarrow> (('g, 'p) world, int, unit) prog" where
  "process_status E ft parse var serve cli =
     or_else
       (sbind (if ft_http ft \<or> ft_grpc ft then run_async ft parse var serve cli else run_sync ft parse var cli)
         (\<lambda>_. ret 0))
       (\<lambda>stop. case stop of
          Exited code \<Rightarrow> ret code
        | Failed e \<Rightarrow> sbind (map_err (\<lambda>_. ()) (report (error_display (env_show_sql E) e))) (\<lambda>_. ret 1))"

section \<open>The status of a process\<close>

text \<open>An address is there whenever one is needed: \<open>run_async\<close> never panics on it.\<close>

lemma bind_addr_present:
  "runtime_parse ft parse var = Ok cfg \<Longrightarrow> rc_mode cfg \<noteq> ModeCli \<Longrightarrow> rc_bind_addr cfg \<noteq> None"
proof -
  assume "runtime_parse ft parse var = Ok cfg" and "rc_mode cfg \<noteq> ModeCli"
  then obtain mode where "runtime_parse ft parse var = Ok cfg" "detect_run_mode ft var = Ok mode" "mode \<noteq> ModeCli"
    by (auto simp: runtime_parse_def and_then_eq_Ok)
  then show ?thesis by (cases mode) (auto simp: runtime_parse_def and_then_eq_Ok split: if_splits)
qed

lemma run_cli_mode:
  assumes "runtime_parse ft parse var = Ok cfg" and "rc_mode cfg = ModeCli" and "ft_cli ft"
  shows "run_async ft parse var serve cli w = run_cli_sync cli w" and "run_sync ft parse var cli w = run_cli_sync cli w"
  by (simp_all add: run_async_def run_sync_def assms sbind_def lift_result_def map_err_def)

lemma process_status_cli:
  assumes "runtime_parse ft parse var = Ok cfg" and "rc_mode cfg = ModeCli" and "ft_cli ft"
  shows "fst (process_status E ft parse var serve cli w) =
    (case fst (cli w) of Ok code \<Rightarrow> Ok (if code = 0 then 0 else 1) | Err code \<Rightarrow> Ok code | Panic \<Rightarrow> Panic)"
    and "cli w = (Err code, w') \<Longrightarrow> process_status E ft parse var serve cli w = (Ok code, w')"
  by (cases "cli w";
    auto simp: process_status_def run_cli_mode [OF assms] sbind_def or_else_def
      run_cli_sync_def map_err_def ret_def fail_def report_def eprint_def update_def split: result.split)+

text \<open>C23: how a process ends that is started for a command. Arguments that clap refuses (or a request for
  help) end it with the exit code of clap, with nothing but clap's text printed. The commands have the exit code
  2 for parsed arguments they cannot do without (git-commit and pull without a git repository, clean without
  anything to clean), and then they have touched nothing; but the process ends with the status 1 then. With all
  other arguments it ends with 0 when the request succeeded and was printed, with 1 when the request was
  refused, and in a panic when the command panics.\<close>

theorem process_exit_status:
  assumes "runtime_parse ft parse var = Ok cfg" and "rc_mode cfg = ModeCli" and "ft_cli ft"
    and "run = process_status E ft parse var serve (cli_run clap H PL args) w"
  shows "case clap args of
      Inl (code, out, err) \<Rightarrow> run = (Ok code, printed out err w)
    | Inr c \<Rightarrow> if usage_error c
        then (\<exists>t. run_with_cli H PL c w = (Ok 2, w\<lparr>w_err := w_err w @ t\<rparr>)) \<and> fst run = Ok 1
        else fst run = (case fst (run_command H PL c (cli_command c) w) of Ok _ \<Rightarrow> Ok 0 | Err _ \<Rightarrow> Ok 1 | Panic \<Rightarrow> Panic)"
proof (cases "clap args")
  case (Inl stopped)
  obtain code out err where stopped: "stopped = (code, out, err)" by (cases stopped)
  have "cli_run clap H PL args w = (Err code, printed out err w)"
    by (simp add: cli_run_def Inl stopped sbind_def update_def fail_def)
  from process_status_cli(2) [where cli = "cli_run clap H PL args" and w = w, OF assms(1-3) this] show ?thesis by (simp add: assms(4) Inl stopped)
next
  case (Inr c)
  then have run: "fst (cli_run clap H PL args w) = result_map_err (\<lambda>_. EXIT_GENERAL_ERROR) (fst (run_with_cli H PL c w))"
    by (cases "run_with_cli H PL c w") (simp add: cli_run_def map_err_def)
  show ?thesis
    using run_with_cli_ends [of c H PL w]
    by (cases "run_command H PL c (cli_command c) w")
      (auto simp: assms(4) Inr process_status_cli(1) [OF assms(1-3)] run split: if_splits result.splits)
qed

definition clean_arguments :: cli where
  "clean_arguments = \<lparr>cli_db_path = ''p'', cli_git_repo = None, cli_json = False, cli_command = CleanCmd None None False\<rparr>"

text \<open>A parser that knows one command.\<close>

definition sample_clap :: clap where
  "sample_clap args = (if args = [''clean''] then Inr clean_arguments else Inl (2, [], ''usage''))"

theorem process_exit_status_witness:
  "fst (process_status sample_env \<lparr>ft_cli = True, ft_http = True, ft_grpc = False\<rparr> Inr (\<lambda>x. None) (\<lambda>m cc a. ret ())
     (cli_run sample_clap sample_host_lib sample_printer [''clean'']) torn_world) = Ok 1
   \<and> process_status sample_env \<lparr>ft_cli = True, ft_http = True, ft_grpc = False\<rparr> Inr (\<lambda>x. None) (\<lambda>m cc a. ret ())
     (cli_run sample_clap sample_host_lib sample_printer [''commit'']) torn_world = (Ok 2, printed [] ''usage'' torn_world)"
proof -
  let ?ft = "\<lparr>ft_cli = True, ft_http = True, ft_grpc = False\<rparr>"
  let ?cfg = "\<lparr>rc_common = parse_common_config (\<lambda>x. None), rc_mode = ModeCli, rc_bind_addr = (None :: string option)\<rparr>"
  have 1: "runtime_parse ?ft Inr (\<lambda>x. None) = Ok ?cfg"
    by (simp add: runtime_parse_def detect_run_mode_def default_mode_def)
  note ends = process_exit_status [OF 1 _ _ refl, where E = sample_env and serve = "\<lambda>m cc a. ret ()" and clap = sample_clap
      and H = sample_host_lib and PL = sample_printer and w = torn_world]
  have "usage_error clean_arguments" by (simp add: usage_error_def clean_arguments_def)
  with ends [of "[''clean'']"] ends [of "[''commit'']"] show ?thesis by (simp add: sample_clap_def)
qed

end
