(* ===== verification/Spec2Isabelle.thy ===== *)
theory Spec2Isabelle
  imports Layer_Isolation Checkpoint_Recovery Checkpoint_Gc Backup_Merge Git_Import Service_Theorems Runtime
begin

text \<open>
  \<^bold>\<open>Layertwine.\<close> A store of versions of text files for several agents and a human. Edits are made in
  partitions of their own (manual, one per agent), agents submit them to an approval partition, approved
  changes are merged into integrated partitions (features), those and the manual edits into the staged
  partition, and what is staged is committed as a checkpoint of a branch. A partition is a pointer to a
  snapshot with a history; a snapshot is a base file and a chain of deltas. Checkpoints form a graph with
  a time index, can be restored, compared, collected, backed up and exchanged with git. A service
  answers requests over all of it. The theories follow the sources under \<^verbatim>\<open>src/src\<close>.

  \<^bold>\<open>How programs are modelled.\<close> A fallible function returns \<open>('a, 'e) result\<close> with the constructors \<open>Ok\<close>,
  \<open>Err\<close> and \<open>Panic\<close> (an index out of range, \<open>unwrap\<close>, a failed assertion). A function with effects is a
  program \<open>('s, 'a, 'e) prog\<close> = \<open>'s \<Rightarrow> ('a, 'e) result \<times> 's\<close>: a failed program keeps the effects made so far, as the code
  does. \<open>LT_Prelude\<close> has the combinators (\<open>sbind\<close>, \<open>match_err\<close>, \<open>for_each\<close>), the relation \<open>stays R m\<close> between the
  states before and after, whatever \<open>m\<close> returns, with the locale \<open>state_preorder\<close> that makes it
  compositional, and the lemmas on strings and lists. Integers of the diff operations are 32-bit words, UUIDs
  128-bit words; lengths and generations are natural numbers, times are integers. Strings are lists of
  bytes. Code outside the repository (blake3, serde_json, zstd, similar, uuid, the clock, git2) is a field of a
  record that the definitions take: \<open>env\<close> (\<open>External\<close>), \<open>diff_lib\<close>, \<open>backup_codec\<close>, \<open>git_lib\<close>, \<open>api_lib\<close>, \<open>toml_lib\<close>, \<open>float_lib\<close>,
  \<open>pragma_lib\<close> (the pragmas of SQLite), \<open>host_lib\<close> (all of these for a process), \<open>print_lib\<close>. What a theorem
  needs of it is a hypothesis, such as \<open>diff_contract\<close> (the groups of the differ cover both texts in order) or
  \<open>codec_ok\<close>; each such theorem has a witness at concrete functions.
  \<open>env\<close> gives the times by the place that reads the clock (\<open>clock_read\<close>), so two reads in one operation may differ,
  and one random identifier, of which no operation needs two. Over several operations the environment of each is
  \<open>at_moment E now u\<close>: the same libraries at another time.

  \<^bold>\<open>The data.\<close>
  \<^item> \<open>Core_Types\<close>, \<open>Core_Model\<close>, \<open>Core_Snapshot\<close> (\<^verbatim>\<open>core/\<close>): identifiers and names, deltas, file nodes, layers, partitions,
    snapshots and their identity; \<open>Errors\<close> (\<^verbatim>\<open>error.rs\<close>); \<open>Utf8\<close>: the decoders of the standard library. The names
    of partitions and layers determine them (\<open>partition_and_layer_names\<close>).
  \<^item> \<open>Engine_Diff\<close> (\<^verbatim>\<open>engine/diff.rs\<close>), \<open>Engine_Apply\<close> and \<open>Engine_Merge\<close> (\<^verbatim>\<open>engine/merge.rs\<close>): from the operations of the differ to
    hunks, the application of deltas, the three-way merge. Reference definitions: the patch by a list of
    changes. Application is that patch, a difference applied to the old text gives the new one, the merge of
    disjoint changes is the patch by both, and the merge never panics.

  \<^bold>\<open>The storage.\<close>
  \<^item> \<open>Store_Interface\<close> (\<^verbatim>\<open>storage/repository.rs\<close>): the contracts as locales: \<open>keyed_store\<close> with its extensions
    \<open>content_store\<close> (what is stored is never changed) and \<open>overwrite_store\<close>, \<open>pointer_store\<close> for partitions. \<open>Store_Tables\<close> (\<^verbatim>\<open>migrations.rs\<close>) has the tables as lists of rows,
    \<open>Store_Objects\<close> the statements on them, \<open>Store_Partitions\<close> the partitions with their invariant \<open>partitions_ok\<close> and the
    refinement of the partitions in memory, \<open>Store_Atomic\<close> (\<^verbatim>\<open>connection.rs\<close>) savepoints. The locales are
    interpreted there on these definitions, and the properties use their facts.

  \<^bold>\<open>The layers.\<close> \<open>Layer_Base\<close>, \<open>Layer_Edit\<close>, \<open>Layer_Flow\<close> (\<^verbatim>\<open>layered/\<close>, \<^verbatim>\<open>layered.rs\<close>): edits, submissions, approvals, merges, commits,
  rollbacks, the flows that are allowed. \<open>Layer_Theorems\<close>: what an edit and a merge mean for the rebuilt text; the
  loss of a repeated edit. \<open>Layer_Isolation\<close>: the operations as a datatype, and that each changes only the
  partitions it is for.

  \<^bold>\<open>The checkpoints.\<close>
  \<^item> \<open>Graph_Search\<close>, \<open>Checkpoint_Dag\<close> (\<^verbatim>\<open>checkpoint/dag.rs\<close>), \<open>Checkpoint_Time_Index\<close>, \<open>Checkpoint_Types\<close>: the breadth-first searches,
    which end because the unvisited nodes decrease, the graph with its generations, the time index.
  \<^item> \<open>Checkpoint_Repo\<close> (\<^verbatim>\<open>checkpoint/repo.rs\<close>): the repository in memory that writes through to an attached database.
    \<open>Checkpoint_History\<close>: its invariant \<open>repo_ok\<close> and the effect of a commit. \<open>Checkpoint_Storage\<close>: what is read back when
    it is opened again (\<open>persisted\<close>).
  \<^item> \<open>Checkpoint_Restore\<close>, \<open>Checkpoint_Recovery\<close> (\<^verbatim>\<open>transaction.rs\<close>, \<^verbatim>\<open>restore.rs\<close>): transactions, restores, comparisons.
  \<^item> \<open>Checkpoint_Gc\<close> (\<^verbatim>\<open>git_sync/gc.rs\<close>): mark and sweep, and the depth of the parent chains. The recursion for the
    depth takes fuel, one more than there are checkpoints: enough, because on a consistent repository a chain of
    parents never repeats a checkpoint (\<open>checkpoint_depth_longest_path\<close>); running out is a panic.

  \<^bold>\<open>Backups and git.\<close> \<open>Backup_Store\<close>, \<open>Backup_Merge\<close> (\<^verbatim>\<open>backup/\<close>): the second database and the merge of a backup into
  staged. \<open>Git_Bridge\<close>, \<open>Git_Import\<close> (\<^verbatim>\<open>git_sync/git_bridge.rs\<close>): import, export and comparison over an abstract
  git state.

  \<^bold>\<open>The service.\<close> \<open>Api_Types\<close> (\<^verbatim>\<open>api/types.rs\<close>): requests, answers, the mapping of errors. \<open>Service_Base\<close>, \<open>Service_Layers\<close>,
  \<open>Service_Checkpoints\<close>, \<open>Service_Git\<close> (\<^verbatim>\<open>api/service.rs\<close>): the state \<open>service\<close> (database, kept repository, backups,
  poisoned lock, cache) and one program per handler. A handler reaches a part by \<open>on_core\<close> (the database),
  \<open>on_kept\<close> (the repository kept under the lock, with the database attached), \<open>on_loaded\<close> (a repository loaded for
  this request and dropped), \<open>on_backups\<close>; \<open>write_locked\<close> and \<open>read_locked\<close> are the lock. \<open>Service_Invariant\<close>: the step relation
  \<open>service_step\<close> of all handlers; \<open>reachable\<close>, from a new or a sound stored database (\<open>stored_sound\<close>) over requests at
  different times and restarts; and the invariant by rule induction. Its rules \<open>keeps\<close> and \<open>safe\<close> follow the
  structure of a program. \<open>Service_Theorems\<close>: what requests do together.

  \<^bold>\<open>The configuration.\<close> \<open>Config\<close> (\<^verbatim>\<open>config.rs\<close>, the maintenance of \<^verbatim>\<open>connection.rs\<close>, \<open>compact\<close>): the merge of TOML
  tables, the order of the files, the reading of the settings, and the compaction under a threshold.
  \<open>config_priority\<close>: each setting is the one of the last file that makes it.

  \<^bold>\<open>The transports.\<close> \<open>Transport_Base\<close> has the process around the service (\<open>host\<close>) and \<open>steps\<close>, the runs of requests a
  program may make, with the rules that follow the structure of a program; \<open>errors_in\<close> bounds the errors it may
  end with. \<open>Transport_Rpc\<close> (\<^verbatim>\<open>api/rpc.rs\<close>) has the 29 methods of the gRPC service, \<open>Transport_Http\<close> (\<^verbatim>\<open>api/http.rs\<close>) the handlers of
  the routes and the table of routes; both turn a request into the one of the service, run its handler and
  translate the answer. \<open>Transport_Theorems\<close>: every request to either server is a run of \<open>service_step\<close>, so what a
  client reaches is \<open>reachable\<close> (\<open>servers_refine_service\<close>), and the codes of the answers (\<open>answer_codes\<close>).

  \<^bold>\<open>The command line.\<close> \<open>Cli_Output\<close> (\<^verbatim>\<open>cli/output.rs\<close>) formats the answers, \<open>Transport_Cli\<close> (\<^verbatim>\<open>cli.rs\<close>, \<^verbatim>\<open>cli/commands.rs\<close>) has one program per
  command and \<open>run_with_cli\<close>, \<open>Runtime\<close> (\<^verbatim>\<open>runtime.rs\<close>, \<^verbatim>\<open>main.rs\<close>) the dispatch of the program's own subcommands and the status the
  process ends with. \<open>Cli_Theorems\<close>: when the command log panics; \<open>process_exit_status\<close>: the status for every way a
  command may end, clap's own exits included (clap is a parameter).

  \<^bold>\<open>What is not as the code means it.\<close> Several theorems state faults that the model makes visible: a repeated
  edit is lost, a merge is lost by the next commit, a switch of branch can panic, the clean-up deletes every
  snapshot, anchors and sources are never stored, a restore from a storage writes no file, a merge of a
  backup can repeat an edit, the collection of garbage removes nothing in use and nothing else either, a
  failed atomic block leaves its savepoint open, a message with a long character makes the command log panic,
  the exit code of a command for usage errors never leaves the process, no answer has the code for a conflict, and a
  database that is left without a branch makes the service panic.

  \<^bold>\<open>Not modelled.\<close>
  \<^item> The sockets, the routing and the encoding of messages of axum and tonic, and the parsing of arguments by
    clap: the model starts at a decoded request or a parsed command. The message types of \<^verbatim>\<open>rpc.rs\<close> are
    generated by the build; the records of \<open>Transport_Rpc\<close> have the fields of the \<^verbatim>\<open>.proto\<close> file.
  \<^item> Two reads of the clock at the same place within one operation (two snapshots of one import) give one time.
  \<^item> Opening files; threads: requests are steps that do not overlap, which the locks of the service and of
    the connection give for the parts they protect.
  \<^item> Log output (\<^verbatim>\<open>tracing\<close>), and the indexes and pragmas that change no result.
  \<^item> Overflow of generations and counters, which need more than \<open>2 ^ 64\<close> checkpoints.
\<close>

end
